(* ===== verification/Prelude.thy ===== *)
theory Prelude
  imports Main "HOL-Library.Word" "HOL-Library.Signed_Division"
begin

section \<open>Shared vocabulary of the development\<close>

text \<open>
  What every component uses: byte strings, Go errors and Go machine integers.

  A Go string and a Go byte slice are both a \<open>string\<close> here, a list of 8-bit \<open>char\<close>s, so
  \<open>length\<close> is Go's \<open>len\<close> and the conversions between the two types are the identity.

  A Go \<open>error\<close> is the list of the sentinel errors it wraps (the errors for which
  \<open>errors.Is\<close> answers true), so \<open>nil\<close> is \<open>[]\<close>, \<open>errors.Join\<close> is list append and
  \<open>errors.Is err target\<close> is membership.

  A Go \<open>int\<close>, \<open>int64\<close> or \<open>time.Duration\<close> is an \<open>int\<close>; where an operation of the code
  could leave the 64-bit range its result passes through \<open>i64\<close>, which wraps it. A
  \<open>uint64\<close> is a \<open>64 word\<close>.
\<close>

named_theorems record_defs \<open>definitions that only build or update a record\<close>
named_theorems decide_defs \<open>definitions of the pure decision functions\<close>

subsection \<open>Byte strings\<close>

type_synonym bytes = string

lemma take_take_append: "take n (take n xs @ ys) = take n (xs @ ys)"
  by (cases "n \<le> length xs") simp_all

subsection \<open>Errors\<close>

datatype err =
    ErrActiveJob | ErrCorruptState | ErrInvalidJobID | ErrInvalidRuntime
  | ErrInvalidCursor | ErrInvalidRange | ErrInvalidStateUpdate | ErrJobExists
  | ErrJobNotFound | ErrRunnerActive | ErrExecution | ErrInternalProtocol
  | ErrInvalidStart | ErrStartupFailed | ErrStartupTimeout | ErrCommitDurabilityUnknown
  | ErrStateLockTimeout | ErrUnsafeFilesystem | ErrUnauthorized | ErrUnsupported
  | ErrStateSchema | ErrPolicySchema | ErrPolicyValidation
  | ErrInvalidManifest | ErrInvalidArchive
  | ErrForeignPath | ErrUnsafePath | ErrInvalidArguments
  | ErrMissingHostContext | ResponseInvariantError | ResponseWriteError
  | OsPathError | OsLinkError | OsSyscallError | OsErrInvalid
  | CommitDurabilityError string
  | ContextCanceled | ContextDeadlineExceeded
  | IoEOF | IoUnexpectedEOF | IoErrShortWrite | IoErrClosedPipe
  | FsErrNotExist | FsErrPermission | FsErrClosed
  | Errno nat
  | ErrText string

type_synonym error = "err list"

abbreviation noerr :: error where "noerr \<equiv> []"

definition errors_Is :: "error \<Rightarrow> err \<Rightarrow> bool" where
  "errors_Is e target \<longleftrightarrow> target \<in> set e"

definition errors_Join :: "error list \<Rightarrow> error" where
  "errors_Join es = concat es"

text \<open>\<open>fmt.Errorf\<close> never returns nil; with \<open>%w\<close> the result also wraps its operand.\<close>

definition fmt_Errorf :: "string \<Rightarrow> error \<Rightarrow> error" where
  "fmt_Errorf text wrapped = ErrText text # wrapped"

lemma errors_Is_Nil [simp]: "\<not> errors_Is [] t"
  by (simp add: errors_Is_def)

lemma errors_Is_Cons [simp]: "errors_Is (x # xs) t \<longleftrightarrow> t = x \<or> errors_Is xs t"
  by (simp add: errors_Is_def)

lemma errors_Is_append [simp]: "errors_Is (xs @ ys) t \<longleftrightarrow> errors_Is xs t \<or> errors_Is ys t"
  by (simp add: errors_Is_def)

lemma errors_Join_simps [simp]:
  "errors_Join [] = []"
  "errors_Join (e # es) = e @ errors_Join es"
  by (simp_all add: errors_Join_def)

lemma fmt_Errorf_not_nil [simp]: "fmt_Errorf t e \<noteq> []"
  by (simp add: fmt_Errorf_def)

lemma errors_Is_Errorf [simp]: "errors_Is (fmt_Errorf t e) x \<longleftrightarrow> x = ErrText t \<or> errors_Is e x"
  by (simp add: fmt_Errorf_def)

subsection \<open>Machine integers\<close>

type_synonym u64 = "64 word"

definition i64 :: "int \<Rightarrow> int" where
  "i64 x = signed_take_bit 63 x"

definition u64_of :: "int \<Rightarrow> u64" where
  "u64_of x = word_of_int x"

definition int64_of_u64 :: "u64 \<Rightarrow> int" where
  "int64_of_u64 w = sint w"

definition i64_range :: "int \<Rightarrow> bool" where
  "i64_range x \<longleftrightarrow> - (2 ^ 63) \<le> x \<and> x < 2 ^ 63"

lemma i64_id [simp]: "i64_range x \<Longrightarrow> i64 x = x"
  unfolding i64_def i64_range_def
  by (rule signed_take_bit_int_eq_self) simp_all

lemma i64_rangeI: "- 9223372036854775808 \<le> x \<Longrightarrow> x < 9223372036854775808 \<Longrightarrow> i64_range x"
  by (simp add: i64_range_def)

lemma i64_range_i64 [simp]: "i64_range (i64 x)"
  using signed_take_bit_int_less_exp [of 63 x] signed_take_bit_int_greater_eq_minus_exp [of 63 x]
  by (simp add: i64_def i64_range_def)

lemma uint_u64_of: "uint (u64_of x) = x mod 2 ^ 64"
  by (simp add: u64_of_def uint_word_of_int)

lemma uint_u64_of_id: "0 \<le> x \<Longrightarrow> x < 2 ^ 64 \<Longrightarrow> uint (u64_of x) = x"
  by (simp add: uint_u64_of)

lemma unat_u64_of: "0 \<le> x \<Longrightarrow> x < 2 ^ 64 \<Longrightarrow> unat (u64_of x) = nat x"
  by (simp add: unat_eq_nat_uint uint_u64_of_id)

lemma unat_u64_less: "unat (w :: u64) < 2 ^ 64"
  using unsigned_less [of w] by simp

lemma int64_of_u64_small:
  assumes "uint w < 2 ^ 63"
  shows "int64_of_u64 w = uint w"
proof -
  have "signed_take_bit 63 (uint w) = uint w"
    by (rule signed_take_bit_int_eq_self) (use assms uint_ge_0 [of w] in linarith)+
  then show ?thesis
    by (simp add: int64_of_u64_def sint_uint)
qed

text \<open>Go integer division truncates towards zero.\<close>

definition go_div :: "int \<Rightarrow> int \<Rightarrow> int" where
  "go_div a b = a sdiv b"

lemma go_div_nonneg: "0 \<le> a \<Longrightarrow> 0 < b \<Longrightarrow> go_div a b = a div b"
  by (cases "a = 0") (simp_all add: go_div_def signed_divide_int_def sgn_if)

end
