(* ===== verification/Models.thy ===== *)
theory Models
  imports Prelude
begin

section \<open>The generated protocol and state models\<close>

text \<open>
  The data of \<open>internal/protocol/generated/models.gen.go\<close> that the Go code computes with.
  A struct is a record whose fields carry the Go field name after a short prefix, a pointer
  field is an option, and a string type with declared constants is a datatype with one
  constructor per constant. \<open>JobStatus\<close> and \<open>TerminalStatus\<close> are compared with values
  read from disk, so they also have a constructor for every other string.
\<close>

subsection \<open>Scalar types\<close>

type_synonym ByteCursor = int
type_synonym TimestampUnixMs = int
type_synonym TimeoutMs = int
type_synonym SchemaVersion = int
type_synonym ExitClass = int
type_synonym JobID = string
type_synonym SessionID = string

datatype Action =
    ActionCancel | ActionList | ActionOutput | ActionRemove | ActionRun
  | ActionStart | ActionStatus | ActionVersion | ActionWait

datatype CancellationOutcome =
    CancellationOutcomeAlreadyRequested | CancellationOutcomeAlreadyTerminal
  | CancellationOutcomeRequested

datatype ErrorCode =
    ErrorCodeActiveJob | ErrorCodeConflict | ErrorCodeCorruptState
  | ErrorCodeIncompatibleVersion | ErrorCodeInternal | ErrorCodeInvalidCursor
  | ErrorCodeInvalidRange | ErrorCodeInvalidRequest | ErrorCodeIoFailure
  | ErrorCodeJobNotFound | ErrorCodeMalformedJson | ErrorCodeRunnerUnavailable
  | ErrorCodeUnauthorized

datatype JobStatus =
    JobStatusCancelled | JobStatusHardTimeout | JobStatusNonzeroExit
  | JobStatusOutputLimit | JobStatusRunnerLost | JobStatusRunning
  | JobStatusSignalExit | JobStatusSucceeded
  | JobStatusOther string

datatype TerminalStatus =
    TerminalStatusCancelled | TerminalStatusHardTimeout | TerminalStatusNonzeroExit
  | TerminalStatusOutputLimit | TerminalStatusRunnerLost | TerminalStatusSignalExit
  | TerminalStatusSucceeded
  | TerminalStatusOther string

datatype ObservationReason =
    ObservationReasonObservationTimeout | ObservationReasonOutputIdle
  | ObservationReasonTerminal

text \<open>The conversion \<open>generated.JobStatus(status)\<close> of a terminal status keeps its string.\<close>

fun JobStatus_of_TerminalStatus :: "TerminalStatus \<Rightarrow> JobStatus" where
  "JobStatus_of_TerminalStatus TerminalStatusCancelled = JobStatusCancelled"
| "JobStatus_of_TerminalStatus TerminalStatusHardTimeout = JobStatusHardTimeout"
| "JobStatus_of_TerminalStatus TerminalStatusNonzeroExit = JobStatusNonzeroExit"
| "JobStatus_of_TerminalStatus TerminalStatusOutputLimit = JobStatusOutputLimit"
| "JobStatus_of_TerminalStatus TerminalStatusRunnerLost = JobStatusRunnerLost"
| "JobStatus_of_TerminalStatus TerminalStatusSignalExit = JobStatusSignalExit"
| "JobStatus_of_TerminalStatus TerminalStatusSucceeded = JobStatusSucceeded"
| "JobStatus_of_TerminalStatus (TerminalStatusOther s) =
     (if s = ''running'' then JobStatusRunning else JobStatusOther s)"

subsection \<open>Structs of the persisted state\<close>

record JobMetadata =
  jm_CapturedBytes :: ByteCursor
  jm_Command :: string
  jm_CreatedAtUnixMs :: TimestampUnixMs
  jm_Cwd :: string
  jm_FinishedAtUnixMs :: "TimestampUnixMs option"
  jm_HardTimeoutMs :: TimeoutMs
  jm_JobID :: JobID
  jm_OutputLimitBytes :: int
  jm_OwnerSessionID :: SessionID
  jm_StartedAtUnixMs :: TimestampUnixMs
  jm_Status :: JobStatus
  jm_WorkspacePath :: string

record SessionMetadata =
  sm_CreatedAtUnixMs :: TimestampUnixMs
  sm_SchemaVersion :: SchemaVersion
  sm_SessionID :: SessionID
  sm_WorkspacePath :: string

record ProcessResult =
  pr_CapturedBytes :: ByteCursor
  pr_Diagnostic :: "string option"
  pr_ExitCode :: "int option"
  pr_FinishedAtUnixMs :: TimestampUnixMs
  pr_Signal :: "int option"
  pr_Status :: TerminalStatus

record CancellationMetadata =
  cm_Requested :: bool
  cm_RequestedAtUnixMs :: TimestampUnixMs
  cm_RequestedBySessionID :: SessionID

record ObserverCursor =
  oc_CursorBytes :: ByteCursor
  oc_SessionID :: SessionID
  oc_UpdatedAtUnixMs :: TimestampUnixMs

record PersistedJobState =
  ps_Cancellation :: "CancellationMetadata option"
  ps_Job :: JobMetadata
  ps_Observers :: "ObserverCursor list"
  ps_Result :: "ProcessResult option"
  ps_SchemaVersion :: SchemaVersion
  ps_Session :: SessionMetadata

subsection \<open>Structs of requests and results\<close>

record TrustedContext =
  tc_Cwd :: string
  tc_SessionID :: SessionID
  tc_WorkspacePath :: string

record OutputChunk =
  ck_CapturedBytes :: ByteCursor
  ck_Eof :: bool
  ck_NextCursorBytes :: ByteCursor
  ck_StartCursorBytes :: ByteCursor
  ck_Text :: string

record OutputPayload =
  op_EndCursorBytes :: "ByteCursor option"
  op_JobID :: JobID
  op_StartCursorBytes :: "ByteCursor option"

record JobObservation =
  jo_Job :: JobMetadata
  jo_ProcessResult :: "ProcessResult option"

record OutputObservation =
  oo_Observation :: JobObservation
  oo_Output :: OutputChunk

record ObservationResult =
  or_Observation :: JobObservation
  or_Output :: OutputChunk
  or_Reason :: ObservationReason

record CancellationResult =
  cr_Cancellation :: "CancellationMetadata option"
  cr_JobID :: JobID
  cr_Outcome :: CancellationOutcome
  cr_Status :: JobStatus

record ListResult =
  lr_Jobs :: "JobMetadata list"

record RemoveResult =
  rr_JobID :: JobID
  rr_Removed :: bool

record StartPayload =
  sp_Command :: string
  sp_HardTimeoutMs :: "TimeoutMs option"
  sp_OutputLimitBytes :: "int option"

record RunPayload =
  rp_Command :: string
  rp_HardTimeoutMs :: "TimeoutMs option"
  rp_IdleTimeoutMs :: "TimeoutMs option"
  rp_OutputLimitBytes :: "int option"
  rp_TimeoutMs :: "TimeoutMs option"

record WaitPayload =
  wp_CursorBytes :: "ByteCursor option"
  wp_IdleTimeoutMs :: "TimeoutMs option"
  wp_JobID :: JobID
  wp_TimeoutMs :: "TimeoutMs option"

record JobReference =
  jr_JobID :: JobID

record ErrorDetails =
  ed_Actual :: "string option"
  ed_Expected :: "string option"
  ed_Field :: "string option"
  ed_Reason :: "string option"

record ProtocolError =
  pe_Code :: ErrorCode
  pe_Details :: "ErrorDetails option"
  pe_Message :: string

record ErrorResponse =
  er_Action :: "Action option"
  er_Error :: ProtocolError
  er_Job :: "JobMetadata option"
  er_Ok :: bool
  er_SchemaVersion :: int

record VersionData =
  vd_Architecture :: string
  vd_BinaryVersion :: string
  vd_Os :: string
  vd_Product :: string
  vd_ProtocolVersion :: SchemaVersion

subsection \<open>Request and response documents\<close>

text \<open>
  The documents of the command line. The runner package has requests of its own under the same
  names, so those that clash carry the suffix \<open>_json\<close> here.
\<close>

record StartRequest_json =
  startq_Action :: string
  startq_Context :: TrustedContext
  startq_Payload :: StartPayload
  startq_SchemaVersion :: int

record RunRequest =
  runq_Action :: string
  runq_Context :: TrustedContext
  runq_Payload :: RunPayload
  runq_SchemaVersion :: int

record WaitRequest_json =
  waitq_Action :: string
  waitq_Context :: TrustedContext
  waitq_Payload :: WaitPayload
  waitq_SchemaVersion :: int

record StatusRequest_json =
  statusq_Action :: string
  statusq_Context :: TrustedContext
  statusq_Payload :: JobReference
  statusq_SchemaVersion :: int

record OutputRequest_json =
  outputq_Action :: string
  outputq_Context :: TrustedContext
  outputq_Payload :: OutputPayload
  outputq_SchemaVersion :: int

record CancelRequest_json =
  cancelq_Action :: string
  cancelq_Context :: TrustedContext
  cancelq_Payload :: JobReference
  cancelq_SchemaVersion :: int

record RemoveRequest_json =
  removeq_Action :: string
  removeq_Context :: TrustedContext
  removeq_Payload :: JobReference
  removeq_SchemaVersion :: int

record ListRequest_json =
  listq_Action :: string
  listq_Context :: TrustedContext
  listq_SchemaVersion :: int

record VersionRequest =
  versionq_Action :: string
  versionq_SchemaVersion :: int

record StartResponse =
  startr_Action :: string
  startr_Ok :: bool
  startr_Result :: JobMetadata
  startr_SchemaVersion :: int

record RunResponse =
  runr_Action :: string
  runr_Ok :: bool
  runr_Result :: ObservationResult
  runr_SchemaVersion :: int

record WaitResponse =
  waitr_Action :: string
  waitr_Ok :: bool
  waitr_Result :: ObservationResult
  waitr_SchemaVersion :: int

record StatusResponse =
  statusr_Action :: string
  statusr_Ok :: bool
  statusr_Result :: JobObservation
  statusr_SchemaVersion :: int

record OutputResponse =
  outputr_Action :: string
  outputr_Ok :: bool
  outputr_Result :: OutputObservation
  outputr_SchemaVersion :: int

record CancelResponse =
  cancelr_Action :: string
  cancelr_Ok :: bool
  cancelr_Result :: CancellationResult
  cancelr_SchemaVersion :: int

record RemoveResponse =
  remover_Action :: string
  remover_Ok :: bool
  remover_Result :: RemoveResult
  remover_SchemaVersion :: int

record ListResponse =
  listr_Action :: string
  listr_Ok :: bool
  listr_Result :: ListResult
  listr_SchemaVersion :: int

record VersionResponse =
  versionr_Action :: string
  versionr_Ok :: bool
  versionr_Result :: VersionData
  versionr_SchemaVersion :: int

end
