(* ===== verification/Policy.thy ===== *)
theory Policy
  imports Models
begin

section \<open>The state policy and its decisions\<close>

text \<open>
  \<open>internal/state\<close>: the decision codes and rule structs of \<open>types.go\<close>, the typed policy
  document and \<open>newPolicy\<close> of \<open>policy_loader.go\<close>, and the decisions of
  \<open>lifecycle_policy.go\<close>, \<open>access_policy.go\<close> and \<open>exit_policy.go\<close>. The document the
  binary embeds, \<open>schemas/v1/policy.json\<close>, is \<open>policy_document_v1\<close>.
\<close>

subsection \<open>Types\<close>

datatype Code =
    CodeAllow | CodeTransitionNotAllowed | CodeInvalidStatus | CodeJobNotFound
  | CodeUnauthorized | CodeActiveJob | CodeCancellationRequested
  | CodeCancellationIdempotent | CodeCancellationTerminal | CodeInvalidCursor
  | CodeInvalidRange | CodePathInvalid | CodePathOutsideWorkspace | CodePathSymlink
  | CodePathUnavailable | CodeCorruptState

definition ExitClassSuccess :: ExitClass where "ExitClassSuccess = 0"
definition ExitClassValidation :: ExitClass where "ExitClassValidation = 2"
definition ExitClassAuthorization :: ExitClass where "ExitClassAuthorization = 3"
definition ExitClassConflict :: ExitClass where "ExitClassConflict = 4"
definition ExitClassInternal :: ExitClass where "ExitClassInternal = 5"

record Decision =
  d_Allowed :: bool
  d_Code :: Code

record AccessContext =
  ac_JobWorkspace :: string
  ac_RequestWorkspace :: string
  ac_OwnerSession :: SessionID
  ac_ActorSession :: SessionID

record CancellationContext =
  cc_Status :: JobStatus
  cc_AlreadyRequested :: bool

record CancellationDecision =
  cd_Decision :: Decision
  cd_PersistRequest :: bool

record CursorContext =
  cu_Cursor :: int
  cu_Captured :: int

record RangeContext =
  rg_Start :: int
  rg_End :: int
  rg_Captured :: int

record OutputContext =
  ox_Range :: RangeContext
  ox_Terminal :: bool

record WaitCursorContext =
  wc_Explicit :: "ByteCursor option"
  wc_Observer :: "ObserverCursor option"

record ObserverAdvanceContext =
  oa_Action :: Action
  oa_Current :: ObserverCursor
  oa_Output :: OutputChunk
  oa_UpdatedAtUnixMs :: TimestampUnixMs

record HostInvocation =
  hi_SessionID :: SessionID
  hi_WorkspacePath :: string
  hi_Cwd :: string

record TrustedInvocation =
  ti_sessionID :: SessionID
  ti_workspacePath :: string
  ti_cwd :: string

datatype ProtocolOutcomeKind = ProtocolOutcomeSuccess | ProtocolOutcomeError

text \<open>An outcome of kind success leaves its error code the zero value, here \<open>None\<close>.\<close>

record ProtocolOutcome =
  po_Kind :: ProtocolOutcomeKind
  po_ErrorCode :: "ErrorCode option"
  po_ExitClass :: ExitClass

type_synonym ByteCount = u64

record accessRules =
  sameWorkspaceRead :: Code
  crossWorkspaceRead :: Code
  ownerMutation :: Code
  nonOwnerMutation :: Code
  crossWorkspaceMutation :: Code

record removalRules =
  activeStatus :: JobStatus
  activeCode :: Code
  removal_terminalCode :: Code

record cancellationRules =
  initialCode :: Code
  repeatedCode :: Code
  cancellation_terminalCode :: Code

record cursorRules =
  invalidCursorCode :: Code
  invalidRangeCode :: Code

record pathRules =
  invalidCode :: Code
  outsideCode :: Code
  symlinkCode :: Code
  unavailableCode :: Code

record defaultsRules =
  waitTimeout :: TimeoutMs
  idleCheckpoint :: TimeoutMs
  hardTimeout :: TimeoutMs

record observerRules =
  defaultCursor :: ByteCursor

record lifecycleRules =
  ttlEnabled :: bool
  restartReattachment :: bool

record exitRules =
  exit_success :: ExitClass
  exit_byError :: "ErrorCode \<rightharpoonup> ExitClass"
  exit_byCode :: "Code \<rightharpoonup> ErrorCode option"

record Policy =
  p_captureLimit :: ByteCount
  p_exit :: exitRules
  p_statuses :: "JobStatus list"
  p_terminals :: "JobStatus set"
  p_transitions :: "(JobStatus \<times> JobStatus) set"
  p_access :: accessRules
  p_removal :: removalRules
  p_cancellation :: cancellationRules
  p_cursor :: cursorRules
  p_path :: pathRules
  p_defaults :: defaultsRules
  p_observer :: observerRules
  p_lifecycle :: lifecycleRules

subsection \<open>The policy document and \<open>newPolicy\<close>\<close>

record defaultsDocument =
  dd_WaitTimeoutMs :: TimeoutMs
  dd_IdleCheckpointMs :: TimeoutMs
  dd_HardTimeoutMs :: TimeoutMs
  dd_CaptureLimitBytes :: u64

record observerDocument =
  od_DefaultCursorBytes :: ByteCursor
  od_WaitOmittedCursor :: string
  od_WaitSuccess :: string
  od_OtherActions :: string

record codeMappingDocument =
  cm_Allow :: "ErrorCode option"
  cm_CancellationRequested :: "ErrorCode option"
  cm_CancellationIdempotent :: "ErrorCode option"
  cm_CancellationTerminal :: "ErrorCode option"
  cm_TransitionNotAllowed :: "ErrorCode option"
  cm_InvalidStatus :: "ErrorCode option"
  cm_CorruptState :: "ErrorCode option"
  cm_JobNotFound :: "ErrorCode option"
  cm_Unauthorized :: "ErrorCode option"
  cm_ActiveJob :: "ErrorCode option"
  cm_InvalidCursor :: "ErrorCode option"
  cm_InvalidRange :: "ErrorCode option"
  cm_PathInvalid :: "ErrorCode option"
  cm_PathOutsideWorkspace :: "ErrorCode option"
  cm_PathSymlink :: "ErrorCode option"
  cm_PathUnavailable :: "ErrorCode option"

record exitClassesDocument =
  ec_Success :: ExitClass
  ec_Validation :: ExitClass
  ec_Authorization :: ExitClass
  ec_Conflict :: ExitClass
  ec_Internal :: ExitClass

record errorClassesDocument =
  ee_MalformedJSON :: ExitClass
  ee_InvalidRequest :: ExitClass
  ee_IncompatibleVersion :: ExitClass
  ee_InvalidRange :: ExitClass
  ee_InvalidCursor :: ExitClass
  ee_JobNotFound :: ExitClass
  ee_Unauthorized :: ExitClass
  ee_ActiveJob :: ExitClass
  ee_Conflict :: ExitClass
  ee_CorruptState :: ExitClass
  ee_RunnerUnavailable :: ExitClass
  ee_IOFailure :: ExitClass
  ee_Internal :: ExitClass

record transitionDocument =
  td_From :: JobStatus
  td_To :: JobStatus

record accessDocument =
  ad_SameWorkspaceRead :: Code
  ad_CrossWorkspaceRead :: Code
  ad_OwnerMutation :: Code
  ad_NonOwnerMutation :: Code
  ad_CrossWorkspaceMutation :: Code

record removalDocument =
  rd_ActiveStatus :: JobStatus
  rd_ActiveCode :: Code
  rd_TerminalCode :: Code

record cancellationDocument =
  cn_InitialCode :: Code
  cn_RepeatedCode :: Code
  cn_TerminalCode :: Code

record cursorDocument =
  ud_InvalidCursorCode :: Code
  ud_InvalidRangeCode :: Code

record pathDocument =
  pd_InvalidCode :: Code
  pd_OutsideCode :: Code
  pd_SymlinkCode :: Code
  pd_UnavailableCode :: Code

record lifecycleDocument =
  ld_TTLEnabled :: bool
  ld_RestartReattachment :: bool

record policyDocument =
  doc_SchemaVersion :: int
  doc_CaptureLimitBytes :: u64
  doc_Defaults :: defaultsDocument
  doc_Observer :: observerDocument
  doc_ExitClasses :: exitClassesDocument
  doc_ErrorExitClasses :: errorClassesDocument
  doc_CodeErrorMapping :: codeMappingDocument
  doc_Statuses :: "JobStatus list"
  doc_TerminalStatuses :: "JobStatus list"
  doc_Transitions :: "transitionDocument list"
  doc_Access :: accessDocument
  doc_Removal :: removalDocument
  doc_Cancellation :: cancellationDocument
  doc_Cursor :: cursorDocument
  doc_Path :: pathDocument
  doc_Lifecycle :: lifecycleDocument

text \<open>The two loops of \<open>newPolicy\<close> that fill the sets of terminals and transitions.\<close>

fun terminals_of :: "JobStatus list \<Rightarrow> JobStatus set \<Rightarrow> JobStatus set" where
  "terminals_of [] terminals = terminals"
| "terminals_of (status # rest) terminals = terminals_of rest (insert status terminals)"

fun transitions_of ::
  "transitionDocument list \<Rightarrow> (JobStatus \<times> JobStatus) set \<Rightarrow> (JobStatus \<times> JobStatus) set" where
  "transitions_of [] transitions = transitions"
| "transitions_of (item # rest) transitions =
     transitions_of rest (insert (td_From item, td_To item) transitions)"

definition exitRules_of :: "policyDocument \<Rightarrow> exitRules" where
  "exitRules_of document =
    (let errors = doc_ErrorExitClasses document; codes = doc_CodeErrorMapping document in
     \<lparr> exit_success = ec_Success (doc_ExitClasses document),
       exit_byError =
         [ErrorCodeMalformedJson \<mapsto> ee_MalformedJSON errors,
          ErrorCodeInvalidRequest \<mapsto> ee_InvalidRequest errors,
          ErrorCodeIncompatibleVersion \<mapsto> ee_IncompatibleVersion errors,
          ErrorCodeInvalidRange \<mapsto> ee_InvalidRange errors,
          ErrorCodeInvalidCursor \<mapsto> ee_InvalidCursor errors,
          ErrorCodeJobNotFound \<mapsto> ee_JobNotFound errors,
          ErrorCodeUnauthorized \<mapsto> ee_Unauthorized errors,
          ErrorCodeActiveJob \<mapsto> ee_ActiveJob errors,
          ErrorCodeConflict \<mapsto> ee_Conflict errors,
          ErrorCodeCorruptState \<mapsto> ee_CorruptState errors,
          ErrorCodeRunnerUnavailable \<mapsto> ee_RunnerUnavailable errors,
          ErrorCodeIoFailure \<mapsto> ee_IOFailure errors,
          ErrorCodeInternal \<mapsto> ee_Internal errors],
       exit_byCode =
         [CodeAllow \<mapsto> cm_Allow codes,
          CodeCancellationRequested \<mapsto> cm_CancellationRequested codes,
          CodeCancellationIdempotent \<mapsto> cm_CancellationIdempotent codes,
          CodeCancellationTerminal \<mapsto> cm_CancellationTerminal codes,
          CodeTransitionNotAllowed \<mapsto> cm_TransitionNotAllowed codes,
          CodeInvalidStatus \<mapsto> cm_InvalidStatus codes,
          CodeCorruptState \<mapsto> cm_CorruptState codes,
          CodeJobNotFound \<mapsto> cm_JobNotFound codes,
          CodeUnauthorized \<mapsto> cm_Unauthorized codes,
          CodeActiveJob \<mapsto> cm_ActiveJob codes,
          CodeInvalidCursor \<mapsto> cm_InvalidCursor codes,
          CodeInvalidRange \<mapsto> cm_InvalidRange codes,
          CodePathInvalid \<mapsto> cm_PathInvalid codes,
          CodePathOutsideWorkspace \<mapsto> cm_PathOutsideWorkspace codes,
          CodePathSymlink \<mapsto> cm_PathSymlink codes,
          CodePathUnavailable \<mapsto> cm_PathUnavailable codes] \<rparr>)"

definition newPolicy :: "policyDocument \<Rightarrow> Policy" where
  "newPolicy document =
    \<lparr> p_captureLimit = doc_CaptureLimitBytes document,
      p_exit = exitRules_of document,
      p_statuses = doc_Statuses document,
      p_terminals = terminals_of (doc_TerminalStatuses document) {},
      p_transitions = transitions_of (doc_Transitions document) {},
      p_access =
        \<lparr> sameWorkspaceRead = ad_SameWorkspaceRead (doc_Access document),
          crossWorkspaceRead = ad_CrossWorkspaceRead (doc_Access document),
          ownerMutation = ad_OwnerMutation (doc_Access document),
          nonOwnerMutation = ad_NonOwnerMutation (doc_Access document),
          crossWorkspaceMutation = ad_CrossWorkspaceMutation (doc_Access document) \<rparr>,
      p_removal =
        \<lparr> activeStatus = rd_ActiveStatus (doc_Removal document),
          activeCode = rd_ActiveCode (doc_Removal document),
          removal_terminalCode = rd_TerminalCode (doc_Removal document) \<rparr>,
      p_cancellation =
        \<lparr> initialCode = cn_InitialCode (doc_Cancellation document),
          repeatedCode = cn_RepeatedCode (doc_Cancellation document),
          cancellation_terminalCode = cn_TerminalCode (doc_Cancellation document) \<rparr>,
      p_cursor =
        \<lparr> invalidCursorCode = ud_InvalidCursorCode (doc_Cursor document),
          invalidRangeCode = ud_InvalidRangeCode (doc_Cursor document) \<rparr>,
      p_path =
        \<lparr> invalidCode = pd_InvalidCode (doc_Path document),
          outsideCode = pd_OutsideCode (doc_Path document),
          symlinkCode = pd_SymlinkCode (doc_Path document),
          unavailableCode = pd_UnavailableCode (doc_Path document) \<rparr>,
      p_defaults =
        \<lparr> waitTimeout = dd_WaitTimeoutMs (doc_Defaults document),
          idleCheckpoint = dd_IdleCheckpointMs (doc_Defaults document),
          hardTimeout = dd_HardTimeoutMs (doc_Defaults document) \<rparr>,
      p_observer = \<lparr> defaultCursor = od_DefaultCursorBytes (doc_Observer document) \<rparr>,
      p_lifecycle =
        \<lparr> ttlEnabled = ld_TTLEnabled (doc_Lifecycle document),
          restartReattachment = ld_RestartReattachment (doc_Lifecycle document) \<rparr> \<rparr>"

text \<open>The embedded document, \<open>schemas/v1/policy.json\<close>, decoded.\<close>

definition all_terminal_statuses :: "JobStatus list" where
  "all_terminal_statuses =
    [JobStatusSucceeded, JobStatusNonzeroExit, JobStatusSignalExit, JobStatusCancelled,
     JobStatusHardTimeout, JobStatusOutputLimit, JobStatusRunnerLost]"

definition code_mapping_v1 :: codeMappingDocument where
  "code_mapping_v1 =
    \<lparr> cm_Allow = None, cm_CancellationRequested = None, cm_CancellationIdempotent = None,
      cm_CancellationTerminal = None, cm_TransitionNotAllowed = Some ErrorCodeConflict,
      cm_InvalidStatus = Some ErrorCodeCorruptState, cm_CorruptState = Some ErrorCodeCorruptState,
      cm_JobNotFound = Some ErrorCodeJobNotFound, cm_Unauthorized = Some ErrorCodeUnauthorized,
      cm_ActiveJob = Some ErrorCodeActiveJob, cm_InvalidCursor = Some ErrorCodeInvalidCursor,
      cm_InvalidRange = Some ErrorCodeInvalidRange, cm_PathInvalid = Some ErrorCodeInvalidRequest,
      cm_PathOutsideWorkspace = Some ErrorCodeUnauthorized,
      cm_PathSymlink = Some ErrorCodeUnauthorized, cm_PathUnavailable = Some ErrorCodeIoFailure \<rparr>"

definition policy_document_v1 :: policyDocument where
  "policy_document_v1 =
    \<lparr> doc_SchemaVersion = 1,
      doc_CaptureLimitBytes = 104857600,
      doc_Defaults =
        \<lparr> dd_WaitTimeoutMs = 300000, dd_IdleCheckpointMs = 120000, dd_HardTimeoutMs = 7200000,
          dd_CaptureLimitBytes = 104857600 \<rparr>,
      doc_Observer =
        \<lparr> od_DefaultCursorBytes = 0, od_WaitOmittedCursor = ''persisted_or_default'',
          od_WaitSuccess = ''advance_to_next_cursor_after_response'',
          od_OtherActions = ''no_advance'' \<rparr>,
      doc_ExitClasses =
        \<lparr> ec_Success = 0, ec_Validation = 2, ec_Authorization = 3, ec_Conflict = 4,
          ec_Internal = 5 \<rparr>,
      doc_ErrorExitClasses =
        \<lparr> ee_MalformedJSON = 2, ee_InvalidRequest = 2, ee_IncompatibleVersion = 2,
          ee_InvalidRange = 2, ee_InvalidCursor = 2, ee_JobNotFound = 3, ee_Unauthorized = 3,
          ee_ActiveJob = 4, ee_Conflict = 4, ee_CorruptState = 5, ee_RunnerUnavailable = 5,
          ee_IOFailure = 5, ee_Internal = 5 \<rparr>,
      doc_CodeErrorMapping = code_mapping_v1,
      doc_Statuses = JobStatusRunning # all_terminal_statuses,
      doc_TerminalStatuses = all_terminal_statuses,
      doc_Transitions =
        map (\<lambda>status. \<lparr> td_From = JobStatusRunning, td_To = status \<rparr>) all_terminal_statuses,
      doc_Access =
        \<lparr> ad_SameWorkspaceRead = CodeAllow, ad_CrossWorkspaceRead = CodeJobNotFound,
          ad_OwnerMutation = CodeAllow, ad_NonOwnerMutation = CodeUnauthorized,
          ad_CrossWorkspaceMutation = CodeJobNotFound \<rparr>,
      doc_Removal =
        \<lparr> rd_ActiveStatus = JobStatusRunning, rd_ActiveCode = CodeActiveJob,
          rd_TerminalCode = CodeAllow \<rparr>,
      doc_Cancellation =
        \<lparr> cn_InitialCode = CodeCancellationRequested, cn_RepeatedCode = CodeCancellationIdempotent,
          cn_TerminalCode = CodeCancellationTerminal \<rparr>,
      doc_Cursor =
        \<lparr> ud_InvalidCursorCode = CodeInvalidCursor, ud_InvalidRangeCode = CodeInvalidRange \<rparr>,
      doc_Path =
        \<lparr> pd_InvalidCode = CodePathInvalid, pd_OutsideCode = CodePathOutsideWorkspace,
          pd_SymlinkCode = CodePathSymlink, pd_UnavailableCode = CodePathUnavailable \<rparr>,
      doc_Lifecycle = \<lparr> ld_TTLEnabled = False, ld_RestartReattachment = False \<rparr> \<rparr>"

definition policy_v1 :: Policy where
  "policy_v1 = newPolicy policy_document_v1"

lemma policy_v1_fields [simp]:
  "p_captureLimit policy_v1 = 104857600"
  "p_statuses policy_v1 = JobStatusRunning # all_terminal_statuses"
  "p_terminals policy_v1 = set all_terminal_statuses"
  "p_transitions policy_v1 = {JobStatusRunning} \<times> set all_terminal_statuses"
  "p_access policy_v1 =
     \<lparr> sameWorkspaceRead = CodeAllow, crossWorkspaceRead = CodeJobNotFound,
       ownerMutation = CodeAllow, nonOwnerMutation = CodeUnauthorized,
       crossWorkspaceMutation = CodeJobNotFound \<rparr>"
  "p_removal policy_v1 =
     \<lparr> activeStatus = JobStatusRunning, activeCode = CodeActiveJob,
       removal_terminalCode = CodeAllow \<rparr>"
  "p_cancellation policy_v1 =
     \<lparr> initialCode = CodeCancellationRequested, repeatedCode = CodeCancellationIdempotent,
       cancellation_terminalCode = CodeCancellationTerminal \<rparr>"
  "p_cursor policy_v1 =
     \<lparr> invalidCursorCode = CodeInvalidCursor, invalidRangeCode = CodeInvalidRange \<rparr>"
  "p_path policy_v1 =
     \<lparr> invalidCode = CodePathInvalid, outsideCode = CodePathOutsideWorkspace,
       symlinkCode = CodePathSymlink, unavailableCode = CodePathUnavailable \<rparr>"
  "p_defaults policy_v1 =
     \<lparr> waitTimeout = 300000, idleCheckpoint = 120000, hardTimeout = 7200000 \<rparr>"
  "p_observer policy_v1 = \<lparr> defaultCursor = 0 \<rparr>"
  by (auto simp: policy_v1_def newPolicy_def policy_document_v1_def all_terminal_statuses_def)

subsection \<open>Lifecycle\<close>

definition CaptureLimit :: "Policy \<Rightarrow> ByteCount" where
  "CaptureLimit p = p_captureLimit p"

definition Statuses :: "Policy \<Rightarrow> JobStatus list" where
  "Statuses p = p_statuses p"

definition TTLEnabled :: "Policy \<Rightarrow> bool" where
  "TTLEnabled p = ttlEnabled (p_lifecycle p)"

definition RestartReattachmentEnabled :: "Policy \<Rightarrow> bool" where
  "RestartReattachmentEnabled p = restartReattachment (p_lifecycle p)"

definition isKnownStatus :: "Policy \<Rightarrow> JobStatus \<Rightarrow> bool" where
  "isKnownStatus p status \<longleftrightarrow> List.member (p_statuses p) status"

definition isTerminal :: "Policy \<Rightarrow> JobStatus \<Rightarrow> bool" where
  "isTerminal p status \<longleftrightarrow> status \<in> p_terminals p"

definition AuthorizeTransition :: "Policy \<Rightarrow> JobStatus \<Rightarrow> JobStatus \<Rightarrow> Decision" where
  "AuthorizeTransition p from_status to_status =
    (if \<not> isKnownStatus p from_status \<or> \<not> isKnownStatus p to_status
     then \<lparr> d_Allowed = False, d_Code = CodeInvalidStatus \<rparr>
     else if (from_status, to_status) \<in> p_transitions p
     then \<lparr> d_Allowed = True, d_Code = CodeAllow \<rparr>
     else \<lparr> d_Allowed = False, d_Code = CodeTransitionNotAllowed \<rparr>)"

subsection \<open>Access\<close>

definition AuthorizeRead :: "Policy \<Rightarrow> AccessContext \<Rightarrow> Decision" where
  "AuthorizeRead p access =
    (if ac_JobWorkspace access \<noteq> ac_RequestWorkspace access
     then \<lparr> d_Allowed = False, d_Code = crossWorkspaceRead (p_access p) \<rparr>
     else \<lparr> d_Allowed = True, d_Code = sameWorkspaceRead (p_access p) \<rparr>)"

definition AuthorizeMutation :: "Policy \<Rightarrow> AccessContext \<Rightarrow> Decision" where
  "AuthorizeMutation p access =
    (if ac_JobWorkspace access \<noteq> ac_RequestWorkspace access
     then \<lparr> d_Allowed = False, d_Code = crossWorkspaceMutation (p_access p) \<rparr>
     else if ac_OwnerSession access \<noteq> ac_ActorSession access
     then \<lparr> d_Allowed = False, d_Code = nonOwnerMutation (p_access p) \<rparr>
     else \<lparr> d_Allowed = True, d_Code = ownerMutation (p_access p) \<rparr>)"

definition AuthorizeRemoval :: "Policy \<Rightarrow> JobStatus \<Rightarrow> Decision" where
  "AuthorizeRemoval p status =
    (if \<not> isKnownStatus p status then \<lparr> d_Allowed = False, d_Code = CodeInvalidStatus \<rparr>
     else if status = activeStatus (p_removal p)
     then \<lparr> d_Allowed = False, d_Code = activeCode (p_removal p) \<rparr>
     else \<lparr> d_Allowed = True, d_Code = removal_terminalCode (p_removal p) \<rparr>)"

definition EvaluateCancellation :: "Policy \<Rightarrow> CancellationContext \<Rightarrow> CancellationDecision" where
  "EvaluateCancellation p context =
    (if \<not> isKnownStatus p (cc_Status context)
     then \<lparr> cd_Decision = \<lparr> d_Allowed = False, d_Code = CodeInvalidStatus \<rparr>,
            cd_PersistRequest = False \<rparr>
     else if cc_AlreadyRequested context
     then \<lparr> cd_Decision = \<lparr> d_Allowed = True, d_Code = repeatedCode (p_cancellation p) \<rparr>,
            cd_PersistRequest = False \<rparr>
     else if isTerminal p (cc_Status context)
     then \<lparr> cd_Decision =
              \<lparr> d_Allowed = True, d_Code = cancellation_terminalCode (p_cancellation p) \<rparr>,
            cd_PersistRequest = False \<rparr>
     else \<lparr> cd_Decision = \<lparr> d_Allowed = True, d_Code = initialCode (p_cancellation p) \<rparr>,
            cd_PersistRequest = True \<rparr>)"

subsection \<open>Exit classes\<close>

definition SuccessExitClass :: "Policy \<Rightarrow> ExitClass" where
  "SuccessExitClass p = exit_success (p_exit p)"

definition ExitClassForError :: "Policy \<Rightarrow> ErrorCode \<Rightarrow> ExitClass option" where
  "ExitClassForError p code = exit_byError (p_exit p) code"

definition ProtocolOutcomeForCode :: "Policy \<Rightarrow> Code \<Rightarrow> ProtocolOutcome option" where
  "ProtocolOutcomeForCode p code =
    (case exit_byCode (p_exit p) code of
       None \<Rightarrow> None
     | Some None \<Rightarrow>
         Some \<lparr> po_Kind = ProtocolOutcomeSuccess, po_ErrorCode = None,
                po_ExitClass = exit_success (p_exit p) \<rparr>
     | Some (Some errorCode) \<Rightarrow>
         (case exit_byError (p_exit p) errorCode of
            None \<Rightarrow> None
          | Some exitClass \<Rightarrow>
              Some \<lparr> po_Kind = ProtocolOutcomeError, po_ErrorCode = Some errorCode,
                     po_ExitClass = exitClass \<rparr>))"

end
