(* ===== verification/PolicyProps.thy ===== *)
theory PolicyProps
  imports Policy
begin

section \<open>What the policy decides\<close>

text \<open>
  The decisions of the embedded policy, branch by branch: which transitions, removals and
  cancellations it lets through, and that every code it can answer has a protocol outcome.
\<close>

lemma isTerminal_v1:
  "isTerminal policy_v1 s \<longleftrightarrow>
   s \<notin> {JobStatusRunning} \<and> (\<forall>other. s \<noteq> JobStatusOther other)"
  by (cases s) (auto simp: isTerminal_def all_terminal_statuses_def)

lemma isKnownStatus_v1:
  "isKnownStatus policy_v1 s \<longleftrightarrow> s = JobStatusRunning \<or> isTerminal policy_v1 s"
  by (auto simp: isKnownStatus_def isTerminal_def List.member_iff)

lemma running_not_terminal [simp]: "\<not> isTerminal policy_v1 JobStatusRunning"
  by (simp add: isTerminal_v1)

lemma terminal_known [simp]: "isTerminal policy_v1 s \<Longrightarrow> isKnownStatus policy_v1 s"
  by (simp add: isKnownStatus_v1)

text \<open>Under the embedded policy the only status changes that are authorised lead from
  running to a terminal status: a transition is allowed exactly then, unknown statuses are
  answered \<open>invalid_status\<close> and every other pair \<open>transition_not_allowed\<close>. In particular
  no transition leaves a terminal status.\<close>

lemma AuthorizeTransition_v1:
  "AuthorizeTransition policy_v1 from_status to_status =
   (if isKnownStatus policy_v1 from_status \<and> isKnownStatus policy_v1 to_status
    then if from_status = JobStatusRunning \<and> isTerminal policy_v1 to_status
         then \<lparr> d_Allowed = True, d_Code = CodeAllow \<rparr>
         else \<lparr> d_Allowed = False, d_Code = CodeTransitionNotAllowed \<rparr>
    else \<lparr> d_Allowed = False, d_Code = CodeInvalidStatus \<rparr>)"
  by (auto simp: AuthorizeTransition_def isTerminal_def)

text \<open>A cancellation request is persisted exactly for a running job that has none yet, and
  a removal is let through exactly for a terminal job; so whatever the status, the embedded
  policy never both persists a cancellation and allows a removal, and for every known status
  a cancellation is answered positively (requested, idempotent or already terminal).\<close>

lemma cancellation_and_removal_v1:
  "(cd_PersistRequest (EvaluateCancellation policy_v1 context) \<longleftrightarrow>
      cc_Status context = JobStatusRunning \<and> \<not> cc_AlreadyRequested context) \<and>
   (d_Allowed (AuthorizeRemoval policy_v1 status) \<longleftrightarrow> isTerminal policy_v1 status) \<and>
   (d_Allowed (cd_Decision (EvaluateCancellation policy_v1 context)) \<longleftrightarrow>
      isKnownStatus policy_v1 (cc_Status context)) \<and>
   \<not> (cd_PersistRequest (EvaluateCancellation policy_v1 context) \<and>
       d_Allowed (AuthorizeRemoval policy_v1 (cc_Status context)))"
  by (auto simp: EvaluateCancellation_def AuthorizeRemoval_def isKnownStatus_v1)

text \<open>Every code a decision can carry has a protocol outcome under the embedded policy. The
  outcome is a success (exit class 0) exactly for \<open>allow\<close> and the three cancellation codes,
  and otherwise an error whose exit class is 2, 3, 4 or 5, the class the policy gives that
  error code.\<close>

lemma ProtocolOutcomeForCode_v1_total:
  "\<exists>outcome. ProtocolOutcomeForCode policy_v1 code = Some outcome \<and>
     (if code \<in> {CodeAllow, CodeCancellationRequested, CodeCancellationIdempotent,
                  CodeCancellationTerminal}
      then po_Kind outcome = ProtocolOutcomeSuccess \<and>
           po_ExitClass outcome = SuccessExitClass policy_v1 \<and> po_ErrorCode outcome = None
      else po_Kind outcome = ProtocolOutcomeError \<and>
           (\<exists>e. po_ErrorCode outcome = Some e \<and>
                ExitClassForError policy_v1 e = Some (po_ExitClass outcome)) \<and>
           po_ExitClass outcome \<in> {ExitClassValidation, ExitClassAuthorization,
                                     ExitClassConflict, ExitClassInternal})"
  by (cases code)
    (simp_all add: ProtocolOutcomeForCode_def SuccessExitClass_def ExitClassForError_def
      policy_v1_def newPolicy_def exitRules_of_def policy_document_v1_def code_mapping_v1_def
      ExitClassValidation_def ExitClassAuthorization_def ExitClassConflict_def
      ExitClassInternal_def)

lemma ExitClassForError_v1:
  "\<exists>c. ExitClassForError policy_v1 e = Some c \<and> c \<in> {2, 3, 4, 5}"
  by (cases e)
    (simp_all add: ExitClassForError_def policy_v1_def newPolicy_def exitRules_of_def
      policy_document_v1_def)

subsection \<open>Access: the interface and its instance\<close>

text \<open>
  What the stores rely on when they authorise a request: whoever may change a job may read
  it, a change is the owner's, and a request from another workspace is answered alike
  whoever sends it.
\<close>

locale access_policy =
  fixes authorize_read :: "AccessContext \<Rightarrow> Decision"
    and authorize_mutation :: "AccessContext \<Rightarrow> Decision"
    and missing :: Code
  assumes mutation_reads:
      "d_Allowed (authorize_mutation a) \<Longrightarrow> d_Allowed (authorize_read a)"
    and mutation_owner:
      "d_Allowed (authorize_mutation a) \<Longrightarrow> ac_OwnerSession a = ac_ActorSession a"
    and read_iff:
      "d_Allowed (authorize_read a) \<longleftrightarrow> ac_JobWorkspace a = ac_RequestWorkspace a"
    and hidden_read: "\<not> d_Allowed (authorize_read a) \<Longrightarrow> d_Code (authorize_read a) = missing"
    and hidden_mutation:
      "\<not> d_Allowed (authorize_read a) \<Longrightarrow> authorize_mutation a = authorize_read a"
begin

lemma cross_workspace_indistinguishable:
  assumes "ac_JobWorkspace a \<noteq> ac_RequestWorkspace a"
  shows "authorize_read a = \<lparr> d_Allowed = False, d_Code = missing \<rparr> \<and>
         authorize_mutation a = \<lparr> d_Allowed = False, d_Code = missing \<rparr>"
  using assms read_iff [of a] hidden_read [of a] hidden_mutation [of a]
  by (cases "authorize_read a") auto

lemma mutation_same_workspace_owner:
  assumes "d_Allowed (authorize_mutation a)"
  shows "ac_JobWorkspace a = ac_RequestWorkspace a \<and> ac_OwnerSession a = ac_ActorSession a"
  using assms mutation_reads [of a] mutation_owner [of a] read_iff [of a] by simp

end

interpretation access_v1:
  access_policy "AuthorizeRead policy_v1" "AuthorizeMutation policy_v1" CodeJobNotFound
  by unfold_locales (auto simp: AuthorizeRead_def AuthorizeMutation_def split: if_splits)

text \<open>C39: A request from another workspace learns nothing about a job: reading it and changing
  it are both answered \<open>job_not_found\<close>, whatever sessions are involved. A change is allowed
  only from the job's workspace and by its owner.\<close>

theorem access_isolation_v1:
  "(ac_JobWorkspace a \<noteq> ac_RequestWorkspace a \<longrightarrow>
     AuthorizeRead policy_v1 a = \<lparr> d_Allowed = False, d_Code = CodeJobNotFound \<rparr> \<and>
     AuthorizeMutation policy_v1 a = \<lparr> d_Allowed = False, d_Code = CodeJobNotFound \<rparr>) \<and>
   (d_Allowed (AuthorizeMutation policy_v1 a) \<longrightarrow>
     ac_JobWorkspace a = ac_RequestWorkspace a \<and> ac_OwnerSession a = ac_ActorSession a \<and>
     d_Allowed (AuthorizeRead policy_v1 a))"
  using access_v1.cross_workspace_indistinguishable access_v1.mutation_same_workspace_owner
    access_v1.mutation_reads by blast

lemma access_isolation_v1_witness:
  "AuthorizeMutation policy_v1
     \<lparr> ac_JobWorkspace = ''/a'', ac_RequestWorkspace = ''/b'', ac_OwnerSession = ''s'',
       ac_ActorSession = ''s'' \<rparr> = \<lparr> d_Allowed = False, d_Code = CodeJobNotFound \<rparr> \<and>
   d_Allowed (AuthorizeRead policy_v1
     \<lparr> ac_JobWorkspace = ''/a'', ac_RequestWorkspace = ''/a'', ac_OwnerSession = ''s'',
       ac_ActorSession = ''s'' \<rparr>)"
  using access_isolation_v1 [of "\<lparr> ac_JobWorkspace = ''/a'', ac_RequestWorkspace = ''/b'',
      ac_OwnerSession = ''s'', ac_ActorSession = ''s'' \<rparr>"]
    access_isolation_v1 [of "\<lparr> ac_JobWorkspace = ''/a'', ac_RequestWorkspace = ''/a'',
      ac_OwnerSession = ''s'', ac_ActorSession = ''s'' \<rparr>"]
  by (simp add: AuthorizeMutation_def)

end
