(* ===== verification/Paths.thy ===== *)
theory Paths
  imports Policy
begin

section \<open>Lexical path policy\<close>

text \<open>
  \<open>path_policy.go\<close>: which pairs of workspace and candidate path are acceptable before any
  directory is opened. The functions of Go's \<open>path/filepath\<close> it calls are written out as
  they behave on Linux and macOS: \<open>IsAbs\<close>, \<open>Clean\<close>, \<open>IsLocal\<close>, and \<open>Rel\<close> for two
  rooted paths, the only ones it is called with.
\<close>

subsection \<open>Splitting and joining\<close>

definition sep :: char where "sep = CHR ''/''"

text \<open>\<open>strings.Split(path, "/")\<close>.\<close>

fun split_sep :: "string \<Rightarrow> string list" where
  "split_sep [] = [[]]"
| "split_sep (c # cs) =
     (if c = sep then [] # split_sep cs
      else (case split_sep cs of [] \<Rightarrow> [[c]] | part # rest \<Rightarrow> (c # part) # rest))"

fun join_sep :: "string list \<Rightarrow> string" where
  "join_sep [] = []"
| "join_sep [part] = part"
| "join_sep (part # rest) = part @ sep # join_sep rest"

definition no_sep :: "string \<Rightarrow> bool" where
  "no_sep part \<longleftrightarrow> sep \<notin> set part"

lemma split_sep_not_Nil [simp]: "split_sep s \<noteq> []"
  by (induction s) (auto split: list.splits)

lemma no_sep_simps [simp]: "no_sep []" "no_sep (c # s) \<longleftrightarrow> c \<noteq> sep \<and> no_sep s"
  by (auto simp: no_sep_def)

lemma split_sep_no_sep: "part \<in> set (split_sep s) \<Longrightarrow> no_sep part"
proof (induction s arbitrary: part)
  case (Cons c s)
  show ?case
  proof (cases "split_sep s")
    case Nil
    then show ?thesis by simp
  next
    case (Cons p rest)
    with Cons.IH Cons.prems show ?thesis
      by (auto split: if_splits)
  qed
qed simp

lemma join_split [simp]: "join_sep (split_sep s) = s"
proof (induction s)
  case (Cons c s)
  then show ?case
    by (cases "split_sep s"; cases "tl (split_sep s)") auto
qed simp

lemma split_no_sep: "no_sep part \<Longrightarrow> split_sep part = [part]"
  by (induction part) auto

lemma split_append_sep: "no_sep part \<Longrightarrow> split_sep (part @ sep # s) = part # split_sep s"
  by (induction part) auto

lemma split_join: "parts \<noteq> [] \<Longrightarrow> \<forall>part \<in> set parts. no_sep part \<Longrightarrow> split_sep (join_sep parts) = parts"
  by (induction parts rule: join_sep.induct) (auto simp: split_no_sep split_append_sep)

subsection \<open>\<open>path/filepath\<close>\<close>

definition filepath_IsAbs :: "string \<Rightarrow> bool" where
  "filepath_IsAbs path \<longleftrightarrow> (case path of [] \<Rightarrow> False | c # _ \<Rightarrow> c = sep)"

abbreviation dot :: string where "dot \<equiv> ''.''"
abbreviation dotdot :: string where "dotdot \<equiv> ''..''"

text \<open>One component of the loop of \<open>Clean\<close>; the output is kept with its last component first.\<close>

definition clean_component :: "bool \<Rightarrow> string \<Rightarrow> string list \<Rightarrow> string list" where
  "clean_component rooted part out =
    (if part = [] \<or> part = dot then out
     else if part = dotdot
     then (case out of
             [] \<Rightarrow> if rooted then [] else [dotdot]
           | last_part # rest \<Rightarrow> if last_part \<noteq> dotdot then rest else dotdot # out)
     else part # out)"

definition filepath_Clean :: "string \<Rightarrow> string" where
  "filepath_Clean path =
    (if path = [] then dot
     else let rooted = filepath_IsAbs path;
              out = rev (fold (clean_component rooted) (split_sep path) []) in
       if rooted then sep # join_sep out else if out = [] then dot else join_sep out)"

definition has_prefix :: "string \<Rightarrow> string \<Rightarrow> bool" where
  "has_prefix s prefix \<longleftrightarrow> take (length prefix) s = prefix"

definition filepath_IsLocal :: "string \<Rightarrow> bool" where
  "filepath_IsLocal path =
    (if filepath_IsAbs path \<or> path = [] then False
     else let hasDots = (\<exists>part \<in> set (split_sep path). part = dot \<or> part = dotdot);
              path' = (if hasDots then filepath_Clean path else path) in
       if path' = dotdot \<or> has_prefix path' ''../'' then False else True)"

fun strip_common :: "string list \<Rightarrow> string list \<Rightarrow> string list \<times> string list" where
  "strip_common (b # bs) (t # ts) = (if b = t then strip_common bs ts else (b # bs, t # ts))"
| "strip_common bs ts = (bs, ts)"

definition path_elements :: "string \<Rightarrow> string list" where
  "path_elements path = filter (\<lambda>part. part \<noteq> []) (split_sep path)"

definition filepath_Rel :: "string \<Rightarrow> string \<Rightarrow> string option" where
  "filepath_Rel base target =
    (let b = filepath_Clean base; t = filepath_Clean target in
     if filepath_IsAbs b \<noteq> filepath_IsAbs t then None
     else if t = b then Some dot
     else case strip_common (path_elements b) (path_elements t) of
       (bs, ts) \<Rightarrow> Some (join_sep (replicate (length bs) dotdot @ ts)))"

subsection \<open>The policy's checks\<close>

definition canonicalAbsolute :: "string \<Rightarrow> bool" where
  "canonicalAbsolute path \<longleftrightarrow> filepath_IsAbs path \<and> filepath_Clean path = path"

definition validateWorkspacePath :: "Policy \<Rightarrow> string \<Rightarrow> string \<Rightarrow> string \<times> Decision" where
  "validateWorkspacePath p workspacePath candidatePath =
    (if workspacePath = [sep] \<or> \<not> canonicalAbsolute workspacePath \<or>
        \<not> canonicalAbsolute candidatePath
     then ([], \<lparr> d_Allowed = False, d_Code = invalidCode (p_path p) \<rparr>)
     else case filepath_Rel workspacePath candidatePath of
       None \<Rightarrow> ([], \<lparr> d_Allowed = False, d_Code = invalidCode (p_path p) \<rparr>)
     | Some relative \<Rightarrow>
         if relative \<noteq> dot \<and> \<not> filepath_IsLocal relative
         then ([], \<lparr> d_Allowed = False, d_Code = outsideCode (p_path p) \<rparr>)
         else (relative, \<lparr> d_Allowed = True, d_Code = CodeAllow \<rparr>))"

text \<open>\<open>strings.TrimPrefix\<close> removes one leading separator.\<close>

definition trim_sep :: "string \<Rightarrow> string" where
  "trim_sep path = (case path of [] \<Rightarrow> [] | c # rest \<Rightarrow> if c = sep then rest else path)"

definition splitPath :: "string \<Rightarrow> string list" where
  "splitPath path = (if path = dot \<or> path = [sep] then [] else split_sep (trim_sep path))"

subsection \<open>Canonical absolute paths are lists of proper components\<close>

definition proper :: "string \<Rightarrow> bool" where
  "proper part \<longleftrightarrow> part \<noteq> [] \<and> part \<noteq> dot \<and> part \<noteq> dotdot \<and> no_sep part"

lemma clean_fold_proper:
  "\<forall>part \<in> set parts. no_sep part \<Longrightarrow> \<forall>part \<in> set out. proper part \<Longrightarrow>
   \<forall>part \<in> set (fold (clean_component True) parts out). proper part"
proof (induction parts arbitrary: out)
  case (Cons part parts)
  have "\<forall>q \<in> set (clean_component True part out). proper q"
    using Cons.prems by (cases out) (auto simp: clean_component_def proper_def)
  with Cons show ?case by simp
qed simp

lemma clean_fold_id:
  "\<forall>part \<in> set parts. proper part \<Longrightarrow> fold (clean_component rooted) parts out = rev parts @ out"
  by (induction parts arbitrary: out) (auto simp: clean_component_def proper_def)

lemma Clean_of_proper:
  assumes "\<forall>part \<in> set parts. proper part"
  shows "filepath_Clean (sep # join_sep parts) = sep # join_sep parts"
proof (cases "parts = []")
  case True
  then show ?thesis
    by (simp add: filepath_Clean_def filepath_IsAbs_def clean_component_def)
next
  case False
  then have "split_sep (sep # join_sep parts) = [] # parts"
    using assms split_join [of parts] by (simp add: proper_def)
  with assms show ?thesis
    by (simp add: filepath_Clean_def filepath_IsAbs_def clean_fold_id clean_component_def)
qed

lemma canonicalAbsolute_iff:
  "canonicalAbsolute path \<longleftrightarrow>
   (\<exists>parts. (\<forall>part \<in> set parts. proper part) \<and> path = sep # join_sep parts)"
proof
  assume c: "canonicalAbsolute path"
  let ?out = "rev (fold (clean_component True) (split_sep path) [])"
  from c have "path = sep # join_sep ?out"
    by (auto simp: canonicalAbsolute_def filepath_Clean_def Let_def filepath_IsAbs_def
        split: list.splits)
  moreover have "\<forall>part \<in> set ?out. proper part"
    using clean_fold_proper [of "split_sep path" "[]"] split_sep_no_sep by auto
  ultimately show "\<exists>parts. (\<forall>part \<in> set parts. proper part) \<and> path = sep # join_sep parts"
    by blast
next
  assume "\<exists>parts. (\<forall>part \<in> set parts. proper part) \<and> path = sep # join_sep parts"
  then show "canonicalAbsolute path"
    by (auto simp: canonicalAbsolute_def filepath_IsAbs_def Clean_of_proper)
qed

lemma path_elements_proper:
  "\<forall>part \<in> set parts. proper part \<Longrightarrow> path_elements (sep # join_sep parts) = parts"
  by (cases "parts = []") (auto simp: path_elements_def split_join proper_def)

lemma splitPath_proper:
  "\<forall>part \<in> set parts. proper part \<Longrightarrow> splitPath (sep # join_sep parts) = parts"
proof (cases "parts = []")
  case False
  assume a: "\<forall>part \<in> set parts. proper part"
  obtain x xs where x: "parts = x # xs" using False by (cases parts) auto
  then have "join_sep parts \<noteq> []"
    using a by (cases xs) (auto simp: proper_def)
  then show ?thesis
    using a False by (auto simp: splitPath_def trim_sep_def split_join proper_def sep_def)
qed (simp add: splitPath_def)

lemma strip_common_prefix: "strip_common bs (bs @ ts) = ([], ts)"
  by (induction bs) (cases ts, auto)

lemma strip_common_decomp:
  "strip_common bs ts = (bs', ts') \<Longrightarrow> \<exists>common. bs = common @ bs' \<and> ts = common @ ts'"
proof (induction bs ts rule: strip_common.induct)
  case (1 b bs t ts)
  then show ?case
    by (auto split: if_splits)
qed auto

lemma join_sep_Nil_iff: "\<forall>part \<in> set parts. proper part \<Longrightarrow> join_sep parts = [] \<longleftrightarrow> parts = []"
  by (cases parts rule: join_sep.cases) (auto simp: proper_def)

lemma IsLocal_proper:
  assumes "parts \<noteq> []" "\<forall>part \<in> set parts. proper part"
  shows "filepath_IsLocal (join_sep parts)"
proof -
  have s: "split_sep (join_sep parts) = parts"
    using assms by (intro split_join) (auto simp: proper_def)
  have ne: "join_sep parts \<noteq> []"
    using assms join_sep_Nil_iff by blast
  have abs: "\<not> filepath_IsAbs (join_sep parts)"
  proof
    assume "filepath_IsAbs (join_sep parts)"
    then have "[] \<in> set (split_sep (join_sep parts))"
      using ne by (cases "join_sep parts") (auto simp: filepath_IsAbs_def)
    with s assms(2) show False by (auto simp: proper_def)
  qed
  have dots: "\<not> (\<exists>part \<in> set (split_sep (join_sep parts)). part = dot \<or> part = dotdot)"
    using s assms(2) by (auto simp: proper_def)
  have "join_sep parts \<noteq> dotdot"
    using dots s assms split_no_sep [of dotdot] by (auto simp: sep_def)
  moreover have "\<not> has_prefix (join_sep parts) ''../''"
  proof
    assume "has_prefix (join_sep parts) ''../''"
    then have "take 3 (join_sep parts) = ''../''"
      by (simp add: has_prefix_def numeral_3_eq_3)
    then have "join_sep parts = ''../'' @ drop 3 (join_sep parts)"
      by (metis append_take_drop_id)
    then have "join_sep parts = dotdot @ sep # drop 3 (join_sep parts)"
      by (simp add: sep_def)
    moreover have "no_sep dotdot"
      by (simp add: sep_def)
    ultimately have "split_sep (join_sep parts) = dotdot # split_sep (drop 3 (join_sep parts))"
      using split_append_sep by metis
    with dots show False by simp
  qed
  ultimately show ?thesis
    using ne abs dots by (simp add: filepath_IsLocal_def)
qed

lemma IsLocal_dotdot:
  assumes "\<forall>part \<in> set parts. no_sep part"
  shows "\<not> filepath_IsLocal (join_sep (dotdot # parts))"
proof -
  have ns: "no_sep dotdot" by (simp add: sep_def)
  have s: "split_sep (join_sep (dotdot # parts)) = dotdot # parts"
    using assms ns by (intro split_join) auto
  let ?out = "rev (fold (clean_component False) (dotdot # parts) [])"
  have inv: "last out = dotdot \<and> out \<noteq> [] \<Longrightarrow>
      last (fold (clean_component False) ps out) = dotdot \<and>
      fold (clean_component False) ps out \<noteq> []" for ps out
  proof (induction ps arbitrary: out)
    case (Cons p ps)
    have "last (clean_component False p out) = dotdot \<and> clean_component False p out \<noteq> []"
      using Cons.prems by (cases out) (auto simp: clean_component_def split: list.splits)
    with Cons.IH show ?case by simp
  qed simp
  have "last (fold (clean_component False) parts [dotdot]) = dotdot \<and>
        fold (clean_component False) parts [dotdot] \<noteq> []"
    by (rule inv) simp
  then have "hd ?out = dotdot \<and> ?out \<noteq> []"
    by (simp add: clean_component_def hd_rev)
  then obtain rest where out: "?out = dotdot # rest"
    by (metis list.collapse)
  have "\<not> filepath_IsAbs (join_sep (dotdot # parts))"
    by (cases parts) (simp_all add: filepath_IsAbs_def sep_def)
  then have "filepath_Clean (join_sep (dotdot # parts)) = join_sep (dotdot # rest)"
    using s out by (cases parts) (simp_all add: filepath_Clean_def Let_def)
  moreover have "join_sep (dotdot # rest) = dotdot \<or> has_prefix (join_sep (dotdot # rest)) ''../''"
    by (cases rest) (simp_all add: has_prefix_def sep_def)
  ultimately show ?thesis
    using s by (simp add: filepath_IsLocal_def Let_def del: join_sep.simps)
qed

text \<open>A path below another one is the list of its components with a longer list.\<close>

lemma join_append:
  "xs \<noteq> [] \<Longrightarrow> ys \<noteq> [] \<Longrightarrow> join_sep (xs @ ys) = join_sep xs @ sep # join_sep ys"
proof (induction xs rule: join_sep.induct)
  case (2 part)
  then show ?case by (cases ys) simp_all
qed auto

lemma split_join_append:
  "xs \<noteq> [] \<Longrightarrow> \<forall>part \<in> set xs. no_sep part \<Longrightarrow>
   split_sep (join_sep xs @ sep # s) = xs @ split_sep s"
  by (induction xs rule: join_sep.induct) (auto simp: split_append_sep)

definition below :: "string \<Rightarrow> string \<Rightarrow> bool" where
  "below base path \<longleftrightarrow> path = base \<or> has_prefix path (base @ [sep])"

lemma below_iff:
  assumes w: "ws \<noteq> []" "\<forall>part \<in> set ws. proper part" and c: "\<forall>part \<in> set cs. proper part"
  shows "below (sep # join_sep ws) (sep # join_sep cs) \<longleftrightarrow> (\<exists>rest. cs = ws @ rest)"
proof
  assume b: "below (sep # join_sep ws) (sep # join_sep cs)"
  have nw: "\<forall>part \<in> set ws. no_sep part" and nc: "\<forall>part \<in> set cs. no_sep part"
    using w c by (auto simp: proper_def)
  show "\<exists>rest. cs = ws @ rest"
  proof (cases "join_sep cs = join_sep ws")
    case True
    then have "cs \<noteq> []"
      using w join_sep_Nil_iff by force
    with True w nw nc have "cs = ws"
      using split_join by metis
    then show ?thesis by simp
  next
    case False
    then have "take (length (join_sep ws @ [sep])) (join_sep cs) = join_sep ws @ [sep]"
      using b by (simp add: below_def has_prefix_def)
    then obtain s where s: "join_sep cs = join_sep ws @ sep # s"
      by (metis append.assoc append_Cons append_Nil append_take_drop_id)
    then have "cs \<noteq> []" by auto
    with s w nw nc have "cs = ws @ split_sep s"
      using split_join split_join_append by metis
    then show ?thesis by blast
  qed
next
  assume "\<exists>rest. cs = ws @ rest"
  then obtain rest where "cs = ws @ rest" by blast
  then show "below (sep # join_sep ws) (sep # join_sep cs)"
    using w by (cases "rest = []") (auto simp: below_def has_prefix_def join_append)
qed

lemma Rel_proper:
  assumes w: "\<forall>part \<in> set ws. proper part" and c: "\<forall>part \<in> set cs. proper part"
  shows "filepath_Rel (sep # join_sep ws) (sep # join_sep cs) =
    Some (if join_sep cs = join_sep ws then dot
          else case strip_common ws cs of (bs, ts) \<Rightarrow> join_sep (replicate (length bs) dotdot @ ts))"
  using w c
  by (simp add: filepath_Rel_def Clean_of_proper path_elements_proper filepath_IsAbs_def Let_def
      split: prod.splits)

lemma validate_below:
  assumes w: "ws \<noteq> []" "\<forall>part \<in> set ws. proper part" and r: "\<forall>part \<in> set rest. proper part"
  shows "validateWorkspacePath p (sep # join_sep ws) (sep # join_sep (ws @ rest)) =
    (if rest = [] then dot else join_sep rest, \<lparr> d_Allowed = True, d_Code = CodeAllow \<rparr>)"
proof -
  have canon: "canonicalAbsolute (sep # join_sep ws)"
    "canonicalAbsolute (sep # join_sep (ws @ rest))"
    unfolding canonicalAbsolute_iff using w r by (blast, intro exI [of _ "ws @ rest"]) auto
  have root: "join_sep ws \<noteq> []"
    using w join_sep_Nil_iff by blast
  have rel: "filepath_Rel (sep # join_sep ws) (sep # join_sep (ws @ rest)) =
      Some (if rest = [] then dot else join_sep rest)"
    using w r by (subst Rel_proper) (auto simp: strip_common_prefix join_append)
  have "rest \<noteq> [] \<Longrightarrow> filepath_IsLocal (join_sep rest)"
    using r IsLocal_proper by blast
  then show ?thesis
    using canon root rel by (simp add: validateWorkspacePath_def)
qed

lemma validate_outside:
  assumes w: "ws \<noteq> []" "\<forall>part \<in> set ws. proper part" and c: "\<forall>part \<in> set cs. proper part"
    and out: "\<nexists>rest. cs = ws @ rest"
  shows "validateWorkspacePath p (sep # join_sep ws) (sep # join_sep cs) =
    ([], \<lparr> d_Allowed = False, d_Code = outsideCode (p_path p) \<rparr>)"
proof -
  have canon: "canonicalAbsolute (sep # join_sep ws)" "canonicalAbsolute (sep # join_sep cs)"
    unfolding canonicalAbsolute_iff using w c by blast+
  have root: "join_sep ws \<noteq> []"
    using w join_sep_Nil_iff by blast
  have differ: "join_sep cs \<noteq> join_sep ws"
    using w c out below_iff [of ws cs] by (auto simp: below_def)
  obtain bs ts where strip: "strip_common ws cs = (bs, ts)" by fastforce
  then obtain common where common: "ws = common @ bs" "cs = common @ ts"
    using strip_common_decomp by blast
  with out have bs: "bs \<noteq> []" by auto
  then obtain n where n: "length bs = Suc n" by (cases bs) auto
  let ?ups = "replicate n dotdot @ ts"
  have rel: "filepath_Rel (sep # join_sep ws) (sep # join_sep cs) =
      Some (join_sep (dotdot # ?ups))"
    using differ strip n by (simp add: Rel_proper [OF w(2) c] del: join_sep.simps)
  have "no_sep dotdot"
    by (simp add: sep_def)
  moreover have "\<forall>part \<in> set ts. no_sep part"
    using c unfolding common(2) by (simp add: proper_def)
  ultimately have "\<forall>part \<in> set ?ups. no_sep part"
    by (simp add: ball_Un)
  then have "\<not> filepath_IsLocal (join_sep (dotdot # ?ups))"
    by (rule IsLocal_dotdot)
  moreover have "join_sep (dotdot # ?ups) \<noteq> dot"
    by (cases ?ups) simp_all
  ultimately show ?thesis
    using canon root rel by (simp add: validateWorkspacePath_def del: join_sep.simps)
qed

lemma splitPath_relative:
  assumes "\<forall>part \<in> set rest. proper part"
  shows "splitPath (if rest = [] then dot else join_sep rest) = rest"
proof (cases rest)
  case (Cons r rs)
  with assms have j: "split_sep (join_sep rest) = rest" by (simp add: split_join proper_def)
  have "proper r"
    using assms Cons by simp
  then obtain a r' where r: "r = a # r'" "a \<noteq> sep"
    by (cases r) (auto simp: proper_def)
  then obtain tail where tail: "join_sep rest = a # tail"
    using Cons by (cases rs) auto
  then have "trim_sep (join_sep rest) = join_sep rest" "join_sep rest \<noteq> [sep]"
    using r by (simp_all add: trim_sep_def)
  moreover have "join_sep rest \<noteq> dot"
  proof
    assume "join_sep rest = dot"
    then have "rest = [dot]"
      using j split_no_sep [of dot] by (simp add: sep_def)
    with assms show False by (simp add: proper_def)
  qed
  ultimately show ?thesis using j Cons by (simp add: splitPath_def)
qed (simp add: splitPath_def)

text \<open>What an accepted pair of paths looks like.\<close>

lemma validate_accepted:
  assumes "d_Allowed (snd (validateWorkspacePath p workspace candidate))"
  shows "below workspace candidate"
    "splitPath candidate = splitPath workspace @ splitPath (fst (validateWorkspacePath p workspace candidate))"
proof -
  have "canonicalAbsolute workspace \<and> canonicalAbsolute candidate \<and> workspace \<noteq> [sep]"
    using assms by (auto simp: validateWorkspacePath_def split: if_splits)
  then obtain ws cs where ws: "\<forall>part \<in> set ws. proper part" "workspace = sep # join_sep ws" "ws \<noteq> []"
    and cs: "\<forall>part \<in> set cs. proper part" "candidate = sep # join_sep cs"
    unfolding canonicalAbsolute_iff by force
  obtain rest where rest: "cs = ws @ rest"
    using assms validate_outside [OF ws(3,1) cs(1), of p] ws(2) cs(2) by force
  then have pr: "\<forall>part \<in> set rest. proper part" using cs by auto
  show "below workspace candidate"
    using below_iff [OF ws(3,1) cs(1)] rest ws(2) cs(2) by blast
  show "splitPath candidate = splitPath workspace @ splitPath (fst (validateWorkspacePath p workspace candidate))"
    using validate_below [OF ws(3,1) pr, of p] splitPath_relative [OF pr] splitPath_proper [OF ws(1)] splitPath_proper [OF cs(1)]
      rest ws(2) cs(2) by simp
qed

lemma validateWorkspacePath_allowed:
  "d_Allowed (snd (validateWorkspacePath p workspace candidate)) \<longleftrightarrow>
   canonicalAbsolute workspace \<and> canonicalAbsolute candidate \<and> workspace \<noteq> ''/'' \<and>
   below workspace candidate"
proof (cases "canonicalAbsolute workspace \<and> canonicalAbsolute candidate \<and> workspace \<noteq> ''/''")
  case False
  then show ?thesis by (auto simp: validateWorkspacePath_def sep_def)
next
  case True
  then obtain ws cs where ws: "\<forall>part \<in> set ws. proper part" "workspace = sep # join_sep ws"
    and cs: "\<forall>part \<in> set cs. proper part" "candidate = sep # join_sep cs"
    unfolding canonicalAbsolute_iff by blast
  then have ne: "ws \<noteq> []" using True by (auto simp: sep_def)
  show ?thesis
  proof (cases "\<exists>rest. cs = ws @ rest")
    case inside: True
    then obtain rest where rest: "cs = ws @ rest" by blast
    then have "\<forall>part \<in> set rest. proper part" using cs by auto
    then show ?thesis
      using validate_below [OF ne ws(1), of rest p] below_iff [OF ne ws(1) cs(1)] rest ws(2) cs(2)
        True by simp
  next
    case outside: False
    then show ?thesis
      using validate_outside [OF ne ws(1) cs(1), of p] below_iff [OF ne ws(1) cs(1)] True ws cs
      by simp
  qed
qed

text \<open>C36: The lexical workspace check accepts a candidate exactly when both paths are canonical
  absolute paths, the workspace is not the root directory, and the candidate is the workspace
  itself or lies below it; a name that merely starts with the workspace's last name is not
  below it. On acceptance the relative path it returns splits into exactly the components that
  lead from the workspace to the candidate, none of them empty, \<open>.\<close> or \<open>..\<close>. A canonical pair
  that fails is refused as outside the workspace, any other pair as invalid.\<close>

theorem validateWorkspacePath_exact:
  "case validateWorkspacePath p workspace candidate of (relative, decision) \<Rightarrow>
     if canonicalAbsolute workspace \<and> canonicalAbsolute candidate \<and> workspace \<noteq> ''/''
     then (if below workspace candidate
           then d_Allowed decision \<and> list_all proper (splitPath relative) \<and>
                splitPath candidate = splitPath workspace @ splitPath relative
           else decision = \<lparr> d_Allowed = False, d_Code = outsideCode (p_path p) \<rparr>)
     else decision = \<lparr> d_Allowed = False, d_Code = invalidCode (p_path p) \<rparr>"
proof (cases "canonicalAbsolute workspace \<and> canonicalAbsolute candidate \<and> workspace \<noteq> ''/''")
  case False
  then show ?thesis by (auto simp: validateWorkspacePath_def sep_def)
next
  case True
  then obtain ws cs where ws: "\<forall>part \<in> set ws. proper part" "workspace = sep # join_sep ws"
    and cs: "\<forall>part \<in> set cs. proper part" "candidate = sep # join_sep cs"
    unfolding canonicalAbsolute_iff by blast
  then have ne: "ws \<noteq> []" using True by (auto simp: sep_def)
  show ?thesis
  proof (cases "\<exists>rest. cs = ws @ rest")
    case True
    then obtain rest where rest: "cs = ws @ rest" by blast
    then have pr: "\<forall>part \<in> set rest. proper part" using cs by auto
    have "splitPath (if rest = [] then dot else join_sep rest) = rest"
      by (rule splitPath_relative [OF pr])
    then show ?thesis
      using validate_below [OF ne ws(1) pr, of p] below_iff [OF ne ws(1) cs(1)] pr rest ws cs
        \<open>canonicalAbsolute workspace \<and> canonicalAbsolute candidate \<and> workspace \<noteq> ''/''\<close>
        splitPath_proper [OF ws(1)] splitPath_proper [OF cs(1)]
      by (simp add: list_all_iff)
  next
    case False
    then show ?thesis
      using validate_outside [OF ne ws(1) cs(1), of p] below_iff [OF ne ws(1) cs(1)] True ws cs
      by simp
  qed
qed

end
