(* ===== verification/Utf8.thy ===== *)
theory Utf8
  imports Prelude
begin

section \<open>UTF-8, as the Go standard library decides it\<close>

text \<open>
  \<open>unicode/utf8.Valid\<close> and \<open>strings.ToValidUTF8\<close>, which the state and command-line packages
  call. \<open>rune_width\<close> is the width \<open>utf8.DecodeRune\<close> reports for a valid rune at the head of
  the bytes (with its table of accepted second bytes, which excludes overlong forms,
  surrogates and values above U+10FFFF), and 0 where it would report an error.
\<close>

definition byte_at :: "bytes \<Rightarrow> nat \<Rightarrow> nat" where
  "byte_at s i = (if i < length s then of_char (s ! i) else 0)"

definition continuation :: "nat \<Rightarrow> bool" where
  "continuation b \<longleftrightarrow> 128 \<le> b \<and> b \<le> 191"

definition rune_width_bytes :: "nat \<Rightarrow> nat \<Rightarrow> nat \<Rightarrow> nat \<Rightarrow> nat" where
  "rune_width_bytes a b c d =
    (if a < 128 then 1
     else if 194 \<le> a \<and> a \<le> 223 then (if continuation b then 2 else 0)
     else if 224 \<le> a \<and> a \<le> 239 then
       (if (if a = 224 then 160 \<le> b \<and> b \<le> 191
            else if a = 237 then 128 \<le> b \<and> b \<le> 159 else continuation b) \<and> continuation c
        then 3 else 0)
     else if 240 \<le> a \<and> a \<le> 244 then
       (if (if a = 240 then 144 \<le> b \<and> b \<le> 191
            else if a = 244 then 128 \<le> b \<and> b \<le> 143 else continuation b) \<and>
           continuation c \<and> continuation d
        then 4 else 0)
     else 0)"

definition rune_width :: "bytes \<Rightarrow> nat" where
  "rune_width s =
    (if s = [] then 0
     else rune_width_bytes (byte_at s 0) (byte_at s 1) (byte_at s 2) (byte_at s 3))"

text \<open>A rune of width \<open>w\<close> is decided by its first \<open>w\<close> bytes, and those are not zero bytes.\<close>

lemma rune_width_bytes_local:
  "rune_width_bytes a b c d = 1 \<Longrightarrow> rune_width_bytes a b' c' d' = 1"
  "rune_width_bytes a b c d = 2 \<Longrightarrow> rune_width_bytes a b c' d' = 2"
  "rune_width_bytes a b c d = 3 \<Longrightarrow> rune_width_bytes a b c d' = 3"
  by (simp_all add: rune_width_bytes_def split: if_split_asm)

lemma rune_width_bytes_second: "2 \<le> rune_width_bytes a b c d \<Longrightarrow> 0 < b"
  by (simp add: rune_width_bytes_def continuation_def split: if_split_asm)

lemma rune_width_bytes_third: "3 \<le> rune_width_bytes a b c d \<Longrightarrow> 0 < c"
  by (simp add: rune_width_bytes_def continuation_def split: if_split_asm)

lemma rune_width_bytes_fourth: "4 \<le> rune_width_bytes a b c d \<Longrightarrow> 0 < d"
  by (simp add: rune_width_bytes_def continuation_def split: if_split_asm)

lemma rune_width_bytes_range: "rune_width_bytes a b c d \<in> {0, 1, 2, 3, 4}"
  by (simp add: rune_width_bytes_def)

lemma byte_at_append [simp]: "i < length s \<Longrightarrow> byte_at (s @ t) i = byte_at s i"
  by (simp add: byte_at_def nth_append)

lemma byte_at_pos_length: "0 < byte_at s i \<Longrightarrow> i < length s"
  by (cases "i < length s") (simp_all add: byte_at_def)

lemma rune_width_range: "rune_width s \<in> {0, 1, 2, 3, 4}"
  using rune_width_bytes_range by (simp add: rune_width_def)

lemma rune_width_le4: "rune_width s \<le> 4"
  using rune_width_range [of s] by auto

lemma rune_width_le: "rune_width s \<le> length s"
proof (cases "s = []")
  case False
  have "Suc 0 \<le> length s"
    using False by (cases s) auto
  moreover have "2 \<le> rune_width s \<Longrightarrow> 1 < length s"
    using False rune_width_bytes_second byte_at_pos_length by (metis rune_width_def)
  moreover have "3 \<le> rune_width s \<Longrightarrow> 2 < length s"
    using False rune_width_bytes_third byte_at_pos_length by (metis rune_width_def)
  moreover have "4 \<le> rune_width s \<Longrightarrow> 3 < length s"
    using False rune_width_bytes_fourth byte_at_pos_length by (metis rune_width_def)
  ultimately show ?thesis
    using rune_width_range [of s] by auto
qed (simp add: rune_width_def)

lemma rune_width_cong:
  assumes "0 < rune_width s"
    and "\<And>i. i < rune_width s \<Longrightarrow> byte_at t i = byte_at s i"
    and "t \<noteq> []"
  shows "rune_width t = rune_width s"
proof -
  have s: "s \<noteq> []"
    using assms(1) by (auto simp: rune_width_def)
  let ?w = "rune_width s"
  have eq: "?w = rune_width_bytes (byte_at s 0) (byte_at s 1) (byte_at s 2) (byte_at s 3)"
    using s by (simp add: rune_width_def)
  have t: "rune_width t = rune_width_bytes (byte_at t 0) (byte_at t 1) (byte_at t 2) (byte_at t 3)"
    using assms(3) by (simp add: rune_width_def)
  have at: "?w = n \<Longrightarrow> i < n \<Longrightarrow> byte_at t i = byte_at s i" for n i
    using assms(2) by simp
  consider "?w = 1" | "?w = 2" | "?w = 3" | "?w = 4"
    using assms(1) rune_width_range [of s] by auto
  then show ?thesis
  proof cases
    case 1
    with eq have "rune_width_bytes (byte_at s 0) (byte_at s 1) (byte_at s 2) (byte_at s 3) = 1"
      by simp
    from rune_width_bytes_local(1) [OF this] 1 at [OF 1, of 0] t show ?thesis by simp
  next
    case 2
    with eq have "rune_width_bytes (byte_at s 0) (byte_at s 1) (byte_at s 2) (byte_at s 3) = 2"
      by simp
    from rune_width_bytes_local(2) [OF this] 2 at [OF 2, of 0] at [OF 2, of 1] t
    show ?thesis by simp
  next
    case 3
    with eq have "rune_width_bytes (byte_at s 0) (byte_at s 1) (byte_at s 2) (byte_at s 3) = 3"
      by simp
    from rune_width_bytes_local(3) [OF this] 3 at [OF 3, of 0] at [OF 3, of 1] at [OF 3, of 2] t
    show ?thesis by simp
  next
    case 4
    with at [OF 4, of 0] at [OF 4, of 1] at [OF 4, of 2] at [OF 4, of 3] eq t
    show ?thesis by simp
  qed
qed

lemma rune_width_append:
  assumes "0 < rune_width s"
  shows "rune_width (s @ t) = rune_width s"
proof (rule rune_width_cong)
  show "s @ t \<noteq> []"
    using assms by (auto simp: rune_width_def)
  show "byte_at (s @ t) i = byte_at s i" if "i < rune_width s" for i
    using that rune_width_le [of s] by simp
qed (rule assms)

lemma rune_width_take:
  assumes "0 < rune_width s"
  shows "rune_width (take (rune_width s) s) = rune_width s"
proof (rule rune_width_cong)
  show "take (rune_width s) s \<noteq> []"
    using assms rune_width_le [of s] by auto
  show "byte_at (take (rune_width s) s) i = byte_at s i" if "i < rune_width s" for i
    using that rune_width_le [of s] by (simp add: byte_at_def)
qed (rule assms)

lemma rune_width_ascii: "of_char c < (128 :: nat) \<Longrightarrow> rune_width (c # s) = 1"
  by (simp add: rune_width_def rune_width_bytes_def byte_at_def)

function utf8_Valid :: "bytes \<Rightarrow> bool" where
  "utf8_Valid s =
    (if s = [] then True
     else if rune_width s = 0 then False
     else utf8_Valid (drop (rune_width s) s))"
  by pat_completeness auto
termination
  by (relation "measure length") (auto simp: rune_width_le)

declare utf8_Valid.simps [simp del]

lemma utf8_Valid_Nil [simp]: "utf8_Valid []"
  by (simp add: utf8_Valid.simps)

lemma utf8_Valid_step:
  "0 < rune_width s \<Longrightarrow> utf8_Valid s \<longleftrightarrow> utf8_Valid (drop (rune_width s) s)"
  by (subst utf8_Valid.simps) auto

lemma utf8_Valid_append:
  "utf8_Valid s \<Longrightarrow> utf8_Valid (s @ t) \<longleftrightarrow> utf8_Valid t"
proof (induction s rule: utf8_Valid.induct)
  case (1 s)
  show ?case
  proof (cases "s = []")
    case False
    with "1.prems" have w: "0 < rune_width s" and v: "utf8_Valid (drop (rune_width s) s)"
      by (auto simp: utf8_Valid.simps [of s] split: if_splits)
    have "utf8_Valid (s @ t) \<longleftrightarrow> utf8_Valid (drop (rune_width s) s @ t)"
      using utf8_Valid_step [of "s @ t"] w rune_width_append [OF w, of t] rune_width_le [of s]
      by simp
    with "1.IH" [OF False _ v] w show ?thesis by simp
  qed simp
qed

lemma utf8_Valid_take_rune:
  assumes "0 < rune_width s"
  shows "utf8_Valid (take (rune_width s) s)"
  using assms rune_width_take [OF assms] rune_width_le [of s]
  by (subst utf8_Valid.simps) simp

subsection \<open>\<open>strings.ToValidUTF8\<close>\<close>

text \<open>
  The loop over the string: a maximal run of invalid bytes is replaced by one replacement,
  \<open>invalid\<close> being whether the previous byte belonged to such a run.
\<close>

function to_valid_from :: "bytes \<Rightarrow> bytes \<Rightarrow> bool \<Rightarrow> bytes" where
  "to_valid_from replacement s invalid =
    (if s = [] then []
     else if rune_width s = 0
     then (if invalid then [] else replacement) @ to_valid_from replacement (tl s) True
     else take (rune_width s) s @ to_valid_from replacement (drop (rune_width s) s) False)"
  by pat_completeness auto
termination
  by (relation "measure (\<lambda>(r, s, i). length s)") (auto simp: rune_width_le)

declare to_valid_from.simps [simp del]

definition strings_ToValidUTF8 :: "bytes \<Rightarrow> bytes \<Rightarrow> bytes" where
  "strings_ToValidUTF8 s replacement = to_valid_from replacement s False"

text \<open>The replacement character U+FFFD, encoded.\<close>

definition replacement_character :: bytes where
  "replacement_character = [char_of (239 :: nat), char_of (191 :: nat), char_of (189 :: nat)]"

lemma replacement_valid: "utf8_Valid replacement_character"
  by (simp add: replacement_character_def utf8_Valid.simps rune_width_def rune_width_bytes_def
      byte_at_def continuation_def)

lemma length_replacement [simp]: "length replacement_character = 3"
  by (simp add: replacement_character_def)

lemma to_valid_from_valid: "utf8_Valid r \<Longrightarrow> utf8_Valid (to_valid_from r s invalid)"
proof (induction r s invalid rule: to_valid_from.induct)
  case (1 r s invalid)
  consider "s = []" | "s \<noteq> []" "rune_width s = 0" | "s \<noteq> []" "0 < rune_width s"
    by blast
  then show ?case
  proof cases
    case 1
    then show ?thesis by (simp add: to_valid_from.simps)
  next
    case 2
    with "1.IH"(1) "1.prems" show ?thesis
      by (subst to_valid_from.simps) (simp add: utf8_Valid_append)
  next
    case 3
    with "1.IH"(2) "1.prems" utf8_Valid_take_rune [of s] show ?thesis
      by (subst to_valid_from.simps) (simp add: utf8_Valid_append)
  qed
qed

lemma to_valid_from_id: "utf8_Valid s \<Longrightarrow> to_valid_from r s invalid = s"
proof (induction r s invalid rule: to_valid_from.induct)
  case (1 r s invalid)
  show ?case
  proof (cases "s = []")
    case False
    with "1.prems" have "0 < rune_width s" "utf8_Valid (drop (rune_width s) s)"
      by (auto simp: utf8_Valid.simps [of s] split: if_splits)
    with "1.IH"(2) False show ?thesis
      by (subst to_valid_from.simps) simp
  qed (simp add: to_valid_from.simps)
qed

lemma to_valid_from_append_valid:
  "utf8_Valid s \<Longrightarrow> t \<noteq> [] \<or> s \<noteq> [] \<Longrightarrow>
   to_valid_from r (s @ t) invalid = s @ to_valid_from r t (s = [] \<and> invalid)"
proof (induction r s invalid rule: to_valid_from.induct)
  case (1 r s invalid)
  show ?case
  proof (cases "s = []")
    case False
    let ?w = "rune_width s"
    from False "1.prems"(1) have w: "0 < ?w" and v: "utf8_Valid (drop ?w s)"
      by (auto simp: utf8_Valid.simps [of s] split: if_splits)
    have wa: "rune_width (s @ t) = ?w" and le: "?w \<le> length s"
      using rune_width_append [OF w] rune_width_le by auto
    have "to_valid_from r (s @ t) invalid
        = take ?w s @ to_valid_from r (drop ?w s @ t) False"
      using w wa le False by (subst to_valid_from.simps) simp
    also have "to_valid_from r (drop ?w s @ t) False = drop ?w s @ to_valid_from r t False"
    proof (cases "t \<noteq> [] \<or> drop ?w s \<noteq> []")
      case True
      then show ?thesis using "1.IH"(2) [OF False _ v] w by simp
    qed (simp add: to_valid_from.simps)
    finally show ?thesis using False by simp
  qed simp
qed

lemma length_to_valid_from:
  "length (to_valid_from r s invalid) \<le> max 1 (length r) * length s"
proof (induction r s invalid rule: to_valid_from.induct)
  case (1 r s invalid)
  consider "s = []" | "s \<noteq> []" "rune_width s = 0" | "s \<noteq> []" "0 < rune_width s"
    by blast
  then show ?case
  proof cases
    case 1
    then show ?thesis by (simp add: to_valid_from.simps)
  next
    case 2
    then obtain x xs where s: "s = x # xs" by (cases s) auto
    have "length (to_valid_from r s invalid) \<le> length r + max 1 (length r) * length xs"
      using 2 "1.IH"(1) s by (subst to_valid_from.simps) auto
    also have "\<dots> \<le> max 1 (length r) * length s"
      by (simp add: s)
    finally show ?thesis .
  next
    case 3
    let ?w = "rune_width s"
    have le: "?w \<le> length s" by (rule rune_width_le)
    have "length (to_valid_from r s invalid) \<le> ?w + max 1 (length r) * (length s - ?w)"
      using 3 "1.IH"(2) le by (subst to_valid_from.simps) (auto simp: min_def)
    also have "\<dots> \<le> max 1 (length r) * ?w + max 1 (length r) * (length s - ?w)"
      by simp
    also have "\<dots> = max 1 (length r) * length s"
      using le by (simp flip: distrib_left)
    finally show ?thesis .
  qed
qed

end
