(* ===== verification/Cursor.thy ===== *)
theory Cursor
  imports Policy Utf8
begin

section \<open>Cursors, output ranges and observers\<close>

text \<open>
  \<open>cursor_policy.go\<close> and \<open>observer_policy.go\<close>: validation of byte cursors and ranges
  against the captured prefix, the output chunk cut out of it, the cursor a wait starts from
  and the cursor it leaves behind. Cursors are Go \<open>int\<close>s; the policy's limit is a
  \<open>uint64\<close> converted to \<open>int64\<close>.
\<close>

definition corruptStateDecision :: Decision where
  "corruptStateDecision = \<lparr> d_Allowed = False, d_Code = CodeCorruptState \<rparr>"

definition ValidateCursor :: "Policy \<Rightarrow> CursorContext \<Rightarrow> Decision" where
  "ValidateCursor p context =
    (let limit = int64_of_u64 (p_captureLimit p) in
     if cu_Captured context < 0 \<or> cu_Captured context > limit then corruptStateDecision
     else if cu_Cursor context < 0 \<or> cu_Cursor context > cu_Captured context
     then \<lparr> d_Allowed = False, d_Code = invalidCursorCode (p_cursor p) \<rparr>
     else \<lparr> d_Allowed = True, d_Code = CodeAllow \<rparr>)"

definition ValidateRange :: "Policy \<Rightarrow> RangeContext \<Rightarrow> Decision" where
  "ValidateRange p context =
    (let limit = int64_of_u64 (p_captureLimit p) in
     if rg_Captured context < 0 \<or> rg_Captured context > limit then corruptStateDecision
     else if rg_Start context < 0 \<or> rg_End context < rg_Start context \<or>
             rg_End context > rg_Captured context
     then \<lparr> d_Allowed = False, d_Code = invalidRangeCode (p_cursor p) \<rparr>
     else \<lparr> d_Allowed = True, d_Code = CodeAllow \<rparr>)"

definition ResolveOutputRange ::
  "Policy \<Rightarrow> OutputPayload \<Rightarrow> int \<Rightarrow> RangeContext \<times> Decision" where
  "ResolveOutputRange p payload captured =
    (let start = (case op_StartCursorBytes payload of None \<Rightarrow> 0 | Some c \<Rightarrow> c);
         end_cursor = (case op_EndCursorBytes payload of None \<Rightarrow> captured | Some c \<Rightarrow> c);
         resolved = \<lparr> rg_Start = start, rg_End = end_cursor, rg_Captured = captured \<rparr>
     in (resolved, ValidateRange p resolved))"

definition empty_chunk :: OutputChunk where
  "empty_chunk =
    \<lparr> ck_CapturedBytes = 0, ck_Eof = False, ck_NextCursorBytes = 0, ck_StartCursorBytes = 0,
      ck_Text = [] \<rparr>"

text \<open>The Go slice expression \<open>raw[i:j]\<close>, for the indices the code has validated.\<close>

definition byte_slice :: "bytes \<Rightarrow> int \<Rightarrow> int \<Rightarrow> bytes" where
  "byte_slice raw i j = take (nat (j - i)) (drop (nat i) raw)"

definition Output :: "Policy \<Rightarrow> bytes \<Rightarrow> OutputContext \<Rightarrow> OutputChunk \<times> Decision" where
  "Output p raw context =
    (let range = ox_Range context; decision = ValidateRange p range in
     if \<not> d_Allowed decision then (empty_chunk, decision)
     else if rg_Captured range \<noteq> int (length raw)
     then (empty_chunk, \<lparr> d_Allowed = False, d_Code = CodeCorruptState \<rparr>)
     else
       (\<lparr> ck_CapturedBytes = rg_Captured range,
          ck_Eof = (ox_Terminal context \<and> rg_End range = rg_Captured range),
          ck_NextCursorBytes = rg_End range,
          ck_StartCursorBytes = rg_Start range,
          ck_Text = strings_ToValidUTF8 (byte_slice raw (rg_Start range) (rg_End range))
                      replacement_character \<rparr>,
        decision))"

subsection \<open>Observers\<close>

definition ResolveWaitCursor :: "Policy \<Rightarrow> WaitCursorContext \<Rightarrow> ByteCursor" where
  "ResolveWaitCursor p context =
    (case wc_Explicit context of
       Some c \<Rightarrow> c
     | None \<Rightarrow>
         (case wc_Observer context of
            Some observer \<Rightarrow> oc_CursorBytes observer
          | None \<Rightarrow> defaultCursor (p_observer p)))"

definition empty_observer :: ObserverCursor where
  "empty_observer = \<lparr> oc_CursorBytes = 0, oc_SessionID = [], oc_UpdatedAtUnixMs = 0 \<rparr>"

definition ObserverAfter ::
  "Policy \<Rightarrow> ObserverAdvanceContext \<Rightarrow> ObserverCursor \<times> Decision" where
  "ObserverAfter p context =
    (if oa_Action context \<noteq> ActionWait
     then (oa_Current context, \<lparr> d_Allowed = True, d_Code = CodeAllow \<rparr>)
     else
       let decision = ValidateCursor p
             \<lparr> cu_Cursor = ck_NextCursorBytes (oa_Output context),
               cu_Captured = ck_CapturedBytes (oa_Output context) \<rparr> in
       if \<not> d_Allowed decision then (empty_observer, decision)
       else (\<lparr> oc_CursorBytes = ck_NextCursorBytes (oa_Output context),
               oc_SessionID = oc_SessionID (oa_Current context),
               oc_UpdatedAtUnixMs = oa_UpdatedAtUnixMs context \<rparr>, decision))"

definition WaitTimeout :: "Policy \<Rightarrow> TimeoutMs" where
  "WaitTimeout p = waitTimeout (p_defaults p)"

definition IdleCheckpoint :: "Policy \<Rightarrow> TimeoutMs" where
  "IdleCheckpoint p = idleCheckpoint (p_defaults p)"

definition HardTimeout :: "Policy \<Rightarrow> TimeoutMs" where
  "HardTimeout p = hardTimeout (p_defaults p)"

subsection \<open>Lemmas\<close>

lemma captureLimit_v1 [simp]: "int64_of_u64 104857600 = 104857600"
  by (simp add: int64_of_u64_small)

lemma ValidateCursor_allowed_iff:
  "d_Allowed (ValidateCursor p c) \<longleftrightarrow>
   0 \<le> cu_Cursor c \<and> cu_Cursor c \<le> cu_Captured c \<and>
   cu_Captured c \<le> int64_of_u64 (p_captureLimit p)"
  by (auto simp: ValidateCursor_def corruptStateDecision_def Let_def)

lemma ValidateRange_allowed_iff:
  "d_Allowed (ValidateRange p r) \<longleftrightarrow>
   0 \<le> rg_Start r \<and> rg_Start r \<le> rg_End r \<and> rg_End r \<le> rg_Captured r \<and>
   rg_Captured r \<le> int64_of_u64 (p_captureLimit p)"
  by (auto simp: ValidateRange_def corruptStateDecision_def Let_def)

lemma ValidateRange_allowed_code:
  "d_Allowed (ValidateRange p r) \<Longrightarrow> ValidateRange p r = \<lparr> d_Allowed = True, d_Code = CodeAllow \<rparr>"
  by (auto simp: ValidateRange_def corruptStateDecision_def Let_def split: if_splits)

lemma Output_allowed_iff:
  "d_Allowed (snd (Output p raw context)) \<longleftrightarrow>
   d_Allowed (ValidateRange p (ox_Range context)) \<and>
   rg_Captured (ox_Range context) = int (length raw)"
  by (auto simp: Output_def Let_def)

lemma length_byte_slice:
  "0 \<le> i \<Longrightarrow> i \<le> j \<Longrightarrow> j \<le> int (length raw) \<Longrightarrow> length (byte_slice raw i j) = nat (j - i)"
  by (simp add: byte_slice_def nat_diff_distrib)

lemma byte_slice_split:
  assumes "0 \<le> i" "i \<le> j" "j \<le> k"
  shows "byte_slice raw i k = byte_slice raw i j @ byte_slice raw j k"
proof -
  have k: "nat (k - i) = nat (j - i) + nat (k - j)" and j: "nat j = nat (j - i) + nat i"
    using assms by simp_all
  show ?thesis
    by (simp add: byte_slice_def k j take_add)
qed

text \<open>The chunk an output request gets describes the bytes it was cut from: when the request
  is allowed the raw bytes are the whole captured prefix, the cursors are the validated range
  inside it, the next cursor is the range's end, end of file is reported exactly at the end of
  a finished job's output, the text is valid UTF-8 of at most three bytes per raw byte, and it
  is the raw slice itself when that slice is valid UTF-8. When it is refused the chunk is
  empty.\<close>

lemma Output_chunk_faithful:
  "(case Output p raw ctx of (chunk, decision) \<Rightarrow>
     let range = ox_Range ctx; slice = byte_slice raw (rg_Start range) (rg_End range) in
     if d_Allowed decision
     then ck_StartCursorBytes chunk = rg_Start range \<and> ck_NextCursorBytes chunk = rg_End range \<and>
          0 \<le> rg_Start range \<and> rg_Start range \<le> rg_End range \<and>
          rg_End range \<le> int (length raw) \<and> ck_CapturedBytes chunk = int (length raw) \<and>
          (ck_Eof chunk \<longleftrightarrow> ox_Terminal ctx \<and> rg_End range = int (length raw)) \<and>
          utf8_Valid (ck_Text chunk) \<and> length (ck_Text chunk) \<le> 3 * length slice \<and>
          (utf8_Valid slice \<longrightarrow> ck_Text chunk = slice)
     else chunk = empty_chunk)"
proof (cases "d_Allowed (snd (Output p raw ctx))")
  case True
  then have range: "d_Allowed (ValidateRange p (ox_Range ctx))"
    and raw: "rg_Captured (ox_Range ctx) = int (length raw)"
    by (simp_all add: Output_allowed_iff)
  show ?thesis
    using True range raw to_valid_from_valid [OF replacement_valid] to_valid_from_id
      length_to_valid_from [of replacement_character _ False]
    by (simp add: Output_def strings_ToValidUTF8_def ValidateRange_allowed_iff Let_def)
next
  case False
  then show ?thesis
    by (auto simp: Output_def Let_def split: if_splits)
qed

lemma Output_chunk_faithful_witness:
  "ck_Text (fst (Output policy_v1 ''abcd''
     \<lparr> ox_Range = \<lparr> rg_Start = 1, rg_End = 3, rg_Captured = 4 \<rparr>, ox_Terminal = True \<rparr>)) = ''bc''"
proof -
  have "utf8_Valid ''bc''"
    by (simp add: utf8_Valid.simps rune_width_ascii)
  then show ?thesis
    using Output_chunk_faithful [where p = policy_v1 and raw = "''abcd''" and ctx =
      "\<lparr> ox_Range = \<lparr> rg_Start = 1, rg_End = 3, rg_Captured = 4 \<rparr>, ox_Terminal = True \<rparr>"]
    by (simp add: Output_def ValidateRange_def byte_slice_def Let_def numeral_eq_Suc
        split: prod.splits)
qed

text \<open>Reading in pieces loses nothing: if a first read ends at a cursor where the bytes read so
  far form valid UTF-8, then reading on from its next cursor to a later end gives exactly the
  text a single read would have given, at the same captured length.\<close>

lemma Output_pieces_compose:
  assumes first_ok: "Output p raw \<lparr> ox_Range = \<lparr> rg_Start = a, rg_End = b, rg_Captured = n \<rparr>,
                                 ox_Terminal = t \<rparr> = (c1, d1)" "d_Allowed d1"
    and second_ok: "Output p raw
        \<lparr> ox_Range = \<lparr> rg_Start = ck_NextCursorBytes c1, rg_End = c, rg_Captured = n \<rparr>,
          ox_Terminal = t \<rparr> = (c2, d2)" "d_Allowed d2"
    and boundary: "utf8_Valid (byte_slice raw a b)"
  shows "Output p raw \<lparr> ox_Range = \<lparr> rg_Start = a, rg_End = c, rg_Captured = n \<rparr>,
                        ox_Terminal = t \<rparr> =
         (c2\<lparr> ck_StartCursorBytes := a, ck_Text := ck_Text c1 @ ck_Text c2 \<rparr>, d2)"
proof -
  let ?slice = "byte_slice raw"
  have r1: "0 \<le> a" "a \<le> b" "b \<le> n" "n \<le> int64_of_u64 (p_captureLimit p)"
    and n: "n = int (length raw)" and c1: "ck_NextCursorBytes c1 = b" "ck_Text c1 = ?slice a b"
    using first_ok boundary
    by (auto simp: Output_def ValidateRange_allowed_iff Let_def strings_ToValidUTF8_def
        to_valid_from_id split: if_splits)
  have r2: "b \<le> c" "c \<le> n"
    using second_ok c1
    by (auto simp: Output_def ValidateRange_allowed_iff Let_def split: if_splits)
  have "strings_ToValidUTF8 (?slice a b @ ?slice b c) replacement_character
      = ?slice a b @ strings_ToValidUTF8 (?slice b c) replacement_character"
  proof (cases "?slice b c \<noteq> [] \<or> ?slice a b \<noteq> []")
    case True
    then show ?thesis
      using to_valid_from_append_valid [OF boundary True]
      by (simp add: strings_ToValidUTF8_def)
  qed (simp add: strings_ToValidUTF8_def to_valid_from.simps)
  then have whole: "strings_ToValidUTF8 (?slice a c) replacement_character
      = ck_Text c1 @ strings_ToValidUTF8 (?slice b c) replacement_character"
    using byte_slice_split [of a b c raw] r1 r2 c1 by simp
  have "ValidateRange p \<lparr> rg_Start = a, rg_End = c, rg_Captured = n \<rparr>
      = \<lparr> d_Allowed = True, d_Code = CodeAllow \<rparr>"
    using r1 r2 by (intro ValidateRange_allowed_code) (simp add: ValidateRange_allowed_iff)
  moreover have "ValidateRange p \<lparr> rg_Start = b, rg_End = c, rg_Captured = n \<rparr>
      = \<lparr> d_Allowed = True, d_Code = CodeAllow \<rparr>"
    using r1 r2 by (intro ValidateRange_allowed_code) (simp add: ValidateRange_allowed_iff)
  ultimately show ?thesis
    using second_ok c1 n whole by (auto simp: Output_def Let_def)
qed

lemma Output_pieces_compose_witness:
  "Output policy_v1 ''abcd''
     \<lparr> ox_Range = \<lparr> rg_Start = 1, rg_End = 4, rg_Captured = 4 \<rparr>, ox_Terminal = True \<rparr> =
   (\<lparr> ck_CapturedBytes = 4, ck_Eof = True, ck_NextCursorBytes = 4, ck_StartCursorBytes = 1,
      ck_Text = ''bcd'' \<rparr>, \<lparr> d_Allowed = True, d_Code = CodeAllow \<rparr>)"
proof -
  have ascii: "utf8_Valid ''b''" "utf8_Valid ''cd''"
    by (simp_all add: utf8_Valid.simps rune_width_ascii)
  show ?thesis
    using Output_pieces_compose [of policy_v1 "''abcd''" 1 2 4 True
      "\<lparr> ck_CapturedBytes = 4, ck_Eof = False, ck_NextCursorBytes = 2, ck_StartCursorBytes = 1,
         ck_Text = ''b'' \<rparr>" "\<lparr> d_Allowed = True, d_Code = CodeAllow \<rparr>" 4
      "\<lparr> ck_CapturedBytes = 4, ck_Eof = True, ck_NextCursorBytes = 4, ck_StartCursorBytes = 2,
         ck_Text = ''cd'' \<rparr>" "\<lparr> d_Allowed = True, d_Code = CodeAllow \<rparr>"] ascii
    by (simp add: Output_def ValidateRange_def byte_slice_def strings_ToValidUTF8_def
        to_valid_from_id Let_def numeral_eq_Suc)
qed

text \<open>C37: A wait that starts from the cursor it resolved and reads to the end leaves its observer
  at that end. The cursor is the explicit one, or else the one the session's observer has
  reached, or else the policy's default, which is zero; the read from it to the end of the
  captured bytes is allowed exactly if that cursor lies between zero and the captured length
  and the captured length within the policy's limit; the observer then moves, under its own
  session, from the resolved cursor to the captured length, which is never backwards: not
  before the cursor the wait started from, and so, for an observer that resumes, not before
  its own. A refused wait gives no chunk; no other action moves an observer.\<close>

theorem wait_observer_advances:
  "let cursor = ResolveWaitCursor p w; captured = int (length raw);
       payload = \<lparr> op_EndCursorBytes = None, op_JobID = job, op_StartCursorBytes = Some cursor \<rparr>;
       (range, decision) = ResolveOutputRange p payload captured;
       (chunk, output_decision) = Output p raw \<lparr> ox_Range = range, ox_Terminal = t \<rparr>;
       advance = \<lparr> oa_Action = action, oa_Current = current, oa_Output = chunk,
                   oa_UpdatedAtUnixMs = now \<rparr> in
   cursor = (case (wc_Explicit w, wc_Observer w) of
               (Some c, _) \<Rightarrow> c
             | (None, Some observer) \<Rightarrow> oc_CursorBytes observer
             | (None, None) \<Rightarrow> defaultCursor (p_observer p)) \<and>
   defaultCursor (p_observer policy_v1) = 0 \<and>
   d_Allowed decision =
     (0 \<le> cursor \<and> cursor \<le> captured \<and> captured \<le> int64_of_u64 (p_captureLimit p)) \<and>
   output_decision = decision \<and>
   (if \<not> d_Allowed decision then chunk = empty_chunk
    else ck_StartCursorBytes chunk = cursor \<and> ck_NextCursorBytes chunk = captured) \<and>
   (if action = ActionWait \<and> d_Allowed decision
    then ObserverAfter p advance =
           (\<lparr> oc_CursorBytes = captured, oc_SessionID = oc_SessionID current,
              oc_UpdatedAtUnixMs = now \<rparr>, \<lparr> d_Allowed = True, d_Code = CodeAllow \<rparr>) \<and>
         cursor \<le> oc_CursorBytes (fst (ObserverAfter p advance)) \<and>
         (if wc_Explicit w = None \<and> wc_Observer w = Some current
          then oc_CursorBytes current \<le> oc_CursorBytes (fst (ObserverAfter p advance))
          else True)
    else if action = ActionWait then True
    else ObserverAfter p advance = (current, \<lparr> d_Allowed = True, d_Code = CodeAllow \<rparr>))"
proof -
  define cursor where "cursor = ResolveWaitCursor p w"
  have resolved: "cursor = (case (wc_Explicit w, wc_Observer w) of
               (Some c, _) \<Rightarrow> c
             | (None, Some observer) \<Rightarrow> oc_CursorBytes observer
             | (None, None) \<Rightarrow> defaultCursor (p_observer p))"
    by (simp add: cursor_def ResolveWaitCursor_def split: option.splits)
  have default: "defaultCursor (p_observer policy_v1) = 0"
    by simp
  define range where
    "range = \<lparr> rg_Start = cursor, rg_End = int (length raw), rg_Captured = int (length raw) \<rparr>"
  have allowed: "d_Allowed (ValidateRange p range) =
      (0 \<le> cursor \<and> cursor \<le> int (length raw) \<and>
       int (length raw) \<le> int64_of_u64 (p_captureLimit p))"
    by (auto simp: ValidateRange_allowed_iff range_def)
  have resumed: "cursor = oc_CursorBytes current"
    if "wc_Explicit w = None" "wc_Observer w = Some current"
    using that resolved by simp
  show ?thesis
  proof (cases "d_Allowed (ValidateRange p range)")
    case True
    then have ok: "ValidateRange p range = \<lparr> d_Allowed = True, d_Code = CodeAllow \<rparr>"
      by (rule ValidateRange_allowed_code)
    have valid: "0 \<le> cursor" "cursor \<le> int (length raw)"
      "int (length raw) \<le> int64_of_u64 (p_captureLimit p)"
      using True allowed by simp_all
    show ?thesis
      unfolding Let_def cursor_def [symmetric] resolved [symmetric] default
      using ok valid resumed
      by (auto simp: ResolveOutputRange_def Output_def ObserverAfter_def ValidateCursor_def
          corruptStateDecision_def Let_def range_def)
  next
    case False
    then show ?thesis
      unfolding Let_def cursor_def [symmetric] resolved [symmetric] default
      using allowed
      by (simp add: ResolveOutputRange_def Output_def ObserverAfter_def Let_def range_def)
  qed
qed

end
