(* ===== verification/StateValidation.thy ===== *)
theory StateValidation
  imports Paths Cursor
begin

section \<open>Validation of a stored state\<close>

text \<open>
  \<open>state_validation.go\<close>, \<open>ValidateStored\<close> of \<open>state_loader.go\<close> and the authorisation
  functions of \<open>trusted_invocation.go\<close>. The JSON schema validator is code of another
  repository: \<open>contracts\<close> carries it as a predicate on the raw bytes. \<open>encoding/json\<close> is
  there as the two functions the code relies on, with nothing assumed of them: the code itself
  checks, before it writes a state, that decoding gives the state back.
\<close>

subsection \<open>Process results\<close>

definition valid_signal :: "int option \<Rightarrow> bool" where
  "valid_signal signal \<longleftrightarrow> (case signal of None \<Rightarrow> True | Some s \<Rightarrow> s > 0 \<and> s \<le> 64)"

definition validProcessResult :: "ProcessResult \<Rightarrow> bool" where
  "validProcessResult result =
    (case pr_Status result of
       TerminalStatusSucceeded \<Rightarrow>
         (case pr_ExitCode result of None \<Rightarrow> False | Some c \<Rightarrow> c = 0 \<and> pr_Signal result = None)
     | TerminalStatusNonzeroExit \<Rightarrow>
         (case pr_ExitCode result of
            None \<Rightarrow> False | Some c \<Rightarrow> c > 0 \<and> c \<le> 255 \<and> pr_Signal result = None)
     | TerminalStatusSignalExit \<Rightarrow>
         pr_ExitCode result = None \<and>
         (case pr_Signal result of None \<Rightarrow> False | Some s \<Rightarrow> s > 0 \<and> s \<le> 64)
     | TerminalStatusCancelled \<Rightarrow> pr_ExitCode result = None \<and> valid_signal (pr_Signal result)
     | TerminalStatusHardTimeout \<Rightarrow> pr_ExitCode result = None \<and> valid_signal (pr_Signal result)
     | TerminalStatusOutputLimit \<Rightarrow> pr_ExitCode result = None \<and> valid_signal (pr_Signal result)
     | TerminalStatusRunnerLost \<Rightarrow>
         pr_ExitCode result = None \<and> pr_Signal result = None \<and>
         (case pr_Diagnostic result of None \<Rightarrow> False | Some d \<Rightarrow> d \<noteq> [])
     | TerminalStatusOther s \<Rightarrow> False)"

subsection \<open>\<open>ValidatePersistedState\<close>\<close>

definition allowDecision :: Decision where
  "allowDecision = \<lparr> d_Allowed = True, d_Code = CodeAllow \<rparr>"

text \<open>The first loop over the observers, with the set of the sessions seen so far.\<close>

fun observers_ok :: "JobMetadata \<Rightarrow> SessionID set \<Rightarrow> ObserverCursor list \<Rightarrow> bool" where
  "observers_ok job observerSessions [] = True"
| "observers_ok job observerSessions (observer # rest) =
    (if oc_SessionID observer \<in> observerSessions \<or> oc_CursorBytes observer < 0 \<or>
        oc_CursorBytes observer > jm_CapturedBytes job \<or>
        oc_UpdatedAtUnixMs observer < jm_CreatedAtUnixMs job
     then False
     else observers_ok job (insert (oc_SessionID observer) observerSessions) rest)"

text \<open>The second one, over the observers of a finished job.\<close>

fun observers_before :: "int \<Rightarrow> ObserverCursor list \<Rightarrow> bool" where
  "observers_before finished [] = True"
| "observers_before finished (observer # rest) =
    (if oc_UpdatedAtUnixMs observer > finished then False else observers_before finished rest)"

text \<open>The part of \<open>ValidatePersistedState\<close> for a job that is not running.\<close>

definition validate_finished :: "PersistedJobState \<Rightarrow> Decision" where
  "validate_finished s =
    (case (jm_FinishedAtUnixMs (ps_Job s), ps_Result s) of
       (Some finished, Some result) \<Rightarrow>
         if finished < jm_StartedAtUnixMs (ps_Job s) \<or>
            (case ps_Cancellation s of
               None \<Rightarrow> False | Some c \<Rightarrow> cm_RequestedAtUnixMs c > finished)
         then corruptStateDecision
         else if \<not> observers_before finished (ps_Observers s) then corruptStateDecision
         else if JobStatus_of_TerminalStatus (pr_Status result) \<noteq> jm_Status (ps_Job s) \<or>
                 pr_CapturedBytes result \<noteq> jm_CapturedBytes (ps_Job s) \<or>
                 pr_FinishedAtUnixMs result \<noteq> finished \<or> \<not> validProcessResult result
         then corruptStateDecision
         else allowDecision
     | _ \<Rightarrow> corruptStateDecision)"

definition ValidatePersistedState :: "Policy \<Rightarrow> PersistedJobState \<Rightarrow> Decision" where
  "ValidatePersistedState p s =
    (let job = ps_Job s in
     if ps_SchemaVersion s \<noteq> 1 \<or> sm_SchemaVersion (ps_Session s) \<noteq> 1 then corruptStateDecision
     else if \<not> isKnownStatus p (jm_Status job) \<or> jm_OutputLimitBytes job \<le> 0 \<or>
             u64_of (jm_OutputLimitBytes job) > p_captureLimit p
     then corruptStateDecision
     else if sm_CreatedAtUnixMs (ps_Session s) > jm_CreatedAtUnixMs job \<or>
             jm_CreatedAtUnixMs job > jm_StartedAtUnixMs job
     then corruptStateDecision
     else if jm_CapturedBytes job < 0 \<or> jm_CapturedBytes job > jm_OutputLimitBytes job
     then corruptStateDecision
     else if sm_SessionID (ps_Session s) \<noteq> jm_OwnerSessionID job \<or>
             sm_WorkspacePath (ps_Session s) \<noteq> jm_WorkspacePath job
     then corruptStateDecision
     else if \<not> d_Allowed (snd (validateWorkspacePath p (jm_WorkspacePath job) (jm_Cwd job)))
     then corruptStateDecision
     else if \<not> observers_ok job {} (ps_Observers s) then corruptStateDecision
     else if (case ps_Cancellation s of
                None \<Rightarrow> False | Some c \<Rightarrow> cm_RequestedAtUnixMs c < jm_CreatedAtUnixMs job)
     then corruptStateDecision
     else if (case ps_Cancellation s of
                None \<Rightarrow> False
              | Some c \<Rightarrow> \<not> cm_Requested c \<or> cm_RequestedBySessionID c \<noteq> jm_OwnerSessionID job)
     then corruptStateDecision
     else if jm_Status job = JobStatusRunning
     then (if jm_FinishedAtUnixMs job \<noteq> None \<or> ps_Result s \<noteq> None then corruptStateDecision
           else allowDecision)
     else validate_finished s)"

subsection \<open>What a valid state is\<close>

text \<open>
  The declarative specification: the job's identity agrees with its session's, times are in
  order, cursors lie in the captured prefix, and a job is finished exactly when it has a result,
  which then says the same as the job's metadata.
\<close>

definition signal_number :: "int \<Rightarrow> bool" where
  "signal_number n \<longleftrightarrow> 1 \<le> n \<and> n \<le> 64"

definition exited_with :: "ProcessResult \<Rightarrow> (int \<Rightarrow> bool) \<Rightarrow> bool" where
  "exited_with result allowed \<longleftrightarrow>
    pr_Signal result = None \<and> (\<exists>code. pr_ExitCode result = Some code \<and> allowed code)"

definition result_shape :: "ProcessResult \<Rightarrow> bool" where
  "result_shape result \<longleftrightarrow>
    (pr_Status result = TerminalStatusSucceeded \<and> exited_with result (\<lambda>code. code = 0)) \<or>
    (pr_Status result = TerminalStatusNonzeroExit \<and>
       exited_with result (\<lambda>code. 1 \<le> code \<and> code \<le> 255)) \<or>
    (pr_Status result = TerminalStatusSignalExit \<and> pr_ExitCode result = None \<and>
       (\<exists>n. pr_Signal result = Some n \<and> signal_number n)) \<or>
    (pr_Status result \<in>
         {TerminalStatusCancelled, TerminalStatusHardTimeout, TerminalStatusOutputLimit} \<and>
       pr_ExitCode result = None \<and>
       (pr_Signal result = None \<or> (\<exists>n. pr_Signal result = Some n \<and> signal_number n))) \<or>
    (pr_Status result = TerminalStatusRunnerLost \<and> pr_ExitCode result = None \<and>
       pr_Signal result = None \<and> (\<exists>d. pr_Diagnostic result = Some d \<and> d \<noteq> []))"

definition result_agrees :: "PersistedJobState \<Rightarrow> bool" where
  "result_agrees s \<longleftrightarrow>
    (if jm_Status (ps_Job s) = JobStatusRunning
     then jm_FinishedAtUnixMs (ps_Job s) = None \<and> ps_Result s = None
     else \<exists>result. ps_Result s = Some result \<and> result_shape result \<and>
            jm_FinishedAtUnixMs (ps_Job s) = Some (pr_FinishedAtUnixMs result) \<and>
            jm_Status (ps_Job s) = JobStatus_of_TerminalStatus (pr_Status result) \<and>
            pr_CapturedBytes result = jm_CapturedBytes (ps_Job s))"

definition times_ordered :: "PersistedJobState \<Rightarrow> bool" where
  "times_ordered s \<longleftrightarrow>
    sm_CreatedAtUnixMs (ps_Session s) \<le> jm_CreatedAtUnixMs (ps_Job s) \<and>
    jm_CreatedAtUnixMs (ps_Job s) \<le> jm_StartedAtUnixMs (ps_Job s) \<and>
    (\<forall>t \<in> set (map oc_UpdatedAtUnixMs (ps_Observers s)) \<union>
            cm_RequestedAtUnixMs ` set_option (ps_Cancellation s).
       jm_CreatedAtUnixMs (ps_Job s) \<le> t \<and>
       (\<forall>finished \<in> set_option (jm_FinishedAtUnixMs (ps_Job s)). t \<le> finished)) \<and>
    (\<forall>finished \<in> set_option (jm_FinishedAtUnixMs (ps_Job s)). jm_StartedAtUnixMs (ps_Job s) \<le> finished)"

definition cursors_inside :: "PersistedJobState \<Rightarrow> bool" where
  "cursors_inside s \<longleftrightarrow>
    distinct (map oc_SessionID (ps_Observers s)) \<and>
    (\<forall>observer \<in> set (ps_Observers s).
       0 \<le> oc_CursorBytes observer \<and> oc_CursorBytes observer \<le> jm_CapturedBytes (ps_Job s))"

definition lies_inside :: "string \<Rightarrow> string \<Rightarrow> bool" where
  "lies_inside workspace directory \<longleftrightarrow>
    canonicalAbsolute workspace \<and> canonicalAbsolute directory \<and> workspace \<noteq> ''/'' \<and>
    (directory = workspace \<or> (\<exists>rest. directory = workspace @ ''/'' @ rest))"

definition identity_agrees :: "Policy \<Rightarrow> PersistedJobState \<Rightarrow> bool" where
  "identity_agrees p s \<longleftrightarrow>
    ps_SchemaVersion s = 1 \<and> sm_SchemaVersion (ps_Session s) = 1 \<and>
    sm_SessionID (ps_Session s) = jm_OwnerSessionID (ps_Job s) \<and>
    sm_WorkspacePath (ps_Session s) = jm_WorkspacePath (ps_Job s) \<and>
    lies_inside (jm_WorkspacePath (ps_Job s)) (jm_Cwd (ps_Job s)) \<and>
    (\<forall>c \<in> set_option (ps_Cancellation s).
       cm_Requested c \<and> cm_RequestedBySessionID c = jm_OwnerSessionID (ps_Job s))"

definition capture_bounded :: "Policy \<Rightarrow> PersistedJobState \<Rightarrow> bool" where
  "capture_bounded p s \<longleftrightarrow>
    jm_Status (ps_Job s) \<in> set (p_statuses p) \<and>
    0 < jm_OutputLimitBytes (ps_Job s) \<and>
    u64_of (jm_OutputLimitBytes (ps_Job s)) \<le> p_captureLimit p \<and>
    0 \<le> jm_CapturedBytes (ps_Job s) \<and> jm_CapturedBytes (ps_Job s) \<le> jm_OutputLimitBytes (ps_Job s)"

definition well_formed_state :: "Policy \<Rightarrow> PersistedJobState \<Rightarrow> bool" where
  "well_formed_state p s \<longleftrightarrow>
    identity_agrees p s \<and> capture_bounded p s \<and> cursors_inside s \<and> times_ordered s \<and>
    result_agrees s"

text \<open>The specification in terms of the checks of the code.\<close>

lemma validProcessResult_shape: "validProcessResult result \<longleftrightarrow> result_shape result"
  unfolding validProcessResult_def result_shape_def exited_with_def signal_number_def
    valid_signal_def
  by (cases "pr_Status result"; cases "pr_ExitCode result"; cases "pr_Signal result";
      cases "pr_Diagnostic result") auto

lemma lies_inside_checked:
  "lies_inside workspace directory \<longleftrightarrow>
   d_Allowed (snd (validateWorkspacePath p workspace directory))"
  by (auto simp: validateWorkspacePath_allowed lies_inside_def below_def has_prefix_def sep_def)
    (metis append_take_drop_id append_Cons append_Nil append_assoc)

lemma result_agrees_checked:
  "result_agrees s \<longleftrightarrow>
    (if jm_Status (ps_Job s) = JobStatusRunning
     then jm_FinishedAtUnixMs (ps_Job s) = None \<and> ps_Result s = None
     else \<exists>result. ps_Result s = Some result \<and> validProcessResult result \<and>
            jm_FinishedAtUnixMs (ps_Job s) = Some (pr_FinishedAtUnixMs result) \<and>
            jm_Status (ps_Job s) = JobStatus_of_TerminalStatus (pr_Status result) \<and>
            pr_CapturedBytes result = jm_CapturedBytes (ps_Job s))"
  unfolding result_agrees_def validProcessResult_shape ..

lemma identity_agrees_checked:
  "identity_agrees p s \<longleftrightarrow>
    ps_SchemaVersion s = 1 \<and> sm_SchemaVersion (ps_Session s) = 1 \<and>
    sm_SessionID (ps_Session s) = jm_OwnerSessionID (ps_Job s) \<and>
    sm_WorkspacePath (ps_Session s) = jm_WorkspacePath (ps_Job s) \<and>
    d_Allowed (snd (validateWorkspacePath p (jm_WorkspacePath (ps_Job s)) (jm_Cwd (ps_Job s)))) \<and>
    (\<forall>c \<in> set_option (ps_Cancellation s).
       cm_Requested c \<and> cm_RequestedBySessionID c = jm_OwnerSessionID (ps_Job s))"
  unfolding identity_agrees_def lies_inside_checked [of _ _ p] ..

lemma capture_bounded_checked:
  "capture_bounded p s \<longleftrightarrow>
    isKnownStatus p (jm_Status (ps_Job s)) \<and>
    0 < jm_OutputLimitBytes (ps_Job s) \<and>
    u64_of (jm_OutputLimitBytes (ps_Job s)) \<le> p_captureLimit p \<and>
    0 \<le> jm_CapturedBytes (ps_Job s) \<and> jm_CapturedBytes (ps_Job s) \<le> jm_OutputLimitBytes (ps_Job s)"
  unfolding capture_bounded_def isKnownStatus_def List.member_iff ..

lemma observers_ok_iff:
  "observers_ok job seen obs \<longleftrightarrow>
   distinct (map oc_SessionID obs) \<and> seen \<inter> oc_SessionID ` set obs = {} \<and>
   (\<forall>observer \<in> set obs. 0 \<le> oc_CursorBytes observer \<and>
      oc_CursorBytes observer \<le> jm_CapturedBytes job \<and>
      jm_CreatedAtUnixMs job \<le> oc_UpdatedAtUnixMs observer)"
  by (induction obs arbitrary: seen) (auto simp: not_less)

lemma observers_before_iff:
  "observers_before finished obs \<longleftrightarrow> (\<forall>observer \<in> set obs. oc_UpdatedAtUnixMs observer \<le> finished)"
  by (induction obs) (auto simp: not_less)

lemma validate_finished_iff:
  "d_Allowed (validate_finished s) \<longleftrightarrow>
   (\<exists>finished result. jm_FinishedAtUnixMs (ps_Job s) = Some finished \<and> ps_Result s = Some result \<and>
      jm_StartedAtUnixMs (ps_Job s) \<le> finished \<and>
      (\<forall>c \<in> set_option (ps_Cancellation s). cm_RequestedAtUnixMs c \<le> finished) \<and>
      (\<forall>observer \<in> set (ps_Observers s). oc_UpdatedAtUnixMs observer \<le> finished) \<and>
      JobStatus_of_TerminalStatus (pr_Status result) = jm_Status (ps_Job s) \<and>
      pr_CapturedBytes result = jm_CapturedBytes (ps_Job s) \<and>
      pr_FinishedAtUnixMs result = finished \<and> validProcessResult result)"
  by (cases "jm_FinishedAtUnixMs (ps_Job s)"; cases "ps_Result s"; cases "ps_Cancellation s")
    (auto simp: validate_finished_def corruptStateDecision_def allowDecision_def
      observers_before_iff not_less)

lemma allowed_guard:
  "d_Allowed (if wrong then corruptStateDecision else decision) \<longleftrightarrow> \<not> wrong \<and> d_Allowed decision"
  by (simp add: corruptStateDecision_def)

lemma allowed_running:
  "d_Allowed (if running then if wrong then corruptStateDecision else allowDecision else decision) \<longleftrightarrow>
   (if running then \<not> wrong else d_Allowed decision)"
  by (simp add: corruptStateDecision_def allowDecision_def)

lemma observers_ok_split:
  "observers_ok job {} obs \<longleftrightarrow>
   distinct (map oc_SessionID obs) \<and>
   (\<forall>observer \<in> set obs. 0 \<le> oc_CursorBytes observer \<and>
      oc_CursorBytes observer \<le> jm_CapturedBytes job) \<and>
   (\<forall>observer \<in> set obs. jm_CreatedAtUnixMs job \<le> oc_UpdatedAtUnixMs observer)"
  by (auto simp: observers_ok_iff)

lemma not_case_option:
  "(\<not> (case x of None \<Rightarrow> False | Some c \<Rightarrow> P c)) \<longleftrightarrow> (\<forall>c \<in> set_option x. \<not> P c)"
  by (cases x) auto

text \<open>The checks every state has to pass, and the one that depends on the status.\<close>

lemma ValidatePersistedState_checks:
  "d_Allowed (ValidatePersistedState p s) \<longleftrightarrow>
    identity_agrees p s \<and> capture_bounded p s \<and> cursors_inside s \<and>
    sm_CreatedAtUnixMs (ps_Session s) \<le> jm_CreatedAtUnixMs (ps_Job s) \<and>
    jm_CreatedAtUnixMs (ps_Job s) \<le> jm_StartedAtUnixMs (ps_Job s) \<and>
    (\<forall>observer \<in> set (ps_Observers s).
       jm_CreatedAtUnixMs (ps_Job s) \<le> oc_UpdatedAtUnixMs observer) \<and>
    (\<forall>c \<in> set_option (ps_Cancellation s).
       jm_CreatedAtUnixMs (ps_Job s) \<le> cm_RequestedAtUnixMs c) \<and>
    (if jm_Status (ps_Job s) = JobStatusRunning
     then jm_FinishedAtUnixMs (ps_Job s) = None \<and> ps_Result s = None
     else d_Allowed (validate_finished s))"
  unfolding ValidatePersistedState_def Let_def allowed_guard allowed_running de_Morgan_disj not_not
    not_less not_le observers_ok_split not_case_option identity_agrees_checked capture_bounded_checked
    cursors_inside_def
  by (rule iffI; elim conjE; intro conjI; assumption)

lemma times_ordered_iff:
  "times_ordered s \<longleftrightarrow>
    sm_CreatedAtUnixMs (ps_Session s) \<le> jm_CreatedAtUnixMs (ps_Job s) \<and>
    jm_CreatedAtUnixMs (ps_Job s) \<le> jm_StartedAtUnixMs (ps_Job s) \<and>
    (\<forall>observer \<in> set (ps_Observers s).
       jm_CreatedAtUnixMs (ps_Job s) \<le> oc_UpdatedAtUnixMs observer) \<and>
    (\<forall>c \<in> set_option (ps_Cancellation s).
       jm_CreatedAtUnixMs (ps_Job s) \<le> cm_RequestedAtUnixMs c) \<and>
    (\<forall>finished \<in> set_option (jm_FinishedAtUnixMs (ps_Job s)).
       jm_StartedAtUnixMs (ps_Job s) \<le> finished \<and>
       (\<forall>c \<in> set_option (ps_Cancellation s). cm_RequestedAtUnixMs c \<le> finished) \<and>
       (\<forall>observer \<in> set (ps_Observers s). oc_UpdatedAtUnixMs observer \<le> finished))"
  unfolding times_ordered_def by auto

lemma validate_finished_agrees:
  "d_Allowed (validate_finished s) \<longleftrightarrow>
   (\<forall>finished \<in> set_option (jm_FinishedAtUnixMs (ps_Job s)).
      jm_StartedAtUnixMs (ps_Job s) \<le> finished \<and>
      (\<forall>c \<in> set_option (ps_Cancellation s). cm_RequestedAtUnixMs c \<le> finished) \<and>
      (\<forall>observer \<in> set (ps_Observers s). oc_UpdatedAtUnixMs observer \<le> finished)) \<and>
   (\<exists>result. ps_Result s = Some result \<and> validProcessResult result \<and>
      jm_FinishedAtUnixMs (ps_Job s) = Some (pr_FinishedAtUnixMs result) \<and>
      jm_Status (ps_Job s) = JobStatus_of_TerminalStatus (pr_Status result) \<and>
      pr_CapturedBytes result = jm_CapturedBytes (ps_Job s))"
proof (cases "jm_FinishedAtUnixMs (ps_Job s)")
  case (Some finished)
  have eqs: "(Some finished = Some t) = (t = finished)" "(a = jm_Status (ps_Job s)) =
      (jm_Status (ps_Job s) = a)" for t a
    by auto
  show ?thesis
    unfolding validate_finished_iff Some option.set ball_simps(5) eqs
    by (cases "ps_Result s") (simp_all only: option.simps simp_thms ex_simps eqs conj_ac option.inject ball_simps ball_empty ball_Un insert_iff, blast?)
qed (simp add: validate_finished_iff)

lemma ValidatePersistedState_allowed:
  "d_Allowed (ValidatePersistedState p s) \<longleftrightarrow> well_formed_state p s"
proof (cases "jm_Status (ps_Job s) = JobStatusRunning")
  case True
  have "jm_FinishedAtUnixMs (ps_Job s) = None \<Longrightarrow>
      (\<forall>finished \<in> set_option (jm_FinishedAtUnixMs (ps_Job s)). P finished)" for P
    by simp
  then show ?thesis
    unfolding ValidatePersistedState_checks well_formed_state_def times_ordered_iff
      result_agrees_checked if_P [OF True]
    by blast
next
  case False
  show ?thesis
    unfolding ValidatePersistedState_checks well_formed_state_def times_ordered_iff
      result_agrees_checked if_not_P [OF False] validate_finished_agrees
    by blast
qed

lemma corrupt_or_allow:
  "decision = corruptStateDecision \<or> decision = allowDecision \<Longrightarrow>
   (if wrong then corruptStateDecision else decision) = corruptStateDecision \<or>
   (if wrong then corruptStateDecision else decision) = allowDecision"
  by simp

text \<open>C35: \<open>ValidatePersistedState\<close> accepts exactly the well-formed states: the identities of job,
  session and cancellation agree and the working directory, a canonical absolute path, is the
  workspace or lies below it; the status is one of the policy's; the captured
  length lies between zero and the job's limit, which is positive and within the policy's; each
  session has at most one observer and its cursor lies in the captured prefix; creation, start,
  cancellation, observation and finish are in order of time; and a job has a result and a finish
  time exactly if it is not running, the result repeating the job's status, captured length
  and finish time. A success has exit code zero and a failure one from 1 to 255, both without a
  signal; a death by signal has a signal from 1 to 64; a cancelled job, one that timed out and
  one that reached its output limit may have such a signal; none of these four has an exit
  code; a job whose runner was lost has neither, but a diagnostic. Every other state is
  reported as corrupt.\<close>

theorem ValidatePersistedState_exact:
  "ValidatePersistedState p s =
   (if well_formed_state p s then \<lparr> d_Allowed = True, d_Code = CodeAllow \<rparr>
    else \<lparr> d_Allowed = False, d_Code = CodeCorruptState \<rparr>)"
proof -
  have two: "ValidatePersistedState p s = corruptStateDecision \<or>
      ValidatePersistedState p s = allowDecision"
    unfolding ValidatePersistedState_def Let_def
    by (intro corrupt_or_allow)
      (auto simp: validate_finished_def split: option.splits)
  then show ?thesis
    using ValidatePersistedState_allowed [of p s]
    by (auto simp: corruptStateDecision_def allowDecision_def)
qed

subsection \<open>Trusted invocations\<close>

definition empty_invocation :: TrustedInvocation where
  "empty_invocation = \<lparr> ti_sessionID = [], ti_workspacePath = [], ti_cwd = [] \<rparr>"

text \<open>\<open>BindTrustedInvocation\<close> after the path check, which is its only difference to
  \<open>BindCapabilityInvocation\<close>.\<close>

definition bind_asserted :: "HostInvocation \<Rightarrow> TrustedContext \<Rightarrow> TrustedInvocation \<times> Decision" where
  "bind_asserted host asserted =
    (if tc_SessionID asserted \<noteq> hi_SessionID host \<or>
        tc_WorkspacePath asserted \<noteq> hi_WorkspacePath host \<or> tc_Cwd asserted \<noteq> hi_Cwd host
     then (empty_invocation, \<lparr> d_Allowed = False, d_Code = CodeUnauthorized \<rparr>)
     else (\<lparr> ti_sessionID = hi_SessionID host, ti_workspacePath = hi_WorkspacePath host,
             ti_cwd = hi_Cwd host \<rparr>, \<lparr> d_Allowed = True, d_Code = CodeAllow \<rparr>))"

definition BindCapabilityInvocation ::
  "Policy \<Rightarrow> HostInvocation \<Rightarrow> TrustedContext \<Rightarrow> TrustedInvocation \<times> Decision" where
  "BindCapabilityInvocation p host asserted =
    (if hi_SessionID host = []
     then (empty_invocation, \<lparr> d_Allowed = False, d_Code = CodeUnauthorized \<rparr>)
     else
       let decision = snd (validateWorkspacePath p (hi_WorkspacePath host) (hi_Cwd host)) in
       if \<not> d_Allowed decision then (empty_invocation, decision)
       else bind_asserted host asserted)"

definition trusted_access :: "JobMetadata \<Rightarrow> TrustedInvocation \<Rightarrow> AccessContext" where
  "trusted_access job invocation =
    \<lparr> ac_JobWorkspace = jm_WorkspacePath job, ac_RequestWorkspace = ti_workspacePath invocation,
      ac_OwnerSession = jm_OwnerSessionID job, ac_ActorSession = ti_sessionID invocation \<rparr>"

definition AuthorizeTrustedRead :: "Policy \<Rightarrow> JobMetadata \<Rightarrow> TrustedInvocation \<Rightarrow> Decision" where
  "AuthorizeTrustedRead p job invocation = AuthorizeRead p (trusted_access job invocation)"

definition AuthorizeTrustedMutation ::
  "Policy \<Rightarrow> JobMetadata \<Rightarrow> TrustedInvocation \<Rightarrow> Decision" where
  "AuthorizeTrustedMutation p job invocation = AuthorizeMutation p (trusted_access job invocation)"

definition EvaluateTrustedCancellation ::
  "Policy \<Rightarrow> JobMetadata \<Rightarrow> bool \<Rightarrow> TrustedInvocation \<Rightarrow> CancellationDecision" where
  "EvaluateTrustedCancellation p job alreadyRequested invocation =
    (let authorization = AuthorizeTrustedMutation p job invocation in
     if \<not> d_Allowed authorization
     then \<lparr> cd_Decision = authorization, cd_PersistRequest = False \<rparr>
     else EvaluateCancellation p
            \<lparr> cc_Status = jm_Status job, cc_AlreadyRequested = alreadyRequested \<rparr>)"

subsection \<open>Stored states\<close>

text \<open>
  \<open>json.Decoder.Decode\<close> gives the value and the rest of the input; the \<open>Token\<close> call after
  it reports the end of the input exactly if only white space is left.
\<close>

record RuntimeMetadata =
  rm_RunnerPID :: int
  rm_ShellPID :: int
  rm_ProcessGroupID :: int
  rm_ProcessGroupLeaderPID :: int
  rm_ProcessBirthIdentity :: string

record Contracts =
  k_policy :: Policy
  k_schema_valid :: "bytes \<Rightarrow> bool"
  k_decode_state :: "bytes \<Rightarrow> (PersistedJobState \<times> bytes) option"
  k_marshal_state :: "PersistedJobState \<Rightarrow> bytes option"
  k_decode_runtime :: "bytes \<Rightarrow> (RuntimeMetadata \<times> bytes) option"
  k_marshal_runtime :: "RuntimeMetadata \<Rightarrow> bytes option"

definition json_space :: "char \<Rightarrow> bool" where
  "json_space c \<longleftrightarrow> c \<in> {CHR '' '', CHR 0x09, CHR 0x0A, CHR 0x0D}"

definition at_EOF :: "bytes \<Rightarrow> bool" where
  "at_EOF rest \<longleftrightarrow> list_all json_space rest"

definition empty_state :: PersistedJobState where
  "empty_state =
    \<lparr> ps_Cancellation = None,
      ps_Job = \<lparr> jm_CapturedBytes = 0, jm_Command = [], jm_CreatedAtUnixMs = 0, jm_Cwd = [],
                jm_FinishedAtUnixMs = None, jm_HardTimeoutMs = 0, jm_JobID = [],
                jm_OutputLimitBytes = 0, jm_OwnerSessionID = [], jm_StartedAtUnixMs = 0,
                jm_Status = JobStatusOther [], jm_WorkspacePath = [] \<rparr>,
      ps_Observers = [], ps_Result = None, ps_SchemaVersion = 0,
      ps_Session = \<lparr> sm_CreatedAtUnixMs = 0, sm_SchemaVersion = 0, sm_SessionID = [],
                    sm_WorkspacePath = [] \<rparr> \<rparr>"

definition ValidateStored :: "Contracts \<Rightarrow> bytes \<Rightarrow> string \<Rightarrow> PersistedJobState \<times> Decision" where
  "ValidateStored k raw hostWorkspace =
    (if \<not> utf8_Valid raw then (empty_state, corruptStateDecision)
     else if \<not> k_schema_valid k raw then (empty_state, corruptStateDecision)
     else case k_decode_state k raw of
       None \<Rightarrow> (empty_state, corruptStateDecision)
     | Some (s, rest) \<Rightarrow>
         if \<not> at_EOF rest then (empty_state, corruptStateDecision)
         else
           let decision = ValidatePersistedState (k_policy k) s in
           if \<not> d_Allowed decision then (empty_state, decision)
           else if jm_WorkspacePath (ps_Job s) \<noteq> hostWorkspace
           then (empty_state, corruptStateDecision)
           else (s, decision))"

lemma ValidateStored_allowed:
  "d_Allowed (snd (ValidateStored k raw host)) \<longleftrightarrow>
   (\<exists>s rest. k_decode_state k raw = Some (s, rest) \<and> at_EOF rest \<and> utf8_Valid raw \<and>
      k_schema_valid k raw \<and> well_formed_state (k_policy k) s \<and>
      jm_WorkspacePath (ps_Job s) = host \<and> fst (ValidateStored k raw host) = s)"
  by (auto simp: ValidateStored_def corruptStateDecision_def ValidatePersistedState_allowed Let_def
      split: option.splits)

end
