(* ===== verification/JobState.thy ===== *)
theory JobState
  imports StateValidation
begin

section \<open>Updates of a job's state\<close>

text \<open>
  The pure functions \<open>internal/runner\<close> builds and checks states with: job identifiers and
  runtime metadata, the initial state, the terminal states for a shell's outcome and for a lost
  runner, the comparison of a new state with the current one, and the encoding that is checked
  by decoding it again. The clock's reading is an argument of the functions that take it.
\<close>

subsection \<open>Identifiers and runtime metadata\<close>

definition in_chars :: "char \<Rightarrow> char \<Rightarrow> char \<Rightarrow> bool" where
  "in_chars low high c \<longleftrightarrow> (of_char low :: nat) \<le> of_char c \<and> of_char c \<le> (of_char high :: nat)"

definition jobID_char :: "char \<Rightarrow> bool" where
  "jobID_char c \<longleftrightarrow>
    in_chars CHR ''a'' CHR ''z'' c \<or> in_chars CHR ''A'' CHR ''Z'' c \<or>
    in_chars CHR ''0'' CHR ''9'' c \<or> c = CHR ''_'' \<or> c = CHR ''-''"

definition validJobID :: "JobID \<Rightarrow> bool" where
  "validJobID jobID \<longleftrightarrow>
    (if length jobID = 0 \<or> length jobID > 64 then False else list_all jobID_char jobID)"

definition validateRuntime :: "RuntimeMetadata \<Rightarrow> error" where
  "validateRuntime runtime =
    (if rm_RunnerPID runtime \<le> 0 \<or> rm_ShellPID runtime \<le> 0 \<or> rm_ProcessGroupID runtime \<le> 0 \<or>
        rm_ProcessGroupLeaderPID runtime \<noteq> rm_ProcessGroupID runtime \<or>
        rm_ProcessBirthIdentity runtime = [] \<or>
        length (rm_ProcessBirthIdentity runtime) > 4096
     then [ErrInvalidRuntime] else noerr)"

definition encodeRuntime :: "Contracts \<Rightarrow> RuntimeMetadata \<Rightarrow> error + bytes" where
  "encodeRuntime k runtime =
    (if validateRuntime runtime \<noteq> noerr then Inl (validateRuntime runtime)
     else case k_marshal_runtime k runtime of
       None \<Rightarrow> Inl (fmt_Errorf ''encode runtime metadata'' noerr)
     | Some raw \<Rightarrow> Inr raw)"

text \<open>The part of \<open>readRuntime\<close> after the file was read.\<close>

definition decodeRuntime :: "Contracts \<Rightarrow> bytes \<Rightarrow> error + RuntimeMetadata" where
  "decodeRuntime k raw =
    (case k_decode_runtime k raw of
       None \<Rightarrow> Inl (errors_Join [[ErrInvalidRuntime], fmt_Errorf ''decode runtime metadata'' noerr])
     | Some (runtime, rest) \<Rightarrow>
         if \<not> at_EOF rest then Inl [ErrInvalidRuntime]
         else if validateRuntime runtime \<noteq> noerr then Inl (validateRuntime runtime)
         else Inr runtime)"

subsection \<open>The initial state\<close>

record internalStartRequest =
  is_JobID :: JobID
  is_SessionID :: SessionID
  is_WorkspacePath :: string
  is_Cwd :: string
  is_Command :: string
  is_CreatedAtUnixMs :: TimestampUnixMs
  is_HardTimeoutMs :: TimeoutMs
  is_OutputLimitBytes :: int
  is_StartupTimeoutMs :: int
  is_TerminationGraceMs :: int
  is_PollIntervalMs :: int

definition initialJobState :: "internalStartRequest \<Rightarrow> TimestampUnixMs \<Rightarrow> PersistedJobState" where
  "initialJobState request started =
    (let started' = (if started < is_CreatedAtUnixMs request then is_CreatedAtUnixMs request
                     else started) in
     \<lparr> ps_Cancellation = None,
       ps_Job =
         \<lparr> jm_CapturedBytes = 0, jm_Command = is_Command request,
           jm_CreatedAtUnixMs = is_CreatedAtUnixMs request, jm_Cwd = is_Cwd request,
           jm_FinishedAtUnixMs = None, jm_HardTimeoutMs = is_HardTimeoutMs request,
           jm_JobID = is_JobID request, jm_OutputLimitBytes = is_OutputLimitBytes request,
           jm_OwnerSessionID = is_SessionID request, jm_StartedAtUnixMs = started',
           jm_Status = JobStatusRunning, jm_WorkspacePath = is_WorkspacePath request \<rparr>,
       ps_Observers = [], ps_Result = None, ps_SchemaVersion = 1,
       ps_Session =
         \<lparr> sm_CreatedAtUnixMs = is_CreatedAtUnixMs request, sm_SchemaVersion = 1,
           sm_SessionID = is_SessionID request, sm_WorkspacePath = is_WorkspacePath request \<rparr> \<rparr>)"

subsection \<open>Terminal states\<close>

datatype executionCause = causeNormal | causeOutputLimit | causeHardTimeout | causeCancelled

record shellWaitResult =
  sw_exitCode :: "int option"
  sw_signal :: "int option"
  sw_err :: error

record executionOutcome =
  eo_cause :: executionCause
  eo_wait :: shellWaitResult

definition empty_result :: "TimestampUnixMs \<Rightarrow> ByteCursor \<Rightarrow> TerminalStatus \<Rightarrow> ProcessResult" where
  "empty_result finished captured status =
    \<lparr> pr_CapturedBytes = captured, pr_Diagnostic = None, pr_ExitCode = None,
      pr_FinishedAtUnixMs = finished, pr_Signal = None, pr_Status = status \<rparr>"

definition processResult ::
  "executionOutcome \<Rightarrow> TimestampUnixMs \<Rightarrow> ByteCursor \<Rightarrow> error + (ProcessResult \<times> JobStatus)" where
  "processResult outcome finished captured =
    (let wait = eo_wait outcome; result = empty_result finished captured in
     if eo_cause outcome = causeOutputLimit
     then Inr ((result TerminalStatusOutputLimit)\<lparr> pr_Signal := sw_signal wait \<rparr>, JobStatusOutputLimit)
     else if eo_cause outcome = causeHardTimeout
     then Inr ((result TerminalStatusHardTimeout)\<lparr> pr_Signal := sw_signal wait \<rparr>, JobStatusHardTimeout)
     else if eo_cause outcome = causeCancelled
     then Inr ((result TerminalStatusCancelled)\<lparr> pr_Signal := sw_signal wait \<rparr>, JobStatusCancelled)
     else if sw_signal wait \<noteq> None
     then Inr ((result TerminalStatusSignalExit)\<lparr> pr_Signal := sw_signal wait \<rparr>, JobStatusSignalExit)
     else case sw_exitCode wait of
       Some exitCode \<Rightarrow>
         if exitCode = 0
         then Inr ((result TerminalStatusSucceeded)\<lparr> pr_ExitCode := sw_exitCode wait \<rparr>, JobStatusSucceeded)
         else if exitCode > 0 \<and> exitCode \<le> 255
         then Inr ((result TerminalStatusNonzeroExit)\<lparr> pr_ExitCode := sw_exitCode wait \<rparr>, JobStatusNonzeroExit)
         else Inl (fmt_Errorf ''map process result'' [ErrExecution])
     | None \<Rightarrow> Inl (fmt_Errorf ''map process result'' [ErrExecution]))"

definition terminalState ::
  "PersistedJobState \<Rightarrow> executionOutcome \<Rightarrow> int \<Rightarrow> error + PersistedJobState" where
  "terminalState current outcome now =
    (let finished = max now (jm_StartedAtUnixMs (ps_Job current)) in
     case processResult outcome finished (jm_CapturedBytes (ps_Job current)) of
       Inl err \<Rightarrow> Inl err
     | Inr (result, status) \<Rightarrow>
         Inr (current\<lparr> ps_Job := (ps_Job current)
                \<lparr> jm_Status := status, jm_FinishedAtUnixMs := Some finished \<rparr>,
                ps_Result := Some result \<rparr>))"

text \<open>The builder \<open>publishExecutionTerminal\<close> passes on: a recorded cancellation wins.\<close>

definition execution_terminal ::
  "executionOutcome \<Rightarrow> PersistedJobState \<Rightarrow> int \<Rightarrow> error + PersistedJobState" where
  "execution_terminal outcome current now =
    terminalState current
      (if ps_Cancellation current \<noteq> None then outcome\<lparr> eo_cause := causeCancelled \<rparr> else outcome) now"

definition runner_lost_diagnostic :: string where
  "runner_lost_diagnostic =
    ''runner liveness lock disappeared; process group cleanup skipped because ownership cannot be pinned''"

definition runnerLostState :: "PersistedJobState \<Rightarrow> int \<Rightarrow> PersistedJobState" where
  "runnerLostState current now =
    (let finished = max now (jm_StartedAtUnixMs (ps_Job current)) in
     current\<lparr> ps_Job := (ps_Job current)
                \<lparr> jm_Status := JobStatusRunnerLost, jm_FinishedAtUnixMs := Some finished \<rparr>,
              ps_Result := Some
                \<lparr> pr_CapturedBytes = jm_CapturedBytes (ps_Job current),
                  pr_Diagnostic = Some runner_lost_diagnostic, pr_ExitCode = None,
                  pr_FinishedAtUnixMs = finished, pr_Signal = None,
                  pr_Status = TerminalStatusRunnerLost \<rparr> \<rparr>)"

subsection \<open>Comparing a new state with the current one\<close>

definition sameImmutableStateFields :: "PersistedJobState \<Rightarrow> PersistedJobState \<Rightarrow> bool" where
  "sameImmutableStateFields current next \<longleftrightarrow>
    ps_SchemaVersion current = ps_SchemaVersion next \<and> ps_Session current = ps_Session next \<and>
    jm_JobID (ps_Job current) = jm_JobID (ps_Job next) \<and>
    jm_OwnerSessionID (ps_Job current) = jm_OwnerSessionID (ps_Job next) \<and>
    jm_WorkspacePath (ps_Job current) = jm_WorkspacePath (ps_Job next) \<and>
    jm_Cwd (ps_Job current) = jm_Cwd (ps_Job next) \<and>
    jm_Command (ps_Job current) = jm_Command (ps_Job next) \<and>
    jm_CreatedAtUnixMs (ps_Job current) = jm_CreatedAtUnixMs (ps_Job next) \<and>
    jm_StartedAtUnixMs (ps_Job current) = jm_StartedAtUnixMs (ps_Job next) \<and>
    jm_HardTimeoutMs (ps_Job current) = jm_HardTimeoutMs (ps_Job next) \<and>
    jm_OutputLimitBytes (ps_Job current) = jm_OutputLimitBytes (ps_Job next)"

definition transitionAllowed :: "Policy \<Rightarrow> PersistedJobState \<Rightarrow> PersistedJobState \<Rightarrow> bool" where
  "transitionAllowed p current next \<longleftrightarrow>
    (if jm_Status (ps_Job current) = jm_Status (ps_Job next) then True
     else d_Allowed (AuthorizeTransition p (jm_Status (ps_Job current)) (jm_Status (ps_Job next))))"

definition preservesPublishedFields :: "PersistedJobState \<Rightarrow> PersistedJobState \<Rightarrow> bool" where
  "preservesPublishedFields current next \<longleftrightarrow>
    (if ps_Result current \<noteq> None \<and> ps_Result current \<noteq> ps_Result next then False
     else if ps_Cancellation current \<noteq> None \<and> ps_Cancellation current \<noteq> ps_Cancellation next
     then False
     else if jm_FinishedAtUnixMs (ps_Job current) \<noteq> None \<and>
             jm_FinishedAtUnixMs (ps_Job current) \<noteq> jm_FinishedAtUnixMs (ps_Job next)
     then False
     else True)"

text \<open>The first check of \<open>publishStateLocked\<close>.\<close>

definition update_allowed :: "PersistedJobState \<Rightarrow> JobID \<Rightarrow> PersistedJobState \<Rightarrow> bool" where
  "update_allowed current jobID next \<longleftrightarrow>
    \<not> (\<not> sameImmutableStateFields current next \<or> jm_JobID (ps_Job next) \<noteq> jobID \<or>
       jm_CapturedBytes (ps_Job next) \<noteq> jm_CapturedBytes (ps_Job current) \<or>
       \<not> preservesPublishedFields current next)"

definition encodeState :: "Contracts \<Rightarrow> string \<Rightarrow> PersistedJobState \<Rightarrow> error + bytes" where
  "encodeState k workspace persisted =
    (case k_marshal_state k persisted of
       None \<Rightarrow> Inl (fmt_Errorf ''encode state'' noerr)
     | Some raw \<Rightarrow>
         (case ValidateStored k raw workspace of
            (validated, decision) \<Rightarrow>
              if \<not> d_Allowed decision \<or> validated \<noteq> persisted then Inl [ErrCorruptState]
              else Inr raw))"

text \<open>\<open>decisionError\<close> and \<open>cancellationResult\<close>.\<close>

definition decisionError :: "Code \<Rightarrow> error" where
  "decisionError code =
    (case code of
       CodeJobNotFound \<Rightarrow> [ErrJobNotFound]
     | CodeUnauthorized \<Rightarrow> [ErrUnauthorized]
     | CodeActiveJob \<Rightarrow> [ErrActiveJob]
     | CodeInvalidCursor \<Rightarrow> [ErrInvalidCursor]
     | CodeInvalidRange \<Rightarrow> [ErrInvalidRange]
     | CodeCorruptState \<Rightarrow> [ErrCorruptState]
     | CodeInvalidStatus \<Rightarrow> [ErrCorruptState]
     | CodeTransitionNotAllowed \<Rightarrow> [ErrCorruptState]
     | _ \<Rightarrow> fmt_Errorf ''invalid state update'' [ErrInvalidStateUpdate])"

definition cancellationResult :: "PersistedJobState \<Rightarrow> Code \<Rightarrow> CancellationResult" where
  "cancellationResult persisted code =
    \<lparr> cr_Cancellation = ps_Cancellation persisted, cr_JobID = jm_JobID (ps_Job persisted),
      cr_Outcome =
        (if code = CodeCancellationRequested then CancellationOutcomeRequested
         else if code = CodeCancellationIdempotent then CancellationOutcomeAlreadyRequested
         else CancellationOutcomeAlreadyTerminal),
      cr_Status = jm_Status (ps_Job persisted) \<rparr>"

text \<open>The state \<open>cancelLocked\<close> publishes for a first request.\<close>

definition cancelledState :: "PersistedJobState \<Rightarrow> SessionID \<Rightarrow> int \<Rightarrow> PersistedJobState" where
  "cancelledState current sessionID now =
    current\<lparr> ps_Cancellation := Some
      \<lparr> cm_Requested = True,
        cm_RequestedAtUnixMs = max now (jm_CreatedAtUnixMs (ps_Job current)),
        cm_RequestedBySessionID = sessionID \<rparr> \<rparr>"

subsection \<open>How a job's state may evolve\<close>

text \<open>
  The contract of every update: who owns the job and what it runs never change, output only
  grows, a status changes only as the policy allows, and a result, a cancellation and a finish
  time stay once they are there.
\<close>

definition evolves :: "Policy \<Rightarrow> PersistedJobState \<Rightarrow> PersistedJobState \<Rightarrow> bool" where
  "evolves p current next \<longleftrightarrow>
    sameImmutableStateFields current next \<and>
    jm_CapturedBytes (ps_Job current) \<le> jm_CapturedBytes (ps_Job next) \<and>
    transitionAllowed p current next \<and> preservesPublishedFields current next"

lemma encodeState_Inr:
  "encodeState k workspace s = Inr raw \<Longrightarrow>
   ValidateStored k raw workspace = (s, snd (ValidateStored k raw workspace)) \<and>
   d_Allowed (snd (ValidateStored k raw workspace)) \<and> well_formed_state (k_policy k) s \<and>
   jm_WorkspacePath (ps_Job s) = workspace"
  using ValidateStored_allowed [of k raw workspace]
  by (auto simp: encodeState_def split: option.splits prod.splits if_splits)

lemma preserves_iff:
  "preservesPublishedFields s s' \<longleftrightarrow>
   (ps_Result s = None \<or> ps_Result s' = ps_Result s) \<and>
   (ps_Cancellation s = None \<or> ps_Cancellation s' = ps_Cancellation s) \<and>
   (jm_FinishedAtUnixMs (ps_Job s) = None \<or>
    jm_FinishedAtUnixMs (ps_Job s') = jm_FinishedAtUnixMs (ps_Job s))"
  by (auto simp: preservesPublishedFields_def)

lemma evolves_refl [simp]: "evolves p s s"
  by (simp add: evolves_def sameImmutableStateFields_def transitionAllowed_def preserves_iff)

subsection \<open>Well-formedness of the states the runner builds\<close>

lemma transition_v1:
  "transitionAllowed policy_v1 s s' \<longleftrightarrow>
   jm_Status (ps_Job s) = jm_Status (ps_Job s') \<or>
   jm_Status (ps_Job s) = JobStatusRunning \<and> jm_Status (ps_Job s') \<in> set all_terminal_statuses"
  by (auto simp: transitionAllowed_def AuthorizeTransition_def isKnownStatus_def List.member_iff
      all_terminal_statuses_def)

text \<open>Under the embedded policy updates compose.\<close>

lemma evolves_trans_v1:
  assumes "evolves policy_v1 s t" "evolves policy_v1 t u"
  shows "evolves policy_v1 s u"
proof -
  have st: "jm_Status (ps_Job t) = JobStatusRunning \<or> jm_Status (ps_Job t) = jm_Status (ps_Job u)"
    "jm_Status (ps_Job s) = JobStatusRunning \<or> jm_Status (ps_Job s) = jm_Status (ps_Job t)"
    "transitionAllowed policy_v1 s t" "transitionAllowed policy_v1 t u"
    using assms unfolding evolves_def transition_v1 by auto
  have "JobStatusRunning \<notin> set all_terminal_statuses"
    by (simp add: all_terminal_statuses_def)
  then have "transitionAllowed policy_v1 s u"
    using st unfolding transition_v1 by metis
  moreover have "sameImmutableStateFields s u"
    using assms unfolding evolves_def sameImmutableStateFields_def by simp
  moreover have "preservesPublishedFields s u"
    using assms unfolding evolves_def preserves_iff by metis
  ultimately show ?thesis
    using assms unfolding evolves_def by linarith
qed

text \<open>The wait results the guardian and the supervision loop produce.\<close>

definition wait_ok :: "executionOutcome \<Rightarrow> bool" where
  "wait_ok outcome \<longleftrightarrow>
    valid_signal (sw_signal (eo_wait outcome)) \<and>
    (eo_cause outcome = causeNormal \<and> sw_signal (eo_wait outcome) = None \<longrightarrow>
     (\<exists>c. sw_exitCode (eo_wait outcome) = Some c \<and> 0 \<le> c \<and> c \<le> 255))"

text \<open>What the cause, the signal and the exit code say, in this order.\<close>

definition outcome_status :: "executionOutcome \<Rightarrow> TerminalStatus" where
  "outcome_status outcome =
    (case eo_cause outcome of
       causeOutputLimit \<Rightarrow> TerminalStatusOutputLimit
     | causeHardTimeout \<Rightarrow> TerminalStatusHardTimeout
     | causeCancelled \<Rightarrow> TerminalStatusCancelled
     | causeNormal \<Rightarrow>
         if sw_signal (eo_wait outcome) \<noteq> None then TerminalStatusSignalExit
         else if sw_exitCode (eo_wait outcome) = Some 0 then TerminalStatusSucceeded
         else TerminalStatusNonzeroExit)"

lemma processResult_ok:
  assumes "wait_ok outcome"
  shows "\<exists>result. processResult outcome finished captured =
      Inr (result, JobStatus_of_TerminalStatus (outcome_status outcome)) \<and>
    pr_Status result = outcome_status outcome \<and> pr_CapturedBytes result = captured \<and>
    pr_FinishedAtUnixMs result = finished \<and> validProcessResult result"
  using assms
  by (cases "eo_cause outcome"; cases "sw_signal (eo_wait outcome)";
      cases "sw_exitCode (eo_wait outcome)")
    (auto simp: processResult_def wait_ok_def outcome_status_def validProcessResult_def
      empty_result_def valid_signal_def Let_def)

lemma terminal_status_cases:
  "outcome_status outcome \<in> {TerminalStatusOutputLimit, TerminalStatusHardTimeout,
     TerminalStatusCancelled, TerminalStatusSignalExit, TerminalStatusSucceeded,
     TerminalStatusNonzeroExit}"
  by (cases "eo_cause outcome") (auto simp: outcome_status_def)

text \<open>The latest time a running job's state mentions.\<close>

definition clock_covers :: "PersistedJobState \<Rightarrow> int \<Rightarrow> bool" where
  "clock_covers s now \<longleftrightarrow>
    (\<forall>t \<in> set (map oc_UpdatedAtUnixMs (ps_Observers s)) \<union>
           cm_RequestedAtUnixMs ` set_option (ps_Cancellation s).
       t \<le> max now (jm_StartedAtUnixMs (ps_Job s)))"

text \<open>A running state to which a result was added that agrees with it.\<close>

lemma finished_state_ok:
  assumes wf: "well_formed_state policy_v1 s" and run: "jm_Status (ps_Job s) = JobStatusRunning"
    and status: "status \<in> set all_terminal_statuses"
    and result: "pr_FinishedAtUnixMs result = finished" "pr_CapturedBytes result = jm_CapturedBytes (ps_Job s)"
      "status = JobStatus_of_TerminalStatus (pr_Status result)" "validProcessResult result"
    and finished: "finished = max now (jm_StartedAtUnixMs (ps_Job s))"
    and s': "s' = s\<lparr> ps_Job := (ps_Job s)\<lparr> jm_Status := status, jm_FinishedAtUnixMs := Some finished \<rparr>,
                   ps_Result := Some result \<rparr>"
  shows "well_formed_state policy_v1 s' \<longleftrightarrow> clock_covers s now"
    and "evolves policy_v1 s s'" and "update_allowed s (jm_JobID (ps_Job s)) s'"
proof -
  have none: "jm_FinishedAtUnixMs (ps_Job s) = None" "ps_Result s = None"
    using wf run by (auto simp: well_formed_state_def result_agrees_checked)
  have st: "status \<noteq> JobStatusRunning" "isKnownStatus policy_v1 status"
    using status by (auto simp: all_terminal_statuses_def isKnownStatus_def List.member_iff)
  have agrees: "result_agrees s'"
    using result st unfolding s' by (auto simp: result_agrees_checked)
  have rest: "identity_agrees policy_v1 s'" "capture_bounded policy_v1 s'" "cursors_inside s'"
    using wf st unfolding s'
    by (auto simp: well_formed_state_def identity_agrees_checked capture_bounded_checked cursors_inside_def)
  have times: "times_ordered s' \<longleftrightarrow> clock_covers s now"
    using wf finished none unfolding s' well_formed_state_def times_ordered_def clock_covers_def
    by auto
  show "well_formed_state policy_v1 s' \<longleftrightarrow> clock_covers s now"
    unfolding well_formed_state_def using agrees rest times by simp
  show "evolves policy_v1 s s'"
    using none status run unfolding s' evolves_def transition_v1
    by (auto simp: sameImmutableStateFields_def preserves_iff)
  show "update_allowed s (jm_JobID (ps_Job s)) s'"
    using none unfolding s' update_allowed_def
    by (auto simp: sameImmutableStateFields_def preserves_iff)
qed

text \<open>A shell that ended gets a publishable terminal state: for a well-formed running state, an
  outcome with an exit code from 0 to 255 or a signal from 1 to 64, and a wall clock that has not
  fallen behind the recorded cancellation and observations, \<open>publishExecutionTerminal\<close> builds a
  state that is well formed, that the update checks and the transition rule accept, and whose
  status is the one of the outcome, a recorded cancellation taking precedence over every other
  cause.\<close>

lemma execution_terminal_publishable:
  assumes "well_formed_state policy_v1 s" "jm_Status (ps_Job s) = JobStatusRunning"
    and "wait_ok outcome" "clock_covers s now"
  shows "\<exists>s'. execution_terminal outcome s now = Inr s' \<and> well_formed_state policy_v1 s' \<and>
    evolves policy_v1 s s' \<and> update_allowed s (jm_JobID (ps_Job s)) s' \<and>
    jm_Status (ps_Job s') =
      JobStatus_of_TerminalStatus
        (if ps_Cancellation s \<noteq> None then TerminalStatusCancelled else outcome_status outcome)"
proof -
  define o' where
    "o' = (if ps_Cancellation s \<noteq> None then outcome\<lparr> eo_cause := causeCancelled \<rparr> else outcome)"
  let ?finished = "max now (jm_StartedAtUnixMs (ps_Job s))"
  let ?status = "JobStatus_of_TerminalStatus (outcome_status o')"
  have "wait_ok o'"
    using assms(3) by (simp add: o'_def wait_ok_def)
  then obtain result where result:
    "processResult o' ?finished (jm_CapturedBytes (ps_Job s)) = Inr (result, ?status)"
    "pr_Status result = outcome_status o'" "pr_CapturedBytes result = jm_CapturedBytes (ps_Job s)"
    "pr_FinishedAtUnixMs result = ?finished" "validProcessResult result"
    using processResult_ok by blast
  have "?status \<in> set all_terminal_statuses"
    using terminal_status_cases [of o'] by (auto simp: all_terminal_statuses_def)
  note ok = finished_state_ok [OF assms(1,2) this result(4,3) _ result(5) refl refl]
  have "outcome_status o' =
      (if ps_Cancellation s \<noteq> None then TerminalStatusCancelled else outcome_status outcome)"
    by (cases "ps_Cancellation s") (simp_all add: o'_def outcome_status_def)
  moreover have "execution_terminal outcome s now = Inr (s\<lparr> ps_Job := (ps_Job s)
      \<lparr> jm_Status := ?status, jm_FinishedAtUnixMs := Some ?finished \<rparr>, ps_Result := Some result \<rparr>)"
    unfolding execution_terminal_def o'_def [symmetric] terminalState_def Let_def result(1) by simp
  ultimately show ?thesis
    using ok result(2) assms(4) by auto
qed

text \<open>A job whose runner is gone can be closed: from a well-formed running state and a clock that
  has not fallen behind the recorded times, \<open>publishRunnerLostLocked\<close> builds a well-formed state
  with status \<open>runner_lost\<close> and a diagnostic, and the update checks accept it.\<close>

lemma runnerLost_publishable:
  assumes "well_formed_state policy_v1 s" "jm_Status (ps_Job s) = JobStatusRunning"
    and "clock_covers s now"
  shows "well_formed_state policy_v1 (runnerLostState s now) \<and>
    evolves policy_v1 s (runnerLostState s now) \<and>
    update_allowed s (jm_JobID (ps_Job s)) (runnerLostState s now) \<and>
    jm_Status (ps_Job (runnerLostState s now)) = JobStatusRunnerLost"
proof -
  let ?finished = "max now (jm_StartedAtUnixMs (ps_Job s))"
  let ?result = "\<lparr> pr_CapturedBytes = jm_CapturedBytes (ps_Job s),
    pr_Diagnostic = Some runner_lost_diagnostic, pr_ExitCode = None,
    pr_FinishedAtUnixMs = ?finished, pr_Signal = None, pr_Status = TerminalStatusRunnerLost \<rparr>"
  have "validProcessResult ?result"
    by (simp add: validProcessResult_def runner_lost_diagnostic_def)
  note ok = finished_state_ok [OF assms(1,2), of JobStatusRunnerLost ?result ?finished now]
  show ?thesis
    using ok(1-3) \<open>validProcessResult ?result\<close> assms(3)
    by (simp add: runnerLostState_def Let_def all_terminal_statuses_def)
qed

text \<open>A first cancellation request of a running job's owner gives a publishable state: it is well
  formed, records the request under the owner's session at a time not before the job's
  creation, changes nothing else, and the update checks accept it; and afterwards a second
  request is answered as already requested without another update.\<close>

lemma cancelledState_publishable:
  assumes "well_formed_state policy_v1 s" "jm_Status (ps_Job s) = JobStatusRunning"
    and "ps_Cancellation s = None" "session = jm_OwnerSessionID (ps_Job s)"
  shows "well_formed_state policy_v1 (cancelledState s session now) \<and>
    evolves policy_v1 s (cancelledState s session now) \<and>
    update_allowed s (jm_JobID (ps_Job s)) (cancelledState s session now) \<and>
    EvaluateCancellation policy_v1
      \<lparr> cc_Status = jm_Status (ps_Job (cancelledState s session now)),
        cc_AlreadyRequested = ps_Cancellation (cancelledState s session now) \<noteq> None \<rparr> =
    \<lparr> cd_Decision = \<lparr> d_Allowed = True, d_Code = CodeCancellationIdempotent \<rparr>,
      cd_PersistRequest = False \<rparr>"
proof -
  have none: "jm_FinishedAtUnixMs (ps_Job s) = None"
    using assms(1,2) by (auto simp: well_formed_state_def result_agrees_checked)
  have "well_formed_state policy_v1 (cancelledState s session now)"
    using assms none unfolding well_formed_state_def cancelledState_def
    by (auto simp: identity_agrees_checked capture_bounded_checked cursors_inside_def times_ordered_def
        result_agrees_checked)
  moreover have "evolves policy_v1 s (cancelledState s session now)"
    "update_allowed s (jm_JobID (ps_Job s)) (cancelledState s session now)"
    using assms(3) unfolding evolves_def update_allowed_def transition_v1 cancelledState_def
    by (auto simp: sameImmutableStateFields_def preserves_iff)
  ultimately show ?thesis
    using assms(2)
    by (simp add: EvaluateCancellation_def cancelledState_def isKnownStatus_def List.member_iff)
qed

lemma initialJobState_ok:
  assumes "d_Allowed (snd (validateWorkspacePath policy_v1 (is_WorkspacePath request) (is_Cwd request)))"
    and "1 \<le> is_OutputLimitBytes request" "is_OutputLimitBytes request \<le> 104857600"
  shows "well_formed_state policy_v1 (initialJobState request started) \<and>
    jm_Status (ps_Job (initialJobState request started)) = JobStatusRunning \<and>
    jm_CapturedBytes (ps_Job (initialJobState request started)) = 0"
proof -
  have "u64_of (is_OutputLimitBytes request) \<le> 104857600"
    using assms(2,3) by (simp add: word_le_nat_alt unat_u64_of)
  then show ?thesis
    using assms
    by (auto simp: well_formed_state_def initialJobState_def identity_agrees_checked capture_bounded_checked
        cursors_inside_def times_ordered_def result_agrees_checked isKnownStatus_def List.member_iff
        Let_def)
qed

text \<open>If the wall clock stepped back below a recorded cancellation or observation, the terminal
  state cannot be published: it is built with a finish time before the recorded one, which
  \<open>ValidatePersistedState\<close> rejects, so \<open>encodeState\<close> fails with a corrupt-state error whatever the
  codec, for the shell's outcome and for a lost runner alike, and the job stays running on disk
  for as long as the clock is behind.\<close>

lemma clock_behind_blocks_terminal:
  assumes "well_formed_state policy_v1 s" "jm_Status (ps_Job s) = JobStatusRunning"
    and "wait_ok outcome" "\<not> clock_covers s now" "k_policy k = policy_v1"
    and "execution_terminal outcome s now = Inr s'"
  shows "(\<exists>e. encodeState k workspace s' = Inl e) \<and>
    (\<exists>e. encodeState k workspace (runnerLostState s now) = Inl e)"
proof -
  let ?finished = "max now (jm_StartedAtUnixMs (ps_Job s))"
  define o' where
    "o' = (if ps_Cancellation s \<noteq> None then outcome\<lparr> eo_cause := causeCancelled \<rparr> else outcome)"
  let ?status = "JobStatus_of_TerminalStatus (outcome_status o')"
  have "wait_ok o'"
    using assms(3) by (simp add: o'_def wait_ok_def)
  then obtain result where result:
    "processResult o' ?finished (jm_CapturedBytes (ps_Job s)) = Inr (result, ?status)"
    "pr_Status result = outcome_status o'" "pr_CapturedBytes result = jm_CapturedBytes (ps_Job s)"
    "pr_FinishedAtUnixMs result = ?finished" "validProcessResult result"
    using processResult_ok by blast
  have "?status \<in> set all_terminal_statuses"
    using terminal_status_cases [of o'] by (auto simp: all_terminal_statuses_def)
  note ok = finished_state_ok(1) [OF assms(1,2) this result(4,3) _ result(5) refl refl]
  have "s' = s\<lparr> ps_Job := (ps_Job s)
      \<lparr> jm_Status := ?status, jm_FinishedAtUnixMs := Some ?finished \<rparr>, ps_Result := Some result \<rparr>"
    using assms(6)
    unfolding execution_terminal_def o'_def [symmetric] terminalState_def Let_def result(1) by simp
  then have s': "\<not> well_formed_state policy_v1 s'"
    using ok assms(4) result(2) by simp
  let ?lost = "\<lparr> pr_CapturedBytes = jm_CapturedBytes (ps_Job s),
    pr_Diagnostic = Some runner_lost_diagnostic, pr_ExitCode = None,
    pr_FinishedAtUnixMs = ?finished, pr_Signal = None, pr_Status = TerminalStatusRunnerLost \<rparr>"
  have "validProcessResult ?lost"
    by (simp add: validProcessResult_def runner_lost_diagnostic_def)
  then have lost: "\<not> well_formed_state policy_v1 (runnerLostState s now)"
    using finished_state_ok(1) [OF assms(1,2), of JobStatusRunnerLost ?lost ?finished now] assms(4)
    by (simp add: runnerLostState_def Let_def all_terminal_statuses_def)
  have "\<exists>e. encodeState k workspace x = Inl e" if "\<not> well_formed_state policy_v1 x" for x
    using encodeState_Inr [of k workspace x] that assms(5) by (cases "encodeState k workspace x") auto
  with s' lost show ?thesis by blast
qed

subsection \<open>A concrete job\<close>

definition example_request :: internalStartRequest where
  "example_request =
    \<lparr> is_JobID = ''job-1'', is_SessionID = ''s'', is_WorkspacePath = ''/w'', is_Cwd = ''/w/x'',
      is_Command = ''true'', is_CreatedAtUnixMs = 10, is_HardTimeoutMs = 1000,
      is_OutputLimitBytes = 100, is_StartupTimeoutMs = 5000, is_TerminationGraceMs = 10000,
      is_PollIntervalMs = 100 \<rparr>"

definition example_job :: PersistedJobState where
  "example_job = initialJobState example_request 20"

definition example_cancelled :: PersistedJobState where
  "example_cancelled = cancelledState example_job ''s'' 30"

definition example_outcome :: executionOutcome where
  "example_outcome =
    \<lparr> eo_cause = causeNormal,
      eo_wait = \<lparr> sw_exitCode = Some 3, sw_signal = None, sw_err = noerr \<rparr> \<rparr>"

lemma example_path: "d_Allowed (snd (validateWorkspacePath policy_v1 ''/w'' ''/w/x''))"
  by (simp add: validateWorkspacePath_def canonicalAbsolute_def filepath_IsAbs_def filepath_Clean_def
      filepath_Rel_def filepath_IsLocal_def path_elements_def clean_component_def has_prefix_def
      sep_def Let_def)

lemma example_job_ok:
  "well_formed_state policy_v1 example_job" "jm_Status (ps_Job example_job) = JobStatusRunning"
  "ps_Cancellation example_job = None" "jm_OwnerSessionID (ps_Job example_job) = ''s''"
  "jm_StartedAtUnixMs (ps_Job example_job) = 20" "ps_Observers example_job = []"
  using example_path
  by (auto simp: well_formed_state_def example_job_def example_request_def initialJobState_def
      identity_agrees_checked capture_bounded_checked cursors_inside_def times_ordered_def
      result_agrees_checked isKnownStatus_def List.member_iff Let_def u64_of_def word_le_nat_alt)

lemma example_cancelled_ok:
  "well_formed_state policy_v1 example_cancelled"
  "jm_Status (ps_Job example_cancelled) = JobStatusRunning"
  "clock_covers example_cancelled now \<longleftrightarrow> 30 \<le> now"
  using example_path
  by (auto simp: well_formed_state_def example_job_def example_request_def initialJobState_def
      identity_agrees_checked capture_bounded_checked cursors_inside_def times_ordered_def
      result_agrees_checked isKnownStatus_def List.member_iff Let_def u64_of_def word_le_nat_alt
      clock_covers_def example_cancelled_def cancelledState_def)

lemma example_outcome_ok: "wait_ok example_outcome"
  by (simp add: wait_ok_def example_outcome_def valid_signal_def)

lemma execution_terminal_publishable_witness:
  "\<exists>s'. execution_terminal example_outcome example_cancelled 50 = Inr s' \<and>
     jm_Status (ps_Job s') = JobStatusCancelled"
proof -
  have "ps_Cancellation example_cancelled \<noteq> None"
    by (simp add: example_cancelled_def cancelledState_def)
  then show ?thesis
    using execution_terminal_publishable
      [OF example_cancelled_ok(1,2) example_outcome_ok, of 50] example_cancelled_ok(3)
    by auto
qed

lemma runnerLost_example:
  "well_formed_state policy_v1 (runnerLostState example_cancelled 30)"
  using runnerLost_publishable [OF example_cancelled_ok(1,2), of 30] example_cancelled_ok(3) by simp

lemma cancelledState_example:
  "well_formed_state policy_v1 (cancelledState example_job ''s'' 30)"
  using cancelledState_publishable [OF example_job_ok(1-3), of "''s''" 30] example_job_ok(4) by simp

text \<open>A codec that stores the one state \<open>s\<close> as the empty byte string.\<close>

definition codec_for :: "PersistedJobState \<Rightarrow> Contracts" where
  "codec_for s =
    \<lparr> k_policy = policy_v1, k_schema_valid = (\<lambda>raw. True), k_decode_state = (\<lambda>raw. Some (s, [])),
      k_marshal_state = (\<lambda>s. Some []), k_decode_runtime = (\<lambda>raw. None),
      k_marshal_runtime = (\<lambda>r. None) \<rparr>"

lemma clock_behind_blocks_terminal_witness:
  "\<exists>s' e. execution_terminal example_outcome example_cancelled 25 = Inr s' \<and>
     encodeState (codec_for s') ''/w'' s' = Inl e"
proof -
  obtain s' where s': "execution_terminal example_outcome example_cancelled 25 = Inr s'"
    by (simp add: execution_terminal_def terminalState_def processResult_def example_outcome_def
        example_cancelled_def cancelledState_def Let_def)
  show ?thesis
    using clock_behind_blocks_terminal [OF example_cancelled_ok(1,2) example_outcome_ok _ _ s']
      example_cancelled_ok(3) [of 25] s' by (auto simp: codec_for_def)
qed

end
