(* ===== verification/Os.thy ===== *)
theory Os
  imports Prelude "HOL-Library.State_Monad"
begin

section \<open>The operating system as the code sees it\<close>

text \<open>
  The system calls of \<open>golang.org/x/sys/unix\<close> and the methods of \<open>os.File\<close> the Go code
  uses, as state transformers on a \<open>world\<close>: the inodes of one file system, the descriptors
  of this process, the inodes whose \<open>flock\<close> another process holds, and scripts for what the
  environment decides. Names given to the \<open>*at\<close> calls are single path components.

  Every call first takes one item of the fault script \<open>w_script\<close>: the call may run normally,
  it may fail with an \<open>errno\<close> of the environment's choice (a failing write leaves a prefix
  behind, a failing close still closes, as on Linux), or the process may be killed at that
  point, after which its descriptors and locks are gone and no call has an effect. A theorem
  that holds for every script thus holds for every pattern of failures and for a crash
  between any two calls. Clock readings, random bytes, the outcomes of \<open>select\<close> and the
  context's error are scripted in the same way.
\<close>

subsection \<open>The world\<close>

datatype filekind = S_IFREG | S_IFDIR | S_IFLNK | S_IFOTHER

record inode =
  i_kind :: filekind
  i_uid :: nat
  i_perm :: nat
  i_nlink :: nat
  i_data :: bytes
  i_entries :: "(string \<times> nat) list"

type_synonym fs = "nat \<Rightarrow> inode option"
type_synonym handle = nat

text \<open>An open descriptor: its inode, and whether it holds the inode's exclusive \<open>flock\<close>.\<close>

type_synonym fdtable = "handle \<Rightarrow> (nat \<times> bool) option"

datatype fault = Fine | Fail nat nat | Kill
datatype select_event = SelRetry | SelDeadline | SelDone err

record world =
  w_inodes :: fs
  w_next :: nat
  w_fds :: fdtable
  w_nextfd :: handle
  w_foreign :: "nat list"
  w_euid :: nat
  w_alive :: bool
  w_script :: "fault list"
  w_clock :: "(int \<times> int) list"
  w_random :: "bytes list"
  w_selects :: "select_event list list"
  w_ctx :: "err option list"
  w_fuel :: nat

type_synonym 'a io = "(world, 'a) state"

text \<open>The result of a Go function that returns a value or an error.\<close>

type_synonym 'a result = "error + 'a"

definition ENOENT :: err where "ENOENT = Errno 2"
definition EIO :: err where "EIO = Errno 5"
definition EBADF :: err where "EBADF = Errno 9"
definition EWOULDBLOCK :: err where "EWOULDBLOCK = Errno 11"
definition EEXIST :: err where "EEXIST = Errno 17"
definition ENOTDIR :: err where "ENOTDIR = Errno 20"
definition EISDIR :: err where "EISDIR = Errno 21"
definition ENOTEMPTY :: err where "ENOTEMPTY = Errno 39"
definition ELOOP :: err where "ELOOP = Errno 40"

lemmas errno_defs =
  ENOENT_def EIO_def EBADF_def EWOULDBLOCK_def EEXIST_def ENOTDIR_def EISDIR_def
  ENOTEMPTY_def ELOOP_def

text \<open>What a call reports to a process that is gone; nobody sees it.\<close>

definition gone :: error where "gone = [ErrText ''process is gone'']"

definition kill_process :: "world \<Rightarrow> world" where
  "kill_process w = w\<lparr> w_alive := False, w_fds := Map.empty \<rparr>"

text \<open>A process that blocks forever keeps its descriptors and has no further effect.\<close>

definition hang_process :: "world \<Rightarrow> world" where
  "hang_process w = w\<lparr> w_alive := False \<rparr>"

text \<open>One system call: \<open>failing\<close> says what a failing call has already done.\<close>

definition syscall ::
  "(world \<Rightarrow> 'a result \<times> world) \<Rightarrow> (nat \<Rightarrow> world \<Rightarrow> world) \<Rightarrow> 'a result io" where
  "syscall act failing = State (\<lambda>w.
     if \<not> w_alive w then (Inl gone, w)
     else case w_script w of
       [] \<Rightarrow> act w
     | Fine # rest \<Rightarrow> act (w\<lparr> w_script := rest \<rparr>)
     | Fail e n # rest \<Rightarrow> (Inl [Errno e], failing n (w\<lparr> w_script := rest \<rparr>))
     | Kill # rest \<Rightarrow> (Inl gone, kill_process w))"

definition no_effect :: "nat \<Rightarrow> world \<Rightarrow> world" where
  "no_effect n w = w"

subsection \<open>Descriptors\<close>

datatype openflag =
    O_RDONLY | O_RDWR | O_CREAT | O_EXCL | O_CLOEXEC | O_NOFOLLOW | O_NONBLOCK | O_DIRECTORY

definition inode_of_fd :: "world \<Rightarrow> handle \<Rightarrow> (nat \<times> inode) option" where
  "inode_of_fd w fd =
    (case w_fds w fd of
       None \<Rightarrow> None
     | Some (n, _) \<Rightarrow> (case w_inodes w n of None \<Rightarrow> None | Some x \<Rightarrow> Some (n, x)))"

text \<open>The directory a descriptor stands for, or the error of using it as one.\<close>

definition directory_of_fd :: "world \<Rightarrow> handle \<Rightarrow> (nat \<times> inode) result" where
  "directory_of_fd w fd =
    (case inode_of_fd w fd of
       None \<Rightarrow> Inl [EBADF]
     | Some (n, x) \<Rightarrow> if i_kind x = S_IFDIR then Inr (n, x) else Inl [ENOTDIR])"

definition new_fd :: "nat \<Rightarrow> world \<Rightarrow> handle result \<times> world" where
  "new_fd n w =
    (Inr (w_nextfd w),
     w\<lparr> w_fds := (w_fds w)(w_nextfd w \<mapsto> (n, False)), w_nextfd := w_nextfd w + 1 \<rparr>)"

definition new_inode :: "filekind \<Rightarrow> nat \<Rightarrow> world \<Rightarrow> inode" where
  "new_inode kind mode w =
    \<lparr> i_kind = kind, i_uid = w_euid w, i_perm = mode, i_nlink = (if kind = S_IFDIR then 2 else 1),
      i_data = [], i_entries = [] \<rparr>"

definition add_entry :: "string \<Rightarrow> nat \<Rightarrow> inode \<Rightarrow> inode" where
  "add_entry name n d = d\<lparr> i_entries := (name, n) # i_entries d \<rparr>"

definition drop_entry :: "string \<Rightarrow> inode \<Rightarrow> inode" where
  "drop_entry name d = d\<lparr> i_entries := filter (\<lambda>e. fst e \<noteq> name) (i_entries d) \<rparr>"

definition unlink_inode :: "inode \<Rightarrow> inode" where
  "unlink_inode x = x\<lparr> i_nlink := i_nlink x - 1 \<rparr>"

definition create_at :: "nat \<Rightarrow> string \<Rightarrow> inode \<Rightarrow> world \<Rightarrow> world" where
  "create_at d name x w =
    w\<lparr> w_inodes := (w_inodes w)(w_next w \<mapsto> x,
         d := map_option (add_entry name (w_next w)) (w_inodes w d)),
       w_next := w_next w + 1 \<rparr>"

definition unix_Openat :: "handle \<Rightarrow> string \<Rightarrow> openflag set \<Rightarrow> nat \<Rightarrow> handle result io" where
  "unix_Openat fd name flags mode = syscall (\<lambda>w.
     case directory_of_fd w fd of
       Inl e \<Rightarrow> (Inl e, w)
     | Inr (d, dir) \<Rightarrow>
         (case map_of (i_entries dir) name of
            None \<Rightarrow>
              if O_CREAT \<in> flags
              then new_fd (w_next w) (create_at d name (new_inode S_IFREG mode w) w)
              else (Inl [ENOENT], w)
          | Some n \<Rightarrow>
              (case w_inodes w n of
                 None \<Rightarrow> (Inl [EIO], w)
               | Some x \<Rightarrow>
                   if O_CREAT \<in> flags \<and> O_EXCL \<in> flags then (Inl [EEXIST], w)
                   else if O_DIRECTORY \<in> flags \<and> i_kind x \<noteq> S_IFDIR then (Inl [ENOTDIR], w)
                   else if O_NOFOLLOW \<in> flags \<and> i_kind x = S_IFLNK then (Inl [ELOOP], w)
                   else if O_RDWR \<in> flags \<and> i_kind x = S_IFDIR then (Inl [EISDIR], w)
                   else new_fd n w))) no_effect"

text \<open>\<open>unix.Open("/", ...)\<close>: inode 0 is the root directory.\<close>

definition unix_Open_root :: "handle result io" where
  "unix_Open_root = syscall (\<lambda>w.
     case w_inodes w 0 of None \<Rightarrow> (Inl [EIO], w) | Some x \<Rightarrow> new_fd 0 w) no_effect"

definition drop_fd :: "handle \<Rightarrow> world \<Rightarrow> world" where
  "drop_fd fd w = w\<lparr> w_fds := (w_fds w)(fd := None) \<rparr>"

text \<open>\<open>os.File.Close\<close> and \<open>unix.Close\<close>; the error alone is the result.\<close>

definition error_of :: "unit result \<Rightarrow> error" where
  "error_of r = (case r of Inl e \<Rightarrow> e | Inr _ \<Rightarrow> noerr)"

definition file_Close :: "handle \<Rightarrow> error io" where
  "file_Close fd = do {
     r \<leftarrow> syscall (\<lambda>w. if w_fds w fd = None then (Inl [FsErrClosed], w) else (Inr (), drop_fd fd w))
           (\<lambda>n. drop_fd fd);
     State_Monad.return (error_of r) }"

definition unix_Fstat :: "handle \<Rightarrow> inode result io" where
  "unix_Fstat fd = syscall (\<lambda>w.
     case inode_of_fd w fd of None \<Rightarrow> (Inl [EBADF], w) | Some (n, x) \<Rightarrow> (Inr x, w)) no_effect"

definition unix_Fstatat :: "handle \<Rightarrow> string \<Rightarrow> inode result io" where
  "unix_Fstatat fd name = syscall (\<lambda>w.
     case directory_of_fd w fd of
       Inl e \<Rightarrow> (Inl e, w)
     | Inr (d, dir) \<Rightarrow>
         (case map_of (i_entries dir) name of
            None \<Rightarrow> (Inl [ENOENT], w)
          | Some n \<Rightarrow> (case w_inodes w n of None \<Rightarrow> (Inl [EIO], w) | Some x \<Rightarrow> (Inr x, w))))
     no_effect"

definition unix_Mkdirat :: "handle \<Rightarrow> string \<Rightarrow> nat \<Rightarrow> error io" where
  "unix_Mkdirat fd name mode = do {
     r \<leftarrow> syscall (\<lambda>w.
       case directory_of_fd w fd of
         Inl e \<Rightarrow> (Inl e, w)
       | Inr (d, dir) \<Rightarrow>
           (case map_of (i_entries dir) name of
              Some n \<Rightarrow> (Inl [EEXIST], w)
            | None \<Rightarrow> (Inr (), create_at d name (new_inode S_IFDIR mode w) w))) no_effect;
     State_Monad.return (error_of r) }"

definition update_inode :: "nat \<Rightarrow> (inode \<Rightarrow> inode) \<Rightarrow> world \<Rightarrow> world" where
  "update_inode n f w = w\<lparr> w_inodes := (w_inodes w)(n := map_option f (w_inodes w n)) \<rparr>"

definition unix_Unlinkat :: "handle \<Rightarrow> string \<Rightarrow> bool \<Rightarrow> error io" where
  "unix_Unlinkat fd name removedir = do {
     r \<leftarrow> syscall (\<lambda>w.
       case directory_of_fd w fd of
         Inl e \<Rightarrow> (Inl e, w)
       | Inr (d, dir) \<Rightarrow>
           (case map_of (i_entries dir) name of
              None \<Rightarrow> (Inl [ENOENT], w)
            | Some n \<Rightarrow>
                (case w_inodes w n of
                   None \<Rightarrow> (Inl [EIO], w)
                 | Some x \<Rightarrow>
                     if removedir \<and> i_kind x \<noteq> S_IFDIR then (Inl [ENOTDIR], w)
                     else if removedir \<and> i_entries x \<noteq> [] then (Inl [ENOTEMPTY], w)
                     else if \<not> removedir \<and> i_kind x = S_IFDIR then (Inl [EISDIR], w)
                     else (Inr (), update_inode d (drop_entry name) (update_inode n unlink_inode w)))))
       no_effect;
     State_Monad.return (error_of r) }"

text \<open>\<open>unix.Renameat\<close> inside one directory, the only way the code calls it.\<close>

definition rename_in :: "nat \<Rightarrow> string \<Rightarrow> string \<Rightarrow> nat \<Rightarrow> world \<Rightarrow> world" where
  "rename_in d old new n w =
    update_inode d (\<lambda>dir. add_entry new n (drop_entry new (drop_entry old dir))) w"

definition unix_Renameat :: "handle \<Rightarrow> string \<Rightarrow> string \<Rightarrow> error io" where
  "unix_Renameat fd old new = do {
     r \<leftarrow> syscall (\<lambda>w.
       case directory_of_fd w fd of
         Inl e \<Rightarrow> (Inl e, w)
       | Inr (d, dir) \<Rightarrow>
           (case map_of (i_entries dir) old of
              None \<Rightarrow> (Inl [ENOENT], w)
            | Some n \<Rightarrow>
                (case (w_inodes w n, map_of (i_entries dir) new) of
                   (None, _) \<Rightarrow> (Inl [EIO], w)
                 | (Some x, None) \<Rightarrow> (Inr (), rename_in d old new n w)
                 | (Some x, Some m) \<Rightarrow>
                     (case w_inodes w m of
                        None \<Rightarrow> (Inl [EIO], w)
                      | Some y \<Rightarrow>
                          if m = n then (Inr (), w)
                          else if i_kind x = S_IFDIR \<and> i_kind y \<noteq> S_IFDIR then (Inl [ENOTDIR], w)
                          else if i_kind x \<noteq> S_IFDIR \<and> i_kind y = S_IFDIR then (Inl [EISDIR], w)
                          else if i_kind y = S_IFDIR \<and> i_entries y \<noteq> [] then (Inl [ENOTEMPTY], w)
                          else (Inr (), rename_in d old new n (update_inode m unlink_inode w))))))
       no_effect;
     State_Monad.return (error_of r) }"

text \<open>\<open>os.File.Sync\<close>.\<close>

definition file_Sync :: "handle \<Rightarrow> error io" where
  "file_Sync fd = do {
     r \<leftarrow> syscall (\<lambda>w. if w_fds w fd = None then (Inl [FsErrClosed], w) else (Inr (), w)) no_effect;
     State_Monad.return (error_of r) }"

text \<open>\<open>F_DUPFD_CLOEXEC\<close>; the code duplicates directories only, which are never locked.\<close>

definition unix_Dup :: "handle \<Rightarrow> handle result io" where
  "unix_Dup fd = syscall (\<lambda>w.
     case w_fds w fd of None \<Rightarrow> (Inl [EBADF], w) | Some (n, _) \<Rightarrow> new_fd n w) no_effect"

subsection \<open>Locks\<close>

definition locked_by_other :: "world \<Rightarrow> handle \<Rightarrow> nat \<Rightarrow> bool" where
  "locked_by_other w fd n \<longleftrightarrow>
    n \<in> set (w_foreign w) \<or>
    list_ex (\<lambda>fd'. fd' \<noteq> fd \<and> w_fds w fd' = Some (n, True)) [0..<w_nextfd w]"

definition set_lock :: "handle \<Rightarrow> bool \<Rightarrow> world \<Rightarrow> world" where
  "set_lock fd locked w =
    w\<lparr> w_fds := (w_fds w)(fd := map_option (\<lambda>(n, _). (n, locked)) (w_fds w fd)) \<rparr>"

text \<open>
  \<open>flock(LOCK_EX | LOCK_NB)\<close>, \<open>flock(LOCK_EX)\<close> and \<open>flock(LOCK_UN)\<close>. The blocking call
  waits for another process; against a lock of its own process it would wait forever.
\<close>

definition flock_nonblocking :: "handle \<Rightarrow> error io" where
  "flock_nonblocking fd = do {
     r \<leftarrow> syscall (\<lambda>w.
       case w_fds w fd of
         None \<Rightarrow> (Inl [EBADF], w)
       | Some (n, _) \<Rightarrow>
           if locked_by_other w fd n then (Inl [EWOULDBLOCK], w) else (Inr (), set_lock fd True w))
       no_effect;
     State_Monad.return (error_of r) }"

definition flock_blocking :: "handle \<Rightarrow> error io" where
  "flock_blocking fd = do {
     r \<leftarrow> syscall (\<lambda>w.
       case w_fds w fd of
         None \<Rightarrow> (Inl [EBADF], w)
       | Some (n, _) \<Rightarrow>
           if locked_by_other (w\<lparr> w_foreign := [] \<rparr>) fd n then (Inl gone, hang_process w)
           else (Inr (), set_lock fd True (w\<lparr> w_foreign := removeAll n (w_foreign w) \<rparr>)))
       no_effect;
     State_Monad.return (error_of r) }"

definition flock_unlock :: "handle \<Rightarrow> error io" where
  "flock_unlock fd = do {
     r \<leftarrow> syscall (\<lambda>w. if w_fds w fd = None then (Inl [EBADF], w) else (Inr (), set_lock fd False w))
           no_effect;
     State_Monad.return (error_of r) }"

subsection \<open>Data\<close>

text \<open>\<open>io.ReadAll(io.LimitReader(file, n))\<close> on a descriptor that was just opened.\<close>

definition io_ReadAll :: "handle \<Rightarrow> int \<Rightarrow> bytes result io" where
  "io_ReadAll fd n = syscall (\<lambda>w.
     case inode_of_fd w fd of
       None \<Rightarrow> (Inl [EBADF], w)
     | Some (_, x) \<Rightarrow> (Inr (take (nat n) (i_data x)), w)) no_effect"

text \<open>\<open>io.ReadFull\<close> on the section of \<open>n\<close> bytes at the start of the file.\<close>

definition io_ReadFull :: "handle \<Rightarrow> int \<Rightarrow> bytes result io" where
  "io_ReadFull fd n = syscall (\<lambda>w.
     case inode_of_fd w fd of
       None \<Rightarrow> (Inl [EBADF], w)
     | Some (_, x) \<Rightarrow>
         if length (i_data x) < nat n
         then (Inl [if i_data x = [] then IoEOF else IoUnexpectedEOF], w)
         else (Inr (take (nat n) (i_data x)), w)) no_effect"

text \<open>Bytes written at an offset; a gap before it reads as zeros. Nothing is written for no bytes.\<close>

definition put_bytes :: "bytes \<Rightarrow> int \<Rightarrow> bytes \<Rightarrow> bytes" where
  "put_bytes raw offset old =
    (if raw = [] then old else let k = nat offset in
     take k (old @ replicate (k - length old) (char_of (0 :: nat))) @ raw @
     drop (k + length raw) old)"

definition write_inode :: "handle \<Rightarrow> bytes \<Rightarrow> int \<Rightarrow> world \<Rightarrow> world" where
  "write_inode fd raw offset w =
    (case w_fds w fd of
       None \<Rightarrow> w
     | Some (n, _) \<Rightarrow> update_inode n (\<lambda>x. x\<lparr> i_data := put_bytes raw offset (i_data x) \<rparr>) w)"

text \<open>
  \<open>os.File.WriteAt\<close>: the number of bytes written and the error; \<open>io.Copy\<close> of a
  \<open>bytes.Reader\<close> to a new file writes at offset 0.
\<close>

definition file_WriteAt :: "handle \<Rightarrow> bytes \<Rightarrow> int \<Rightarrow> (int \<times> error) io" where
  "file_WriteAt fd raw offset = State (\<lambda>w.
     if \<not> w_alive w then ((0, gone), w)
     else case w_script w of
       Fail e n # rest \<Rightarrow>
         ((int (min n (length raw)), [Errno e]),
          write_inode fd (take n raw) offset (w\<lparr> w_script := rest \<rparr>))
     | Kill # rest \<Rightarrow> ((0, gone), kill_process w)
     | script \<Rightarrow>
         if w_fds w fd = None then ((0, [FsErrClosed]), w\<lparr> w_script := tl script \<rparr>)
         else ((int (length raw), noerr), write_inode fd raw offset (w\<lparr> w_script := tl script \<rparr>)))"

text \<open>\<open>os.File.Stat().Size()\<close>.\<close>

definition file_Size :: "handle \<Rightarrow> int result io" where
  "file_Size fd = syscall (\<lambda>w.
     case inode_of_fd w fd of
       None \<Rightarrow> (Inl [EBADF], w)
     | Some (_, x) \<Rightarrow> (Inr (int (length (i_data x))), w)) no_effect"

text \<open>\<open>ReadDir(-1)\<close>: each name with the kind of its inode.\<close>

definition file_ReadDir :: "handle \<Rightarrow> (string \<times> filekind) list result io" where
  "file_ReadDir fd = syscall (\<lambda>w.
     case directory_of_fd w fd of
       Inl e \<Rightarrow> (Inl e, w)
     | Inr (_, dir) \<Rightarrow>
         (Inr (map (\<lambda>(name, n). (name, case w_inodes w n of None \<Rightarrow> S_IFOTHER | Some x \<Rightarrow> i_kind x))
                (i_entries dir)), w)) no_effect"

subsection \<open>Time, randomness, contexts\<close>

text \<open>
  A reading of the clock: Unix milliseconds of the wall clock, which may step backwards, and
  the monotonic clock in nanoseconds, which the code's deadlines are measured on.
\<close>

definition time_Now :: "(int \<times> int) io" where
  "time_Now = State (\<lambda>w.
     case w_clock w of
       [] \<Rightarrow> ((0, 0), w)
     | [now] \<Rightarrow> (now, w)
     | now # rest \<Rightarrow> (now, w\<lparr> w_clock := rest \<rparr>))"

definition unix_milli_now :: "int io" where
  "unix_milli_now = do { now \<leftarrow> time_Now; State_Monad.return (fst now) }"

definition monotonic_now :: "int io" where
  "monotonic_now = do { now \<leftarrow> time_Now; State_Monad.return (snd now) }"

definition time_Until :: "int \<Rightarrow> int io" where
  "time_Until deadline = do { now \<leftarrow> monotonic_now; State_Monad.return (deadline - now) }"

definition rand_Read :: "nat \<Rightarrow> bytes result io" where
  "rand_Read n = syscall (\<lambda>w.
     case w_random w of
       [] \<Rightarrow> (Inr (replicate n (char_of (0 :: nat))), w)
     | raw # rest \<Rightarrow>
         (Inr (take n (raw @ replicate n (char_of (0 :: nat)))), w\<lparr> w_random := rest \<rparr>)) no_effect"

text \<open>
  \<open>ctx.Err()\<close>. Each reading takes one answer of the script, so that one script covers an operation
  that asks two contexts, its caller's and one with a deadline of its own.
\<close>

definition ctx_Err :: "error io" where
  "ctx_Err = State (\<lambda>w.
     case w_ctx w of
       [] \<Rightarrow> (noerr, w)
     | None # rest \<Rightarrow> (noerr, w\<lparr> w_ctx := rest \<rparr>)
     | Some e # rest \<Rightarrow> ([e], w\<lparr> w_ctx := rest \<rparr>))"

text \<open>
  The channels that become ready while a loop polls. A script that ends stands for the
  deadline: the timer of a poll loop has a finite duration, so it fires.
\<close>

definition next_selects :: "select_event list io" where
  "next_selects = State (\<lambda>w.
     case w_selects w of [] \<Rightarrow> ([], w) | events # rest \<Rightarrow> (events, w\<lparr> w_selects := rest \<rparr>))"

text \<open>The bound on the rounds of a loop without a timer of its own; a loop that passes it hangs.\<close>

definition loop_fuel :: "nat io" where
  "loop_fuel = State (\<lambda>w. (w_fuel w, w))"

definition os_Geteuid :: "nat io" where
  "os_Geteuid = State (\<lambda>w. (w_euid w, w))"

definition hang :: "unit io" where
  "hang = State (\<lambda>w. ((), hang_process w))"

definition fileFromFD :: "handle \<Rightarrow> string \<Rightarrow> handle result io" where
  "fileFromFD fd name = State_Monad.return (Inr fd)"

end
