(* ===== verification/Wp.thy ===== *)
theory Wp
  imports Os
begin

section \<open>Reasoning about code that calls the operating system\<close>

text \<open>
  Weakest preconditions for the state monad, and one rule per system call. A rule describes
  the world by \<open>St u I F w\<close>: the file system is \<open>I\<close>, and the process, if it has not been
  killed, has the descriptor table \<open>F\<close>. The fault script stays arbitrary, so each rule has a
  premise for the call's failure. A lemma about a Go function is stated in the same form as the
  rules and used as one.
\<close>

named_theorems wp_rules \<open>rules for system calls and for functions built from them\<close>

subsection \<open>Weakest preconditions\<close>

definition wp :: "'a io \<Rightarrow> ('a \<Rightarrow> world \<Rightarrow> bool) \<Rightarrow> world \<Rightarrow> bool" where
  "wp m Q w \<longleftrightarrow> (case run_state m w of (r, w') \<Rightarrow> Q r w')"

lemma wp_return [simp]: "wp (State_Monad.return x) Q w \<longleftrightarrow> Q x w"
  by (simp add: wp_def State_Monad.return_def)

lemma wp_bind [simp]: "wp (State_Monad.bind m f) Q w \<longleftrightarrow> wp m (\<lambda>r. wp (f r) Q) w"
  by (simp add: wp_def State_Monad.bind_def split: prod.splits)

lemma wp_mono: "wp m Q w \<Longrightarrow> (\<And>r w'. Q r w' \<Longrightarrow> Q' r w') \<Longrightarrow> wp m Q' w"
  by (auto simp: wp_def split: prod.splits)

lemma wp_conj: "wp m Q w \<Longrightarrow> wp m Q' w \<Longrightarrow> wp m (\<lambda>r w'. Q r w' \<and> Q' r w') w"
  by (auto simp: wp_def split: prod.splits)

lemma wp_run: "wp m Q w \<Longrightarrow> run_state m w = (r, w') \<Longrightarrow> Q r w'"
  by (simp add: wp_def)

subsection \<open>Describing a world\<close>

definition St :: "nat \<Rightarrow> fs \<Rightarrow> fdtable \<Rightarrow> world \<Rightarrow> bool" where
  "St u I F w \<longleftrightarrow>
    w_euid w = u \<and> w_inodes w = I \<and> (\<forall>n. w_next w \<le> n \<longrightarrow> I n = None) \<and>
    (w_alive w \<longrightarrow> w_fds w = F \<and> (\<forall>h. w_nextfd w \<le> h \<longrightarrow> F h = None))"

text \<open>What every world the code runs in satisfies: numbers not yet handed out are unused.\<close>

definition world_ok :: "world \<Rightarrow> bool" where
  "world_ok w \<longleftrightarrow> (\<forall>n. w_next w \<le> n \<longrightarrow> w_inodes w n = None) \<and>
    (w_alive w \<longrightarrow> (\<forall>h. w_nextfd w \<le> h \<longrightarrow> w_fds w h = None))"

lemma St_start: "world_ok w \<Longrightarrow> St (w_euid w) (w_inodes w) (w_fds w) w"
  by (simp add: St_def world_ok_def)

lemma St_end: "St u I F w \<Longrightarrow> w_inodes w = I \<and> world_ok w \<and> (w_alive w \<longrightarrow> w_fds w = F)"
  by (auto simp: St_def world_ok_def)

lemma St_dead: "St u I F w \<Longrightarrow> \<not> w_alive w \<Longrightarrow> St u I F' w"
  by (simp add: St_def)

lemma St_script [simp]: "St u I F (w\<lparr> w_script := s \<rparr>) \<longleftrightarrow> St u I F w"
  by (simp add: St_def)

lemma St_script_foreign [simp]: "St u I F (w\<lparr> w_foreign := s \<rparr>) \<longleftrightarrow> St u I F w"
  by (simp add: St_def)

lemma St_kill: "St u I F w \<Longrightarrow> St u I F' (kill_process w)"
  by (simp add: St_def kill_process_def)

lemma St_hang: "St u I F w \<Longrightarrow> St u I F' (hang_process w)"
  by (simp add: St_def hang_process_def)

subsection \<open>System calls\<close>

lemma wp_syscall:
  assumes "St u I F w"
    and "\<And>e w'. St u I F w' \<Longrightarrow> e \<noteq> [] \<Longrightarrow> Q (Inl e) w'"
    and "\<And>w'. St u I F w' \<Longrightarrow> w_alive w' \<Longrightarrow> (case act w' of (r, w'') \<Rightarrow> Q r w'')"
  shows "wp (syscall act no_effect) Q w"
  using assms St_kill [of u I F w F]
  by (auto simp: wp_def syscall_def no_effect_def gone_def split: list.splits fault.splits prod.splits)

lemma St_new_fd:
  assumes "St u I F w" "w_alive w"
  obtains h w' where "new_fd n w = (Inr h, w')" "F h = None" "St u I (F(h \<mapsto> (n, False))) w'"
    "w_alive w'"
  using assms by (auto simp: new_fd_def St_def)

lemma St_inode_of_fd:
  "St u I F w \<Longrightarrow> w_alive w \<Longrightarrow> inode_of_fd w fd =
     (case F fd of None \<Rightarrow> None
      | Some (n, _) \<Rightarrow> (case I n of None \<Rightarrow> None | Some x \<Rightarrow> Some (n, x)))"
  by (auto simp: inode_of_fd_def St_def split: option.splits)

text \<open>\<open>name\<close> is an entry of the directory that \<open>fd\<close> has open.\<close>

definition entry_at :: "fs \<Rightarrow> fdtable \<Rightarrow> handle \<Rightarrow> string \<Rightarrow> nat \<Rightarrow> bool" where
  "entry_at I F fd name n \<longleftrightarrow>
    (\<exists>d b dir. F fd = Some (d, b) \<and> I d = Some dir \<and> i_kind dir = S_IFDIR \<and>
               map_of (i_entries dir) name = Some n)"

lemma directory_of_fd_Inr:
  assumes "St u I F w" "w_alive w" "directory_of_fd w fd = Inr (d, dir)"
  shows "\<exists>b. F fd = Some (d, b)" "I d = Some dir" "i_kind dir = S_IFDIR"
  using assms by (auto simp: directory_of_fd_def St_inode_of_fd split: option.splits if_splits)

lemma directory_of_fd_Inl:
  "directory_of_fd w fd = Inl e \<Longrightarrow> e \<noteq> []"
  by (auto simp: directory_of_fd_def split: option.splits if_splits)

lemma wp_Openat:
  assumes "St u I F w" "O_CREAT \<notin> flags"
    and "\<And>e w'. St u I F w' \<Longrightarrow> e \<noteq> [] \<Longrightarrow> Q (Inl e) w'"
    and "\<And>h n x w'. F h = None \<Longrightarrow> St u I (F(h \<mapsto> (n, False))) w' \<Longrightarrow> I n = Some x \<Longrightarrow>
           entry_at I F fd name n \<Longrightarrow> (O_DIRECTORY \<in> flags \<longrightarrow> i_kind x = S_IFDIR) \<Longrightarrow>
           (O_NOFOLLOW \<in> flags \<longrightarrow> i_kind x \<noteq> S_IFLNK) \<Longrightarrow> Q (Inr h) w'"
  shows "wp (unix_Openat fd name flags mode) Q w"
  unfolding unix_Openat_def
proof (rule wp_syscall [where Q = Q, OF assms(1,3)])
  fix w' assume st: "St u I F w'" and alive: "w_alive w'"
  have I: "w_inodes w' = I" using st by (simp add: St_def)
  show "case case directory_of_fd w' fd of
       Inl e \<Rightarrow> (Inl e, w')
     | Inr (d, dir) \<Rightarrow>
         (case map_of (i_entries dir) name of
            None \<Rightarrow>
              if O_CREAT \<in> flags
              then new_fd (w_next w') (create_at d name (new_inode S_IFREG mode w') w')
              else (Inl [ENOENT], w')
          | Some n \<Rightarrow>
              (case w_inodes w' n of
                 None \<Rightarrow> (Inl [EIO], w')
               | Some x \<Rightarrow>
                   if O_CREAT \<in> flags \<and> O_EXCL \<in> flags then (Inl [EEXIST], w')
                   else if O_DIRECTORY \<in> flags \<and> i_kind x \<noteq> S_IFDIR then (Inl [ENOTDIR], w')
                   else if O_NOFOLLOW \<in> flags \<and> i_kind x = S_IFLNK then (Inl [ELOOP], w')
                   else if O_RDWR \<in> flags \<and> i_kind x = S_IFDIR then (Inl [EISDIR], w')
                   else new_fd n w')) of
     (r, w'') \<Rightarrow> Q r w''"
  proof (cases "directory_of_fd w' fd")
    case (Inl e)
    then show ?thesis using assms(3) [OF st] directory_of_fd_Inl by auto
  next
    case (Inr r)
    then obtain d dir where r: "directory_of_fd w' fd = Inr (d, dir)" by (cases r) auto
    note dir = directory_of_fd_Inr [OF st alive r]
    show ?thesis
    proof (cases "\<exists>n x. map_of (i_entries dir) name = Some n \<and> I n = Some x")
      case False
      then show ?thesis
        using assms(2) assms(3) [OF st] r I by (auto split: option.splits)
    next
      case True
      then obtain n x where n: "map_of (i_entries dir) name = Some n" "I n = Some x" by blast
      obtain h w2 where h: "new_fd n w' = (Inr h, w2)" "F h = None"
        "St u I (F(h \<mapsto> (n, False))) w2"
        using St_new_fd [OF st alive] by blast
      have "entry_at I F fd name n" using dir n by (auto simp: entry_at_def)
      with assms(2) assms(3) [OF st] assms(4) [OF h(2,3) n(2)] n h(1) r I show ?thesis
        by auto
    qed
  qed
qed

lemma wp_Open_root:
  assumes "St u I F w"
    and "\<And>e w'. St u I F w' \<Longrightarrow> e \<noteq> [] \<Longrightarrow> Q (Inl e) w'"
    and "\<And>h x w'. F h = None \<Longrightarrow> St u I (F(h \<mapsto> (0, False))) w' \<Longrightarrow> I 0 = Some x \<Longrightarrow> Q (Inr h) w'"
  shows "wp unix_Open_root Q w"
  unfolding unix_Open_root_def
proof (rule wp_syscall [where Q = Q, OF assms(1,2)])
  fix w' assume st: "St u I F w'" and alive: "w_alive w'"
  obtain h w2 where h: "new_fd 0 w' = (Inr h, w2)" "F h = None" "St u I (F(h \<mapsto> (0, False))) w2"
    using St_new_fd [OF st alive] by blast
  have "w_inodes w' = I" using st by (simp add: St_def)
  then show "case case w_inodes w' 0 of None \<Rightarrow> (Inl [EIO], w') | Some x \<Rightarrow> new_fd 0 w' of
      (r, w'') \<Rightarrow> Q r w''"
    using h assms(2) [OF st] assms(3) by (auto split: option.splits)
qed

lemma wp_Dup:
  assumes "St u I F w"
    and "\<And>e w'. St u I F w' \<Longrightarrow> e \<noteq> [] \<Longrightarrow> Q (Inl e) w'"
    and "\<And>h n b w'. F h = None \<Longrightarrow> F fd = Some (n, b) \<Longrightarrow> St u I (F(h \<mapsto> (n, False))) w' \<Longrightarrow> Q (Inr h) w'"
  shows "wp (unix_Dup fd) Q w"
  unfolding unix_Dup_def
proof (rule wp_syscall [where Q = Q, OF assms(1,2)])
  fix w' assume st: "St u I F w'" and alive: "w_alive w'"
  have F: "w_fds w' = F" using st alive by (simp add: St_def)
  show "case case w_fds w' fd of None \<Rightarrow> (Inl [EBADF], w') | Some (n, _) \<Rightarrow> new_fd n w' of
      (r, w'') \<Rightarrow> Q r w''"
  proof (cases "F fd")
    case None
    with F assms(2) [OF st] show ?thesis by simp
  next
    case (Some p)
    then obtain n b where p: "F fd = Some (n, b)" by (cases p) auto
    obtain h w2 where "new_fd n w' = (Inr h, w2)" "F h = None" "St u I (F(h \<mapsto> (n, False))) w2"
      using St_new_fd [OF st alive] by blast
    with F p assms(3) [OF _ p] show ?thesis by simp
  qed
qed

lemma St_drop_fd: "St u I F w \<Longrightarrow> St u I (F(fd := None)) (drop_fd fd w)"
  by (auto simp: St_def drop_fd_def)

lemma wp_Close:
  assumes "St u I F w" and "\<And>e w'. St u I (F(fd := None)) w' \<Longrightarrow> Q e w'"
  shows "wp (file_Close fd) Q w"
proof -
  have none: "w_alive w \<Longrightarrow> w_fds w fd = None \<Longrightarrow> F(fd := None) = F"
    using assms(1) by (auto simp: St_def)
  show ?thesis
    using assms none St_drop_fd [OF assms(1), of fd] St_dead [OF assms(1)] St_kill [OF assms(1)]
    by (auto simp: wp_def file_Close_def syscall_def error_of_def State_Monad.bind_def
        State_Monad.return_def drop_fd_def St_def
        split: list.splits fault.splits prod.splits if_splits)
qed

text \<open>Calls that change nothing: any error, or a result about the world as it is.\<close>

lemma wp_Fstat:
  assumes "St u I F w"
    and "\<And>e w'. St u I F w' \<Longrightarrow> e \<noteq> [] \<Longrightarrow> Q (Inl e) w'"
    and "\<And>n b x w'. St u I F w' \<Longrightarrow> F fd = Some (n, b) \<Longrightarrow> I n = Some x \<Longrightarrow> Q (Inr x) w'"
  shows "wp (unix_Fstat fd) Q w"
  unfolding unix_Fstat_def
  by (rule wp_syscall [where Q = Q, OF assms(1,2)])
    (use assms in \<open>auto simp: St_inode_of_fd split: option.splits\<close>)

lemma wp_Fstatat:
  assumes "St u I F w"
    and "\<And>e w'. St u I F w' \<Longrightarrow> e \<noteq> [] \<Longrightarrow> Q (Inl e) w'"
    and "\<And>n x w'. St u I F w' \<Longrightarrow> entry_at I F fd name n \<Longrightarrow> I n = Some x \<Longrightarrow> Q (Inr x) w'"
  shows "wp (unix_Fstatat fd name) Q w"
  unfolding unix_Fstatat_def
proof (rule wp_syscall [where Q = Q, OF assms(1,2)])
  fix w' assume st: "St u I F w'" and alive: "w_alive w'"
  have I: "w_inodes w' = I" using st by (simp add: St_def)
  show "case case directory_of_fd w' fd of
       Inl e \<Rightarrow> (Inl e, w')
     | Inr (d, dir) \<Rightarrow>
         (case map_of (i_entries dir) name of
            None \<Rightarrow> (Inl [ENOENT], w')
          | Some n \<Rightarrow> (case w_inodes w' n of None \<Rightarrow> (Inl [EIO], w') | Some x \<Rightarrow> (Inr x, w'))) of
     (r, w'') \<Rightarrow> Q r w''"
    using assms(2) [OF st] assms(3) [OF st] directory_of_fd_Inr [OF st alive]
      directory_of_fd_Inl [of w' fd] I
    by (fastforce simp: entry_at_def split: sum.splits option.splits prod.splits)
qed

lemma wp_ReadAll:
  assumes "St u I F w"
    and "\<And>e w'. St u I F w' \<Longrightarrow> e \<noteq> [] \<Longrightarrow> Q (Inl e) w'"
    and "\<And>n b x w'. St u I F w' \<Longrightarrow> F fd = Some (n, b) \<Longrightarrow> I n = Some x \<Longrightarrow>
           Q (Inr (take (nat k) (i_data x))) w'"
  shows "wp (io_ReadAll fd k) Q w"
  unfolding io_ReadAll_def
  by (rule wp_syscall [where Q = Q, OF assms(1,2)])
    (use assms in \<open>auto simp: St_inode_of_fd split: option.splits\<close>)

lemma wp_ReadFull:
  assumes "St u I F w"
    and "\<And>e w'. St u I F w' \<Longrightarrow> e \<noteq> [] \<Longrightarrow> Q (Inl e) w'"
    and "\<And>n b x w'. St u I F w' \<Longrightarrow> F fd = Some (n, b) \<Longrightarrow> I n = Some x \<Longrightarrow>
           nat k \<le> length (i_data x) \<Longrightarrow> Q (Inr (take (nat k) (i_data x))) w'"
  shows "wp (io_ReadFull fd k) Q w"
  unfolding io_ReadFull_def
  by (rule wp_syscall [where Q = Q, OF assms(1,2)])
    (use assms in \<open>auto simp: St_inode_of_fd not_less split: option.splits\<close>)

lemma wp_Size:
  assumes "St u I F w"
    and "\<And>e w'. St u I F w' \<Longrightarrow> e \<noteq> [] \<Longrightarrow> Q (Inl e) w'"
    and "\<And>n b x w'. St u I F w' \<Longrightarrow> F fd = Some (n, b) \<Longrightarrow> I n = Some x \<Longrightarrow>
           Q (Inr (int (length (i_data x)))) w'"
  shows "wp (file_Size fd) Q w"
  unfolding file_Size_def
  by (rule wp_syscall [where Q = Q, OF assms(1,2)])
    (use assms in \<open>auto simp: St_inode_of_fd split: option.splits\<close>)

lemma wp_ReadDir:
  assumes "St u I F w"
    and "\<And>e w'. St u I F w' \<Longrightarrow> e \<noteq> [] \<Longrightarrow> Q (Inl e) w'"
    and "\<And>d b dir names w'. St u I F w' \<Longrightarrow> F fd = Some (d, b) \<Longrightarrow> I d = Some dir \<Longrightarrow>
           i_kind dir = S_IFDIR \<Longrightarrow> map fst names = map fst (i_entries dir) \<Longrightarrow> Q (Inr names) w'"
  shows "wp (file_ReadDir fd) Q w"
  unfolding file_ReadDir_def
proof (rule wp_syscall [where Q = Q, OF assms(1,2)])
  fix w' assume st: "St u I F w'" and alive: "w_alive w'"
  show "case case directory_of_fd w' fd of
       Inl e \<Rightarrow> (Inl e, w')
     | Inr (_, dir) \<Rightarrow>
         (Inr (map (\<lambda>(name, n). (name, case w_inodes w' n of None \<Rightarrow> S_IFOTHER | Some x \<Rightarrow> i_kind x))
                (i_entries dir)), w') of (r, w'') \<Rightarrow> Q r w''"
  proof (cases "directory_of_fd w' fd")
    case (Inl e)
    then show ?thesis using assms(2) [OF st] directory_of_fd_Inl by auto
  next
    case (Inr r)
    then obtain d dir where r: "directory_of_fd w' fd = Inr (d, dir)" by (cases r) auto
    then show ?thesis
      using directory_of_fd_Inr [OF st alive r] assms(3) [OF st]
      by (auto simp: case_prod_beta)
  qed
qed

lemma wp_Sync:
  assumes "St u I F w"
    and "\<And>e w'. St u I F w' \<Longrightarrow> e \<noteq> [] \<Longrightarrow> Q e w'" and "\<And>w'. St u I F w' \<Longrightarrow> Q [] w'"
  shows "wp (file_Sync fd) Q w"
  unfolding file_Sync_def wp_bind
  by (rule wp_syscall [OF assms(1)]) (use assms in \<open>auto simp: error_of_def\<close>)

lemma wp_rand_Read:
  assumes "St u I F w"
    and "\<And>e w'. St u I F w' \<Longrightarrow> e \<noteq> [] \<Longrightarrow> Q (Inl e) w'"
    and "\<And>raw w'. St u I F w' \<Longrightarrow> length raw = n \<Longrightarrow> Q (Inr raw) w'"
  shows "wp (rand_Read n) Q w"
  unfolding rand_Read_def
  by (rule wp_syscall [where Q = Q, OF assms(1,2)])
    (use assms in \<open>auto simp: St_def split: list.splits\<close>)

text \<open>Locks.\<close>

lemma St_set_lock:
  "St u I F w \<Longrightarrow> w_alive w \<Longrightarrow> F fd = Some (n, b) \<Longrightarrow>
   St u I (F(fd \<mapsto> (n, locked))) (set_lock fd locked w)"
  by (auto simp: St_def set_lock_def)

lemma wp_flock_nonblocking:
  assumes "St u I F w"
    and "\<And>e w'. St u I F w' \<Longrightarrow> e \<noteq> [] \<Longrightarrow> Q e w'"
    and "\<And>n b w'. F fd = Some (n, b) \<Longrightarrow> St u I (F(fd \<mapsto> (n, True))) w' \<Longrightarrow> Q [] w'"
  shows "wp (flock_nonblocking fd) Q w"
  unfolding flock_nonblocking_def wp_bind
  by (rule wp_syscall [OF assms(1)])
    (use assms St_set_lock in \<open>auto simp: error_of_def St_def split: option.splits\<close>)

lemma wp_flock_blocking:
  assumes "St u I F w"
    and "\<And>e w'. St u I F w' \<Longrightarrow> e \<noteq> [] \<Longrightarrow> Q e w'"
    and "\<And>n b w'. F fd = Some (n, b) \<Longrightarrow> St u I (F(fd \<mapsto> (n, True))) w' \<Longrightarrow> Q [] w'"
  shows "wp (flock_blocking fd) Q w"
  unfolding flock_blocking_def wp_bind
proof (rule wp_syscall [OF assms(1)], goal_cases)
  case (1 e w')
  then show ?case using assms(2) by (simp add: error_of_def)
next
  case (2 w')
  have F: "w_fds w' = F" using 2 by (simp add: St_def)
  show ?case
  proof (cases "F fd")
    case None
    then show ?thesis using F 2 assms(2) by (simp add: error_of_def)
  next
    case (Some p)
    then obtain n b where p: "F fd = Some (n, b)" by (cases p) auto
    have "St u I (F(fd \<mapsto> (n, True)))
        (set_lock fd True (w'\<lparr> w_foreign := removeAll n (w_foreign w') \<rparr>))"
      using 2 p by (intro St_set_lock) auto
    then show ?thesis
      using F p St_hang [OF 2(1)] assms(2,3) by (simp add: error_of_def gone_def)
  qed
qed

lemma wp_flock_unlock:
  assumes "St u I F w"
    and "\<And>e w'. St u I F w' \<Longrightarrow> e \<noteq> [] \<Longrightarrow> Q e w'"
    and "\<And>n b w'. F fd = Some (n, b) \<Longrightarrow> St u I (F(fd \<mapsto> (n, False))) w' \<Longrightarrow> Q [] w'"
  shows "wp (flock_unlock fd) Q w"
  unfolding flock_unlock_def wp_bind
  by (rule wp_syscall [OF assms(1)])
    (use assms St_set_lock in \<open>auto simp: error_of_def St_def split: option.splits\<close>)

text \<open>Calls that change the file system.\<close>

definition fs_create :: "fs \<Rightarrow> nat \<Rightarrow> string \<Rightarrow> nat \<Rightarrow> inode \<Rightarrow> fs" where
  "fs_create I d name n x = I(n \<mapsto> x, d := map_option (add_entry name n) (I d))"

definition fs_update :: "fs \<Rightarrow> nat \<Rightarrow> (inode \<Rightarrow> inode) \<Rightarrow> fs" where
  "fs_update I n f = I(n := map_option f (I n))"

definition fresh_inode :: "filekind \<Rightarrow> nat \<Rightarrow> nat \<Rightarrow> inode" where
  "fresh_inode kind mode u =
    \<lparr> i_kind = kind, i_uid = u, i_perm = mode, i_nlink = (if kind = S_IFDIR then 2 else 1),
      i_data = [], i_entries = [] \<rparr>"

lemma fresh_inode_simps [simp]:
  "i_kind (fresh_inode k m u) = k" "i_uid (fresh_inode k m u) = u"
  "i_perm (fresh_inode k m u) = m" "i_data (fresh_inode k m u) = []"
  "i_entries (fresh_inode k m u) = []"
  "i_nlink (fresh_inode k m u) = (if k = S_IFDIR then 2 else 1)"
  by (simp_all add: fresh_inode_def)

lemma St_create_at:
  assumes "St u I F w" "I d = Some dir"
  shows "St u (fs_create I d name (w_next w) (fresh_inode kind mode u)) F
           (create_at d name (new_inode kind mode w) w)"
    and "I (w_next w) = None"
  using assms by (auto simp: St_def create_at_def fs_create_def new_inode_def fresh_inode_def)

lemma St_update_inode:
  "St u I F w \<Longrightarrow> St u (fs_update I n f) F (update_inode n f w)"
  by (auto simp: St_def update_inode_def fs_update_def)

lemma alive_create_at [simp]: "w_alive (create_at d name x w) = w_alive w"
  by (simp add: create_at_def)

lemma wp_Openat_create:
  assumes "St u I F w" "O_CREAT \<in> flags" "O_EXCL \<in> flags"
    and "\<And>e w'. St u I F w' \<Longrightarrow> e \<noteq> [] \<Longrightarrow> Q (Inl e) w'"
    and "\<And>h d b dir n w'. F h = None \<Longrightarrow> F fd = Some (d, b) \<Longrightarrow> I d = Some dir \<Longrightarrow>
           i_kind dir = S_IFDIR \<Longrightarrow> map_of (i_entries dir) name = None \<Longrightarrow> I n = None \<Longrightarrow>
           St u (fs_create I d name n (fresh_inode S_IFREG mode u)) (F(h \<mapsto> (n, False))) w' \<Longrightarrow>
           Q (Inr h) w'"
  shows "wp (unix_Openat fd name flags mode) Q w"
  unfolding unix_Openat_def
proof (rule wp_syscall [where Q = Q, OF assms(1,4)], goal_cases)
  case (3 w')
  note st = 3(1) and alive = 3(2)
  show ?case
  proof (cases "directory_of_fd w' fd")
    case (Inl e)
    then show ?thesis using assms(4) [OF st] directory_of_fd_Inl by auto
  next
    case (Inr r)
    then obtain d dir where r: "directory_of_fd w' fd = Inr (d, dir)" by (cases r) auto
    from directory_of_fd_Inr [OF st alive r] obtain b
      where dir: "F fd = Some (d, b)" "I d = Some dir" "i_kind dir = S_IFDIR" by blast
    show ?thesis
    proof (cases "map_of (i_entries dir) name")
      case None
      let ?n = "w_next w'"
      obtain h w2 where
        "new_fd ?n (create_at d name (new_inode S_IFREG mode w') w') = (Inr h, w2)" "F h = None"
        "St u (fs_create I d name ?n (fresh_inode S_IFREG mode u)) (F(h \<mapsto> (?n, False))) w2"
        by (rule St_new_fd [OF St_create_at(1) [OF st dir(2)]]) (use alive in simp_all)
      then show ?thesis
        using assms(2) assms(5) [OF _ dir None St_create_at(2) [OF st dir(2)]] None r by simp
    next
      case (Some n)
      then show ?thesis
        using assms(2,3) assms(4) [OF st] r by (simp split: option.splits)
    qed
  qed
qed

lemma wp_Mkdirat:
  assumes "St u I F w"
    and "\<And>e w'. St u I F w' \<Longrightarrow> e \<noteq> [] \<Longrightarrow> Q e w'"
    and "\<And>d b dir n w'. F fd = Some (d, b) \<Longrightarrow> I d = Some dir \<Longrightarrow> i_kind dir = S_IFDIR \<Longrightarrow>
           map_of (i_entries dir) name = None \<Longrightarrow> I n = None \<Longrightarrow>
           St u (fs_create I d name n (fresh_inode S_IFDIR mode u)) F w' \<Longrightarrow> Q [] w'"
  shows "wp (unix_Mkdirat fd name mode) Q w"
  unfolding unix_Mkdirat_def wp_bind
proof (rule wp_syscall [OF assms(1)], goal_cases)
  case (1 e w')
  then show ?case using assms(2) by (simp add: error_of_def)
next
  case (2 w')
  note st = 2(1) and alive = 2(2)
  show ?case
  proof (cases "directory_of_fd w' fd")
    case (Inl e)
    then show ?thesis using assms(2) [OF st] directory_of_fd_Inl by (simp add: error_of_def)
  next
    case (Inr r)
    then obtain d dir where r: "directory_of_fd w' fd = Inr (d, dir)" by (cases r) auto
    from directory_of_fd_Inr [OF st alive r] obtain b
      where dir: "F fd = Some (d, b)" "I d = Some dir" "i_kind dir = S_IFDIR" by blast
    show ?thesis
    proof (cases "map_of (i_entries dir) name")
      case None
      show ?thesis
        using assms(3) [OF dir None St_create_at(2) [OF st dir(2)] St_create_at(1) [OF st dir(2)]]
        by (simp add: error_of_def r None)
    next
      case (Some n)
      then show ?thesis using assms(2) [OF st] by (simp add: error_of_def r)
    qed
  qed
qed

lemma wp_Unlinkat:
  assumes "St u I F w"
    and "\<And>e w'. St u I F w' \<Longrightarrow> e \<noteq> [] \<Longrightarrow> Q e w'"
    and "\<And>d b dir n x w'. F fd = Some (d, b) \<Longrightarrow> I d = Some dir \<Longrightarrow> i_kind dir = S_IFDIR \<Longrightarrow>
           map_of (i_entries dir) name = Some n \<Longrightarrow> I n = Some x \<Longrightarrow>
           (if removedir then i_kind x = S_IFDIR \<and> i_entries x = [] else i_kind x \<noteq> S_IFDIR) \<Longrightarrow>
           St u (fs_update (fs_update I n unlink_inode) d (drop_entry name)) F w' \<Longrightarrow> Q [] w'"
  shows "wp (unix_Unlinkat fd name removedir) Q w"
  unfolding unix_Unlinkat_def wp_bind
proof (rule wp_syscall [OF assms(1)], goal_cases)
  case (1 e w')
  then show ?case using assms(2) by (simp add: error_of_def)
next
  case (2 w')
  note st = 2(1) and alive = 2(2)
  have I: "w_inodes w' = I" using st by (simp add: St_def)
  show ?case
  proof (cases "directory_of_fd w' fd")
    case (Inl e)
    then show ?thesis using assms(2) [OF st] directory_of_fd_Inl by (simp add: error_of_def)
  next
    case (Inr r)
    then obtain d dir where r: "directory_of_fd w' fd = Inr (d, dir)" by (cases r) auto
    from directory_of_fd_Inr [OF st alive r] obtain b
      where dir: "F fd = Some (d, b)" "I d = Some dir" "i_kind dir = S_IFDIR" by blast
    show ?thesis
      using assms(2) [OF st] assms(3) [OF dir] r I
        St_update_inode [OF St_update_inode [OF st]]
      by (auto simp: error_of_def split: option.splits)
  qed
qed

definition fs_rename :: "fs \<Rightarrow> nat \<Rightarrow> string \<Rightarrow> string \<Rightarrow> nat \<Rightarrow> fs" where
  "fs_rename I d old new n =
    fs_update I d (\<lambda>dir. add_entry new n (drop_entry new (drop_entry old dir)))"

lemma wp_Renameat:
  assumes "St u I F w"
    and "\<And>e w'. St u I F w' \<Longrightarrow> e \<noteq> [] \<Longrightarrow> Q e w'"
    and "\<And>d b dir n x w'. F fd = Some (d, b) \<Longrightarrow> I d = Some dir \<Longrightarrow> i_kind dir = S_IFDIR \<Longrightarrow>
           map_of (i_entries dir) old = Some n \<Longrightarrow> I n = Some x \<Longrightarrow>
           map_of (i_entries dir) new = Some n \<Longrightarrow> St u I F w' \<Longrightarrow> Q [] w'"
    and "\<And>d b dir n x w'. F fd = Some (d, b) \<Longrightarrow> I d = Some dir \<Longrightarrow> i_kind dir = S_IFDIR \<Longrightarrow>
           map_of (i_entries dir) old = Some n \<Longrightarrow> I n = Some x \<Longrightarrow>
           map_of (i_entries dir) new = None \<Longrightarrow> St u (fs_rename I d old new n) F w' \<Longrightarrow> Q [] w'"
    and "\<And>d b dir n x m y w'. F fd = Some (d, b) \<Longrightarrow> I d = Some dir \<Longrightarrow> i_kind dir = S_IFDIR \<Longrightarrow>
           map_of (i_entries dir) old = Some n \<Longrightarrow> I n = Some x \<Longrightarrow>
           map_of (i_entries dir) new = Some m \<Longrightarrow> m \<noteq> n \<Longrightarrow> I m = Some y \<Longrightarrow>
           (i_kind x = S_IFDIR \<longleftrightarrow> i_kind y = S_IFDIR) \<Longrightarrow> (i_kind y = S_IFDIR \<longrightarrow> i_entries y = []) \<Longrightarrow>
           St u (fs_rename (fs_update I m unlink_inode) d old new n) F w' \<Longrightarrow> Q [] w'"
  shows "wp (unix_Renameat fd old new) Q w"
  unfolding unix_Renameat_def wp_bind
proof (rule wp_syscall [OF assms(1)], goal_cases)
  case (1 e w')
  then show ?case using assms(2) by (simp add: error_of_def)
next
  case (2 w')
  note st = 2(1) and alive = 2(2)
  have I: "w_inodes w' = I" using st by (simp add: St_def)
  show ?case
  proof (cases "directory_of_fd w' fd")
    case (Inl e)
    then show ?thesis using assms(2) [OF st] directory_of_fd_Inl by (simp add: error_of_def)
  next
    case (Inr r)
    then obtain d dir where r: "directory_of_fd w' fd = Inr (d, dir)" by (cases r) auto
    from directory_of_fd_Inr [OF st alive r] obtain b
      where dir: "F fd = Some (d, b)" "I d = Some dir" "i_kind dir = S_IFDIR" by blast
    have plain: "St u (fs_rename I d old new n) F (rename_in d old new n w')" for n
      unfolding rename_in_def fs_rename_def by (rule St_update_inode [OF st])
    have over: "St u (fs_rename (fs_update I m unlink_inode) d old new n) F
        (rename_in d old new n (update_inode m unlink_inode w'))" for n m
      unfolding rename_in_def fs_rename_def by (intro St_update_inode st)
    show ?thesis
      using assms(2) [OF st] assms(3-5) [OF dir] r I st plain over
      by (auto simp: error_of_def split: option.splits)
  qed
qed

lemma wp_WriteAt:
  assumes "St u I F w"
    and "\<And>e w'. St u I F w' \<Longrightarrow> e \<noteq> [] \<Longrightarrow> Q (0, e) w'"
    and "\<And>n b k e w'. F fd = Some (n, b) \<Longrightarrow> k \<le> length raw \<Longrightarrow> (e = [] \<longrightarrow> k = length raw) \<Longrightarrow>
           St u (fs_update I n (\<lambda>x. x\<lparr> i_data := put_bytes (take k raw) offset (i_data x) \<rparr>)) F w' \<Longrightarrow>
           Q (int k, e) w'"
    and "\<And>k e w'. F fd = None \<Longrightarrow> St u I F w' \<Longrightarrow> e \<noteq> [] \<Longrightarrow> Q (int k, e) w'"
  shows "wp (file_WriteAt fd raw offset) Q w"
proof (cases "w_alive w")
  case False
  then show ?thesis using assms(1,2) by (simp add: wp_def file_WriteAt_def gone_def)
next
  case True
  then have F: "w_fds w = F" using assms(1) by (simp add: St_def)
  have st: "St u I F (w\<lparr> w_script := s \<rparr>)" for s using assms(1) by simp
  have no: "write_inode fd raw' offset (w\<lparr> w_script := s \<rparr>) = w\<lparr> w_script := s \<rparr>"
    if "F fd = None" for s raw' using that F by (simp add: write_inode_def)
  have yes: "St u (fs_update I n (\<lambda>x. x\<lparr> i_data := put_bytes raw' offset (i_data x) \<rparr>)) F
      (write_inode fd raw' offset (w\<lparr> w_script := s \<rparr>))" if "F fd = Some (n, b)" for n b s raw'
    using that F St_update_inode [OF st] by (simp add: write_inode_def)
  have take: "take (min k (length raw)) raw = take k raw" for k
    by (metis min.commute take_all_iff take_take min_le_iff_disj nle_le)
  have fail: "Q (int (min k (length raw)), [Errno e])
      (write_inode fd (take k raw) offset (w\<lparr> w_script := s \<rparr>))" for k e s
  proof (cases "F fd")
    case None
    then show ?thesis using no st assms(4) by simp
  next
    case (Some p)
    then obtain n b where p: "F fd = Some (n, b)" by (cases p) auto
    show ?thesis
      by (rule assms(3) [OF p]) (use yes [OF p, of "take k raw"] in \<open>simp_all add: take\<close>)
  qed
  have good: "F fd = Some (n, b) \<Longrightarrow>
      Q (int (length raw), []) (write_inode fd raw offset (w\<lparr> w_script := s \<rparr>))" for n b s
    using assms(3) [of n b "length raw" "[]"] yes [of n b raw] by simp
  have closed: "F fd = None \<Longrightarrow> Q (0, [FsErrClosed]) (w\<lparr> w_script := s \<rparr>)" for s
    using assms(4) [where k = 0 and e = "[FsErrClosed]"] st by simp
  show ?thesis
    using True F fail good closed assms(2) St_kill [OF assms(1)]
    by (auto simp: wp_def file_WriteAt_def gone_def split: list.splits fault.splits)
qed

text \<open>Time, contexts, scripts.\<close>

lemma wp_time_Now:
  assumes "St u I F w" and "\<And>now w'. St u I F w' \<Longrightarrow> Q now w'"
  shows "wp time_Now Q w"
  using assms by (auto simp: wp_def time_Now_def St_def split: list.splits)

lemma wp_unix_milli_now:
  assumes "St u I F w" and "\<And>now w'. St u I F w' \<Longrightarrow> Q now w'"
  shows "wp unix_milli_now Q w"
  unfolding unix_milli_now_def wp_bind
  by (rule wp_time_Now [OF assms(1)]) (simp add: assms(2))

lemma wp_monotonic_now:
  assumes "St u I F w" and "\<And>now w'. St u I F w' \<Longrightarrow> Q now w'"
  shows "wp monotonic_now Q w"
  unfolding monotonic_now_def wp_bind
  by (rule wp_time_Now [OF assms(1)]) (simp add: assms(2))

lemma wp_time_Until:
  assumes "St u I F w" and "\<And>left w'. St u I F w' \<Longrightarrow> Q left w'"
  shows "wp (time_Until deadline) Q w"
  unfolding time_Until_def wp_bind
  by (rule wp_monotonic_now [OF assms(1)]) (simp add: assms(2))

lemma wp_ctx_Err:
  assumes "St u I F w"
    and "\<And>e w'. St u I F w' \<Longrightarrow> e \<noteq> [] \<Longrightarrow> Q e w'" and "\<And>w'. St u I F w' \<Longrightarrow> Q [] w'"
  shows "wp ctx_Err Q w"
  using assms by (auto simp: wp_def ctx_Err_def St_def split: list.splits option.splits)

lemma wp_next_selects:
  assumes "St u I F w" and "\<And>events w'. St u I F w' \<Longrightarrow> Q events w'"
  shows "wp next_selects Q w"
  using assms by (auto simp: wp_def next_selects_def St_def split: list.splits)

lemma wp_loop_fuel:
  assumes "St u I F w" and "\<And>fuel w'. St u I F w' \<Longrightarrow> Q fuel w'"
  shows "wp loop_fuel Q w"
  using assms by (auto simp: wp_def loop_fuel_def)

lemma wp_Geteuid:
  assumes "St u I F w" and "St u I F w \<Longrightarrow> Q u w"
  shows "wp os_Geteuid Q w"
  using assms by (auto simp: wp_def os_Geteuid_def St_def)

lemma wp_hang:
  assumes "St u I F w" and "\<And>w'. St u I F' w' \<Longrightarrow> Q () w'"
  shows "wp hang Q w"
  using assms St_hang by (auto simp: wp_def hang_def)

lemma wp_fileFromFD [simp]: "wp (fileFromFD fd name) Q w \<longleftrightarrow> Q (Inr fd) w"
  by (simp add: fileFromFD_def)

lemmas [wp_rules] =
  wp_Openat wp_Open_root wp_Dup wp_Close wp_Fstat wp_Fstatat wp_ReadAll wp_ReadFull wp_Size
  wp_ReadDir wp_Sync wp_rand_Read wp_flock_nonblocking wp_flock_blocking wp_flock_unlock
  wp_unix_milli_now wp_monotonic_now wp_time_Until wp_ctx_Err wp_next_selects wp_loop_fuel
  wp_hang wp_Geteuid

lemma close_new [simp]: "F h = None \<Longrightarrow> F(h := None) = F"
  by auto

end
