(* ===== verification/Files.thy ===== *)
theory Files
  imports Wp Paths
begin

section \<open>Private files and directories\<close>

text \<open>
  \<open>internal/runner/jobdir_unix.go\<close>, \<open>files_unix.go\<close> and the file functions of
  \<open>state_io_unix.go\<close>: opening directories and files and refusing what is not private,
  creating and removing entries, locking, and the atomic replacement of a file. The text of
  an error is shortened; what it wraps is the code's. A test hook of the source that is nil
  outside tests is left out, and \<open>syncDirectory\<close>, \<open>syncJobs\<close> and \<open>closeJob\<close> are the
  methods \<open>OpenStoreAt\<close> installs.
\<close>

definition privateDirectoryMode :: nat where "privateDirectoryMode = 448"
definition privateFileMode :: nat where "privateFileMode = 384"

definition maximumStateBytes :: int where "maximumStateBytes = 2097152"
definition maximumRuntimeBytes :: int where "maximumRuntimeBytes = 16384"

subsection \<open>Opening\<close>

definition classifyOpenError :: "string \<Rightarrow> error \<Rightarrow> error" where
  "classifyOpenError operation err =
    (if errors_Is err ELOOP \<or> errors_Is err ENOTDIR then fmt_Errorf operation [ErrUnsafeFilesystem]
     else if errors_Is err ENOENT then fmt_Errorf operation [ErrJobNotFound]
     else fmt_Errorf operation err)"

definition validateDirectory :: "handle \<Rightarrow> bool \<Rightarrow> error io" where
  "validateDirectory fd private = do {
     u \<leftarrow> os_Geteuid;
     r \<leftarrow> unix_Fstat fd;
     State_Monad.return (case r of
       Inl err \<Rightarrow> fmt_Errorf ''inspect directory'' err
     | Inr stat \<Rightarrow>
         if i_kind stat \<noteq> S_IFDIR then [ErrUnsafeFilesystem]
         else if private \<and> (i_uid stat \<noteq> u \<or> i_perm stat \<noteq> privateDirectoryMode)
         then [ErrUnsafeFilesystem]
         else noerr) }"

definition private_file :: "nat \<Rightarrow> inode \<Rightarrow> bool" where
  "private_file u stat \<longleftrightarrow>
    i_kind stat = S_IFREG \<and> i_uid stat = u \<and> i_perm stat = privateFileMode \<and> i_nlink stat = 1"

definition validatePrivateFile :: "handle \<Rightarrow> error io" where
  "validatePrivateFile fd = do {
     u \<leftarrow> os_Geteuid;
     r \<leftarrow> unix_Fstat fd;
     State_Monad.return (case r of
       Inl err \<Rightarrow> fmt_Errorf ''inspect file'' err
     | Inr stat \<Rightarrow> if \<not> private_file u stat then [ErrUnsafeFilesystem] else noerr) }"

definition openDirectoryAt :: "handle \<Rightarrow> string \<Rightarrow> bool \<Rightarrow> handle result io" where
  "openDirectoryAt parent name private = do {
     r \<leftarrow> unix_Openat parent name {O_RDONLY, O_CLOEXEC, O_DIRECTORY, O_NOFOLLOW} 0;
     case r of
       Inl err \<Rightarrow> State_Monad.return (Inl (classifyOpenError ''open directory'' err))
     | Inr fd \<Rightarrow> do {
         err \<leftarrow> validateDirectory fd private;
         if err \<noteq> noerr then do {
           closeErr \<leftarrow> file_Close fd;
           State_Monad.return (Inl (errors_Join [err, closeErr])) }
         else State_Monad.return (Inr fd) } }"

definition createPrivateFileAt :: "handle \<Rightarrow> string \<Rightarrow> handle result io" where
  "createPrivateFileAt directory name = do {
     r \<leftarrow> unix_Openat directory name
           {O_RDWR, O_CREAT, O_EXCL, O_CLOEXEC, O_NOFOLLOW, O_NONBLOCK} privateFileMode;
     case r of
       Inl err \<Rightarrow> State_Monad.return (Inl (classifyOpenError ''create file'' err))
     | Inr fd \<Rightarrow> do {
         err \<leftarrow> validatePrivateFile fd;
         if err \<noteq> noerr then do {
           closeErr \<leftarrow> file_Close fd;
           State_Monad.return (Inl (errors_Join [err, closeErr])) }
         else State_Monad.return (Inr fd) } }"

definition openPrivateFileAt :: "handle \<Rightarrow> string \<Rightarrow> openflag set \<Rightarrow> handle result io" where
  "openPrivateFileAt directory name flags = do {
     r \<leftarrow> unix_Openat directory name (flags \<union> {O_CLOEXEC, O_NOFOLLOW, O_NONBLOCK}) 0;
     case r of
       Inl err \<Rightarrow> State_Monad.return (Inl (classifyOpenError ''open file'' err))
     | Inr fd \<Rightarrow> do {
         err \<leftarrow> validatePrivateFile fd;
         if err \<noteq> noerr then do {
           closeErr \<leftarrow> file_Close fd;
           State_Monad.return (Inl (errors_Join [err, closeErr])) }
         else State_Monad.return (Inr fd) } }"

lemma wp_validateDirectory [wp_rules]:
  assumes "St u I F w"
    and "\<And>e w'. St u I F w' \<Longrightarrow> e \<noteq> [] \<Longrightarrow> Q e w'"
    and "\<And>n b x w'. St u I F w' \<Longrightarrow> F fd = Some (n, b) \<Longrightarrow> I n = Some x \<Longrightarrow> i_kind x = S_IFDIR \<Longrightarrow>
           (private \<longrightarrow> i_uid x = u \<and> i_perm x = privateDirectoryMode) \<Longrightarrow> Q [] w'"
  shows "wp (validateDirectory fd private) Q w"
  using assms(1) unfolding validateDirectory_def wp_bind
  by (erule_tac wp_rules | simp add: assms)+

lemma wp_validatePrivateFile [wp_rules]:
  assumes "St u I F w"
    and "\<And>e w'. St u I F w' \<Longrightarrow> e \<noteq> [] \<Longrightarrow> Q e w'"
    and "\<And>n b x w'. St u I F w' \<Longrightarrow> F fd = Some (n, b) \<Longrightarrow> I n = Some x \<Longrightarrow> private_file u x \<Longrightarrow> Q [] w'"
  shows "wp (validatePrivateFile fd) Q w"
  using assms(1) unfolding validatePrivateFile_def wp_bind
  by (erule_tac wp_rules | simp add: assms)+

lemma classifyOpenError_not_nil [simp]: "classifyOpenError operation err \<noteq> []"
  by (simp add: classifyOpenError_def)

lemma wp_openDirectoryAt [wp_rules]:
  assumes "St u I F w"
    and "\<And>e w'. St u I F w' \<Longrightarrow> e \<noteq> [] \<Longrightarrow> Q (Inl e) w'"
    and "\<And>h n x w'. F h = None \<Longrightarrow> St u I (F(h \<mapsto> (n, False))) w' \<Longrightarrow> I n = Some x \<Longrightarrow>
           entry_at I F parent name n \<Longrightarrow> i_kind x = S_IFDIR \<Longrightarrow>
           (private \<longrightarrow> i_uid x = u \<and> i_perm x = privateDirectoryMode) \<Longrightarrow> Q (Inr h) w'"
  shows "wp (openDirectoryAt parent name private) Q w"
  using assms(1) unfolding openDirectoryAt_def wp_bind
  by (erule_tac wp_rules | simp add: assms)+

lemma wp_openPrivateFileAt [wp_rules]:
  assumes "St u I F w" "O_CREAT \<notin> flags"
    and "\<And>e w'. St u I F w' \<Longrightarrow> e \<noteq> [] \<Longrightarrow> Q (Inl e) w'"
    and "\<And>h n x w'. F h = None \<Longrightarrow> St u I (F(h \<mapsto> (n, False))) w' \<Longrightarrow> I n = Some x \<Longrightarrow>
           entry_at I F directory name n \<Longrightarrow> private_file u x \<Longrightarrow> Q (Inr h) w'"
  shows "wp (openPrivateFileAt directory name flags) Q w"
  using assms(1,2) unfolding openPrivateFileAt_def wp_bind
  by (erule_tac wp_rules | simp add: assms(3,4))+

lemma private_fresh [simp]: "private_file u (fresh_inode S_IFREG privateFileMode u)"
  by (simp add: private_file_def)

text \<open>Creating a file: a failure after the entry was made leaves the empty file behind.\<close>

definition made :: "nat \<Rightarrow> fs \<Rightarrow> fdtable \<Rightarrow> handle \<Rightarrow> string \<Rightarrow> nat \<Rightarrow> fs \<Rightarrow> bool" where
  "made u I F fd name n I' \<longleftrightarrow>
    (\<exists>d b dir. F fd = Some (d, b) \<and> I d = Some dir \<and> i_kind dir = S_IFDIR \<and>
       map_of (i_entries dir) name = None \<and> I n = None \<and>
       I' = fs_create I d name n (fresh_inode S_IFREG privateFileMode u))"

lemma wp_createPrivateFileAt [wp_rules]:
  assumes "St u I F w"
    and "\<And>e w'. St u I F w' \<Longrightarrow> e \<noteq> [] \<Longrightarrow> Q (Inl e) w'"
    and "\<And>e n I' w'. made u I F fd name n I' \<Longrightarrow> St u I' F w' \<Longrightarrow> e \<noteq> [] \<Longrightarrow> Q (Inl e) w'"
    and "\<And>h n I' w'. made u I F fd name n I' \<Longrightarrow> F h = None \<Longrightarrow> St u I' (F(h \<mapsto> (n, False))) w' \<Longrightarrow>
           Q (Inr h) w'"
  shows "wp (createPrivateFileAt fd name) Q w"
proof -
  have made: "made u I F fd name n
      (fs_create I d name n (fresh_inode S_IFREG privateFileMode u))"
    if "F fd = Some (d, b)" "I d = Some dir" "i_kind dir = S_IFDIR"
      "map_of (i_entries dir) name = None" "I n = None" for d b dir n
    using that by (auto simp: made_def)
  show ?thesis
    using assms(1) unfolding createPrivateFileAt_def wp_bind
    apply (erule_tac wp_Openat_create; simp add: assms(2))
    apply (erule_tac wp_rules)
    subgoal by (erule_tac wp_rules | simp add: assms(3) [OF made])+
    subgoal by (simp add: assms(4) [OF made])
    done
qed

subsection \<open>Reading\<close>

definition entryExists :: "handle \<Rightarrow> string \<Rightarrow> bool result io" where
  "entryExists directory name = do {
     r \<leftarrow> unix_Fstatat directory name;
     State_Monad.return (case r of
       Inl err \<Rightarrow>
         if errors_Is err ENOENT then Inr False else Inl (fmt_Errorf ''inspect entry'' err)
     | Inr _ \<Rightarrow> Inr True) }"

definition readPrivateFileAt :: "handle \<Rightarrow> string \<Rightarrow> int \<Rightarrow> bytes result io" where
  "readPrivateFileAt directory name maximumBytes = do {
     r \<leftarrow> openPrivateFileAt directory name {O_RDONLY};
     case r of
       Inl err \<Rightarrow> State_Monad.return (Inl err)
     | Inr fd \<Rightarrow> do {
         rd \<leftarrow> io_ReadAll fd (maximumBytes + 1);
         closeErr \<leftarrow> file_Close fd;
         State_Monad.return (case rd of
           Inl readErr \<Rightarrow> Inl (errors_Join [fmt_Errorf ''read'' readErr, closeErr])
         | Inr raw \<Rightarrow>
             if closeErr \<noteq> noerr then Inl (errors_Join [fmt_Errorf ''read'' noerr, closeErr])
             else if int (length raw) > maximumBytes
             then Inl (fmt_Errorf ''read'' [ErrUnsafeFilesystem])
             else Inr raw) } }"

lemma wp_entryExists [wp_rules]:
  assumes "St u I F w"
    and "\<And>e w'. St u I F w' \<Longrightarrow> e \<noteq> [] \<Longrightarrow> Q (Inl e) w'"
    and "\<And>w'. St u I F w' \<Longrightarrow> Q (Inr False) w'"
    and "\<And>n x w'. St u I F w' \<Longrightarrow> entry_at I F directory name n \<Longrightarrow> I n = Some x \<Longrightarrow> Q (Inr True) w'"
  shows "wp (entryExists directory name) Q w"
  using assms(1) unfolding entryExists_def wp_bind
  by (erule_tac wp_rules | simp add: assms)+

lemma limited_read:
  "k < int (length (take (nat (k + 1)) xs)) \<longleftrightarrow> k < int (length xs)"
  "\<not> k < int (length xs) \<Longrightarrow> take (nat (k + 1)) xs = xs"
  by auto

lemma wp_readPrivateFileAt [wp_rules]:
  assumes "St u I F w"
    and "\<And>e w'. St u I F w' \<Longrightarrow> e \<noteq> [] \<Longrightarrow> Q (Inl e) w'"
    and "\<And>n x w'. St u I F w' \<Longrightarrow> I n = Some x \<Longrightarrow> entry_at I F directory name n \<Longrightarrow>
           private_file u x \<Longrightarrow> int (length (i_data x)) \<le> k \<Longrightarrow> Q (Inr (i_data x)) w'"
  shows "wp (readPrivateFileAt directory name k) Q w"
  unfolding readPrivateFileAt_def wp_bind
  by (insert assms(1), (erule_tac wp_rules | simp split del: if_split del: length_take |
      simp add: assms limited_read del: length_take split: if_split)+)

subsection \<open>Locks\<close>

definition lockFile :: "handle \<Rightarrow> bool \<Rightarrow> error io" where
  "lockFile fd nonblocking = do {
     err \<leftarrow> (if nonblocking then flock_nonblocking fd else flock_blocking fd);
     State_Monad.return
       (if err \<noteq> noerr
        then (if errors_Is err EWOULDBLOCK then [ErrRunnerActive] else fmt_Errorf ''lock file'' err)
        else noerr) }"

text \<open>
  \<open>lockStateFile\<close>: try, and on \<open>EWOULDBLOCK\<close> wait for whichever of the context, the
  deadline timer and the retry timer is ready first.
\<close>

primrec lockStateFile_loop :: "select_event list \<Rightarrow> handle \<Rightarrow> error io" where
  "lockStateFile_loop [] fd = do {
     err \<leftarrow> flock_nonblocking fd;
     State_Monad.return
       (if err = noerr then noerr
        else if \<not> errors_Is err EWOULDBLOCK then fmt_Errorf ''lock state file'' err
        else [ErrStateLockTimeout]) }"
| "lockStateFile_loop (event # events) fd = do {
     err \<leftarrow> flock_nonblocking fd;
     if err = noerr then State_Monad.return noerr
     else if \<not> errors_Is err EWOULDBLOCK
     then State_Monad.return (fmt_Errorf ''lock state file'' err)
     else case event of
       SelDone e \<Rightarrow> State_Monad.return [e]
     | SelDeadline \<Rightarrow> State_Monad.return [ErrStateLockTimeout]
     | SelRetry \<Rightarrow> lockStateFile_loop events fd }"

definition lockStateFile :: "handle \<Rightarrow> error io" where
  "lockStateFile fd = do {
     events \<leftarrow> next_selects;
     lockStateFile_loop events fd }"

definition lockStateFileBlocking :: "handle \<Rightarrow> error io" where
  "lockStateFileBlocking fd = do {
     err \<leftarrow> flock_blocking fd;
     State_Monad.return (if err \<noteq> noerr then fmt_Errorf ''lock state file'' err else noerr) }"

definition unlockFile :: "handle \<Rightarrow> error io" where
  "unlockFile fd = do {
     err \<leftarrow> flock_unlock fd;
     State_Monad.return (if err \<noteq> noerr then fmt_Errorf ''unlock file'' err else noerr) }"

text \<open>What every way of taking a lock satisfies.\<close>

definition takes_lock :: "(handle \<Rightarrow> error io) \<Rightarrow> bool" where
  "takes_lock acquire \<longleftrightarrow>
    (\<forall>u I F w fd Q. St u I F w \<longrightarrow>
       (\<forall>e w'. St u I F w' \<longrightarrow> e \<noteq> [] \<longrightarrow> Q e w') \<longrightarrow>
       (\<forall>n b w'. F fd = Some (n, b) \<longrightarrow> St u I (F(fd \<mapsto> (n, True))) w' \<longrightarrow> Q [] w') \<longrightarrow>
       wp (acquire fd) Q w)"

lemma wp_acquire:
  assumes "St u I F w" "takes_lock acquire"
    and "\<And>e w'. St u I F w' \<Longrightarrow> e \<noteq> [] \<Longrightarrow> Q e w'"
    and "\<And>n b w'. F fd = Some (n, b) \<Longrightarrow> St u I (F(fd \<mapsto> (n, True))) w' \<Longrightarrow> Q [] w'"
  shows "wp (acquire fd) Q w"
  using assms unfolding takes_lock_def by blast

lemma takes_lock_loop: "takes_lock (lockStateFile_loop events)"
proof (induction events)
  case Nil
  show ?case
    unfolding takes_lock_def lockStateFile_loop.simps wp_bind
    by (intro allI impI) (erule wp_flock_nonblocking; simp)
next
  case (Cons event events)
  show ?case
    unfolding takes_lock_def lockStateFile_loop.simps wp_bind
    by (intro allI impI)
      (erule wp_flock_nonblocking;
        auto split: select_event.split elim!: wp_acquire [OF _ Cons.IH])
qed

lemma takes_lock_lockStateFile: "takes_lock lockStateFile"
  unfolding takes_lock_def lockStateFile_def wp_bind
  by (intro allI impI) (erule wp_next_selects, erule wp_acquire [OF _ takes_lock_loop]; simp)

lemma takes_lock_blocking: "takes_lock lockStateFileBlocking"
  unfolding takes_lock_def lockStateFileBlocking_def wp_bind
  by (intro allI impI) (erule wp_flock_blocking; simp)

lemma takes_lock_lockFile: "takes_lock (\<lambda>fd. lockFile fd nonblocking)"
  unfolding takes_lock_def lockFile_def wp_bind
  by (intro allI impI)
    (cases nonblocking; simp; (erule wp_flock_blocking | erule wp_flock_nonblocking); simp)

lemmas [wp_rules] =
  wp_acquire [OF _ takes_lock_lockStateFile] wp_acquire [OF _ takes_lock_blocking]
  wp_acquire [OF _ takes_lock_lockFile]

lemma wp_unlockFile [wp_rules]:
  assumes "St u I F w"
    and "\<And>e w'. St u I F w' \<Longrightarrow> e \<noteq> [] \<Longrightarrow> Q e w'"
    and "\<And>n b w'. F fd = Some (n, b) \<Longrightarrow> St u I (F(fd \<mapsto> (n, False))) w' \<Longrightarrow> Q [] w'"
  shows "wp (unlockFile fd) Q w"
  unfolding unlockFile_def wp_bind
  by (insert assms(1), (erule_tac wp_rules | simp add: assms)+)

text \<open>A file that is unlocked and closed is gone from the descriptor table, whatever failed.\<close>

definition unlock_close :: "handle \<Rightarrow> error io" where
  "unlock_close fd = do {
     unlockErr \<leftarrow> unlockFile fd;
     closeErr \<leftarrow> file_Close fd;
     State_Monad.return (errors_Join [unlockErr, closeErr]) }"

lemma wp_unlock_close [wp_rules]:
  assumes "St u I F w" and "\<And>e w'. St u I (F(fd := None)) w' \<Longrightarrow> Q e w'"
  shows "wp (unlock_close fd) Q w"
  unfolding unlock_close_def wp_bind
  by (insert assms(1), (erule_tac wp_rules | simp add: assms)+)

end
