(* ===== verification/Touches.thy ===== *)
theory Touches
  imports Files
begin

section \<open>What a call may change on disk\<close>

text \<open>
  \<open>touches W T I I'\<close> bounds the difference between two states of the file system: no inode
  disappears or changes kind, owner or mode, only files with an inode in \<open>W\<close> change their
  content, and only the directory entries in \<open>T\<close> (pairs of a directory's inode and a name)
  change. A lemma about an operation names the entries it may touch, so what it leaves alone
  follows.
\<close>

definition lookup_at :: "fs \<Rightarrow> nat \<Rightarrow> string \<Rightarrow> nat option" where
  "lookup_at I d name = (case I d of None \<Rightarrow> None | Some dir \<Rightarrow> map_of (i_entries dir) name)"

definition content_at :: "fs \<Rightarrow> nat \<Rightarrow> string \<Rightarrow> bytes option" where
  "content_at I d name =
    (case lookup_at I d name of None \<Rightarrow> None | Some n \<Rightarrow> map_option i_data (I n))"

definition touches :: "nat set \<Rightarrow> (nat \<times> string) set \<Rightarrow> fs \<Rightarrow> fs \<Rightarrow> bool" where
  "touches W T I I' \<longleftrightarrow>
    (\<forall>n x. I n = Some x \<longrightarrow> (\<exists>y. I' n = Some y \<and> i_kind y = i_kind x \<and> i_uid y = i_uid x \<and>
       i_perm y = i_perm x \<and> (n \<notin> W \<longrightarrow> i_data y = i_data x) \<and>
       (\<forall>name. (n, name) \<notin> T \<longrightarrow> map_of (i_entries y) name = map_of (i_entries x) name)))"

lemma touches_refl [simp]: "touches W T I I"
  by (simp add: touches_def)

lemma touches_trans:
  assumes "touches W T I I'" "touches W' T' I' I''" "W \<subseteq> V" "W' \<subseteq> V" "T \<subseteq> S" "T' \<subseteq> S"
  shows "touches V S I I''"
  unfolding touches_def
proof (intro allI impI)
  fix n x assume "I n = Some x"
  with assms(1) obtain y where y: "I' n = Some y" "i_kind y = i_kind x" "i_uid y = i_uid x"
    "i_perm y = i_perm x" "n \<notin> W \<longrightarrow> i_data y = i_data x"
    "\<forall>name. (n, name) \<notin> T \<longrightarrow> map_of (i_entries y) name = map_of (i_entries x) name"
    unfolding touches_def by blast
  from assms(2) y(1) obtain z where z: "I'' n = Some z" "i_kind z = i_kind y" "i_uid z = i_uid y"
    "i_perm z = i_perm y" "n \<notin> W' \<longrightarrow> i_data z = i_data y"
    "\<forall>name. (n, name) \<notin> T' \<longrightarrow> map_of (i_entries z) name = map_of (i_entries y) name"
    unfolding touches_def by blast
  have "n \<notin> V \<longrightarrow> i_data z = i_data x"
    using y(5) z(5) assms(3,4) by auto
  moreover have "\<forall>name. (n, name) \<notin> S \<longrightarrow> map_of (i_entries z) name = map_of (i_entries x) name"
    using y(6) z(6) assms(5,6) by (metis subsetD)
  ultimately show "\<exists>z. I'' n = Some z \<and> i_kind z = i_kind x \<and> i_uid z = i_uid x \<and>
      i_perm z = i_perm x \<and> (n \<notin> V \<longrightarrow> i_data z = i_data x) \<and>
      (\<forall>name. (n, name) \<notin> S \<longrightarrow> map_of (i_entries z) name = map_of (i_entries x) name)"
    using y z by auto
qed

lemma touches_mono: "touches W T I I' \<Longrightarrow> W \<subseteq> W' \<Longrightarrow> T \<subseteq> T' \<Longrightarrow> touches W' T' I I'"
  using touches_trans [of W T I I' W T I' W' T'] by auto

lemma touches_inode:
  "touches W T I I' \<Longrightarrow> I n = Some x \<Longrightarrow>
   \<exists>y. I' n = Some y \<and> i_kind y = i_kind x \<and> i_uid y = i_uid x \<and> i_perm y = i_perm x"
  unfolding touches_def by blast

lemma touches_lookup:
  assumes "touches W T I I'" "I d = Some dir" "(d, name) \<notin> T"
  shows "lookup_at I' d name = lookup_at I d name"
proof -
  obtain y where "I' d = Some y" "map_of (i_entries y) name = map_of (i_entries dir) name"
    using assms unfolding touches_def by blast
  then show ?thesis
    using assms(2) by (simp add: lookup_at_def)
qed

lemma touches_data:
  assumes "touches W T I I'" "I n = Some x" "n \<notin> W"
  shows "map_option i_data (I' n) = map_option i_data (I n)"
proof -
  obtain y where "I' n = Some y" "i_data y = i_data x"
    using assms unfolding touches_def by blast
  with assms(2) show ?thesis by simp
qed

text \<open>A file behind an entry that is not touched keeps its content unless it is written.\<close>

lemma touches_content:
  assumes "touches W T I I'" "lookup_at I d name = Some n" "I n = Some x"
    and "(d, name) \<notin> T" "n \<notin> W"
  shows "content_at I' d name = content_at I d name"
proof -
  obtain dir where "I d = Some dir"
    using assms(2) by (auto simp: lookup_at_def split: option.splits)
  then have "lookup_at I' d name = Some n"
    using touches_lookup [OF assms(1)] assms by simp
  then show ?thesis
    using touches_data [OF assms(1,3,5)] assms(2,3) by (simp add: content_at_def)
qed

subsection \<open>The primitive changes\<close>

lemma map_of_drop_entry:
  "map_of (i_entries (drop_entry name x)) name' =
   (if name' = name then None else map_of (i_entries x) name')"
proof -
  have "map_of (filter (\<lambda>e. fst e \<noteq> name) es) name' =
      (if name' = name then None else map_of es name')" for es :: "(string \<times> nat) list"
    by (induction es) auto
  then show ?thesis by (simp add: drop_entry_def)
qed

lemma entry_field_simps [simp]:
  "i_kind (drop_entry name x) = i_kind x" "i_uid (drop_entry name x) = i_uid x"
  "i_perm (drop_entry name x) = i_perm x" "i_data (drop_entry name x) = i_data x"
  "i_kind (add_entry name n x) = i_kind x" "i_uid (add_entry name n x) = i_uid x"
  "i_perm (add_entry name n x) = i_perm x" "i_data (add_entry name n x) = i_data x"
  "i_entries (add_entry name n x) = (name, n) # i_entries x"
  "i_nlink (add_entry name n x) = i_nlink x" "i_nlink (drop_entry name x) = i_nlink x"
  "i_kind (unlink_inode x) = i_kind x" "i_uid (unlink_inode x) = i_uid x"
  "i_perm (unlink_inode x) = i_perm x" "i_data (unlink_inode x) = i_data x"
  "i_entries (unlink_inode x) = i_entries x"
  by (simp_all add: drop_entry_def add_entry_def unlink_inode_def)

lemma touches_update:
  assumes "\<And>x. I n = Some x \<Longrightarrow> i_kind (f x) = i_kind x \<and> i_uid (f x) = i_uid x \<and>
      i_perm (f x) = i_perm x \<and> (n \<notin> W \<longrightarrow> i_data (f x) = i_data x) \<and>
      (\<forall>name. (n, name) \<notin> T \<longrightarrow> map_of (i_entries (f x)) name = map_of (i_entries x) name)"
  shows "touches W T I (fs_update I n f)"
  using assms by (auto simp: touches_def fs_update_def)

lemma touches_create:
  assumes "I n = None" "I d = Some dir" "map_of (i_entries dir) name = None"
  shows "touches {} {(d, name)} I (fs_create I d name n x)"
  using assms by (auto simp: touches_def fs_create_def)

lemma touches_made:
  assumes "made u I F fd name n I'" "F fd = Some (d, b)"
  shows "touches {} {(d, name)} I I'"
  using assms touches_create unfolding made_def by fastforce

lemma touches_unlink: "touches {} {} I (fs_update I n unlink_inode)"
  by (rule touches_update) simp

lemma touches_drop: "touches {} {(d, name)} I (fs_update I d (drop_entry name))"
  by (rule touches_update) (simp add: map_of_drop_entry)

lemma touches_rename: "touches {} {(d, old), (d, new)} I (fs_rename I d old new n)"
  unfolding fs_rename_def by (rule touches_update) (simp add: map_of_drop_entry)

lemma touches_write:
  "touches {n} {} I (fs_update I n (\<lambda>x. x\<lparr> i_data := put_bytes raw offset (i_data x) \<rparr>))"
  by (rule touches_update) simp

subsection \<open>Atomic replacement\<close>

definition hex_digit :: "nat \<Rightarrow> char" where
  "hex_digit n = ''0123456789abcdef'' ! n"

definition hex_EncodeToString :: "bytes \<Rightarrow> string" where
  "hex_EncodeToString raw =
    concat (map (\<lambda>c. [hex_digit (of_char c div 16), hex_digit (of_char c mod 16)]) raw)"

definition unlinkTemporary :: "handle \<Rightarrow> string \<Rightarrow> error io" where
  "unlinkTemporary directory name = do {
     err \<leftarrow> unix_Unlinkat directory name False;
     State_Monad.return
       (if err \<noteq> noerr \<and> \<not> errors_Is err ENOENT then fmt_Errorf ''remove temporary'' err
        else noerr) }"

text \<open>The check of \<open>writeAtomicFile\<close> that a target it will replace is a private file.\<close>

definition check_existing :: "handle \<Rightarrow> string \<Rightarrow> error io" where
  "check_existing directory target = do {
     existing \<leftarrow> entryExists directory target;
     case existing of
       Inl err \<Rightarrow> State_Monad.return err
     | Inr exists \<Rightarrow>
         if \<not> exists then State_Monad.return noerr
         else do {
           r \<leftarrow> openPrivateFileAt directory target {O_RDONLY};
           case r of
             Inl err \<Rightarrow> State_Monad.return err
           | Inr old \<Rightarrow> do {
               err \<leftarrow> file_Close old;
               State_Monad.return
                 (if err \<noteq> noerr then fmt_Errorf ''close existing'' err else noerr) } } }"

lemma wp_check_existing [wp_rules]:
  assumes "St u I F w" and "\<And>e w'. St u I F w' \<Longrightarrow> Q e w'"
  shows "wp (check_existing directory target) Q w"
  unfolding check_existing_def wp_bind
  by (insert assms(1), (erule_tac wp_rules | simp add: assms)+)

text \<open>
  The body of \<open>writeAtomicFile\<close> after the temporary file was made; the flag of its result is
  \<open>temporaryExists\<close>, which the deferred function looks at.
\<close>

definition publish_temporary ::
  "handle \<Rightarrow> string \<Rightarrow> string \<Rightarrow> handle \<Rightarrow> bytes \<Rightarrow> (error \<times> bool) io" where
  "publish_temporary directory target temporary fd raw = do {
     (written, writeErr) \<leftarrow> file_WriteAt fd raw 0;
     if writeErr \<noteq> noerr \<or> written \<noteq> int (length raw) then do {
       closeErr \<leftarrow> file_Close fd;
       State_Monad.return
         (errors_Join [fmt_Errorf ''write'' (errors_Join [writeErr, [IoErrShortWrite]]), closeErr], True) }
     else do {
       syncErr \<leftarrow> file_Sync fd;
       if syncErr \<noteq> noerr then do {
         closeErr \<leftarrow> file_Close fd;
         State_Monad.return (errors_Join [fmt_Errorf ''sync'' syncErr, closeErr], True) }
       else do {
         closeErr \<leftarrow> file_Close fd;
         if closeErr \<noteq> noerr then State_Monad.return (fmt_Errorf ''close'' closeErr, True)
         else do {
           checkErr \<leftarrow> check_existing directory target;
           if checkErr \<noteq> noerr then State_Monad.return (checkErr, True)
           else do {
             renameErr \<leftarrow> unix_Renameat directory temporary target;
             if renameErr \<noteq> noerr then State_Monad.return (fmt_Errorf ''publish'' renameErr, True)
             else do {
               dirErr \<leftarrow> file_Sync directory;
               State_Monad.return
                 (if dirErr \<noteq> noerr then fmt_Errorf ''sync published'' dirErr else noerr, False)
             } } } } } }"

definition writeAtomicFile :: "handle \<Rightarrow> string \<Rightarrow> bytes \<Rightarrow> error io" where
  "writeAtomicFile directory target raw = do {
     suffix \<leftarrow> rand_Read 8;
     case suffix of
       Inl err \<Rightarrow> State_Monad.return (fmt_Errorf ''generate temporary name'' err)
     | Inr random \<Rightarrow> do {
         temporary \<leftarrow> State_Monad.return
           (''.'' @ target @ ''.'' @ hex_EncodeToString random);
         created \<leftarrow> createPrivateFileAt directory temporary;
         case created of
           Inl err \<Rightarrow> State_Monad.return err
         | Inr fd \<Rightarrow> do {
             (err, temporaryExists) \<leftarrow> publish_temporary directory target temporary fd raw;
             if temporaryExists then do {
               unlinkErr \<leftarrow> unlinkTemporary directory temporary;
               State_Monad.return (errors_Join [err, unlinkErr]) }
             else State_Monad.return err } } }"

text \<open>The names of temporary files, and of a job's directory before it is committed.\<close>

definition hidden :: "string \<Rightarrow> bool" where
  "hidden name \<longleftrightarrow> has_prefix name ''.''"

abbreviation hidden_in :: "nat \<Rightarrow> (nat \<times> string) set" where
  "hidden_in d \<equiv> {d} \<times> {name. hidden name}"

text \<open>\<open>target\<close> was replaced: its entry is a new private file with the whole new content.\<close>

definition replaced :: "nat \<Rightarrow> nat \<Rightarrow> string \<Rightarrow> bytes \<Rightarrow> fs \<Rightarrow> fs \<Rightarrow> bool" where
  "replaced u d target raw I I' \<longleftrightarrow>
    touches {} (insert (d, target) (hidden_in d)) I I' \<and>
    (\<exists>n x. lookup_at I' d target = Some n \<and> I n = None \<and> I' n = Some x \<and>
           private_file u x \<and> i_data x = raw)"

lemma replaced_content: "replaced u d target raw I I' \<Longrightarrow> content_at I' d target = Some raw"
  by (auto simp: replaced_def content_at_def)

lemma wp_case_prod [simp]: "wp (case p of (a, b) \<Rightarrow> f a b) Q w = wp (f (fst p) (snd p)) Q w"
  by (simp add: case_prod_beta)

lemma touches_fresh:
  assumes "touches W T I I'" "touches V S I' I''" "\<And>n. n \<in> V \<Longrightarrow> I n = None"
  shows "touches W (T \<union> S) I I''"
  unfolding touches_def
proof (intro allI impI)
  fix n x assume n: "I n = Some x"
  then have "n \<notin> V" using assms(3) by fastforce
  moreover obtain y where "I' n = Some y" "i_kind y = i_kind x" "i_uid y = i_uid x"
    "i_perm y = i_perm x" "n \<notin> W \<longrightarrow> i_data y = i_data x"
    "\<forall>name. (n, name) \<notin> T \<longrightarrow> map_of (i_entries y) name = map_of (i_entries x) name"
    using assms(1) n unfolding touches_def by blast
  moreover from this(1) obtain z where "I'' n = Some z" "i_kind z = i_kind y" "i_uid z = i_uid y"
    "i_perm z = i_perm y" "n \<notin> V \<longrightarrow> i_data z = i_data y"
    "\<forall>name. (n, name) \<notin> S \<longrightarrow> map_of (i_entries z) name = map_of (i_entries y) name"
    using assms(2) unfolding touches_def by blast
  ultimately show "\<exists>y. I'' n = Some y \<and> i_kind y = i_kind x \<and> i_uid y = i_uid x \<and>
      i_perm y = i_perm x \<and> (n \<notin> W \<longrightarrow> i_data y = i_data x) \<and>
      (\<forall>name. (n, name) \<notin> T \<union> S \<longrightarrow> map_of (i_entries y) name = map_of (i_entries x) name)"
    by auto
qed

text \<open>A temporary file of the directory \<open>d\<close> with content \<open>c\<close> that was not there in \<open>I\<close>.\<close>

definition pending_temp :: "nat \<Rightarrow> nat \<Rightarrow> string \<Rightarrow> nat \<Rightarrow> bytes \<Rightarrow> fs \<Rightarrow> fs \<Rightarrow> bool" where
  "pending_temp u d temporary n c I I' \<longleftrightarrow>
    touches {} {(d, temporary)} I I' \<and> I n = None \<and> n \<noteq> d \<and> lookup_at I' d temporary = Some n \<and>
    (\<exists>x. I' n = Some x \<and> private_file u x \<and> i_data x = c)"

lemma pending_made:
  assumes "made u I F fd name n I'" "F fd = Some (d, b)"
  shows "pending_temp u d name n [] I I'"
proof -
  from assms obtain dir where dir: "I d = Some dir" "map_of (i_entries dir) name = None"
    "I n = None" "I' = fs_create I d name n (fresh_inode S_IFREG privateFileMode u)"
    unfolding made_def by auto
  then have "n \<noteq> d" by auto
  with dir touches_made [OF assms] show ?thesis
    by (auto simp: pending_temp_def fs_create_def lookup_at_def)
qed

lemma put_bytes_empty [simp]: "put_bytes raw 0 [] = raw"
  by (simp add: put_bytes_def Let_def)

lemma pending_write:
  assumes "pending_temp u d name n [] I I'" "k \<le> length raw"
  shows "pending_temp u d name n (take k raw) I
           (fs_update I' n (\<lambda>x. x\<lparr> i_data := put_bytes (take k raw) 0 (i_data x) \<rparr>))"
proof -
  have "touches {} ({(d, name)} \<union> {}) I
      (fs_update I' n (\<lambda>x. x\<lparr> i_data := put_bytes (take k raw) 0 (i_data x) \<rparr>))"
    by (rule touches_fresh [OF _ touches_write]) (use assms in \<open>auto simp: pending_temp_def\<close>)
  moreover obtain x where "I' n = Some x" "private_file u x" "i_data x = []"
    using assms by (auto simp: pending_temp_def)
  ultimately show ?thesis
    using assms by (simp add: pending_temp_def fs_update_def lookup_at_def private_file_def)
qed

lemma pending_rename:
  assumes pend: "pending_temp u d temporary n c I I'" and h: "hidden temporary"
    and dir: "I' d = Some dir"
    and I'': "I'' = fs_rename I' d temporary target n \<or>
      (\<exists>m. m \<noteq> n \<and> I'' = fs_rename (fs_update I' m unlink_inode) d temporary target n)"
  shows "replaced u d target c I I''"
proof -
  from pend obtain x where x: "I' n = Some x" "private_file u x" "i_data x = c" "n \<noteq> d"
    "I n = None" "touches {} {(d, temporary)} I I'"
    unfolding pending_temp_def by blast
  have "touches {} {(d, temporary), (d, target)} I' I''"
    using I'' touches_rename touches_trans [OF touches_unlink touches_rename]
    by fastforce
  then have "touches {} (insert (d, target) (hidden_in d)) I I''"
    by (rule touches_trans [OF x(6)]) (use h in auto)
  moreover have "lookup_at I'' d target = Some n"
    using I'' dir by (auto simp: fs_rename_def fs_update_def lookup_at_def)
  moreover have "I'' n = Some x"
    using I'' x(1,4) by (auto simp: fs_rename_def fs_update_def)
  ultimately show ?thesis
    using x unfolding replaced_def by blast
qed

lemma pending_replaced:
  assumes "pending_temp u d temporary n c I I'" "hidden temporary" "lookup_at I' d target = Some n"
  shows "replaced u d target c I I'"
  using assms touches_mono [of "{}" "{(d, temporary)}" I I' "{}" "insert (d, target) (hidden_in d)"]
  unfolding pending_temp_def replaced_def by auto

lemma pending_touches:
  "pending_temp u d temporary n c I I' \<Longrightarrow> hidden temporary \<Longrightarrow> touches {} (hidden_in d) I I'"
  unfolding pending_temp_def by (auto elim: touches_mono)

text \<open>The whole body: either nothing but hidden entries changed, or \<open>target\<close> was replaced.\<close>

lemma wp_publish_temporary:
  assumes st: "St u I1 (F(fd \<mapsto> (n, False))) w" and d: "F directory = Some (d, b)"
    and fd: "F fd = None" and pend: "pending_temp u d temporary n [] I I1"
    and h: "hidden temporary"
    and fail: "\<And>e c I' w'. pending_temp u d temporary n c I I' \<Longrightarrow> St u I' F w' \<Longrightarrow> e \<noteq> [] \<Longrightarrow>
        Q (e, True) w'"
    and ok: "\<And>e I' w'. replaced u d target raw I I' \<Longrightarrow> St u I' F w' \<Longrightarrow> Q (e, False) w'"
  shows "wp (publish_temporary directory target temporary fd raw) Q w"
proof -
  have fdd: "fd \<noteq> directory" using d fd by auto
  show ?thesis
    unfolding publish_temporary_def wp_bind
  proof (rule wp_WriteAt [OF st], goal_cases)
    case (1 e w')
    then show ?case
      by (simp, erule_tac wp_Close) (simp add: fd fail [OF pend])
  next
    case (2 m b' k e w')
    then have n: "m = n" by simp
    let ?I = "fs_update I1 n (\<lambda>x. x\<lparr> i_data := put_bytes (take k raw) 0 (i_data x) \<rparr>)"
    have pk: "pending_temp u d temporary n (take k raw) I ?I"
      by (rule pending_write [OF pend 2(2)])
    show ?case
    proof (cases "e = []")
      case False
      then show ?thesis
        using 2(4) unfolding n
        by (simp, erule_tac wp_Close) (simp add: fd fail [OF pk])
    next
      case True
      then have k: "k = length raw" using 2(3) by simp
      let ?I = "fs_update I1 n (\<lambda>x. x\<lparr> i_data := put_bytes raw 0 (i_data x) \<rparr>)"
      have p: "pending_temp u d temporary n raw I ?I" using pk k by simp
      note failp = fail [OF p]
      from p obtain dir where dir: "?I d = Some dir" "map_of (i_entries dir) temporary = Some n"
        by (auto simp: pending_temp_def lookup_at_def split: option.splits)
      have same: "map_of (i_entries dir) target = Some n \<Longrightarrow> replaced u d target raw I ?I"
        using pending_replaced [OF p h] dir by (simp add: lookup_at_def)
      have ren: "replaced u d target raw I (fs_rename ?I d temporary target n)"
        using pending_rename [OF p h dir(1)] by blast
      have ren2: "m \<noteq> n \<Longrightarrow> replaced u d target raw I
          (fs_rename (fs_update ?I m unlink_inode) d temporary target n)" for m
        using pending_rename [OF p h dir(1)] by blast
      show ?thesis
        using 2(4) unfolding n k True
        apply (simp split del: if_split)
        apply (erule wp_Sync)
        subgoal by (simp, erule wp_Close) (simp add: fd failp)
        apply simp
        apply (erule wp_Close)
        apply (simp add: fd split del: if_split)
        apply (split if_split, rule conjI, simp add: failp)
        apply (rule impI, simp split del: if_split)
        apply (erule wp_check_existing)
        apply (split if_split, rule conjI, simp add: failp)
        apply (rule impI, simp split del: if_split)
        apply (erule wp_Renameat)
        subgoal by (simp add: failp)
        subgoal by (simp, erule wp_Sync) (use d dir same ok in auto)
        subgoal by (simp, erule wp_Sync) (use d dir ren ok in auto)
        subgoal by (simp, erule wp_Sync) (use d dir ren2 ok in auto)
        done
    qed
  next
    case (3 k e w')
    then show ?case by simp
  qed
qed

lemma hidden_temporary [simp]: "hidden (CHR ''.'' # name)"
  by (simp add: hidden_def has_prefix_def)

lemma wp_unlinkTemporary:
  assumes st: "St u I1 F w" and d: "F directory = Some (d, b)"
    and t: "touches {} (hidden_in d) I I1" and h: "hidden temporary"
    and Q: "\<And>e I' w'. touches {} (hidden_in d) I I' \<Longrightarrow> St u I' F w' \<Longrightarrow> Q e w'"
  shows "wp (unlinkTemporary directory temporary) Q w"
  unfolding unlinkTemporary_def wp_bind
proof (rule wp_Unlinkat [OF st], goal_cases)
  case (1 e w')
  then show ?case using Q [OF t] by simp
next
  case (2 d' b' dir n x w')
  have "touches {} {(d', temporary)} I1
      (fs_update (fs_update I1 n unlink_inode) d' (drop_entry temporary))"
    by (rule touches_trans [OF touches_unlink touches_drop]) auto
  then have "touches {} (hidden_in d) I
      (fs_update (fs_update I1 n unlink_inode) d' (drop_entry temporary))"
    by (rule touches_trans [OF t]) (use 2(1) d h in auto)
  then show ?case using Q 2(7) by simp
qed

text \<open>
  The contract of \<open>writeAtomicFile\<close>, for every pattern of failures and a crash at any point:
  its descriptors are closed again, and either only hidden names of the directory changed, and
  an error is returned, or the target's entry is a new private file with exactly \<open>raw\<close> in it.
\<close>

lemma wp_writeAtomicFile:
  assumes st: "St u I F w" and d: "F directory = Some (d, b)"
    and fail: "\<And>e I' w'. touches {} (hidden_in d) I I' \<Longrightarrow> St u I' F w' \<Longrightarrow> e \<noteq> [] \<Longrightarrow> Q e w'"
    and ok: "\<And>e I' w'. replaced u d target raw I I' \<Longrightarrow> St u I' F w' \<Longrightarrow> Q e w'"
  shows "wp (writeAtomicFile directory target raw) Q w"
  unfolding writeAtomicFile_def wp_bind
proof (rule wp_rand_Read [OF st], goal_cases)
  case (1 e w')
  then show ?case using fail [OF touches_refl] by simp
next
  case (2 random w')
  let ?temp = "''.'' @ target @ ''.'' @ hex_EncodeToString random"
  have h: "hidden ?temp" by simp
  show ?case
    unfolding sum.case wp_bind wp_return
  proof (rule wp_createPrivateFileAt [OF 2(1)], goal_cases)
    case (1 e w')
    then show ?case using fail [OF touches_refl] by simp
  next
    case (2 e n I' w')
    then show ?case
      using fail pending_touches [OF pending_made h] d by fastforce
  next
    case (3 fd n I' w')
    show ?case
      unfolding sum.case wp_bind
    proof (rule wp_publish_temporary [OF 3(3) d 3(2) pending_made [OF 3(1) d] h], goal_cases)
      case (1 e c I2 w2)
      show ?case
        unfolding prod.case if_True wp_bind
        by (rule wp_unlinkTemporary [OF 1(2) d pending_touches [OF 1(1) h] h])
          (use fail 1(3) in simp)
    next
      case (2 e I2 w2)
      then show ?case using ok by simp
    qed
  qed
qed

end
