(* ===== verification/Dirs.thy ===== *)
theory Dirs
  imports Touches
begin

section \<open>Creating and emptying directories\<close>

text \<open>
  The directory functions of \<open>jobdir_unix.go\<close> and \<open>files_unix.go\<close>: the walk to the
  workspace, the private directories below it, empty synced files, and the removal of a job's
  directory in two steps, its files first.
\<close>

subsection \<open>Definitions\<close>

text \<open>The loop of \<open>openWorkspaceDirectory\<close>: each step holds one descriptor.\<close>

primrec open_components :: "string list \<Rightarrow> handle \<Rightarrow> handle result io" where
  "open_components [] current = State_Monad.return (Inr current)"
| "open_components (component # rest) current = do {
     next \<leftarrow> openDirectoryAt current component False;
     closeErr \<leftarrow> file_Close current;
     case next of
       Inl openErr \<Rightarrow> State_Monad.return (Inl (errors_Join [openErr, closeErr]))
     | Inr fd \<Rightarrow>
         if closeErr \<noteq> noerr then do {
           nextCloseErr \<leftarrow> file_Close fd;
           State_Monad.return
             (Inl (errors_Join [fmt_Errorf ''close workspace parent'' closeErr, nextCloseErr])) }
         else open_components rest fd }"

definition openAbsoluteRoot :: "handle result io" where
  "openAbsoluteRoot = do {
     r \<leftarrow> unix_Open_root;
     case r of
       Inl err \<Rightarrow> State_Monad.return (Inl (fmt_Errorf ''open filesystem root'' err))
     | Inr fd \<Rightarrow> fileFromFD fd ''/'' }"

definition openWorkspaceDirectory :: "string \<Rightarrow> handle result io" where
  "openWorkspaceDirectory path =
    (if \<not> filepath_IsAbs path \<or> filepath_Clean path \<noteq> path \<or> path = [sep]
     then State_Monad.return (Inl (fmt_Errorf ''workspace'' [ErrUnsafeFilesystem]))
     else do {
       current \<leftarrow> openAbsoluteRoot;
       case current of
         Inl err \<Rightarrow> State_Monad.return (Inl err)
       | Inr fd \<Rightarrow> open_components (split_sep (trim_sep path)) fd })"

definition ensurePrivateDirectory :: "handle \<Rightarrow> string \<Rightarrow> handle result io" where
  "ensurePrivateDirectory parent name = do {
     mkErr \<leftarrow> unix_Mkdirat parent name privateDirectoryMode;
     if mkErr \<noteq> noerr \<and> \<not> errors_Is mkErr EEXIST
     then State_Monad.return (Inl (fmt_Errorf ''create directory'' mkErr))
     else do {
       r \<leftarrow> openDirectoryAt parent name True;
       case r of
         Inl err \<Rightarrow> State_Monad.return (Inl err)
       | Inr fd \<Rightarrow>
           if mkErr = noerr then do {
             syncErr \<leftarrow> file_Sync parent;
             if syncErr \<noteq> noerr then do {
               closeErr \<leftarrow> file_Close fd;
               State_Monad.return
                 (Inl (errors_Join [fmt_Errorf ''sync parent'' syncErr, closeErr])) }
             else State_Monad.return (Inr fd) }
           else State_Monad.return (Inr fd) } }"

definition removeDirectory :: "handle \<Rightarrow> string \<Rightarrow> error io" where
  "removeDirectory parent name = do {
     err \<leftarrow> unix_Unlinkat parent name True;
     if err \<noteq> noerr then State_Monad.return (fmt_Errorf ''remove directory'' err)
     else do {
       syncErr \<leftarrow> file_Sync parent;
       State_Monad.return
         (if syncErr \<noteq> noerr then fmt_Errorf ''sync removed directory'' syncErr else noerr) } }"

text \<open>\<open>createPrivateDirectoryWith\<close>, for the operations \<open>createPrivateDirectory\<close> passes.\<close>

definition createPrivateDirectory :: "handle \<Rightarrow> string \<Rightarrow> handle result io" where
  "createPrivateDirectory parent name = do {
     mkErr \<leftarrow> unix_Mkdirat parent name privateDirectoryMode;
     if mkErr \<noteq> noerr
     then State_Monad.return (Inl
       (if errors_Is mkErr EEXIST then fmt_Errorf ''create directory'' [ErrJobExists]
        else fmt_Errorf ''create directory'' mkErr))
     else do {
       r \<leftarrow> openDirectoryAt parent name True;
       case r of
         Inl err \<Rightarrow> do {
           removeErr \<leftarrow> removeDirectory parent name;
           State_Monad.return (Inl (errors_Join [err, removeErr])) }
       | Inr fd \<Rightarrow> do {
           syncErr \<leftarrow> file_Sync parent;
           if syncErr \<noteq> noerr then do {
             closeErr \<leftarrow> file_Close fd;
             removeErr \<leftarrow> removeDirectory parent name;
             State_Monad.return
               (Inl (errors_Join [fmt_Errorf ''sync new directory'' syncErr, closeErr, removeErr])) }
           else State_Monad.return (Inr fd) } } }"

definition createSyncedFile :: "handle \<Rightarrow> string \<Rightarrow> error io" where
  "createSyncedFile directory name = do {
     r \<leftarrow> createPrivateFileAt directory name;
     case r of
       Inl err \<Rightarrow> State_Monad.return err
     | Inr fd \<Rightarrow> do {
         syncErr \<leftarrow> file_Sync fd;
         if syncErr \<noteq> noerr then do {
           closeErr \<leftarrow> file_Close fd;
           State_Monad.return (errors_Join [fmt_Errorf ''sync'' syncErr, closeErr]) }
         else do {
           closeErr \<leftarrow> file_Close fd;
           State_Monad.return
             (if closeErr \<noteq> noerr then fmt_Errorf ''close'' closeErr else noerr) } } }"

definition duplicateCloseOnExec :: "handle \<Rightarrow> handle result io" where
  "duplicateCloseOnExec fd = do {
     r \<leftarrow> unix_Dup fd;
     State_Monad.return (case r of
       Inl err \<Rightarrow> Inl (fmt_Errorf ''duplicate descriptor'' err) | Inr h \<Rightarrow> Inr h) }"

text \<open>The two loops of \<open>removeDirectoryContents\<close>: inspect every entry, then remove them.\<close>

primrec inspect_entries :: "handle \<Rightarrow> string list \<Rightarrow> error io" where
  "inspect_entries directory [] = State_Monad.return noerr"
| "inspect_entries directory (name # names) = do {
     r \<leftarrow> unix_Fstatat directory name;
     case r of
       Inl err \<Rightarrow> State_Monad.return (fmt_Errorf ''inspect removal entry'' err)
     | Inr stat \<Rightarrow>
         if i_kind stat = S_IFDIR
         then State_Monad.return (fmt_Errorf ''remove nested directory'' [ErrUnsafeFilesystem])
         else inspect_entries directory names }"

primrec unlink_entries :: "handle \<Rightarrow> string list \<Rightarrow> error io" where
  "unlink_entries directory [] = State_Monad.return noerr"
| "unlink_entries directory (name # names) = do {
     err \<leftarrow> unix_Unlinkat directory name False;
     if err \<noteq> noerr then State_Monad.return (fmt_Errorf ''remove entry'' err)
     else unlink_entries directory names }"

text \<open>The result's first component is \<open>directoryContentsRemoval.emptied\<close>.\<close>

definition removeDirectoryContents :: "handle \<Rightarrow> (bool \<times> error) io" where
  "removeDirectoryContents directory = do {
     dup \<leftarrow> duplicateCloseOnExec directory;
     case dup of
       Inl err \<Rightarrow> State_Monad.return (False, fmt_Errorf ''duplicate directory descriptor'' err)
     | Inr reader \<Rightarrow> do {
         entries \<leftarrow> file_ReadDir reader;
         closeErr \<leftarrow> file_Close reader;
         case entries of
           Inl readErr \<Rightarrow>
             State_Monad.return
               (False, errors_Join [fmt_Errorf ''read directory'' readErr, closeErr])
         | Inr names \<Rightarrow>
             if closeErr \<noteq> noerr
             then State_Monad.return
               (False, errors_Join [fmt_Errorf ''read directory'' noerr, closeErr])
             else do {
               inspectErr \<leftarrow> inspect_entries directory (map fst names);
               if inspectErr \<noteq> noerr then State_Monad.return (False, inspectErr)
               else do {
                 unlinkErr \<leftarrow> unlink_entries directory (map fst names);
                 if unlinkErr \<noteq> noerr then State_Monad.return (False, unlinkErr)
                 else do {
                   syncErr \<leftarrow> file_Sync directory;
                   State_Monad.return
                     (True, if syncErr \<noteq> noerr then fmt_Errorf ''sync emptied directory'' syncErr
                            else noerr) } } } } }"

subsection \<open>Contracts\<close>

definition with_fd :: "fdtable \<Rightarrow> handle \<Rightarrow> nat \<Rightarrow> fdtable" where
  "with_fd F h n = F(h \<mapsto> (n, False))"

lemma wp_open_components:
  assumes "St u I F' w" "F' = with_fd F h n" "F h = None"
    and "\<And>e w'. St u I F w' \<Longrightarrow> e \<noteq> [] \<Longrightarrow> Q (Inl e) w'"
    and "\<And>h n w'. F h = None \<Longrightarrow> St u I (F(h \<mapsto> (n, False))) w' \<Longrightarrow> Q (Inr h) w'"
  shows "wp (open_components components h) Q w"
  using assms(1-3)
proof (induction components arbitrary: F' h n w)
  case Nil
  have "Q (Inr h) w"
    by (rule assms(5) [OF Nil.prems(3)]) (use Nil.prems(1,2) in \<open>simp only: with_fd_def\<close>)
  then show ?case by simp
next
  case (Cons component rest)
  show ?case
    unfolding open_components.simps wp_bind
  proof (rule wp_openDirectoryAt [OF Cons.prems(1)], goal_cases)
    case (1 e w')
    have F: "F'(h := None) = F"
      using Cons.prems(2,3) by (auto simp: with_fd_def)
    show ?case
      by (rule wp_Close [OF 1(1)]) (use 1(2) assms(4) in \<open>simp add: F\<close>)
  next
    case (2 h' n' x w')
    then have h': "h' \<noteq> h" "F h' = None"
      using Cons.prems(2) by (auto simp: with_fd_def split: if_splits)
    have F: "(F'(h' \<mapsto> (n', False)))(h := None) = F(h' \<mapsto> (n', False))"
      using h' Cons.prems(2,3) by (auto simp: with_fd_def)
    show ?case
    proof (rule wp_Close [OF 2(2)], goal_cases)
      case (1 closeErr w2)
      then have st: "St u I (F(h' \<mapsto> (n', False))) w2" unfolding F .
      show ?case
      proof (cases "closeErr = []")
        case True
        then show ?thesis
          using Cons.IH [OF st _ h'(2)] by (simp add: with_fd_def)
      next
        case False
        have "wp (file_Close h') (\<lambda>r. wp (State_Monad.return (Inl (errors_Join
            [fmt_Errorf ''close workspace parent'' closeErr, r]))) Q) w2"
          by (rule wp_Close [OF st]) (use h'(2) assms(4) in simp)
        with False show ?thesis by simp
      qed
    qed
  qed
qed

lemma wp_openWorkspaceDirectory [wp_rules]:
  assumes "St u I F w"
    and "\<And>e w'. St u I F w' \<Longrightarrow> e \<noteq> [] \<Longrightarrow> Q (Inl e) w'"
    and "\<And>h n w'. F h = None \<Longrightarrow> St u I (F(h \<mapsto> (n, False))) w' \<Longrightarrow> Q (Inr h) w'"
  shows "wp (openWorkspaceDirectory path) Q w"
proof (cases "\<not> filepath_IsAbs path \<or> filepath_Clean path \<noteq> path \<or> path = [sep]")
  case True
  then show ?thesis using assms by (auto simp: openWorkspaceDirectory_def)
next
  case False
  then show ?thesis
    unfolding openWorkspaceDirectory_def openAbsoluteRoot_def if_not_P [OF False] wp_bind
    by (rule_tac wp_Open_root [OF assms(1)])
      (auto intro: assms wp_open_components [OF _ with_fd_def [symmetric] _ assms(2,3)])
qed

lemma wp_duplicateCloseOnExec [wp_rules]:
  assumes "St u I F w"
    and "\<And>e w'. St u I F w' \<Longrightarrow> e \<noteq> [] \<Longrightarrow> Q (Inl e) w'"
    and "\<And>h n b w'. F h = None \<Longrightarrow> F fd = Some (n, b) \<Longrightarrow> St u I (F(h \<mapsto> (n, False))) w' \<Longrightarrow> Q (Inr h) w'"
  shows "wp (duplicateCloseOnExec fd) Q w"
  unfolding duplicateCloseOnExec_def wp_bind
  by (insert assms(1), (erule_tac wp_rules | simp add: assms)+)

lemma wp_createSyncedFile:
  assumes st: "St u I F w" and d: "F directory = Some (d, b)"
    and fail: "\<And>e I' w'. touches {} {(d, name)} I I' \<Longrightarrow> St u I' F w' \<Longrightarrow> e \<noteq> [] \<Longrightarrow> Q e w'"
    and ok: "\<And>n I' w'. pending_temp u d name n [] I I' \<Longrightarrow> St u I' F w' \<Longrightarrow> Q [] w'"
  shows "wp (createSyncedFile directory name) Q w"
  unfolding createSyncedFile_def wp_bind
proof (rule wp_createPrivateFileAt [OF st], goal_cases)
  case (1 e w')
  then show ?case using fail [OF touches_refl] by simp
next
  case (2 e n I' w')
  then show ?case using fail [OF touches_made [OF 2(1) d]] by simp
next
  case (3 h n I' w')
  note t = touches_made [OF 3(1) d] and p = pending_made [OF 3(1) d]
  show ?case
    using 3(3) unfolding sum.case wp_bind
    by (elim wp_Sync wp_Close; simp; elim wp_Close; simp add: 3(2) fail [OF t] ok [OF p])
qed

lemma wp_removeDirectory:
  assumes st: "St u I F w" and d: "F parent = Some (d, b)"
    and fail: "\<And>e w'. St u I F w' \<Longrightarrow> e \<noteq> [] \<Longrightarrow> Q e w'"
    and ok: "\<And>e I' w'. touches {} {(d, name)} I I' \<Longrightarrow> lookup_at I' d name = None \<Longrightarrow> St u I' F w' \<Longrightarrow> Q e w'"
  shows "wp (removeDirectory parent name) Q w"
  unfolding removeDirectory_def wp_bind
proof (rule wp_Unlinkat [OF st], goal_cases)
  case (1 e w')
  then show ?case using fail by simp
next
  case (2 d' b' dir n x w')
  let ?I = "fs_update (fs_update I n unlink_inode) d (drop_entry name)"
  have d': "d' = d" using 2(1) d by simp
  have t: "touches {} {(d, name)} I ?I"
    by (rule touches_trans [OF touches_unlink touches_drop]) auto
  have l: "lookup_at ?I d name = None"
    using 2(2) unfolding d' by (auto simp: lookup_at_def fs_update_def map_of_drop_entry)
  show ?case
    using 2(7) unfolding d' by (simp, elim wp_Sync) (simp_all add: ok [OF t l])
qed

text \<open>What \<open>ensurePrivateDirectory\<close> does to the file system: nothing, or an empty directory is made.\<close>

definition ensured :: "nat \<Rightarrow> nat \<Rightarrow> string \<Rightarrow> fs \<Rightarrow> fs \<Rightarrow> bool" where
  "ensured u d name I I' \<longleftrightarrow>
    I' = I \<or> (\<exists>n dir. I d = Some dir \<and> I n = None \<and> lookup_at I d name = None \<and>
      I' = fs_create I d name n (fresh_inode S_IFDIR privateDirectoryMode u))"

lemma ensured_refl [simp]: "ensured u d name I I"
  by (simp add: ensured_def)

lemma ensured_touches: "ensured u d name I I' \<Longrightarrow> touches {} {(d, name)} I I'"
  by (auto simp: ensured_def lookup_at_def intro: touches_create)

lemma ensured_lookup:
  assumes "ensured u d name I I'"
  shows "lookup_at I' k other =
    (if k = d \<and> other = name then lookup_at I' d name else lookup_at I k other)"
  using assms by (auto simp: ensured_def lookup_at_def fs_create_def fresh_inode_def split: option.splits if_splits)

lemma ensured_new:
  assumes "ensured u d name I I'" "lookup_at I' d name = Some n"
  shows "lookup_at I d name = Some n \<or> (\<forall>other. lookup_at I' n other = None)"
  using assms by (auto simp: ensured_def lookup_at_def fs_create_def fresh_inode_def split: if_splits)

lemma wp_ensurePrivateDirectory:
  assumes st: "St u I F w" and d: "F parent = Some (d, b)"
    and fail: "\<And>e I' w'. ensured u d name I I' \<Longrightarrow> St u I' F w' \<Longrightarrow> e \<noteq> [] \<Longrightarrow> Q (Inl e) w'"
    and ok: "\<And>h n I' w'. ensured u d name I I' \<Longrightarrow> F h = None \<Longrightarrow> lookup_at I' d name = Some n \<Longrightarrow>
        I' n \<noteq> None \<Longrightarrow> St u I' (F(h \<mapsto> (n, False))) w' \<Longrightarrow> Q (Inr h) w'"
  shows "wp (ensurePrivateDirectory parent name) Q w"
proof -
  have found: "lookup_at I' d name = Some n" if "entry_at I' F parent name n" for I' n
    using that d by (auto simp: entry_at_def lookup_at_def)
  have opened: "wp (openDirectoryAt parent name True) (\<lambda>r. wp (case r of
         Inl err \<Rightarrow> State_Monad.return (Inl err)
       | Inr fd \<Rightarrow>
           if mkErr = noerr then do {
             syncErr \<leftarrow> file_Sync parent;
             if syncErr \<noteq> noerr then do {
               closeErr \<leftarrow> file_Close fd;
               State_Monad.return
                 (Inl (errors_Join [fmt_Errorf ''sync parent'' syncErr, closeErr])) }
             else State_Monad.return (Inr fd) }
           else State_Monad.return (Inr fd)) Q) w'"
    if st': "St u I' F w'" and t: "ensured u d name I I'" for I' w' mkErr
  proof (rule wp_openDirectoryAt [OF st'], goal_cases)
    case (1 e w'')
    then show ?case using fail [OF t] by simp
  next
    case (2 h n x w'')
    then show ?case
      using ok [OF t 2(1) found [OF 2(4)]] 2(3)
      by (cases "mkErr = []")
        (simp_all, elim wp_Sync, simp, elim wp_Close, simp_all add: fail [OF t])
  qed
  show ?thesis
    unfolding ensurePrivateDirectory_def wp_bind
  proof (rule wp_Mkdirat [OF st], goal_cases)
    case (1 e w')
    then show ?case
      using opened [OF 1(1) ensured_refl, of e] fail [OF ensured_refl 1(1)]
      by (simp cong: sum.case_cong)
  next
    case (2 d' b' dir n w')
    have "ensured u d name I (fs_create I d' name n (fresh_inode S_IFDIR privateDirectoryMode u))"
      using 2(1,2,4,5) d by (auto simp: ensured_def lookup_at_def)
    then show ?case
      using opened [OF 2(6), of "[]"] by (simp cong: sum.case_cong)
  qed
qed

lemma wp_createPrivateDirectory:
  assumes st: "St u I F w" and d: "F parent = Some (d, b)"
    and fail: "\<And>e I' w'. touches {} {(d, name)} I I' \<Longrightarrow> St u I' F w' \<Longrightarrow> e \<noteq> [] \<Longrightarrow> Q (Inl e) w'"
    and ok: "\<And>h n I' w'. touches {} {(d, name)} I I' \<Longrightarrow> F h = None \<Longrightarrow> lookup_at I' d name = Some n \<Longrightarrow>
        I n = None \<Longrightarrow> n \<noteq> d \<Longrightarrow> I' n = Some (fresh_inode S_IFDIR privateDirectoryMode u) \<Longrightarrow>
        St u I' (F(h \<mapsto> (n, False))) w' \<Longrightarrow> Q (Inr h) w'"
  shows "wp (createPrivateDirectory parent name) Q w"
  unfolding createPrivateDirectory_def wp_bind
proof (rule wp_Mkdirat [OF st], goal_cases)
  case (1 e w')
  then show ?case using fail [OF touches_refl] by simp
next
  case (2 d' b' dir n w')
  let ?I = "fs_create I d' name n (fresh_inode S_IFDIR privateDirectoryMode u)"
  note \<open>F parent = Some (d', b')\<close> \<open>I d' = Some dir\<close> \<open>I n = None\<close>
  have "d' = d"
    using 2(1) d by simp
  have t: "touches {} {(d, name)} I ?I"
    using touches_create [OF 2(5,2,4)] 2(1) d by simp
  have removed: "wp (removeDirectory parent name) (\<lambda>r. wp (State_Monad.return (Inl (f r))) Q) w2"
    if "St u ?I F w2" "\<And>r. f r \<noteq> []" for w2 f
  proof (rule wp_removeDirectory [OF that(1) d], goal_cases)
    case (1 e w')
    then show ?case using fail [OF t] that(2) by simp
  next
    case (2 e I' w')
    then show ?case
      using fail [OF touches_trans [OF t 2(1), of "{}" "{(d, name)}"]] that(2) by simp
  qed
  show ?case
    unfolding simp_thms if_False wp_bind
  proof (rule wp_openDirectoryAt [OF 2(6)], goal_cases)
    case (1 e w2)
    then show ?case by (simp, intro removed) simp_all
  next
    case (2 h m x w2)
    have l: "lookup_at ?I d name = Some m" "m = n" "m \<noteq> d"
      using 2(4) d \<open>F parent = Some (d', b')\<close> \<open>I d' = Some dir\<close> \<open>I n = None\<close>
      by (auto simp: entry_at_def lookup_at_def fs_create_def split: if_splits)
    show ?case
      unfolding sum.case wp_bind
    proof (rule wp_Sync [OF 2(2)], goal_cases)
      case (1 e w3)
      then show ?case
        by (simp, elim wp_Close) (simp add: 2(1), intro removed, simp_all)
    next
      case (2 w3)
      then show ?case
        using ok [OF t \<open>F h = None\<close> l(1)] l(2,3) \<open>I n = None\<close> \<open>d' = d\<close> by (simp add: fs_create_def)
    qed
  qed
qed

text \<open>Emptying a directory: when the files are reported removed, no entry is left.\<close>

lemma wp_inspect_entries [wp_rules]:
  assumes "St u I F w" and "\<And>e w'. St u I F w' \<Longrightarrow> Q e w'"
  shows "wp (inspect_entries directory names) Q w"
  using assms
proof (induction names arbitrary: w)
  case (Cons name names)
  show ?case
    unfolding inspect_entries.simps wp_bind
    by (rule wp_Fstatat [OF Cons.prems(1)]) (simp_all add: Cons)
qed simp

lemma touches_unlinkat:
  "touches {} {(d, name)} I (fs_update (fs_update I n unlink_inode) d (drop_entry name))"
  by (rule touches_trans [OF touches_unlink touches_drop]) auto

lemma wp_unlink_entries:
  assumes "St u I F w" "F directory = Some (d, b)" "I d = Some dir"
    and "\<And>e I' w'. touches {} ({d} \<times> UNIV) I I' \<Longrightarrow> St u I' F w' \<Longrightarrow> e \<noteq> [] \<Longrightarrow> Q e w'"
    and "\<And>I' dir' w'. touches {} ({d} \<times> UNIV) I I' \<Longrightarrow> St u I' F w' \<Longrightarrow> I' d = Some dir' \<Longrightarrow>
           i_entries dir' = filter (\<lambda>e. fst e \<notin> set names) (i_entries dir) \<Longrightarrow> Q [] w'"
  shows "wp (unlink_entries directory names) Q w"
  using assms
proof (induction names arbitrary: I dir w)
  case Nil
  then show ?case using Nil.prems(5) [OF touches_refl] by simp
next
  case (Cons name names)
  show ?case
    unfolding unlink_entries.simps wp_bind
  proof (rule wp_Unlinkat [OF Cons.prems(1)], goal_cases)
    case (1 e w')
    then show ?case using Cons.prems(4) [OF touches_refl] by simp
  next
    case (2 d' b' dir' n x w')
    let ?I = "fs_update (fs_update I n unlink_inode) d (drop_entry name)"
    have d': "d' = d" "dir' = dir" using 2(1,2) Cons.prems(2,3) by auto
    have t: "touches {} ({d} \<times> UNIV) I ?I"
      by (rule touches_mono [OF touches_unlinkat]) auto
    have I: "\<exists>y. ?I d = Some y \<and> i_entries y = filter (\<lambda>e. fst e \<noteq> name) (i_entries dir)"
      using Cons.prems(3) by (auto simp: fs_update_def drop_entry_def)
    then obtain y where y: "?I d = Some y"
      "i_entries y = filter (\<lambda>e. fst e \<noteq> name) (i_entries dir)" by blast
    have trans: "touches {} ({d} \<times> UNIV) ?I I' \<Longrightarrow> touches {} ({d} \<times> UNIV) I I'" for I'
      using touches_trans [OF t] by blast
    have "wp (unlink_entries directory names) Q w'"
    proof (rule Cons.IH [OF 2(7) [unfolded d'] Cons.prems(2) y(1)], goal_cases)
      case (1 e I' w')
      show ?case by (rule Cons.prems(4) [OF trans [OF 1(1)] 1(2,3)])
    next
      case (2 I' dir' w')
      show ?case
        by (rule Cons.prems(5) [OF trans [OF 2(1)] 2(2,3)]) (use 2(4) y(2) in \<open>simp add: conj_commute\<close>)
    qed
    then show ?case by simp
  qed
qed

lemma wp_removeDirectoryContents:
  assumes st: "St u I F w" and d: "F directory = Some (d, b)"
    and fail: "\<And>e I' w'. touches {} ({d} \<times> UNIV) I I' \<Longrightarrow> St u I' F w' \<Longrightarrow> e \<noteq> [] \<Longrightarrow> Q (False, e) w'"
    and ok: "\<And>e I' dir' w'. touches {} ({d} \<times> UNIV) I I' \<Longrightarrow> St u I' F w' \<Longrightarrow> I' d = Some dir' \<Longrightarrow>
        i_entries dir' = [] \<Longrightarrow> Q (True, e) w'"
  shows "wp (removeDirectoryContents directory) Q w"
  unfolding removeDirectoryContents_def wp_bind
proof (rule wp_duplicateCloseOnExec [OF st], goal_cases)
  case (1 e w')
  then show ?case using fail [OF touches_refl] by simp
next
  case (2 h n b' w')
  then have n: "n = d" using d by simp
  show ?case
    unfolding sum.case wp_bind
  proof (rule wp_ReadDir [OF 2(3)], goal_cases)
    case (1 e w2)
    then show ?case
      by (elim wp_Close) (simp add: 2(1) fail [OF touches_refl])
  next
    case (2 d' b'' dir names w2)
    then have dir: "I d = Some dir" using n by simp
    have gone: "filter (\<lambda>e. fst e \<notin> set (map fst names)) (i_entries dir) = []"
      unfolding 2(5) by (simp add: filter_empty_conv)
    have F: "(F(h \<mapsto> (n, False)))(h := None) = F" using \<open>F h = None\<close> by auto
    show ?case
    proof (rule wp_Close [OF 2(1)], goal_cases)
      case (1 closeErr w3)
      then have st3: "St u I F w3" unfolding F .
      have unlink: "wp (unlink_entries directory (map fst names)) (\<lambda>unlinkErr. wp
          (if unlinkErr \<noteq> noerr then State_Monad.return (False, unlinkErr)
           else do {
             syncErr \<leftarrow> file_Sync directory;
             State_Monad.return
               (True, if syncErr \<noteq> noerr then fmt_Errorf ''sync emptied directory'' syncErr
                      else noerr) }) Q) w4" if "St u I F w4" for w4
      proof (rule wp_unlink_entries [OF that d dir], goal_cases)
        case (1 e I' w')
        then show ?case using fail by simp
      next
        case (2 I' dir' w')
        then show ?case
          using ok [OF 2(1) _ 2(3)] gone by (simp, elim wp_Sync) simp_all
      qed
      show ?case
        using fail [OF touches_refl]
        by (auto intro!: wp_inspect_entries [OF st3] unlink simp: st3)
    qed
  qed
qed

end
