(* ===== verification/Capture.thy ===== *)
theory Capture
  imports Policy
begin

section \<open>Bounded capture of the output\<close>

text \<open>
  \<open>capture_policy.go\<close>: how many of the incoming bytes a job with \<open>captured\<close> bytes and a
  limit may keep. Counts are \<open>uint64\<close>, so the subtraction is the wrapping one; the lemmas
  show that it never wraps.
\<close>

definition AcceptedBytes ::
  "Policy \<Rightarrow> ByteCount \<Rightarrow> ByteCount \<Rightarrow> ByteCount \<Rightarrow> ByteCount \<times> Decision" where
  "AcceptedBytes p captured incoming effectiveLimit =
    (if effectiveLimit = 0 \<or> effectiveLimit > p_captureLimit p
     then (0, \<lparr> d_Allowed = False, d_Code = CodeInvalidRange \<rparr>)
     else if captured > effectiveLimit
     then (0, \<lparr> d_Allowed = False, d_Code = CodeCorruptState \<rparr>)
     else if captured = effectiveLimit
     then (0, \<lparr> d_Allowed = True, d_Code = CodeAllow \<rparr>)
     else let remaining = effectiveLimit - captured in
       if incoming < remaining then (incoming, \<lparr> d_Allowed = True, d_Code = CodeAllow \<rparr>)
       else (remaining, \<lparr> d_Allowed = True, d_Code = CodeAllow \<rparr>))"

definition AcceptedIncomingPrefix ::
  "Policy \<Rightarrow> ByteCount \<Rightarrow> bytes \<Rightarrow> ByteCount \<Rightarrow> bytes \<times> Decision" where
  "AcceptedIncomingPrefix p captured incoming effectiveLimit =
    (case AcceptedBytes p captured (of_nat (length incoming)) effectiveLimit of
       (accepted, decision) \<Rightarrow>
         if \<not> d_Allowed decision then ([], decision)
         else (take (unat accepted) incoming, decision))"

lemma AcceptedBytes_allowed_iff:
  "d_Allowed (snd (AcceptedBytes p captured incoming limit)) \<longleftrightarrow>
   limit \<noteq> 0 \<and> limit \<le> p_captureLimit p \<and> captured \<le> limit"
  by (auto simp: AcceptedBytes_def Let_def not_less)

lemma AcceptedBytes_amount:
  assumes "d_Allowed (snd (AcceptedBytes p captured incoming limit))"
  shows "unat (fst (AcceptedBytes p captured incoming limit)) =
         min (unat incoming) (unat limit - unat captured)"
proof -
  from assms have c: "captured \<le> limit"
    by (simp add: AcceptedBytes_allowed_iff)
  then have "unat (limit - captured) = unat limit - unat captured"
    by (simp add: unat_sub)
  then show ?thesis
    using assms c
    by (auto simp: AcceptedBytes_allowed_iff AcceptedBytes_def Let_def word_less_nat_alt
        word_le_nat_alt not_less)
qed

lemma AcceptedBytes_spec:
  "(let (accepted, decision) = AcceptedBytes p captured incoming limit in
    if limit \<noteq> 0 \<and> limit \<le> p_captureLimit p \<and> captured \<le> limit
    then decision = \<lparr> d_Allowed = True, d_Code = CodeAllow \<rparr> \<and>
         unat accepted = min (unat incoming) (unat limit - unat captured) \<and>
         unat captured + unat accepted \<le> unat limit
    else d_Allowed decision = False \<and> accepted = 0 \<and>
         d_Code decision = (if limit = 0 \<or> p_captureLimit p < limit then CodeInvalidRange
                            else CodeCorruptState))"
proof (cases "limit \<noteq> 0 \<and> limit \<le> p_captureLimit p \<and> captured \<le> limit")
  case True
  then have a: "d_Allowed (snd (AcceptedBytes p captured incoming limit))"
    by (simp add: AcceptedBytes_allowed_iff)
  from True have "snd (AcceptedBytes p captured incoming limit)
      = \<lparr> d_Allowed = True, d_Code = CodeAllow \<rparr>"
    by (simp add: AcceptedBytes_def Let_def not_less [symmetric])
  moreover from True have "unat captured \<le> unat limit"
    by (simp add: word_le_nat_alt)
  ultimately show ?thesis
    using AcceptedBytes_amount [OF a] True
    by (cases "AcceptedBytes p captured incoming limit") simp
next
  case False
  then show ?thesis
    by (auto simp: AcceptedBytes_def not_less not_le)
qed

text \<open>C38: The number of bytes accepted is exactly what fits: with \<open>n\<close> bytes incoming it is the
  minimum of \<open>n\<close> and the room left below the limit, so captured plus accepted never passes
  the limit and the \<open>uint64\<close> subtraction never wraps. The request is refused exactly when the
  limit is zero or above the policy's, or the job already holds more than its limit, and
  then nothing is accepted.\<close>

theorem AcceptedBytes_exact:
  "(let (accepted, decision) = AcceptedBytes p captured incoming limit in
    if limit \<noteq> 0 \<and> limit \<le> p_captureLimit p \<and> captured \<le> limit
    then decision = \<lparr> d_Allowed = True, d_Code = CodeAllow \<rparr> \<and>
         unat accepted = min (unat incoming) (unat limit - unat captured) \<and>
         unat captured + unat accepted \<le> unat limit
    else d_Allowed decision = False \<and> accepted = 0 \<and>
         d_Code decision = (if limit = 0 \<or> p_captureLimit p < limit then CodeInvalidRange
                            else CodeCorruptState))"
  by (rule AcceptedBytes_spec)

subsection \<open>Capturing a stream of chunks\<close>

text \<open>
  What an append-only log relies on: offered \<open>xs\<close> while it holds \<open>n\<close> bytes, the acceptor
  keeps the longest prefix that fits. Chunks are bounded, as a slice's length is.
\<close>

locale prefix_acceptor =
  fixes accept :: "nat \<Rightarrow> bytes \<Rightarrow> bytes"
    and limit :: nat
    and chunk_bound :: nat
  assumes accept_prefix:
    "n \<le> limit \<Longrightarrow> length xs < chunk_bound \<Longrightarrow> accept n xs = take (limit - n) xs"
begin

lemma append_within: 
  "length log \<le> limit \<Longrightarrow> length xs < chunk_bound \<Longrightarrow>
   log @ accept (length log) xs = take limit (log @ xs)"
  by (simp add: accept_prefix)

lemma append_stream:
  "length log \<le> limit \<Longrightarrow> \<forall>xs \<in> set chunks. length xs < chunk_bound \<Longrightarrow>
   foldl (\<lambda>log xs. log @ accept (length log) xs) log chunks = take limit (log @ concat chunks)"
proof (induction chunks arbitrary: log)
  case Nil
  then show ?case by simp
next
  case (Cons xs chunks)
  have "length (log @ accept (length log) xs) \<le> limit"
    using Cons.prems by (simp add: append_within)
  from Cons.IH [OF this] Cons.prems
  have "foldl (\<lambda>log xs. log @ accept (length log) xs) log (xs # chunks)
      = take limit ((log @ accept (length log) xs) @ concat chunks)"
    by simp
  also have "\<dots> = take limit ((log @ xs) @ concat chunks)"
    using append_within [of log xs] Cons.prems take_take_append [of limit "log @ xs"] by simp
  finally show ?case by simp
qed

end

definition captured_log :: "Policy \<Rightarrow> ByteCount \<Rightarrow> bytes \<Rightarrow> bytes \<Rightarrow> bytes" where
  "captured_log p limit log incoming =
     log @ fst (AcceptedIncomingPrefix p (of_nat (length log)) incoming limit)"

lemma AcceptedIncomingPrefix_take:
  assumes "limit \<noteq> 0" "limit \<le> p_captureLimit p" "n \<le> unat limit" "length xs < 2 ^ 64"
  shows "AcceptedIncomingPrefix p (of_nat n) xs limit =
         (take (unat limit - n) xs, \<lparr> d_Allowed = True, d_Code = CodeAllow \<rparr>)"
proof -
  have n: "n < 2 ^ 64"
    using assms(3) unat_u64_less [of limit] by simp
  then have un: "unat (of_nat n :: u64) = n"
    by (simp add: unat_of_nat)
  have ux: "unat (of_nat (length xs) :: u64) = length xs"
    using assms(4) by (simp add: unat_of_nat)
  have le: "(of_nat n :: u64) \<le> limit"
    using assms(3) un by (simp add: word_le_nat_alt)
  have "d_Allowed (snd (AcceptedBytes p (of_nat n) (of_nat (length xs)) limit))"
    using assms le by (simp add: AcceptedBytes_allowed_iff)
  from AcceptedBytes_amount [OF this] this
    AcceptedBytes_spec [of p "of_nat n" "of_nat (length xs)" limit] assms le
  show ?thesis
    by (auto simp: AcceptedIncomingPrefix_def un ux min_def split: prod.splits)
qed

lemma AcceptedIncomingPrefix_acceptor:
  assumes "limit \<noteq> 0" "limit \<le> p_captureLimit p"
  shows "prefix_acceptor (\<lambda>n xs. fst (AcceptedIncomingPrefix p (of_nat n) xs limit))
           (unat limit) (2 ^ 64)"
  by unfold_locales (simp add: AcceptedIncomingPrefix_take assms)

interpretation capture_v1:
  prefix_acceptor "\<lambda>n xs. fst (AcceptedIncomingPrefix policy_v1 (of_nat n) xs 104857600)"
    104857600 "2 ^ 64"
  using AcceptedIncomingPrefix_acceptor [of 104857600 policy_v1] by simp

text \<open>Capturing a stream is independent of how it is cut into reads: offering the chunks one
  after the other, each append keeping the accepted prefix, leaves exactly the first
  \<open>limit\<close> bytes of their concatenation, for every legal per-job limit.\<close>

lemma captured_log_stream:
  assumes "limit \<noteq> 0" "limit \<le> p_captureLimit p"
    and "\<forall>xs \<in> set chunks. length xs < 2 ^ 64"
  shows "foldl (captured_log p limit) [] chunks = take (unat limit) (concat chunks)"
  using prefix_acceptor.append_stream [OF AcceptedIncomingPrefix_acceptor [OF assms(1,2)],
      of "[]" chunks] assms(3)
  by (simp add: captured_log_def [abs_def])

lemma captured_log_stream_witness:
  "foldl (captured_log policy_v1 4) [] [''abc'', ''defg''] = ''abcd''"
  using captured_log_stream [of 4 policy_v1 "[''abc'', ''defg'']"] by simp

end
