(* ===== verification/Store.thy ===== *)
theory Store
  imports JobState Dirs Capture
begin

section \<open>The job store\<close>

text \<open>
  The store functions of \<open>internal/runner\<close>: reading a job's state with and without its lock
  (\<open>snapshot_io_unix.go\<close>, \<open>state_io_unix.go\<close>), publishing a state (\<open>snapshot_unix.go\<close>), capturing
  and reading output (\<open>output_unix.go\<close>), and creating a job (\<open>store_unix.go\<close>). A job is a
  directory of the store's \<open>jobs\<close> directory with the files \<open>state.json\<close>, \<open>runtime.json\<close>,
  \<open>output.log\<close> and three lock files. Go's mutexes inside one process are left out: one
  goroutine at a time uses a lease or a pending job.
\<close>

record Store =
  st_jobs :: handle
  st_workspace :: string
  st_cwd :: string
  st_sessionID :: SessionID
  st_contracts :: Contracts
  st_lockTimeout :: int
  st_lockPoll :: int

record lockedJob =
  lj_dir :: handle
  lj_stateLock :: handle
  lj_state :: PersistedJobState

record snapshotJob =
  sj_dir :: handle
  sj_state :: PersistedJobState

record Snapshot =
  sn_State :: PersistedJobState
  sn_Runtime :: RuntimeMetadata

record outputAppend =
  ap_AcceptedBytes :: int
  ap_LimitReached :: bool

record runnerLease =
  le_file :: "handle option"
  le_jobID :: JobID

record pendingJob =
  pj_dir :: handle
  pj_name :: string
  pj_jobID :: JobID
  pj_lease :: runnerLease
  pj_settled :: bool

definition defaultStateLockTimeout :: int where "defaultStateLockTimeout = 5000000000"
definition defaultStateLockPoll :: int where "defaultStateLockPoll = 10000000"

subsection \<open>Opening a store\<close>

definition OpenStoreAt :: "TrustedInvocation \<Rightarrow> Contracts \<Rightarrow> handle \<Rightarrow> Store result io" where
  "OpenStoreAt invocation contracts workspace = do {
     err \<leftarrow> validateDirectory workspace False;
     if err \<noteq> noerr then State_Monad.return (Inl err)
     else do {
       managed \<leftarrow> ensurePrivateDirectory workspace ''.managed_bash'';
       case managed of
         Inl err \<Rightarrow> State_Monad.return (Inl err)
       | Inr managed_dir \<Rightarrow> do {
           jobs \<leftarrow> ensurePrivateDirectory managed_dir ''jobs'';
           closeErr \<leftarrow> file_Close managed_dir;
           case jobs of
             Inl err \<Rightarrow> State_Monad.return (Inl (errors_Join [err, closeErr]))
           | Inr jobs_dir \<Rightarrow>
               if closeErr \<noteq> noerr then do {
                 jobsErr \<leftarrow> file_Close jobs_dir;
                 State_Monad.return (Inl (errors_Join [noerr, errors_Join [closeErr, jobsErr]])) }
               else State_Monad.return (Inr
                 \<lparr> st_jobs = jobs_dir, st_workspace = ti_workspacePath invocation,
                   st_cwd = ti_cwd invocation, st_sessionID = ti_sessionID invocation,
                   st_contracts = contracts, st_lockTimeout = defaultStateLockTimeout,
                   st_lockPoll = defaultStateLockPoll \<rparr>) } } }"

definition Store_Close :: "Store \<Rightarrow> error io" where
  "Store_Close store = file_Close (st_jobs store)"

definition OpenStore :: "TrustedInvocation \<Rightarrow> Contracts \<Rightarrow> Store result io" where
  "OpenStore invocation contracts = do {
     workspace \<leftarrow> openWorkspaceDirectory (ti_workspacePath invocation);
     case workspace of
       Inl err \<Rightarrow> State_Monad.return (Inl err)
     | Inr workspace_dir \<Rightarrow> do {
         opened \<leftarrow> OpenStoreAt invocation contracts workspace_dir;
         closeErr \<leftarrow> file_Close workspace_dir;
         case opened of
           Inl openErr \<Rightarrow> State_Monad.return (Inl (errors_Join [openErr, closeErr]))
         | Inr store \<Rightarrow>
             if closeErr \<noteq> noerr then do {
               storeErr \<leftarrow> Store_Close store;
               State_Monad.return (Inl (errors_Join [noerr, errors_Join [closeErr, storeErr]])) }
             else State_Monad.return (Inr store) } }"

subsection \<open>Reading a state\<close>

definition readAtomicSnapshotFileAt :: "handle \<Rightarrow> string \<Rightarrow> int \<Rightarrow> bytes result io" where
  "readAtomicSnapshotFileAt directory name maximumBytes = do {
     u \<leftarrow> os_Geteuid;
     r \<leftarrow> unix_Openat directory name {O_RDONLY, O_CLOEXEC, O_NOFOLLOW, O_NONBLOCK} 0;
     case r of
       Inl err \<Rightarrow> State_Monad.return (Inl (classifyOpenError ''open file'' err))
     | Inr fd \<Rightarrow> do {
         st \<leftarrow> unix_Fstat fd;
         case st of
           Inl err \<Rightarrow> do {
             closeErr \<leftarrow> file_Close fd;
             State_Monad.return (Inl (errors_Join [fmt_Errorf ''inspect file'' err, closeErr])) }
         | Inr stat \<Rightarrow>
             if i_kind stat \<noteq> S_IFREG \<or> i_uid stat \<noteq> u \<or> i_perm stat \<noteq> privateFileMode \<or>
                i_nlink stat > 1
             then do {
               closeErr \<leftarrow> file_Close fd;
               State_Monad.return (Inl (errors_Join [[ErrUnsafeFilesystem], closeErr])) }
             else do {
               rd \<leftarrow> io_ReadAll fd (maximumBytes + 1);
               case rd of
                 Inl readErr \<Rightarrow> do {
                   closeErr \<leftarrow> file_Close fd;
                   State_Monad.return (Inl (errors_Join [fmt_Errorf ''read'' readErr, closeErr])) }
               | Inr raw \<Rightarrow> do {
                   closeErr \<leftarrow> file_Close fd;
                   State_Monad.return
                     (if closeErr \<noteq> noerr then Inl (fmt_Errorf ''close'' closeErr)
                      else if int (length raw) > maximumBytes
                      then Inl (fmt_Errorf ''read'' [ErrUnsafeFilesystem])
                      else Inr raw) } } } }"

definition readState :: "Store \<Rightarrow> handle \<Rightarrow> JobID \<Rightarrow> PersistedJobState result io" where
  "readState store directory jobID = do {
     r \<leftarrow> readAtomicSnapshotFileAt directory ''state.json'' maximumStateBytes;
     State_Monad.return (case r of
       Inl err \<Rightarrow> Inl err
     | Inr raw \<Rightarrow>
         (case ValidateStored (st_contracts store) raw (st_workspace store) of
            (stored, decision) \<Rightarrow>
              if \<not> d_Allowed decision \<or> jm_JobID (ps_Job stored) \<noteq> jobID then Inl [ErrCorruptState]
              else Inr stored)) }"

definition openSnapshotJob :: "Store \<Rightarrow> JobID \<Rightarrow> snapshotJob result io" where
  "openSnapshotJob store jobID =
    (if \<not> validJobID jobID then State_Monad.return (Inl [ErrInvalidJobID])
     else do {
       directory \<leftarrow> openDirectoryAt (st_jobs store) jobID True;
       case directory of
         Inl err \<Rightarrow> State_Monad.return (Inl err)
       | Inr dir \<Rightarrow> do {
           stored \<leftarrow> readState store dir jobID;
           case stored of
             Inl err \<Rightarrow> do {
               closeErr \<leftarrow> file_Close dir;
               State_Monad.return (Inl (errors_Join [err, closeErr])) }
           | Inr s \<Rightarrow> State_Monad.return (Inr \<lparr> sj_dir = dir, sj_state = s \<rparr>) } })"

definition snapshot_close :: "snapshotJob \<Rightarrow> error io" where
  "snapshot_close job = file_Close (sj_dir job)"

definition openLockedJobWith ::
  "Store \<Rightarrow> JobID \<Rightarrow> (handle \<Rightarrow> error io) \<Rightarrow> lockedJob result io" where
  "openLockedJobWith store jobID acquireLock =
    (if \<not> validJobID jobID then State_Monad.return (Inl [ErrInvalidJobID])
     else do {
       directory \<leftarrow> openDirectoryAt (st_jobs store) jobID True;
       case directory of
         Inl err \<Rightarrow> State_Monad.return (Inl err)
       | Inr dir \<Rightarrow> do {
           lock \<leftarrow> openPrivateFileAt dir ''state.lock'' {O_RDWR};
           case lock of
             Inl err \<Rightarrow> do {
               dirErr \<leftarrow> file_Close dir;
               State_Monad.return (Inl (errors_Join [err, dirErr])) }
           | Inr stateLock \<Rightarrow> do {
               lockErr \<leftarrow> acquireLock stateLock;
               if lockErr \<noteq> noerr then do {
                 stateLockErr \<leftarrow> file_Close stateLock;
                 dirErr \<leftarrow> file_Close dir;
                 State_Monad.return (Inl (errors_Join [lockErr, stateLockErr, dirErr])) }
               else do {
                 rd \<leftarrow> readPrivateFileAt dir ''state.json'' maximumStateBytes;
                 case (case rd of
                         Inl err \<Rightarrow> Inl err
                       | Inr raw \<Rightarrow>
                           (case ValidateStored (st_contracts store) raw (st_workspace store) of
                              (stored, decision) \<Rightarrow>
                                if \<not> d_Allowed decision \<or> jm_JobID (ps_Job stored) \<noteq> jobID
                                then Inl [ErrCorruptState] else Inr stored)) of
                   Inl err \<Rightarrow> do {
                     unlockErr \<leftarrow> unlock_close stateLock;
                     dirErr \<leftarrow> file_Close dir;
                     State_Monad.return (Inl (errors_Join [err, unlockErr, dirErr])) }
                 | Inr s \<Rightarrow>
                     State_Monad.return
                       (Inr \<lparr> lj_dir = dir, lj_stateLock = stateLock, lj_state = s \<rparr>) } } } })"

definition locked_close :: "lockedJob \<Rightarrow> error io" where
  "locked_close job = do {
     unlockErr \<leftarrow> unlock_close (lj_stateLock job);
     dirErr \<leftarrow> file_Close (lj_dir job);
     State_Monad.return (errors_Join [unlockErr, dirErr]) }"

definition readRuntime :: "Contracts \<Rightarrow> handle \<Rightarrow> RuntimeMetadata result io" where
  "readRuntime k directory = do {
     r \<leftarrow> readPrivateFileAt directory ''runtime.json'' maximumRuntimeBytes;
     State_Monad.return (case r of Inl err \<Rightarrow> Inl err | Inr raw \<Rightarrow> decodeRuntime k raw) }"

text \<open>\<open>Load\<close> and \<open>loadSnapshotJob\<close>; the deferred close joins its error to the result's.\<close>

definition with_close :: "error \<Rightarrow> 'a result \<Rightarrow> 'a result" where
  "with_close closeErr r =
    (case r of Inl err \<Rightarrow> Inl (errors_Join [err, closeErr])
     | Inr x \<Rightarrow> if closeErr \<noteq> noerr then Inl (errors_Join [noerr, closeErr]) else Inr x)"

definition loadSnapshotJob :: "Store \<Rightarrow> snapshotJob result \<Rightarrow> Snapshot result io" where
  "loadSnapshotJob store opened =
    (case opened of
       Inl openErr \<Rightarrow> State_Monad.return (Inl openErr)
     | Inr job \<Rightarrow> do {
         runtime \<leftarrow> readRuntime (st_contracts store) (sj_dir job);
         closeErr \<leftarrow> snapshot_close job;
         State_Monad.return (with_close closeErr (case runtime of
           Inl err \<Rightarrow> Inl err
         | Inr rt \<Rightarrow> Inr \<lparr> sn_State = sj_state job, sn_Runtime = rt \<rparr>)) })"

definition Load :: "Store \<Rightarrow> JobID \<Rightarrow> Snapshot result io" where
  "Load store jobID = do {
     opened \<leftarrow> openSnapshotJob store jobID;
     loadSnapshotJob store opened }"

subsection \<open>Publishing a state\<close>

definition publishStateLocked :: "Store \<Rightarrow> lockedJob \<Rightarrow> JobID \<Rightarrow> PersistedJobState \<Rightarrow> error io" where
  "publishStateLocked store job jobID next_state =
    (if \<not> update_allowed (lj_state job) jobID next_state
     then State_Monad.return [ErrInvalidStateUpdate]
     else do {
       output \<leftarrow> openPrivateFileAt (lj_dir job) ''output.log'' {O_RDONLY};
       case output of
         Inl err \<Rightarrow> State_Monad.return err
       | Inr fd \<Rightarrow> do {
           info \<leftarrow> file_Size fd;
           closeErr \<leftarrow> file_Close fd;
           case info of
             Inl statErr \<Rightarrow>
               State_Monad.return (errors_Join [fmt_Errorf ''inspect output'' statErr, closeErr])
           | Inr sz \<Rightarrow>
               if closeErr \<noteq> noerr
               then State_Monad.return (errors_Join [fmt_Errorf ''inspect output'' noerr, closeErr])
               else if sz < jm_CapturedBytes (ps_Job next_state)
               then State_Monad.return [ErrInvalidStateUpdate]
               else (case encodeState (st_contracts store) (st_workspace store) next_state of
                       Inl err \<Rightarrow> State_Monad.return (errors_Join [[ErrInvalidStateUpdate], err])
                     | Inr raw \<Rightarrow> writeAtomicFile (lj_dir job) ''state.json'' raw) } })"

subsection \<open>Output\<close>

text \<open>The loop of \<open>writeAt\<close>; each round writes at least one byte, so \<open>length raw\<close> rounds do.\<close>

primrec writeAt_loop :: "nat \<Rightarrow> handle \<Rightarrow> bytes \<Rightarrow> int \<Rightarrow> error io" where
  "writeAt_loop 0 fd raw offset = State_Monad.return noerr"
| "writeAt_loop (Suc rounds) fd raw offset =
    (if length raw = 0 then State_Monad.return noerr
     else do {
       (written, err) \<leftarrow> file_WriteAt fd raw offset;
       if err \<noteq> noerr then State_Monad.return (fmt_Errorf ''write output'' err)
       else if written = 0 then State_Monad.return [IoErrShortWrite]
       else writeAt_loop rounds fd (drop (nat written) raw) (offset + written) })"

definition writeAt :: "handle \<Rightarrow> bytes \<Rightarrow> int \<Rightarrow> error io" where
  "writeAt fd raw offset = writeAt_loop (length raw) fd raw offset"

definition requireCommittedOutput :: "handle \<Rightarrow> ByteCursor \<Rightarrow> error io" where
  "requireCommittedOutput fd captured = do {
     info \<leftarrow> file_Size fd;
     State_Monad.return (case info of
       Inl err \<Rightarrow> fmt_Errorf ''inspect output'' err
     | Inr sz \<Rightarrow> if sz < captured then [ErrCorruptState] else noerr) }"

text \<open>\<open>appendOutput\<close> between the opening of \<open>output.log\<close> and the job's closing.\<close>

definition append_accepted ::
  "Store \<Rightarrow> lockedJob \<Rightarrow> bytes \<Rightarrow> outputAppend \<Rightarrow> int \<Rightarrow> outputAppend result io" where
  "append_accepted store job accepted result newCaptured = do {
     opened \<leftarrow> openPrivateFileAt (lj_dir job) ''output.log'' {O_RDWR};
     case opened of
       Inl err \<Rightarrow> State_Monad.return (Inl err)
     | Inr output \<Rightarrow> do {
         committedErr \<leftarrow> requireCommittedOutput output (jm_CapturedBytes (ps_Job (lj_state job)));
         if committedErr \<noteq> noerr then do {
           closeErr \<leftarrow> file_Close output;
           State_Monad.return (Inl (errors_Join [committedErr, closeErr])) }
         else if length accepted = 0 then do {
           closeErr \<leftarrow> file_Close output;
           State_Monad.return (if closeErr \<noteq> noerr then Inl closeErr else Inr result) }
         else do {
           writeErr \<leftarrow> writeAt output accepted (jm_CapturedBytes (ps_Job (lj_state job)));
           if writeErr \<noteq> noerr then do {
             closeErr \<leftarrow> file_Close output;
             State_Monad.return (Inl (errors_Join [writeErr, closeErr])) }
           else do {
             syncErr \<leftarrow> file_Sync output;
             if syncErr \<noteq> noerr then do {
               closeErr \<leftarrow> file_Close output;
               State_Monad.return (Inl (errors_Join [fmt_Errorf ''sync output'' syncErr, closeErr])) }
             else do {
               closeErr \<leftarrow> file_Close output;
               if closeErr \<noteq> noerr then State_Monad.return (Inl (fmt_Errorf ''close output'' closeErr))
               else (case encodeState (st_contracts store) (st_workspace store)
                            ((lj_state job)\<lparr> ps_Job := (ps_Job (lj_state job))
                                              \<lparr> jm_CapturedBytes := newCaptured \<rparr> \<rparr>) of
                       Inl err \<Rightarrow> State_Monad.return (Inl err)
                     | Inr raw \<Rightarrow> do {
                         writeErr \<leftarrow> writeAtomicFile (lj_dir job) ''state.json'' raw;
                         State_Monad.return
                           (if writeErr \<noteq> noerr then Inl writeErr else Inr result) }) } } } } }"

definition append_locked :: "Store \<Rightarrow> lockedJob \<Rightarrow> bytes \<Rightarrow> outputAppend result io" where
  "append_locked store job incoming =
    (let job_data = ps_Job (lj_state job) in
     if jm_Status job_data \<noteq> JobStatusRunning then State_Monad.return (Inl [ErrInvalidStateUpdate])
     else case AcceptedIncomingPrefix (k_policy (st_contracts store))
                 (u64_of (jm_CapturedBytes job_data)) incoming
                 (u64_of (jm_OutputLimitBytes job_data)) of
       (accepted, decision) \<Rightarrow>
         if \<not> d_Allowed decision then State_Monad.return (Inl [ErrCorruptState])
         else
           let newCaptured = jm_CapturedBytes job_data + int (length accepted) in
           append_accepted store job accepted
             \<lparr> ap_AcceptedBytes = int (length accepted),
               ap_LimitReached = (newCaptured = jm_OutputLimitBytes job_data) \<rparr> newCaptured)"

definition readOutputSnapshot :: "snapshotJob \<Rightarrow> bytes result io" where
  "readOutputSnapshot job = do {
     opened \<leftarrow> openPrivateFileAt (sj_dir job) ''output.log'' {O_RDONLY};
     case opened of
       Inl err \<Rightarrow> State_Monad.return (Inl err)
     | Inr fd \<Rightarrow> do {
         committedErr \<leftarrow> requireCommittedOutput fd (jm_CapturedBytes (ps_Job (sj_state job)));
         if committedErr \<noteq> noerr then do {
           closeErr \<leftarrow> file_Close fd;
           State_Monad.return (Inl (errors_Join [committedErr, closeErr])) }
         else do {
           rd \<leftarrow> io_ReadFull fd (jm_CapturedBytes (ps_Job (sj_state job)));
           closeErr \<leftarrow> file_Close fd;
           State_Monad.return (case rd of
             Inl readErr \<Rightarrow>
               Inl (errors_Join [[ErrCorruptState], fmt_Errorf ''read output'' readErr, closeErr])
           | Inr raw \<Rightarrow>
               if closeErr \<noteq> noerr
               then Inl (errors_Join [[ErrCorruptState], fmt_Errorf ''read output'' noerr, closeErr])
               else Inr raw) } } }"

definition ReadOutput :: "Store \<Rightarrow> JobID \<Rightarrow> bytes result io" where
  "ReadOutput store jobID = do {
     opened \<leftarrow> openSnapshotJob store jobID;
     case opened of
       Inl err \<Rightarrow> State_Monad.return (Inl err)
     | Inr job \<Rightarrow> do {
         output \<leftarrow> readOutputSnapshot job;
         closeErr \<leftarrow> snapshot_close job;
         State_Monad.return (with_close closeErr output) } }"

end
