(* ===== verification/StoreContracts.thy ===== *)
theory StoreContracts
  imports Store
begin

section \<open>What the store's operations do to a job on disk\<close>

text \<open>
  The abstraction of a job's directory, and a contract for each operation that reads or
  changes it. \<open>job_on_disk\<close> says what a job's directory holds: a valid state and at least as much
  output as the state has captured. \<open>job_evolves\<close> says what an operation may do to it: the state
  on disk is valid before and after, related by \<open>evolves\<close>, and the captured output stays. The
  contracts hold for every fault script, so also if the process dies in the middle.
\<close>

subsection \<open>The abstraction\<close>

definition state_at :: "Store \<Rightarrow> fs \<Rightarrow> nat \<Rightarrow> PersistedJobState option" where
  "state_at store I j =
    (case content_at I j ''state.json'' of
       None \<Rightarrow> None
     | Some raw \<Rightarrow>
         let r = ValidateStored (st_contracts store) raw (st_workspace store) in
         if d_Allowed (snd r) then Some (fst r) else None)"

definition output_at :: "fs \<Rightarrow> nat \<Rightarrow> bytes option" where
  "output_at I j = content_at I j ''output.log''"

definition job_on_disk :: "Store \<Rightarrow> fs \<Rightarrow> nat \<Rightarrow> PersistedJobState \<Rightarrow> bytes \<Rightarrow> bool" where
  "job_on_disk store I j s out \<longleftrightarrow>
    state_at store I j = Some s \<and> output_at I j = Some out \<and>
    jm_CapturedBytes (ps_Job s) \<le> int (length out) \<and>
    lookup_at I j ''state.json'' \<noteq> lookup_at I j ''output.log''"

abbreviation captured_of :: "PersistedJobState \<Rightarrow> nat" where
  "captured_of s \<equiv> nat (jm_CapturedBytes (ps_Job s))"

definition job_evolves :: "Store \<Rightarrow> nat \<Rightarrow> fs \<Rightarrow> fs \<Rightarrow> bool" where
  "job_evolves store j I I' \<longleftrightarrow>
    (\<forall>s out. job_on_disk store I j s out \<longrightarrow>
       (\<exists>s' out'. job_on_disk store I' j s' out' \<and>
          evolves (k_policy (st_contracts store)) s s' \<and>
          take (captured_of s) out' = take (captured_of s) out))"

lemma job_evolves_refl [simp]: "job_evolves store j I I"
  unfolding job_evolves_def by (blast intro: evolves_refl)

lemma state_at_valid:
  assumes "state_at store I j = Some s"
  shows "well_formed_state (k_policy (st_contracts store)) s \<and>
    jm_WorkspacePath (ps_Job s) = st_workspace store"
proof -
  from assms obtain raw where
    "d_Allowed (snd (ValidateStored (st_contracts store) raw (st_workspace store)))"
    "fst (ValidateStored (st_contracts store) raw (st_workspace store)) = s"
    by (auto simp: state_at_def Let_def split: option.splits if_splits)
  then show ?thesis
    using ValidateStored_allowed [of "st_contracts store" raw "st_workspace store"] by auto
qed

lemma evolves_captured:
  "evolves p s s' \<Longrightarrow> captured_of s \<le> captured_of s'"
  by (simp add: evolves_def nat_mono)

lemma job_evolves_trans:
  assumes "k_policy (st_contracts store) = policy_v1"
    and "job_evolves store j I I'" "job_evolves store j I' I''"
  shows "job_evolves store j I I''"
  unfolding job_evolves_def
proof (intro allI impI)
  fix s out assume "job_on_disk store I j s out"
  with assms(2) obtain s1 out1 where 1: "job_on_disk store I' j s1 out1"
    "evolves policy_v1 s s1" "take (captured_of s) out1 = take (captured_of s) out"
    unfolding job_evolves_def assms(1) by blast
  with assms(3) obtain s2 out2 where 2: "job_on_disk store I'' j s2 out2"
    "evolves policy_v1 s1 s2" "take (captured_of s1) out2 = take (captured_of s1) out1"
    unfolding job_evolves_def assms(1) by blast
  have "captured_of s \<le> captured_of s1" using evolves_captured [OF 1(2)] .
  then have "take (captured_of s) out2 = take (captured_of s) (take (captured_of s1) out2)"
    by (simp add: min_absorb1)
  also have "\<dots> = take (captured_of s) out"
    using 1(3) \<open>captured_of s \<le> captured_of s1\<close> unfolding 2(3) by (simp add: min_absorb1)
  finally show "\<exists>s' out'. job_on_disk store I'' j s' out' \<and>
      evolves (k_policy (st_contracts store)) s s' \<and>
      take (captured_of s) out' = take (captured_of s) out"
    using 2(1) evolves_trans_v1 [OF 1(2) 2(2)] assms(1) by auto
qed

text \<open>Changes of other entries leave a job as it is.\<close>

lemma content_at_Some:
  "content_at I d name = Some raw \<longleftrightarrow>
   (\<exists>n x. lookup_at I d name = Some n \<and> I n = Some x \<and> i_data x = raw)"
  by (auto simp: content_at_def split: option.splits)

lemma lookup_touches:
  assumes "touches W T I I'" "lookup_at I d name = Some n" "(d, name) \<notin> T"
  shows "lookup_at I' d name = Some n"
proof -
  obtain dir where "I d = Some dir"
    using assms(2) by (auto simp: lookup_at_def split: option.splits)
  then show ?thesis
    using touches_lookup [OF assms(1) _ assms(3)] assms(2) by simp
qed

lemma content_touches:
  assumes "touches W T I I'" "content_at I d name = Some raw" "(d, name) \<notin> T"
    and "\<And>n. lookup_at I d name = Some n \<Longrightarrow> n \<notin> W"
  shows "content_at I' d name = Some raw"
proof -
  obtain n x where "lookup_at I d name = Some n" "I n = Some x"
    using assms(2) by (auto simp: content_at_Some)
  then show ?thesis
    using touches_content [OF assms(1) _ _ assms(3) assms(4)] assms(2) by simp
qed

lemma job_on_disk_touches:
  assumes "touches {} T I I'" "(j, ''state.json'') \<notin> T" "(j, ''output.log'') \<notin> T"
    and "job_on_disk store I j s out"
  shows "job_on_disk store I' j s out"
proof -
  from assms(4) obtain raw where raw: "content_at I j ''state.json'' = Some raw"
    by (auto simp: job_on_disk_def state_at_def split: option.splits)
  have out: "content_at I j ''output.log'' = Some out"
    using assms(4) by (simp add: job_on_disk_def output_at_def)
  obtain n m where "lookup_at I j ''state.json'' = Some n" "lookup_at I j ''output.log'' = Some m"
    using raw out by (auto simp: content_at_Some)
  then show ?thesis
    using assms(4) content_touches [OF assms(1) raw assms(2)] content_touches [OF assms(1) out assms(3)]
      lookup_touches [OF assms(1)] assms(2,3) raw out
    by (simp add: job_on_disk_def state_at_def output_at_def)
qed

lemma job_evolves_touches:
  "touches {} T I I' \<Longrightarrow> (j, ''state.json'') \<notin> T \<Longrightarrow> (j, ''output.log'') \<notin> T \<Longrightarrow>
   job_evolves store j I I'"
  unfolding job_evolves_def using job_on_disk_touches evolves_refl by blast

lemma not_hidden [simp]: "\<not> hidden ''state.json''" "\<not> hidden ''output.log''"
  by (simp_all add: hidden_def has_prefix_def)

lemma job_evolves_hidden:
  "touches {} (hidden_in j) I I' \<Longrightarrow> job_evolves store j I I'"
  by (rule job_evolves_touches) auto

text \<open>A published state is the state on disk.\<close>

lemma replaced_state:
  assumes "replaced u j ''state.json'' raw I I'"
    and "encodeState (st_contracts store) (st_workspace store) s = Inr raw"
  shows "state_at store I' j = Some s"
proof -
  have "fst (ValidateStored (st_contracts store) raw (st_workspace store)) = s"
    "d_Allowed (snd (ValidateStored (st_contracts store) raw (st_workspace store)))"
    using encodeState_Inr [OF assms(2)] by (metis fst_conv)+
  then show ?thesis
    using replaced_content [OF assms(1)] by (simp add: state_at_def Let_def)
qed

lemma replaced_output:
  assumes "replaced u j target raw I I'" "lookup_at I j name = Some n" "I n = Some x"
    and "name \<noteq> target" "\<not> hidden name"
  shows "lookup_at I' j name = Some n" "map_option i_data (I' n) = Some (i_data x)"
    and "lookup_at I' j target \<noteq> lookup_at I' j name"
proof -
  have t: "touches {} (insert (j, target) (hidden_in j)) I I'"
    using assms(1) by (simp add: replaced_def)
  show l: "lookup_at I' j name = Some n"
    using lookup_touches [OF t assms(2)] assms(4,5) by simp
  show "map_option i_data (I' n) = Some (i_data x)"
    using touches_data [OF t assms(3)] assms(3) by simp
  show "lookup_at I' j target \<noteq> lookup_at I' j name"
    using assms(1,3) l by (auto simp: replaced_def)
qed

lemma job_evolves_replaced:
  assumes "replaced u j ''state.json'' raw I I'"
    and "encodeState (st_contracts store) (st_workspace store) s' = Inr raw"
    and "\<And>s out. job_on_disk store I j s out \<Longrightarrow>
      evolves (k_policy (st_contracts store)) s s' \<and> jm_CapturedBytes (ps_Job s') \<le> int (length out)"
  shows "job_evolves store j I I'"
  unfolding job_evolves_def
proof (intro allI impI)
  fix s out assume disk: "job_on_disk store I j s out"
  then obtain n x where n: "lookup_at I j ''output.log'' = Some n" "I n = Some x" "i_data x = out"
    by (auto simp: job_on_disk_def output_at_def content_at_Some)
  note r = replaced_output [OF assms(1) n(1,2)]
  have "content_at I' j ''output.log'' = Some out"
    using r(1,2) n(3) by (simp add: content_at_def)
  then have "job_on_disk store I' j s' out"
    using r(3) replaced_state [OF assms(1,2)] assms(3) [OF disk]
    by (simp add: job_on_disk_def output_at_def)
  then show "\<exists>s' out'. job_on_disk store I' j s' out' \<and>
      evolves (k_policy (st_contracts store)) s s' \<and>
      take (captured_of s) out' = take (captured_of s) out"
    using assms(3) [OF disk] by blast
qed

subsection \<open>Reading\<close>

lemma wp_readAtomicSnapshotFileAt [wp_rules]:
  assumes "St u I F w"
    and "\<And>e w'. St u I F w' \<Longrightarrow> e \<noteq> [] \<Longrightarrow> Q (Inl e) w'"
    and "\<And>n x w'. St u I F w' \<Longrightarrow> I n = Some x \<Longrightarrow> entry_at I F directory name n \<Longrightarrow>
           i_kind x = S_IFREG \<Longrightarrow> int (length (i_data x)) \<le> k \<Longrightarrow> Q (Inr (i_data x)) w'"
  shows "wp (readAtomicSnapshotFileAt directory name k) Q w"
  unfolding readAtomicSnapshotFileAt_def wp_bind
  by (insert assms(1), (erule_tac wp_rules | simp split del: if_split del: length_take |
      split if_split, intro conjI impI |
      simp add: assms limited_read del: length_take)+)

lemma entry_content:
  "entry_at I F fd name n \<Longrightarrow> I n = Some x \<Longrightarrow> F fd = Some (d, b) \<Longrightarrow>
   content_at I d name = Some (i_data x)"
  by (auto simp: entry_at_def content_at_def lookup_at_def)

lemma entry_lookup:
  "entry_at I F fd name n \<Longrightarrow> F fd = Some (d, b) \<Longrightarrow> lookup_at I d name = Some n"
  by (auto simp: entry_at_def lookup_at_def)

lemma wp_readState:
  assumes st: "St u I F w" and d: "F directory = Some (j, b)"
    and fail: "\<And>e w'. St u I F w' \<Longrightarrow> e \<noteq> [] \<Longrightarrow> Q (Inl e) w'"
    and ok: "\<And>s w'. St u I F w' \<Longrightarrow> state_at store I j = Some s \<Longrightarrow> jm_JobID (ps_Job s) = jobID \<Longrightarrow>
        Q (Inr s) w'"
  shows "wp (readState store directory jobID) Q w"
  unfolding readState_def wp_bind
proof (rule wp_readAtomicSnapshotFileAt [OF st], goal_cases)
  case (1 e w')
  then show ?case using fail by simp
next
  case (2 n x w')
  have "content_at I j ''state.json'' = Some (i_data x)"
    using entry_content [OF 2(3,2) d] .
  then show ?case
    using 2(1) fail ok by (auto simp: state_at_def Let_def split: prod.split)
qed

lemma wp_openSnapshotJob:
  assumes st: "St u I F w" and d: "F (st_jobs store) = Some (jd, b)"
    and fail: "\<And>e w'. St u I F w' \<Longrightarrow> e \<noteq> [] \<Longrightarrow> Q (Inl e) w'"
    and ok: "\<And>h j s w'. validJobID jobID \<Longrightarrow> F h = None \<Longrightarrow> St u I (F(h \<mapsto> (j, False))) w' \<Longrightarrow>
        lookup_at I jd jobID = Some j \<Longrightarrow> state_at store I j = Some s \<Longrightarrow>
        jm_JobID (ps_Job s) = jobID \<Longrightarrow> Q (Inr \<lparr> sj_dir = h, sj_state = s \<rparr>) w'"
  shows "wp (openSnapshotJob store jobID) Q w"
proof (cases "validJobID jobID")
  case False
  then show ?thesis using fail [OF st] by (simp add: openSnapshotJob_def)
next
  case True
  show ?thesis
    unfolding openSnapshotJob_def if_not_P [OF iffD2 [OF not_not True]] wp_bind
  proof (rule wp_openDirectoryAt [OF st], goal_cases)
    case (1 e w')
    then show ?case using fail by simp
  next
    case (2 h j x w')
    have F: "(F(h \<mapsto> (j, False))) h = Some (j, False)" by simp
    show ?case
      unfolding sum.case wp_bind
    proof (rule wp_readState [where F = "F(h \<mapsto> (j, False))", OF 2(2) F], goal_cases)
      case (1 e w2)
      then show ?case by (simp, elim wp_Close) (simp add: 2(1) fail)
    next
      case (2 s w2)
      then show ?case
        using ok [OF True \<open>F h = None\<close> 2(1) entry_lookup [OF \<open>entry_at I F _ _ _\<close> d]] by simp
    qed
  qed
qed

lemma wp_snapshot_close [wp_rules]:
  assumes "St u I F w" and "\<And>e w'. St u I (F(sj_dir job := None)) w' \<Longrightarrow> Q e w'"
  shows "wp (snapshot_close job) Q w"
  unfolding snapshot_close_def by (rule wp_Close [OF assms])

text \<open>A locked job holds its directory and the exclusive lock of its \<open>state.lock\<close>.\<close>

definition locked_fds :: "fdtable \<Rightarrow> lockedJob \<Rightarrow> nat \<Rightarrow> nat \<Rightarrow> fdtable" where
  "locked_fds F job j l = F(lj_dir job \<mapsto> (j, False), lj_stateLock job \<mapsto> (l, True))"

lemma locked_fds_dir:
  "lj_dir job \<noteq> lj_stateLock job \<Longrightarrow> locked_fds F job j l (lj_dir job) = Some (j, False)"
  by (simp add: locked_fds_def)

lemma wp_openLockedJobWith:
  assumes st: "St u I F w" and d: "F (st_jobs store) = Some (jd, b)" and lock: "takes_lock acquire"
    and fail: "\<And>e w'. St u I F w' \<Longrightarrow> e \<noteq> [] \<Longrightarrow> Q (Inl e) w'"
    and ok: "\<And>job j l w'. validJobID jobID \<Longrightarrow> F (lj_dir job) = None \<Longrightarrow>
        F (lj_stateLock job) = None \<Longrightarrow> lj_dir job \<noteq> lj_stateLock job \<Longrightarrow>
        St u I (locked_fds F job j l) w' \<Longrightarrow>
        lookup_at I jd jobID = Some j \<Longrightarrow> state_at store I j = Some (lj_state job) \<Longrightarrow>
        jm_JobID (ps_Job (lj_state job)) = jobID \<Longrightarrow> Q (Inr job) w'"
  shows "wp (openLockedJobWith store jobID acquire) Q w"
proof (cases "validJobID jobID")
  case False
  then show ?thesis using fail [OF st] by (simp add: openLockedJobWith_def)
next
  case valid: True
  show ?thesis
    unfolding openLockedJobWith_def if_not_P [OF iffD2 [OF not_not valid]] wp_bind
  proof (rule wp_openDirectoryAt [OF st], goal_cases)
    case (1 e w')
    then show ?case using fail by simp
  next
    case (2 h j x w')
    note h = 2(1) and st1 = 2(2) and j = entry_lookup [OF 2(4) d]
    have Fh: "(F(h \<mapsto> (j, False)))(h := None) = F" using h by auto
    have close: "wp (file_Close h) (\<lambda>r. wp (State_Monad.return (Inl (f r))) Q) w2"
      if "St u I (F(h \<mapsto> (j, False))) w2" "\<And>r. f r \<noteq> []" for w2 f
      by (rule wp_Close [OF that(1)]) (simp add: h fail that(2))
    show ?case
      unfolding sum.case wp_bind
    proof (rule wp_openPrivateFileAt [OF st1], goal_cases)
      case 1
      show ?case by simp
    next
      case (2 e w2)
      then show ?case by (simp, intro close) simp_all
    next
      case (3 lk l y w2)
      have lk: "lk \<noteq> h" "F lk = None" using 3(1) by (auto split: if_splits)
      have drop: "(F(h \<mapsto> (j, False), lk \<mapsto> (l, c)))(lk := None) = F(h \<mapsto> (j, False))" for c
        using lk by auto
      show ?case
        unfolding sum.case wp_bind
      proof (rule wp_acquire [OF 3(2) lock], goal_cases)
        case (1 e w3)
        then show ?case
          by (simp, elim wp_Close) (simp only: drop wp_bind, intro close, simp_all)
      next
        case (2 n b' w3)
        define F' where "F' = F(h \<mapsto> (j, False), lk \<mapsto> (l, True))"
        have st3: "St u I F' w3" and dir: "F' h = Some (j, False)"
          using 2 lk by (simp_all add: F'_def)
        let ?job = "\<lambda>s. \<lparr> lj_dir = h, lj_stateLock = lk, lj_state = s \<rparr>"
        have F': "F' = locked_fds F (?job s) j l" for s
          by (simp add: F'_def locked_fds_def)
        have unlock: "wp (unlock_close lk) (\<lambda>r. wp (do {
              dirErr \<leftarrow> file_Close h;
              State_Monad.return (Inl (errors_Join [err, r, dirErr])) }) Q) w4"
          if "St u I F' w4" "err \<noteq> []" for w4 err
          using that(1) unfolding F'_def
          by (elim wp_unlock_close) (simp only: wp_bind drop, intro close, simp_all add: that(2))
        show ?case
          unfolding simp_thms if_False wp_bind
        proof (rule wp_readPrivateFileAt [OF st3], goal_cases)
          case (1 e w4)
          then show ?case using unlock by simp
        next
          case (2 n x w4)
          have c: "content_at I j ''state.json'' = Some (i_data x)"
            using entry_content [OF 2(3,2) dir] .
          let ?v = "ValidateStored (st_contracts store) (i_data x) (st_workspace store)"
          show ?case
          proof (cases "d_Allowed (snd ?v) \<and> jm_JobID (ps_Job (fst ?v)) = jobID")
            case True
            have "state_at store I j = Some (fst ?v)"
              using True c by (simp add: state_at_def Let_def)
            then have "Q (Inr (?job (fst ?v))) w4"
              using ok [of "?job (fst ?v)" j l w4] valid h lk j 2(1) True F' by simp
            then show ?thesis using True by (simp add: case_prod_beta)
          next
            case False
            then have "(\<not> d_Allowed (snd ?v) \<or> jm_JobID (ps_Job (fst ?v)) \<noteq> jobID) = True" by blast
            then show ?thesis
              using unlock [OF 2(1), of "[ErrCorruptState]"] by (simp add: case_prod_beta)
          qed
        qed
      qed
    qed
  qed
qed

lemma wp_locked_close:
  assumes st: "St u I (locked_fds F job j l) w"
    and fresh: "F (lj_dir job) = None" "F (lj_stateLock job) = None"
    and ok: "\<And>e w'. St u I F w' \<Longrightarrow> Q e w'"
  shows "wp (locked_close job) Q w"
proof -
  have "(locked_fds F job j l)(lj_stateLock job := None, lj_dir job := None) = F"
    using fresh by (auto simp: locked_fds_def)
  then show ?thesis
    unfolding locked_close_def wp_bind
    by (intro wp_unlock_close [OF st]) (simp, elim wp_Close, simp add: ok)
qed

lemma wp_readRuntime [wp_rules]:
  assumes "St u I F w" and "\<And>r w'. St u I F w' \<Longrightarrow> Q r w'"
  shows "wp (readRuntime k directory) Q w"
  unfolding readRuntime_def wp_bind
  by (rule wp_readPrivateFileAt [OF assms(1)]) (simp_all add: assms(2))

lemma wp_Load:
  assumes st: "St u I F w" and d: "F (st_jobs store) = Some (jd, b)"
    and fail: "\<And>e w'. St u I F w' \<Longrightarrow> Q (Inl e) w'"
    and ok: "\<And>j s rt w'. St u I F w' \<Longrightarrow> lookup_at I jd jobID = Some j \<Longrightarrow>
        state_at store I j = Some s \<Longrightarrow> jm_JobID (ps_Job s) = jobID \<Longrightarrow>
        Q (Inr \<lparr> sn_State = s, sn_Runtime = rt \<rparr>) w'"
  shows "wp (Load store jobID) Q w"
  unfolding Load_def loadSnapshotJob_def wp_bind
proof (rule wp_openSnapshotJob [OF st d], goal_cases)
  case (1 e w')
  then show ?case using fail by simp
next
  case (2 h j s w')
  show ?case
    using 2(3) unfolding sum.case wp_bind
    by (elim wp_readRuntime wp_snapshot_close)
      (auto simp: with_close_def 2(2) intro: fail ok [OF _ 2(4-6)] split: sum.split)
qed

subsection \<open>Publishing\<close>

lemma update_evolves:
  "update_allowed s jobID s' \<Longrightarrow> transitionAllowed p s s' \<Longrightarrow>
   evolves p s s' \<and> jm_CapturedBytes (ps_Job s') = jm_CapturedBytes (ps_Job s)"
  by (simp add: update_allowed_def evolves_def)

lemma wp_publishStateLocked:
  assumes st: "St u I F w" and d: "F (lj_dir job) = Some (j, b)"
    and state: "state_at store I j = Some (lj_state job)"
    and trans: "transitionAllowed (k_policy (st_contracts store)) (lj_state job) next_state"
    and fail: "\<And>e I' w'. touches {} (hidden_in j) I I' \<Longrightarrow> St u I' F w' \<Longrightarrow> e \<noteq> [] \<Longrightarrow> Q e w'"
    and ok: "\<And>e I' w' raw. replaced u j ''state.json'' raw I I' \<Longrightarrow> job_evolves store j I I' \<Longrightarrow>
        state_at store I' j = Some next_state \<Longrightarrow> update_allowed (lj_state job) jobID next_state \<Longrightarrow>
        St u I' F w' \<Longrightarrow> Q e w'"
  shows "wp (publishStateLocked store job jobID next_state) Q w"
proof (cases "update_allowed (lj_state job) jobID next_state")
  case False
  then show ?thesis
    using fail [OF touches_refl st] by (simp add: publishStateLocked_def)
next
  case True
  have evolve: "job_evolves store j I I'"
    if "replaced u j ''state.json'' raw I I'"
      "encodeState (st_contracts store) (st_workspace store) next_state = Inr raw" for raw I'
    by (rule job_evolves_replaced [OF that])
      (use update_evolves [OF True trans] state in \<open>auto simp: job_on_disk_def\<close>)
  have writes: "wp (case encodeState (st_contracts store) (st_workspace store) next_state of
        Inl err \<Rightarrow> State_Monad.return (errors_Join [[ErrInvalidStateUpdate], err])
      | Inr raw \<Rightarrow> writeAtomicFile (lj_dir job) ''state.json'' raw) Q w'" if "St u I F w'" for w'
  proof (cases "encodeState (st_contracts store) (st_workspace store) next_state")
    case (Inl e)
    then show ?thesis using fail [OF touches_refl that] by simp
  next
    case (Inr raw)
    have "wp (writeAtomicFile (lj_dir job) ''state.json'' raw) Q w'"
      by (rule wp_writeAtomicFile [OF that d])
        (use fail ok [OF _ evolve replaced_state [OF _ Inr] True] Inr in auto)
    then show ?thesis by (simp add: Inr)
  qed
  show ?thesis
    unfolding publishStateLocked_def if_not_P [OF iffD2 [OF not_not True]] wp_bind
  proof (rule wp_openPrivateFileAt [OF st], goal_cases)
    case 1
    show ?case by simp
  next
    case (2 e w')
    then show ?case using fail [OF touches_refl] by simp
  next
    case (3 h n x w')
    show ?case
      using 3(2) unfolding sum.case wp_bind
      by (elim wp_Size wp_Close)
        (auto simp: 3(1) intro: fail [OF touches_refl] writes elim!: wp_Close)
  qed
qed

lemma wp_requireCommittedOutput:
  assumes "St u I F w" "F fd = Some (n, b)" "I n = Some x"
    and "\<And>e w'. St u I F w' \<Longrightarrow> e \<noteq> [] \<Longrightarrow> Q e w'"
    and "\<And>w'. St u I F w' \<Longrightarrow> captured \<le> int (length (i_data x)) \<Longrightarrow> Q [] w'"
  shows "wp (requireCommittedOutput fd captured) Q w"
  unfolding requireCommittedOutput_def wp_bind
  by (rule wp_Size [OF assms(1)]) (use assms in auto)

lemma wp_readOutputSnapshot:
  assumes st: "St u I F w" and d: "F (sj_dir job) = Some (j, b)"
    and fail: "\<And>e w'. St u I F w' \<Longrightarrow> e \<noteq> [] \<Longrightarrow> Q (Inl e) w'"
    and ok: "\<And>out w'. St u I F w' \<Longrightarrow> output_at I j = Some out \<Longrightarrow>
        captured_of (sj_state job) \<le> length out \<Longrightarrow>
        Q (Inr (take (captured_of (sj_state job)) out)) w'"
  shows "wp (readOutputSnapshot job) Q w"
  unfolding readOutputSnapshot_def wp_bind
proof (rule wp_openPrivateFileAt [OF st], goal_cases)
  case 1
  show ?case by simp
next
  case (2 e w')
  then show ?case using fail by simp
next
  case (3 h n x w')
  have out: "output_at I j = Some (i_data x)"
    using entry_content [OF 3(4,3) d] by (simp add: output_at_def)
  have Fh: "(F(h \<mapsto> (n, False))) h = Some (n, False)" by simp
  show ?case
    unfolding sum.case wp_bind
  proof (rule wp_requireCommittedOutput [where F = "F(h \<mapsto> (n, False))", OF 3(2) Fh 3(3)], goal_cases)
    case (1 e w2)
    then show ?case by (simp, elim wp_Close) (simp add: 3(1) fail)
  next
    case (2 w2)
    show ?case
      unfolding simp_thms if_False wp_bind
    proof (rule wp_ReadFull [OF 2(1)], goal_cases)
      case (1 e w3)
      then show ?case by (elim wp_Close) (simp add: 3(1) fail)
    next
      case (2 n' b' x' w3)
      then have "x' = x" using 3(3) by simp
      then show ?case
        using 2 by (elim wp_Close) (simp add: 3(1) fail ok [OF _ out])
    qed
  qed
qed

subsection \<open>Appending output\<close>

lemma put_bytes_prefix:
  assumes "k \<le> length old"
  shows "take k (put_bytes raw (int k) old) = take k old"
    and "take (k + length raw) (put_bytes raw (int k) old) = take k old @ raw"
  using assms by (auto simp: put_bytes_def Let_def)

text \<open>The file behind \<open>o\<close> got bytes written from offset \<open>k\<close> on, and nothing else changed.\<close>

definition written_from :: "nat \<Rightarrow> nat \<Rightarrow> bytes \<Rightarrow> fs \<Rightarrow> fs \<Rightarrow> bool" where
  "written_from ino k raw I I' \<longleftrightarrow>
    touches {ino} {} I I' \<and>
    (\<exists>x y. I ino = Some x \<and> I' ino = Some y \<and> k \<le> length (i_data x) \<and>
       take (k + length raw) (i_data y) = take k (i_data x) @ raw)"

lemma written_from_update:
  assumes "I ino = Some x" "k \<le> length (i_data x)"
  shows "written_from ino k raw I
    (fs_update I ino (\<lambda>x. x\<lparr> i_data := put_bytes raw (int k) (i_data x) \<rparr>))"
proof -
  have "fs_update I ino (\<lambda>x. x\<lparr> i_data := put_bytes raw (int k) (i_data x) \<rparr>) ino =
      Some (x\<lparr> i_data := put_bytes raw (int k) (i_data x) \<rparr>)"
    using assms(1) by (simp add: fs_update_def)
  then show ?thesis
    using assms put_bytes_prefix(2) [OF assms(2)] touches_write unfolding written_from_def by auto
qed

lemma wp_writeAt:
  assumes st: "St u I F w" and fd: "F fd = Some (ino, b)" and x: "I ino = Some x"
    and k: "k \<le> length (i_data x)"
    and fail: "\<And>e m I' w'. written_from ino k (take m raw) I I' \<Longrightarrow> St u I' F w' \<Longrightarrow> e \<noteq> [] \<Longrightarrow> Q e w'"
    and ok: "\<And>I' w'. written_from ino k raw I I' \<Longrightarrow> St u I' F w' \<Longrightarrow> Q [] w'"
  shows "wp (writeAt fd raw (int k)) Q w"
proof (cases "raw = []")
  case True
  have "written_from ino k [] I I"
    using x k by (simp add: written_from_def)
  then show ?thesis using ok [OF _ st] True by (simp add: writeAt_def)
next
  case False
  then obtain r where r: "length raw = Suc r" by (cases raw) auto
  have empty: "writeAt_loop n fd [] off = State_Monad.return noerr" for n off
    by (cases n) simp_all
  have none: "written_from ino k (take 0 raw) I I"
    using x k by (simp add: written_from_def)
  show ?thesis
    unfolding writeAt_def r writeAt_loop.simps
  proof (simp add: False, rule wp_WriteAt [OF st], goal_cases)
    case (1 e w')
    then show ?case using fail [OF none] by simp
  next
    case (2 n b' m e w')
    then have n: "n = ino" using fd by simp
    have w: "written_from ino k (take m raw) I
        (fs_update I ino (\<lambda>x. x\<lparr> i_data := put_bytes (take m raw) (int k) (i_data x) \<rparr>))"
      by (rule written_from_update) (use x k in auto)
    show ?case
    proof (cases "e = []")
      case True
      then show ?thesis
        using 2 n False w ok [of _ w'] by (simp add: empty)
    next
      case False
      then show ?thesis
        using 2(4) n fail [OF w] by simp
    qed
  next
    case (3 m e w')
    then show ?case using fd by simp
  qed
qed

text \<open>What \<open>append_accepted\<close> does, branch by branch.\<close>

definition output_appended :: "nat \<Rightarrow> nat \<Rightarrow> bytes \<Rightarrow> fs \<Rightarrow> fs \<Rightarrow> bool" where
  "output_appended j k raw I I' \<longleftrightarrow>
    (\<exists>ino I1. lookup_at I j ''output.log'' = Some ino \<and> written_from ino k raw I I1 \<and>
       touches {} (hidden_in j) I1 I')"

definition append_published ::
  "Store \<Rightarrow> nat \<Rightarrow> nat \<Rightarrow> PersistedJobState \<Rightarrow> bytes \<Rightarrow> nat \<Rightarrow> fs \<Rightarrow> fs \<Rightarrow> bool" where
  "append_published store u j s' raw k I I' \<longleftrightarrow>
    (\<exists>ino I1 enc. lookup_at I j ''output.log'' = Some ino \<and> written_from ino k raw I I1 \<and>
       encodeState (st_contracts store) (st_workspace store) s' = Inr enc \<and>
       replaced u j ''state.json'' enc I1 I')"

lemma wp_append_accepted:
  assumes st: "St u I F w" and d: "F (lj_dir job) = Some (j, b)"
    and k: "jm_CapturedBytes (ps_Job (lj_state job)) = int k"
    and s': "s' = (lj_state job)\<lparr> ps_Job := (ps_Job (lj_state job))\<lparr> jm_CapturedBytes := captured' \<rparr> \<rparr>"
    and none: "\<And>e w'. St u I F w' \<Longrightarrow> e \<noteq> [] \<Longrightarrow> Q (Inl e) w'"
    and zero: "\<And>w'. St u I F w' \<Longrightarrow> accepted = [] \<Longrightarrow> Q (Inr result) w'"
    and fail: "\<And>e m I' w'. output_appended j k (take m accepted) I I' \<Longrightarrow> St u I' F w' \<Longrightarrow> e \<noteq> [] \<Longrightarrow>
        Q (Inl e) w'"
    and err: "\<And>e I' w'. append_published store u j s' accepted k I I' \<Longrightarrow> St u I' F w' \<Longrightarrow> e \<noteq> [] \<Longrightarrow>
        Q (Inl e) w'"
    and ok: "\<And>I' w'. append_published store u j s' accepted k I I' \<Longrightarrow> St u I' F w' \<Longrightarrow> Q (Inr result) w'"
  shows "wp (append_accepted store job accepted result captured') Q w"
  unfolding append_accepted_def wp_bind k
proof (rule wp_openPrivateFileAt [OF st], goal_cases)
  case 1
  show ?case by simp
next
  case (2 e w')
  then show ?case using none by simp
next
  case (3 h ino x w')
  note h = 3(1) and x = 3(3)
  have hd: "h \<noteq> lj_dir job" using h d by auto
  have look: "lookup_at I j ''output.log'' = Some ino"
    using entry_lookup [OF 3(4) d] .
  have whole: "output_appended j k accepted I I' \<Longrightarrow> St u I' F w' \<Longrightarrow> e \<noteq> [] \<Longrightarrow> Q (Inl e) w'"
    for I' w' e using fail [where m = "length accepted"] by simp
  define Fh where "Fh = F(h \<mapsto> (ino, False))"
  have Fh: "Fh h = Some (ino, False)" "Fh(h := None) = F"
    using h by (auto simp: Fh_def)
  have st1: "St u I Fh w'" using 3(2) by (simp add: Fh_def)
  have close: "wp (file_Close h) (\<lambda>r. wp (State_Monad.return (Inl (f r))) Q) w2"
    if "St u I' Fh w2" "\<And>r. f r \<noteq> []" "I' = I \<or> output_appended j k (take m accepted) I I'"
    for w2 f I' m
    by (rule wp_Close [OF that(1)]) (use that none fail in \<open>auto simp: Fh\<close>)
  show ?case
    unfolding sum.case wp_bind
  proof (rule wp_requireCommittedOutput [OF st1 Fh(1) x], goal_cases)
    case (1 e w2)
    then show ?case by (simp, intro close) auto
  next
    case (2 w2)
    then have len: "k \<le> length (i_data x)" by simp
    show ?case
    proof (cases "accepted = []")
      case True
      have "wp (file_Close h) (\<lambda>r. wp (State_Monad.return
          (if r \<noteq> noerr then Inl r else Inr result)) Q) w2"
        by (rule wp_Close [OF 2(1)]) (use none zero [OF _ True] in \<open>auto simp: Fh\<close>)
      then show ?thesis using True by simp
    next
      case False
      have fin: "wp (case encodeState (st_contracts store) (st_workspace store) s' of
          Inl err \<Rightarrow> State_Monad.return (Inl err)
        | Inr raw \<Rightarrow> do {
            writeErr \<leftarrow> writeAtomicFile (lj_dir job) ''state.json'' raw;
            State_Monad.return (if writeErr \<noteq> noerr then Inl writeErr else Inr result) }) Q w4"
        if w: "written_from ino k accepted I I1" and st4: "St u I1 F w4" for I1 w4
      proof (cases "encodeState (st_contracts store) (st_workspace store) s'")
        case (Inl e)
        have "output_appended j k accepted I I1"
          using w look by (auto simp: output_appended_def)
        moreover have "e \<noteq> []"
          using Inl by (auto simp: encodeState_def split: option.splits prod.splits if_splits)
        ultimately show ?thesis using whole [OF _ st4] Inl by simp
      next
        case (Inr raw)
        show ?thesis
          unfolding Inr sum.case wp_bind
        proof (rule wp_writeAtomicFile [OF st4 d], goal_cases)
          case (1 e I2 w5)
          have "output_appended j k accepted I I2"
            using w look 1(1) by (auto simp: output_appended_def)
          then show ?case using whole [OF _ 1(2,3)] 1(3) by simp
        next
          case (2 e I2 w5)
          have "append_published store u j s' accepted k I I2"
            using w look 2(1) Inr unfolding append_published_def by blast
          then show ?case using err [OF _ 2(2)] ok [OF _ 2(2)] by simp
        qed
      qed
      show ?thesis
        unfolding simp_thms if_False wp_bind if_not_P [OF iffD2 [OF arg_cong [where f = Not, OF length_0_conv] False]]
      proof (rule wp_writeAt [OF 2(1) Fh(1) x len], goal_cases)
        case (1 e m I1 w3)
        have "output_appended j k (take m accepted) I I1"
          using 1(1) look by (auto simp: output_appended_def)
        then show ?case using 1(2,3) by (simp, intro close) auto
      next
        case (2 I1 w3)
        have app: "output_appended j k (take (length accepted) accepted) I I1"
          using 2(1) look by (auto simp: output_appended_def)
        show ?case
          unfolding simp_thms if_False wp_bind
        proof (rule wp_Sync [OF 2(2)], goal_cases)
          case (1 e w4)
          then show ?case using app by (simp, intro close [where m = "length accepted"]) auto
        next
          case (2 w4)
          show ?case
            unfolding simp_thms if_False wp_bind
          proof (rule wp_Close [OF 2(1)], goal_cases)
            case (1 e w5)
            then show ?case
              using fin [OF \<open>written_from ino k accepted I I1\<close>, of w5] whole [of I1 w5] app
              by (simp add: Fh s')
          qed
        qed
      qed
    qed
  qed
qed

end
