(* ===== verification/Recovery.thy ===== *)
theory Recovery
  imports Store
begin

section \<open>Terminal intents, lost runners and locked updates\<close>

text \<open>
  \<open>terminal_intent_unix.go\<close>, \<open>liveness_unix.go\<close>, \<open>terminal_publish_unix.go\<close> and the
  operations that lock a job through them: \<open>openLockedJobContext\<close>, \<open>publishState\<close> and
  \<open>appendOutput\<close>. A writer of a terminal state first leaves the file \<open>terminal.pending\<close>, so
  that a later process can tell an interrupted publication from a running job; the
  \<open>runner.lock\<close> says whether the runner that owns the job is alive. The loops without a timer of
  their own run on the world's fuel. The hooks the tests set are nil in the program and left
  out; a deadline is a reading of the monotonic clock.
\<close>

definition terminalIntentName :: string where "terminalIntentName = ''terminal.pending''"
definition recoveryLockName :: string where "recoveryLockName = ''recovery.lock''"

subsection \<open>The intent file\<close>

definition terminalIntentExists :: "handle \<Rightarrow> bool result io" where
  "terminalIntentExists directory = do {
     u \<leftarrow> os_Geteuid;
     r \<leftarrow> unix_Fstatat directory terminalIntentName;
     State_Monad.return (case r of
       Inl err \<Rightarrow>
         if errors_Is err ENOENT then Inr False
         else Inl (fmt_Errorf ''inspect terminal intent'' err)
     | Inr stat \<Rightarrow>
         if i_kind stat \<noteq> S_IFREG \<or> i_uid stat \<noteq> u \<or> i_perm stat \<noteq> privateFileMode \<or>
            i_nlink stat \<noteq> 1
         then Inl [ErrUnsafeFilesystem] else Inr True) }"

definition removeTerminalIntent :: "handle \<Rightarrow> error io" where
  "removeTerminalIntent directory = do {
     r \<leftarrow> terminalIntentExists directory;
     case r of
       Inl err \<Rightarrow> State_Monad.return err
     | Inr exists \<Rightarrow>
         if \<not> exists then State_Monad.return noerr
         else do {
           err \<leftarrow> unix_Unlinkat directory terminalIntentName False;
           if err \<noteq> noerr then State_Monad.return (fmt_Errorf ''remove terminal intent'' err)
           else do {
             syncErr \<leftarrow> file_Sync directory;
             State_Monad.return
               (if syncErr \<noteq> noerr then fmt_Errorf ''sync removed terminal intent'' syncErr
                else noerr) } } }"

definition createTerminalIntent :: "Store \<Rightarrow> JobID \<Rightarrow> error io" where
  "createTerminalIntent store jobID =
    (if \<not> validJobID jobID then State_Monad.return [ErrInvalidJobID]
     else do {
       directory \<leftarrow> openDirectoryAt (st_jobs store) jobID True;
       case directory of
         Inl err \<Rightarrow> State_Monad.return err
       | Inr dir \<Rightarrow> do {
           err \<leftarrow> createSyncedFile dir terminalIntentName;
           if err \<noteq> noerr then do {
             closeErr \<leftarrow> file_Close dir;
             State_Monad.return (errors_Join [err, closeErr]) }
           else do {
             syncErr \<leftarrow> file_Sync dir;
             closeErr \<leftarrow> file_Close dir;
             State_Monad.return (errors_Join
               [if syncErr \<noteq> noerr then fmt_Errorf ''sync terminal intent'' syncErr else noerr,
                closeErr]) } } })"

definition clearTerminalIntent :: "Store \<Rightarrow> JobID \<Rightarrow> error io" where
  "clearTerminalIntent store jobID =
    (if \<not> validJobID jobID then State_Monad.return [ErrInvalidJobID]
     else do {
       directory \<leftarrow> openDirectoryAt (st_jobs store) jobID True;
       case directory of
         Inl err \<Rightarrow> State_Monad.return err
       | Inr dir \<Rightarrow> do {
           err \<leftarrow> removeTerminalIntent dir;
           closeErr \<leftarrow> file_Close dir;
           State_Monad.return (errors_Join [err, closeErr]) } })"

subsection \<open>The recovery lock\<close>

primrec openRecoveryLockAt_loop :: "nat \<Rightarrow> handle \<Rightarrow> handle result io" where
  "openRecoveryLockAt_loop 0 directory = do { hang; State_Monad.return (Inl gone) }"
| "openRecoveryLockAt_loop (Suc rounds) directory = do {
     opened \<leftarrow> openPrivateFileAt directory recoveryLockName {O_RDWR};
     case opened of
       Inr fd \<Rightarrow> State_Monad.return (Inr fd)
     | Inl err \<Rightarrow>
         if \<not> errors_Is err ErrJobNotFound then State_Monad.return (Inl err)
         else do {
           created \<leftarrow> createPrivateFileAt directory recoveryLockName;
           case created of
             Inl createErr \<Rightarrow>
               if errors_Is createErr EEXIST then openRecoveryLockAt_loop rounds directory
               else State_Monad.return (Inl createErr)
           | Inr fd \<Rightarrow> do {
               syncErr \<leftarrow> file_Sync fd;
               if syncErr \<noteq> noerr then do {
                 closeErr \<leftarrow> file_Close fd;
                 State_Monad.return (Inl (errors_Join [syncErr, closeErr])) }
               else do {
                 dirErr \<leftarrow> file_Sync directory;
                 if dirErr \<noteq> noerr then do {
                   closeErr \<leftarrow> file_Close fd;
                   State_Monad.return (Inl (errors_Join [dirErr, closeErr])) }
                 else State_Monad.return (Inr fd) } } } }"

definition openRecoveryLockAt :: "handle \<Rightarrow> handle result io" where
  "openRecoveryLockAt directory = do {
     rounds \<leftarrow> loop_fuel;
     openRecoveryLockAt_loop rounds directory }"

subsection \<open>Lost runners\<close>

definition publishRunnerLostLocked :: "Store \<Rightarrow> lockedJob \<Rightarrow> JobID \<Rightarrow> error io" where
  "publishRunnerLostLocked store job jobID =
    (if jm_Status (ps_Job (lj_state job)) \<noteq> JobStatusRunning then State_Monad.return noerr
     else do {
       now \<leftarrow> unix_milli_now;
       publishStateLocked store job jobID (runnerLostState (lj_state job) now) })"

text \<open>\<open>closeRecovery\<close> and \<open>closeRunner\<close>, the two cleanups of the reconciliation.\<close>

definition closeRecovery :: "handle \<Rightarrow> handle \<Rightarrow> error io" where
  "closeRecovery recoveryLock directory = do {
     lockErr \<leftarrow> unlock_close recoveryLock;
     dirErr \<leftarrow> file_Close directory;
     State_Monad.return (errors_Join [lockErr, dirErr]) }"

definition closeRunner :: "handle \<Rightarrow> handle \<Rightarrow> handle \<Rightarrow> error io" where
  "closeRunner runnerLock recoveryLock directory = do {
     runnerErr \<leftarrow> unlock_close runnerLock;
     recoveryErr \<leftarrow> closeRecovery recoveryLock directory;
     State_Monad.return (errors_Join [runnerErr, recoveryErr]) }"

text \<open>The reconciliation once it holds the runner's lock and the state's.\<close>

definition reconcile_locked ::
  "Store \<Rightarrow> JobID \<Rightarrow> handle \<Rightarrow> handle \<Rightarrow> handle \<Rightarrow> handle \<Rightarrow> (bool \<times> error) io" where
  "reconcile_locked store jobID directory recoveryLock runnerLock stateLock = do {
     stored \<leftarrow> readState store directory jobID;
     case stored of
       Inl err \<Rightarrow> do {
         unlockErr \<leftarrow> unlock_close stateLock;
         closeErr \<leftarrow> closeRunner runnerLock recoveryLock directory;
         State_Monad.return (False, errors_Join [err, unlockErr, closeErr]) }
     | Inr s \<Rightarrow> do {
         publishErr \<leftarrow> publishRunnerLostLocked store
           \<lparr> lj_dir = directory, lj_stateLock = stateLock, lj_state = s \<rparr> jobID;
         intentErr \<leftarrow> removeTerminalIntent directory;
         unlockErr \<leftarrow> unlock_close stateLock;
         closeErr \<leftarrow> closeRunner runnerLock recoveryLock directory;
         State_Monad.return
           (False, errors_Join [errors_Join [publishErr, intentErr], unlockErr, closeErr]) } }"

text \<open>The reconciliation of a job that has no live runner: the runner's lock is held.\<close>

definition reconcile_lost ::
  "Store \<Rightarrow> JobID \<Rightarrow> int \<Rightarrow> bool \<Rightarrow> handle \<Rightarrow> handle \<Rightarrow> handle \<Rightarrow> (bool \<times> error) io" where
  "reconcile_lost store jobID deadline intentExists directory recoveryLock runnerLock = do {
     intentErr \<leftarrow>
       (if intentExists then State_Monad.return noerr
        else do {
          err \<leftarrow> createSyncedFile directory terminalIntentName;
          if err \<noteq> noerr then State_Monad.return err else file_Sync directory });
     if intentErr \<noteq> noerr then do {
       closeErr \<leftarrow> closeRunner runnerLock recoveryLock directory;
       State_Monad.return (False, errors_Join [intentErr, closeErr]) }
     else do {
       opened \<leftarrow> openPrivateFileAt directory ''state.lock'' {O_RDWR};
       case opened of
         Inl err \<Rightarrow> do {
           closeErr \<leftarrow> closeRunner runnerLock recoveryLock directory;
           State_Monad.return (False, errors_Join [err, closeErr]) }
       | Inr stateLock \<Rightarrow> do {
           remaining \<leftarrow> time_Until deadline;
           if remaining \<le> 0 then do {
             stateErr \<leftarrow> file_Close stateLock;
             closeErr \<leftarrow> closeRunner runnerLock recoveryLock directory;
             State_Monad.return (False, errors_Join [[ErrStateLockTimeout], stateErr, closeErr]) }
           else do {
             lockErr \<leftarrow> lockStateFile stateLock;
             if lockErr \<noteq> noerr then do {
               stateErr \<leftarrow> file_Close stateLock;
               closeErr \<leftarrow> closeRunner runnerLock recoveryLock directory;
               State_Monad.return (False, errors_Join [lockErr, stateErr, closeErr]) }
             else reconcile_locked store jobID directory recoveryLock runnerLock stateLock } } } }"

text \<open>
  The reconciliation once it holds the recovery lock. Its caller may pass a closure that acts on a
  job whose runner is alive; what the closure leaves in its caller's variables is the second
  component of the result, \<open>None\<close> if it did not run.
\<close>

definition reconcile_recovering ::
  "Store \<Rightarrow> JobID \<Rightarrow> int \<Rightarrow> 'a result io option \<Rightarrow> handle \<Rightarrow> handle \<Rightarrow>
   ((bool \<times> error) \<times> 'a result option) io" where
  "reconcile_recovering store jobID deadline mutateActive directory recoveryLock = do {
     stored \<leftarrow> readState store directory jobID;
     case stored of
       Inl err \<Rightarrow> do {
         closeErr \<leftarrow> closeRecovery recoveryLock directory;
         State_Monad.return ((False, errors_Join [err, closeErr]), None) }
     | Inr s \<Rightarrow> do {
         intent \<leftarrow> terminalIntentExists directory;
         case intent of
           Inl err \<Rightarrow> do {
             closeErr \<leftarrow> closeRecovery recoveryLock directory;
             State_Monad.return ((False, errors_Join [err, closeErr]), None) }
         | Inr intentExists \<Rightarrow>
             if jm_Status (ps_Job s) \<noteq> JobStatusRunning \<and> \<not> intentExists then do {
               closeErr \<leftarrow> closeRecovery recoveryLock directory;
               State_Monad.return ((False, closeErr), None) }
             else do {
               opened \<leftarrow> openPrivateFileAt directory ''runner.lock'' {O_RDWR};
               case opened of
                 Inl err \<Rightarrow> do {
                   closeErr \<leftarrow> closeRecovery recoveryLock directory;
                   State_Monad.return ((False, errors_Join [err, closeErr]), None) }
               | Inr runnerLock \<Rightarrow> do {
                   lockErr \<leftarrow> lockFile runnerLock True;
                   if lockErr \<noteq> noerr then
                     (if errors_Is lockErr ErrRunnerActive then do {
                        mutation \<leftarrow>
                          (case mutateActive of
                             None \<Rightarrow> State_Monad.return None
                           | Some mutate \<Rightarrow>
                               if intentExists then State_Monad.return None
                               else do { r \<leftarrow> mutate; State_Monad.return (Some r) });
                        runnerErr \<leftarrow> file_Close runnerLock;
                        closeErr \<leftarrow> closeRecovery recoveryLock directory;
                        State_Monad.return
                          ((True, errors_Join
                             [case mutation of Some (Inl mutationErr) \<Rightarrow> mutationErr | _ \<Rightarrow> noerr,
                              runnerErr, closeErr]), mutation) }
                      else do {
                        runnerErr \<leftarrow> file_Close runnerLock;
                        closeErr \<leftarrow> closeRecovery recoveryLock directory;
                        State_Monad.return ((False, errors_Join [lockErr, runnerErr, closeErr]), None) })
                   else if jm_Status (ps_Job s) \<noteq> JobStatusRunning then do {
                     intentErr \<leftarrow> removeTerminalIntent directory;
                     closeErr \<leftarrow> closeRunner runnerLock recoveryLock directory;
                     State_Monad.return ((False, errors_Join [intentErr, closeErr]), None) }
                   else do {
                     r \<leftarrow> reconcile_lost store jobID deadline intentExists directory recoveryLock
                           runnerLock;
                     State_Monad.return (r, None) } } } } }"

definition reconcileRunnerStateWithActiveMutation ::
  "Store \<Rightarrow> JobID \<Rightarrow> int \<Rightarrow> 'a result io option \<Rightarrow> ((bool \<times> error) \<times> 'a result option) io" where
  "reconcileRunnerStateWithActiveMutation store jobID deadline mutateActive =
    (if \<not> validJobID jobID then State_Monad.return ((False, [ErrInvalidJobID]), None)
     else do {
       ctxErr \<leftarrow> ctx_Err;
       if ctxErr \<noteq> noerr then State_Monad.return ((False, ctxErr), None)
       else do {
         opened \<leftarrow> openDirectoryAt (st_jobs store) jobID True;
         case opened of
           Inl err \<Rightarrow> State_Monad.return ((False, err), None)
         | Inr directory \<Rightarrow> do {
             recovery \<leftarrow> openRecoveryLockAt directory;
             case recovery of
               Inl err \<Rightarrow> do {
                 dirErr \<leftarrow> file_Close directory;
                 State_Monad.return ((False, errors_Join [err, dirErr]), None) }
             | Inr recoveryLock \<Rightarrow> do {
                 remaining \<leftarrow> time_Until deadline;
                 if remaining \<le> 0 then do {
                   lockErr \<leftarrow> file_Close recoveryLock;
                   dirErr \<leftarrow> file_Close directory;
                   State_Monad.return
                     ((False, errors_Join [[ErrStateLockTimeout], lockErr, dirErr]), None) }
                 else do {
                   err \<leftarrow> lockStateFile recoveryLock;
                   if err \<noteq> noerr then do {
                     lockErr \<leftarrow> file_Close recoveryLock;
                     dirErr \<leftarrow> file_Close directory;
                     State_Monad.return ((False, errors_Join [err, lockErr, dirErr]), None) }
                   else reconcile_recovering store jobID deadline mutateActive directory
                          recoveryLock } } } } })"

definition reconcileRunnerState :: "Store \<Rightarrow> JobID \<Rightarrow> int \<Rightarrow> (bool \<times> error) io" where
  "reconcileRunnerState store jobID deadline = do {
     (r, _) \<leftarrow> reconcileRunnerStateWithActiveMutation store jobID deadline
                 (None :: unit result io option);
     State_Monad.return r }"

subsection \<open>Waiting for an intent to go away\<close>

text \<open>One wait on the poll timer and the context: the context's error if it came first.\<close>

definition poll_timer :: "error io" where
  "poll_timer = do {
     events \<leftarrow> next_selects;
     State_Monad.return (case events of SelDone e # _ \<Rightarrow> [e] | _ \<Rightarrow> noerr) }"

primrec waitForTerminalIntent_loop :: "nat \<Rightarrow> Store \<Rightarrow> JobID \<Rightarrow> int \<Rightarrow> error io" where
  "waitForTerminalIntent_loop 0 store jobID deadline = do { hang; State_Monad.return gone }"
| "waitForTerminalIntent_loop (Suc rounds) store jobID deadline = do {
     ctxErr \<leftarrow> ctx_Err;
     if ctxErr \<noteq> noerr then State_Monad.return ctxErr
     else do {
       opened \<leftarrow> openDirectoryAt (st_jobs store) jobID True;
       case opened of
         Inl err \<Rightarrow> State_Monad.return err
       | Inr directory \<Rightarrow> do {
           inspected \<leftarrow> terminalIntentExists directory;
           closeErr \<leftarrow> file_Close directory;
           case inspected of
             Inl inspectErr \<Rightarrow> State_Monad.return (errors_Join [inspectErr, closeErr])
           | Inr intentExists \<Rightarrow>
               if closeErr \<noteq> noerr then State_Monad.return (errors_Join [noerr, closeErr])
               else if \<not> intentExists then State_Monad.return noerr
               else do {
                 untilDeadline \<leftarrow> time_Until deadline;
                 if untilDeadline \<le> 0 then State_Monad.return [ErrStateLockTimeout]
                 else do {
                   (runnerActive, err) \<leftarrow> reconcileRunnerState store jobID deadline;
                   if err \<noteq> noerr then State_Monad.return err
                   else if \<not> runnerActive
                   then waitForTerminalIntent_loop rounds store jobID deadline
                   else do {
                     remaining \<leftarrow> time_Until deadline;
                     if remaining \<le> 0 then State_Monad.return [ErrStateLockTimeout]
                     else do {
                       doneErr \<leftarrow> poll_timer;
                       if doneErr \<noteq> noerr then State_Monad.return doneErr
                       else waitForTerminalIntent_loop rounds store jobID deadline } } } } } } }"

definition waitForTerminalIntent :: "Store \<Rightarrow> JobID \<Rightarrow> int \<Rightarrow> error io" where
  "waitForTerminalIntent store jobID deadline =
    (if \<not> validJobID jobID then State_Monad.return [ErrInvalidJobID]
     else do {
       rounds \<leftarrow> loop_fuel;
       waitForTerminalIntent_loop rounds store jobID deadline })"

primrec openLockedJob_loop :: "nat \<Rightarrow> Store \<Rightarrow> JobID \<Rightarrow> int \<Rightarrow> lockedJob result io" where
  "openLockedJob_loop 0 store jobID deadline = do { hang; State_Monad.return (Inl gone) }"
| "openLockedJob_loop (Suc rounds) store jobID deadline = do {
     waitErr \<leftarrow> waitForTerminalIntent store jobID deadline;
     if waitErr \<noteq> noerr then State_Monad.return (Inl waitErr)
     else do {
       remaining \<leftarrow> time_Until deadline;
       if remaining \<le> 0 then State_Monad.return (Inl [ErrStateLockTimeout])
       else do {
         opened \<leftarrow> openLockedJobWith store jobID lockStateFile;
         case opened of
           Inl err \<Rightarrow> State_Monad.return (Inl err)
         | Inr job \<Rightarrow> do {
             intent \<leftarrow> terminalIntentExists (lj_dir job);
             case intent of
               Inl err \<Rightarrow> do {
                 closeErr \<leftarrow> locked_close job;
                 State_Monad.return (Inl (errors_Join [err, closeErr])) }
             | Inr intentExists \<Rightarrow>
                 if \<not> intentExists then State_Monad.return (Inr job)
                 else do {
                   closeErr \<leftarrow> locked_close job;
                   if closeErr \<noteq> noerr then State_Monad.return (Inl closeErr)
                   else openLockedJob_loop rounds store jobID deadline } } } } }"

definition openLockedJobContext :: "Store \<Rightarrow> JobID \<Rightarrow> lockedJob result io" where
  "openLockedJobContext store jobID = do {
     now \<leftarrow> monotonic_now;
     rounds \<leftarrow> loop_fuel;
     openLockedJob_loop rounds store jobID (now + st_lockTimeout store) }"

subsection \<open>Locked updates\<close>

definition publishState :: "Store \<Rightarrow> JobID \<Rightarrow> PersistedJobState \<Rightarrow> error io" where
  "publishState store jobID next_state = do {
     opened \<leftarrow> openLockedJobContext store jobID;
     case opened of
       Inl err \<Rightarrow> State_Monad.return err
     | Inr job \<Rightarrow> do {
         err \<leftarrow>
           (if jm_Status (ps_Job next_state) \<noteq> jm_Status (ps_Job (lj_state job))
            then State_Monad.return [ErrInvalidStateUpdate]
            else publishStateLocked store job jobID next_state);
         closeErr \<leftarrow> locked_close job;
         State_Monad.return (errors_Join [err, closeErr]) } }"

definition appendOutput :: "Store \<Rightarrow> JobID \<Rightarrow> bytes \<Rightarrow> outputAppend result io" where
  "appendOutput store jobID incoming = do {
     opened \<leftarrow> openLockedJobContext store jobID;
     case opened of
       Inl err \<Rightarrow> State_Monad.return (Inl err)
     | Inr job \<Rightarrow> do {
         r \<leftarrow> append_locked store job incoming;
         closeErr \<leftarrow> locked_close job;
         State_Monad.return (with_close closeErr r) } }"

text \<open>
  \<open>releaseLocked\<close>; the lease's file is nil afterwards. A lease belongs to the store that made it,
  so \<open>publishTerminalState\<close>'s comparison of the lease's store is not made here.
\<close>

definition releaseLocked :: "runnerLease \<Rightarrow> (runnerLease \<times> error) io" where
  "releaseLocked lease =
    (case le_file lease of
       None \<Rightarrow> State_Monad.return (lease, noerr)
     | Some fd \<Rightarrow> do {
         err \<leftarrow> unlock_close fd;
         State_Monad.return (lease\<lparr> le_file := None \<rparr>, err) })"

text \<open>The part of \<open>publishTerminalState\<close> that holds the recovery lock.\<close>

definition publish_terminal_recovering ::
  "Store \<Rightarrow> JobID \<Rightarrow> (PersistedJobState \<Rightarrow> int \<Rightarrow> error + PersistedJobState) \<Rightarrow>
   handle \<Rightarrow> handle \<Rightarrow> error io" where
  "publish_terminal_recovering store jobID build directory recoveryLock = do {
     createErr \<leftarrow> createTerminalIntent store jobID;
     if createErr \<noteq> noerr then do {
       closeErr \<leftarrow> closeRecovery recoveryLock directory;
       State_Monad.return (errors_Join [createErr, closeErr]) }
     else do {
       opened \<leftarrow> openLockedJobWith store jobID lockStateFileBlocking;
       case opened of
         Inl err \<Rightarrow> do {
           clearErr \<leftarrow> clearTerminalIntent store jobID;
           closeErr \<leftarrow> closeRecovery recoveryLock directory;
           State_Monad.return (errors_Join [err, clearErr, closeErr]) }
       | Inr job \<Rightarrow> do {
           now \<leftarrow> unix_milli_now;
           operationErr \<leftarrow>
             (case build (lj_state job) now of
                Inl err \<Rightarrow> State_Monad.return err
              | Inr next_state \<Rightarrow>
                  if jm_Status (ps_Job next_state) = jm_Status (ps_Job (lj_state job)) \<or>
                     \<not> transitionAllowed (k_policy (st_contracts store)) (lj_state job) next_state
                  then State_Monad.return [ErrInvalidStateUpdate]
                  else publishStateLocked store job jobID next_state);
           intentErr \<leftarrow> removeTerminalIntent (lj_dir job);
           stateCloseErr \<leftarrow> locked_close job;
           closeErr \<leftarrow> closeRecovery recoveryLock directory;
           State_Monad.return (errors_Join [operationErr, intentErr, stateCloseErr, closeErr]) } } }"

definition publishTerminalState ::
  "Store \<Rightarrow> JobID \<Rightarrow> runnerLease \<Rightarrow> (PersistedJobState \<Rightarrow> int \<Rightarrow> error + PersistedJobState) \<Rightarrow>
   (runnerLease \<times> error) io" where
  "publishTerminalState store jobID lease build =
    (if le_file lease = None \<or> le_jobID lease \<noteq> jobID
     then State_Monad.return (lease, [ErrInvalidStateUpdate])
     else do {
       opened \<leftarrow> openDirectoryAt (st_jobs store) jobID True;
       case opened of
         Inl err \<Rightarrow> State_Monad.return (lease, err)
       | Inr directory \<Rightarrow> do {
           recovery \<leftarrow> openRecoveryLockAt directory;
           case recovery of
             Inl err \<Rightarrow> do {
               dirErr \<leftarrow> file_Close directory;
               State_Monad.return (lease, errors_Join [err, dirErr]) }
           | Inr recoveryLock \<Rightarrow> do {
               lockErr \<leftarrow> lockStateFileBlocking recoveryLock;
               if lockErr \<noteq> noerr then do {
                 recoveryErr \<leftarrow> file_Close recoveryLock;
                 dirErr \<leftarrow> file_Close directory;
                 State_Monad.return (lease, errors_Join [lockErr, recoveryErr, dirErr]) }
               else do {
                 err \<leftarrow> publish_terminal_recovering store jobID build directory recoveryLock;
                 if err \<noteq> noerr then State_Monad.return (lease, err)
                 else releaseLocked lease } } } })"

definition publishTerminal ::
  "Store \<Rightarrow> JobID \<Rightarrow> PersistedJobState \<Rightarrow> runnerLease \<Rightarrow> (runnerLease \<times> error) io" where
  "publishTerminal store jobID next_state lease =
    publishTerminalState store jobID lease (\<lambda>current now. Inr next_state)"

definition publishExecutionTerminal ::
  "Store \<Rightarrow> JobID \<Rightarrow> executionOutcome \<Rightarrow> runnerLease \<Rightarrow> (runnerLease \<times> error) io" where
  "publishExecutionTerminal store jobID outcome lease =
    publishTerminalState store jobID lease (execution_terminal outcome)"

end
