(* ===== verification/JobOps.thy ===== *)
theory JobOps
  imports StoreContracts Recovery
begin

section \<open>What every operation on a job keeps\<close>

text \<open>
  One judgement for all the code that works on a job. \<open>job_step\<close> is what may happen to a job on
  disk: it evolves, and nothing but its own directory's entries and its output file changes.
  \<open>working f D C K w\<close> describes a world in the middle of an operation: since the operation began the
  job made a \<open>job_step\<close>, the operation owns exactly the descriptors in \<open>C\<close> beside the ones it found,
  the ones in \<open>D\<close> are the job's directory, and \<open>K\<close> holds of the file system. The rules in
  \<open>job_rules\<close> say how each function moves such a world. They hold for every fault script.
\<close>

named_theorems job_rules \<open>how functions move a world that works on a job\<close>

subsection \<open>Steps\<close>

definition job_step :: "Store \<Rightarrow> nat \<Rightarrow> fs \<Rightarrow> fs \<Rightarrow> bool" where
  "job_step store j I I' \<longleftrightarrow>
    job_evolves store j I I' \<and>
    touches {n. lookup_at I j ''output.log'' = Some n} ({j} \<times> {name. name \<noteq> ''output.log''}) I I'"

lemma job_step_refl [simp]: "job_step store j I I"
  by (simp add: job_step_def)

lemma step_output:
  assumes "job_step store j I I'" "I j = Some dir"
  shows "lookup_at I' j ''output.log'' = lookup_at I j ''output.log''"
  using assms touches_lookup unfolding job_step_def by blast

lemma job_step_trans:
  assumes "k_policy (st_contracts store) = policy_v1" "I j = Some dir"
    and "job_step store j I I'" "job_step store j I' I''"
  shows "job_step store j I I''"
  using job_evolves_trans [OF assms(1), of j I I' I''] step_output [OF assms(3,2)] assms(3,4)
    touches_trans [of "{n. lookup_at I j ''output.log'' = Some n}"
      "{j} \<times> {name. name \<noteq> ''output.log''}" I I' _ _ I''
      "{n. lookup_at I j ''output.log'' = Some n}" "{j} \<times> {name. name \<noteq> ''output.log''}"]
  unfolding job_step_def by auto

lemma job_step_touches:
  assumes "touches {} T I I'" "T \<subseteq> {j} \<times> {name. name \<noteq> ''state.json'' \<and> name \<noteq> ''output.log''}"
  shows "job_step store j I I'"
  unfolding job_step_def
  by (intro conjI job_evolves_touches [OF assms(1)] touches_mono [OF assms(1)]) (use assms(2) in auto)

lemma hidden_names: "hidden name \<Longrightarrow> name \<noteq> ''state.json'' \<and> name \<noteq> ''output.log''"
  by (auto simp: not_hidden)

lemma job_step_hidden: "touches {} (hidden_in j) I I' \<Longrightarrow> job_step store j I I'"
  by (erule job_step_touches) (use hidden_names in blast)

lemma job_step_replaced:
  assumes "replaced u j ''state.json'' raw I I'" "job_evolves store j I I'"
  shows "job_step store j I I'"
  unfolding job_step_def
proof (intro conjI assms(2))
  have "touches {} (insert (j, ''state.json'') (hidden_in j)) I I'"
    using assms(1) by (simp add: replaced_def)
  then show "touches {n. lookup_at I j ''output.log'' = Some n}
      ({j} \<times> {name. name \<noteq> ''output.log''}) I I'"
    by (rule touches_mono) (use hidden_names in auto)
qed

text \<open>Another job's files stay as they are.\<close>

definition apart :: "fs \<Rightarrow> nat \<Rightarrow> nat \<Rightarrow> bool" where
  "apart I j k \<longleftrightarrow> j \<noteq> k \<and>
    (\<forall>n name. lookup_at I j ''output.log'' = Some n \<longrightarrow> lookup_at I k name \<noteq> Some n)"

lemma job_step_apart:
  assumes "job_step store j I I'" "apart I j k" "content_at I k name = Some raw"
  shows "content_at I' k name = Some raw"
  using assms unfolding job_step_def apart_def by (auto intro: content_touches)

subsection \<open>The judgement\<close>

record frame =
  fr_store :: Store
  fr_jobID :: JobID
  fr_euid :: nat
  fr_jobs :: nat
  fr_job :: nat
  fr_fs :: fs
  fr_fds :: fdtable

text \<open>The frame condition on the file system \<open>I\<close> and the descriptor table \<open>F\<close> of that moment.\<close>

definition in_frame :: "frame \<Rightarrow> handle set \<Rightarrow> handle set \<Rightarrow> fs \<Rightarrow> fdtable \<Rightarrow> bool" where
  "in_frame f D C I F \<longleftrightarrow>
    k_policy (st_contracts (fr_store f)) = policy_v1 \<and>
    (\<exists>b. F (st_jobs (fr_store f)) = Some (fr_jobs f, b)) \<and> st_jobs (fr_store f) \<notin> C \<and>
    fr_jobs f \<noteq> fr_job f \<and> lookup_at (fr_fs f) (fr_jobs f) (fr_jobID f) = Some (fr_job f) \<and>
    (\<exists>dir. fr_fs f (fr_job f) = Some dir) \<and>
    job_step (fr_store f) (fr_job f) (fr_fs f) I \<and>
    (\<forall>h \<in> D. \<exists>b. F h = Some (fr_job f, b)) \<and> C \<subseteq> dom F \<and> F |` (- C) = fr_fds f"

definition working ::
  "frame \<Rightarrow> handle set \<Rightarrow> handle set \<Rightarrow> (fs \<Rightarrow> bool) \<Rightarrow> world \<Rightarrow> bool" where
  "working f D C K w \<longleftrightarrow>
    (\<exists>I F. St (fr_euid f) I F w \<and> in_frame f D C I F \<and> K I)"

abbreviation anything :: "fs \<Rightarrow> bool" where "anything \<equiv> \<lambda>I. True"

lemma workingI: "St (fr_euid f) I F w \<Longrightarrow> in_frame f D C I F \<Longrightarrow> K I \<Longrightarrow> working f D C K w"
  unfolding working_def by blast

lemma workingE:
  assumes "working f D C K w"
    and "\<And>I F. St (fr_euid f) I F w \<Longrightarrow> in_frame f D C I F \<Longrightarrow> K I \<Longrightarrow>
      (\<And>w'. St (fr_euid f) I F w' \<Longrightarrow> working f D C K w') \<Longrightarrow> wp m Q w"
  shows "wp m Q w"
  using assms unfolding working_def by blast

lemma working_weaken:
  assumes "working f D C K w" "D' \<subseteq> D" "\<And>I. K I \<Longrightarrow> K' I"
  shows "working f D' C K' w"
  using assms unfolding working_def in_frame_def by blast

lemma in_frame_jobs:
  assumes "in_frame f D C I F"
  shows "\<exists>b. F (st_jobs (fr_store f)) = Some (fr_jobs f, b)"
    and "lookup_at I (fr_jobs f) (fr_jobID f) = Some (fr_job f)"
    and "k_policy (st_contracts (fr_store f)) = policy_v1"
proof -
  have step: "job_step (fr_store f) (fr_job f) (fr_fs f) I" "fr_jobs f \<noteq> fr_job f"
    "lookup_at (fr_fs f) (fr_jobs f) (fr_jobID f) = Some (fr_job f)"
    using assms by (auto simp: in_frame_def)
  show "lookup_at I (fr_jobs f) (fr_jobID f) = Some (fr_job f)"
    using lookup_touches [of _ _ "fr_fs f" I] step unfolding job_step_def by blast
qed (use assms in \<open>auto simp: in_frame_def\<close>)

lemma in_frame_dir: "in_frame f D C I F \<Longrightarrow> h \<in> D \<Longrightarrow> \<exists>b. F h = Some (fr_job f, b)"
  by (simp add: in_frame_def)

lemma in_frame_opened:
  assumes "in_frame f D C I F" "F h = None"
  shows "h \<notin> C" "h \<notin> D" "in_frame f D (insert h C) I (F(h \<mapsto> (n, c)))"
    and "n = fr_job f \<Longrightarrow> in_frame f (insert h D) (insert h C) I (F(h \<mapsto> (n, c)))"
proof -
  show h: "h \<notin> C" "h \<notin> D" using assms by (force simp: in_frame_def)+
  have "(F(h \<mapsto> (n, c))) |` (- insert h C) = F |` (- C)"
    using h(1) assms(2) by (auto simp: restrict_map_def)
  moreover have "h \<noteq> st_jobs (fr_store f)" using assms by (auto simp: in_frame_def)
  ultimately show "in_frame f D (insert h C) I (F(h \<mapsto> (n, c)))"
    using assms h(2) unfolding in_frame_def by (auto simp del: fun_upd_restrict_conv)
  then show "n = fr_job f \<Longrightarrow> in_frame f (insert h D) (insert h C) I (F(h \<mapsto> (n, c)))"
    unfolding in_frame_def by (metis fun_upd_same insert_iff)
qed

lemma in_frame_closed:
  assumes "in_frame f D C I F" "h \<in> C"
  shows "in_frame f (D - {h}) (C - {h}) I (F(h := None))"
proof -
  have "(F(h := None)) |` (- (C - {h})) = F |` (- C)"
    using assms(2) by (auto simp: restrict_map_def)
  moreover have "h \<noteq> st_jobs (fr_store f)" using assms by (auto simp: in_frame_def)
  ultimately show ?thesis
    using assms unfolding in_frame_def by (auto simp del: fun_upd_restrict_conv)
qed

lemma in_frame_locked:
  assumes "in_frame f D C I F" "h \<in> C" "F h = Some (n, b)"
  shows "in_frame f D C I (F(h \<mapsto> (n, c)))"
proof -
  have "(F(h \<mapsto> (n, c))) |` (- C) = F |` (- C)"
    using assms(2) by (auto simp: restrict_map_def)
  moreover have "h \<noteq> st_jobs (fr_store f)" using assms by (auto simp: in_frame_def)
  ultimately show ?thesis
    using assms unfolding in_frame_def by (auto simp del: fun_upd_restrict_conv)
qed

lemma in_frame_moved:
  assumes "in_frame f D C I F" "job_step (fr_store f) (fr_job f) I I'"
  shows "in_frame f D C I' F"
proof -
  obtain dir where "k_policy (st_contracts (fr_store f)) = policy_v1" "fr_fs f (fr_job f) = Some dir"
    "job_step (fr_store f) (fr_job f) (fr_fs f) I"
    using assms(1) by (auto simp: in_frame_def)
  then have "job_step (fr_store f) (fr_job f) (fr_fs f) I'"
    using job_step_trans assms(2) by blast
  then show ?thesis using assms(1) by (simp add: in_frame_def)
qed

subsection \<open>Control flow\<close>

lemma wp_if:
  "(c \<Longrightarrow> wp a Q w) \<Longrightarrow> (\<not> c \<Longrightarrow> wp b Q w) \<Longrightarrow> wp (if c then a else b) Q w"
  by simp

lemma wp_sum:
  "(\<And>x. s = Inl x \<Longrightarrow> wp (a x) Q w) \<Longrightarrow> (\<And>x. s = Inr x \<Longrightarrow> wp (b x) Q w) \<Longrightarrow>
   wp (case s of Inl x \<Rightarrow> a x | Inr x \<Rightarrow> b x) Q w"
  by (cases s) simp_all

lemma wp_option:
  "(s = None \<Longrightarrow> wp a Q w) \<Longrightarrow> (\<And>x. s = Some x \<Longrightarrow> wp (b x) Q w) \<Longrightarrow>
   wp (case s of None \<Rightarrow> a | Some x \<Rightarrow> b x) Q w"
  by (cases s) simp_all

lemma wp_prod: "(\<And>x y. p = (x, y) \<Longrightarrow> wp (b x y) Q w) \<Longrightarrow> wp (case p of (x, y) \<Rightarrow> b x y) Q w"
  by (cases p) simp

lemmas wp_branches = wp_if wp_sum wp_option wp_prod

subsection \<open>System calls and files\<close>

lemma job_Sync [job_rules]:
  assumes "working f D C K w" and "\<And>e w'. working f D C K w' \<Longrightarrow> Q e w'"
  shows "wp (file_Sync h) Q w"
  by (rule workingE [OF assms(1)]) (erule wp_Sync; simp add: assms(2))

lemma job_ctx_Err [job_rules]:
  assumes "working f D C K w" and "\<And>e w'. working f D C K w' \<Longrightarrow> Q e w'"
  shows "wp ctx_Err Q w"
  by (rule workingE [OF assms(1)]) (erule wp_ctx_Err; simp add: assms(2))

lemma job_unix_milli_now [job_rules]:
  assumes "working f D C K w" and "\<And>now w'. working f D C K w' \<Longrightarrow> Q now w'"
  shows "wp unix_milli_now Q w"
  by (rule workingE [OF assms(1)]) (erule wp_unix_milli_now; simp add: assms(2))

lemma job_monotonic_now [job_rules]:
  assumes "working f D C K w" and "\<And>now w'. working f D C K w' \<Longrightarrow> Q now w'"
  shows "wp monotonic_now Q w"
  by (rule workingE [OF assms(1)]) (erule wp_monotonic_now; simp add: assms(2))

lemma job_time_Until [job_rules]:
  assumes "working f D C K w" and "\<And>left w'. working f D C K w' \<Longrightarrow> Q left w'"
  shows "wp (time_Until deadline) Q w"
  by (rule workingE [OF assms(1)]) (erule wp_time_Until; simp add: assms(2))

lemma job_next_selects [job_rules]:
  assumes "working f D C K w" and "\<And>events w'. working f D C K w' \<Longrightarrow> Q events w'"
  shows "wp next_selects Q w"
  by (rule workingE [OF assms(1)]) (erule wp_next_selects; simp add: assms(2))

lemma job_loop_fuel [job_rules]:
  assumes "working f D C K w" and "\<And>fuel w'. working f D C K w' \<Longrightarrow> Q fuel w'"
  shows "wp loop_fuel Q w"
  by (rule workingE [OF assms(1)]) (erule wp_loop_fuel; simp add: assms(2))

lemma job_hang [job_rules]:
  assumes "working f D C K w" and "\<And>w'. working f D C K w' \<Longrightarrow> Q () w'"
  shows "wp hang Q w"
  by (rule workingE [OF assms(1)]) (erule_tac F' = F in wp_hang; simp add: assms(2))

lemma job_Close [job_rules]:
  assumes "working f D C K w" "h \<in> C"
    and "\<And>e w'. working f (D - {h}) (C - {h}) K w' \<Longrightarrow> Q e w'"
  shows "wp (file_Close h) Q w"
  by (rule workingE [OF assms(1)])
    (erule wp_Close, rule assms(3), erule workingI, simp_all add: in_frame_closed assms(2))

lemma job_unlock_close [job_rules]:
  assumes "working f D C K w" "h \<in> C"
    and "\<And>e w'. working f (D - {h}) (C - {h}) K w' \<Longrightarrow> Q e w'"
  shows "wp (unlock_close h) Q w"
  by (rule workingE [OF assms(1)])
    (erule wp_unlock_close, rule assms(3), erule workingI, simp_all add: in_frame_closed assms(2))

lemma job_acquire:
  assumes "working f D C K w" "takes_lock acquire" "h \<in> C"
    and "\<And>e w'. working f D C K w' \<Longrightarrow> Q e w'"
  shows "wp (acquire h) Q w"
  by (rule workingE [OF assms(1)])
    (erule wp_acquire [OF _ assms(2)], simp add: assms(4), rule assms(4), erule workingI,
      simp_all add: in_frame_locked assms(3))

lemmas [job_rules] =
  job_acquire [OF _ takes_lock_lockStateFile] job_acquire [OF _ takes_lock_blocking]
  job_acquire [OF _ takes_lock_lockFile]

lemma job_openPrivateFileAt [job_rules]:
  assumes "working f D C K w" "O_CREAT \<notin> flags"
    and "\<And>e w'. working f D C K w' \<Longrightarrow> e \<noteq> [] \<Longrightarrow> Q (Inl e) w'"
    and "\<And>h w'. h \<notin> C \<Longrightarrow> h \<notin> D \<Longrightarrow> working f D (insert h C) K w' \<Longrightarrow> Q (Inr h) w'"
  shows "wp (openPrivateFileAt d name flags) Q w"
  by (rule workingE [OF assms(1)])
    (erule wp_openPrivateFileAt [OF _ assms(2)], simp add: assms(3), rule assms(4),
      (simp_all add: in_frame_opened)[2], erule workingI, simp_all add: in_frame_opened)

lemma job_openDirectoryAt [job_rules]:
  assumes "working f D C K w"
    and "\<And>e w'. working f D C K w' \<Longrightarrow> e \<noteq> [] \<Longrightarrow> Q (Inl e) w'"
    and "\<And>h w'. h \<notin> C \<Longrightarrow> h \<notin> D \<Longrightarrow> working f (insert h D) (insert h C) K w' \<Longrightarrow> Q (Inr h) w'"
  shows "wp (openDirectoryAt (st_jobs (fr_store f)) (fr_jobID f) private) Q w"
proof (rule workingE [OF assms(1)])
  fix I F assume st: "St (fr_euid f) I F w" and fr: "in_frame f D C I F" and K: "K I"
    and same: "\<And>w'. St (fr_euid f) I F w' \<Longrightarrow> working f D C K w'"
  show ?thesis
  proof (rule wp_openDirectoryAt [OF st], goal_cases)
    case (1 e w')
    then show ?case using assms(2) same by simp
  next
    case (2 h n x w')
    obtain b where "F (st_jobs (fr_store f)) = Some (fr_jobs f, b)"
      using in_frame_jobs(1) [OF fr] by blast
    then have "n = fr_job f"
      using entry_lookup [OF 2(4)] in_frame_jobs(2) [OF fr] by simp
    then show ?case
      using assms(3) in_frame_opened [OF fr 2(1)] workingI [OF 2(2), where D = "insert h D" and C = "insert h C" and K = K] K by blast
  qed
qed

lemma job_terminalIntentExists [job_rules]:
  assumes "working f D C K w"
    and "\<And>e w'. working f D C K w' \<Longrightarrow> e \<noteq> [] \<Longrightarrow> Q (Inl e) w'"
    and "\<And>b w'. working f D C K w' \<Longrightarrow> Q (Inr b) w'"
  shows "wp (terminalIntentExists h) Q w"
  unfolding terminalIntentExists_def wp_bind
  by (rule workingE [OF assms(1)]) (erule wp_Geteuid, erule wp_Fstatat; simp add: assms(2,3))

lemma job_readState [job_rules]:
  assumes "working f D C K w" "h \<in> D"
    and "\<And>e w'. working f D C K w' \<Longrightarrow> e \<noteq> [] \<Longrightarrow> Q (Inl e) w'"
    and "\<And>s w'. working f D C (\<lambda>I. K I \<and> state_at (fr_store f) I (fr_job f) = Some s) w' \<Longrightarrow>
           jm_JobID (ps_Job s) = jobID \<Longrightarrow> Q (Inr s) w'"
  shows "wp (readState (fr_store f) h jobID) Q w"
proof (rule workingE [OF assms(1)])
  fix I F assume st: "St (fr_euid f) I F w" and fr: "in_frame f D C I F" and K: "K I"
    and same: "\<And>w'. St (fr_euid f) I F w' \<Longrightarrow> working f D C K w'"
  obtain b where "F h = Some (fr_job f, b)" using in_frame_dir [OF fr assms(2)] by blast
  then show ?thesis
    by (rule wp_readState [OF st]) (use assms(3,4) same K workingI [OF _ fr] in simp_all)
qed

subsection \<open>Changes of a job\<close>

lemma job_changed:
  assumes "in_frame f D C I F" "job_step (fr_store f) (fr_job f) I I'" "St (fr_euid f) I' F w"
  shows "working f D C anything w"
  by (rule workingI [OF assms(3) in_frame_moved [OF assms(1,2)]]) simp

lemma job_createSyncedFile [job_rules]:
  assumes "working f D C K w" "h \<in> D" "name \<noteq> ''state.json''" "name \<noteq> ''output.log''"
    and "\<And>e w'. working f D C anything w' \<Longrightarrow> Q e w'"
  shows "wp (createSyncedFile h name) Q w"
proof (rule workingE [OF assms(1)])
  fix I F assume st: "St (fr_euid f) I F w" and fr: "in_frame f D C I F"
  obtain b where d: "F h = Some (fr_job f, b)" using in_frame_dir [OF fr assms(2)] by blast
  show ?thesis
  proof (rule wp_createSyncedFile [OF st d], goal_cases)
    case (1 e I' w')
    have "job_step (fr_store f) (fr_job f) I I'"
      by (rule job_step_touches [OF 1(1)]) (use assms(3,4) in auto)
    then show ?case using assms(5) job_changed [OF fr _ 1(2)] by blast
  next
    case (2 n I' w')
    have "touches {} {(fr_job f, name)} I I'"
      using 2(1) by (simp add: pending_temp_def)
    then have "job_step (fr_store f) (fr_job f) I I'"
      by (rule job_step_touches) (use assms(3,4) in auto)
    then show ?case using assms(5) job_changed [OF fr _ 2(2)] by blast
  qed
qed

lemma intent_names [simp]:
  "terminalIntentName \<noteq> ''state.json''" "terminalIntentName \<noteq> ''output.log''"
  "recoveryLockName \<noteq> ''state.json''" "recoveryLockName \<noteq> ''output.log''"
  by (simp_all add: terminalIntentName_def recoveryLockName_def)

lemma job_unlinkIntent:
  assumes "working f D C K w" "h \<in> D"
    and "\<And>e w'. working f D C anything w' \<Longrightarrow> Q e w'"
  shows "wp (unix_Unlinkat h terminalIntentName False) Q w"
proof (rule workingE [OF assms(1)])
  fix I F assume st: "St (fr_euid f) I F w" and fr: "in_frame f D C I F"
  obtain b where d: "F h = Some (fr_job f, b)" using in_frame_dir [OF fr assms(2)] by blast
  show ?thesis
  proof (rule wp_Unlinkat [OF st], goal_cases)
    case (1 e w')
    then show ?case using assms(3) job_changed [OF fr job_step_refl] by blast
  next
    case (2 d' b' dir n x w')
    then have "d' = fr_job f" using d by simp
    then have "job_step (fr_store f) (fr_job f) I
        (fs_update (fs_update I n unlink_inode) d' (drop_entry terminalIntentName))"
      by (intro job_step_touches [OF touches_unlinkat]) auto
    then show ?case using assms(3) job_changed [OF fr _ 2(7)] by blast
  qed
qed

lemma working_when:
  "working f D C K w \<Longrightarrow> (\<And>I. K I \<Longrightarrow> K' I) \<Longrightarrow> working f D C K' w"
  by (erule working_weaken) simp_all

lemma working_anything: "working f D C K w \<Longrightarrow> working f D C anything w"
  by (erule working_weaken) simp_all

text \<open>
  The proofs below walk through a function: a rule for the next call, a split at a branch, and
  the conclusion at the end of each path.
\<close>

lemma job_removeTerminalIntent [job_rules]:
  assumes "working f D C K w" "h \<in> D" and "\<And>e w'. working f D C anything w' \<Longrightarrow> Q e w'"
  shows "wp (removeTerminalIntent h) Q w"
  unfolding removeTerminalIntent_def
  by (insert assms(1,2), (erule job_rules job_unlinkIntent | rule wp_branches |
    rule assms(3), erule working_anything | simp split del: if_split)+)

lemma job_createTerminalIntent [job_rules]:
  assumes "working f D C K w" and "\<And>e w'. working f D C anything w' \<Longrightarrow> Q e w'"
  shows "wp (createTerminalIntent (fr_store f) (fr_jobID f)) Q w"
  unfolding createTerminalIntent_def
  by (insert assms(1), (erule job_rules | rule wp_branches |
    rule assms(2), erule working_anything | simp split del: if_split)+)

lemma job_clearTerminalIntent [job_rules]:
  assumes "working f D C K w" and "\<And>e w'. working f D C anything w' \<Longrightarrow> Q e w'"
  shows "wp (clearTerminalIntent (fr_store f) (fr_jobID f)) Q w"
  unfolding clearTerminalIntent_def
  by (insert assms(1), (erule job_rules | rule wp_branches |
    rule assms(2), erule working_anything | simp split del: if_split)+)

lemma job_createPrivateFileAt:
  assumes "working f D C K w" "d \<in> D" "name \<noteq> ''state.json''" "name \<noteq> ''output.log''"
    and "\<And>e w'. working f D C anything w' \<Longrightarrow> e \<noteq> [] \<Longrightarrow> Q (Inl e) w'"
    and "\<And>h w'. h \<notin> C \<Longrightarrow> h \<notin> D \<Longrightarrow> working f D (insert h C) anything w' \<Longrightarrow> Q (Inr h) w'"
  shows "wp (createPrivateFileAt d name) Q w"
proof (rule workingE [OF assms(1)])
  fix I F assume st: "St (fr_euid f) I F w" and fr: "in_frame f D C I F"
  obtain b where d: "F d = Some (fr_job f, b)" using in_frame_dir [OF fr assms(2)] by blast
  have step: "job_step (fr_store f) (fr_job f) I I'" if "made (fr_euid f) I F d name n I'" for n I'
    by (rule job_step_touches [OF touches_made [OF that d]]) (use assms(3,4) in auto)
  show ?thesis
  proof (rule wp_createPrivateFileAt [OF st], goal_cases)
    case (1 e w')
    then show ?case using assms(5) job_changed [OF fr job_step_refl] by blast
  next
    case (2 e n I' w')
    then show ?case using assms(5) job_changed [OF fr step] by blast
  next
    case (3 h n I' w')
    note opened = in_frame_opened(1-3) [OF in_frame_moved [OF fr step [OF 3(1)]] 3(2)]
    show ?case
      by (rule assms(6) [OF opened(1,2)], rule workingI [OF 3(3) opened(3)]) simp
  qed
qed

lemma job_openRecoveryLockAt_loop:
  assumes "working f D C K w" "d \<in> D"
    and "\<And>e w'. working f D C anything w' \<Longrightarrow> e \<noteq> [] \<Longrightarrow> Q (Inl e) w'"
    and "\<And>h w'. h \<notin> C \<Longrightarrow> h \<notin> D \<Longrightarrow> working f D (insert h C) anything w' \<Longrightarrow> Q (Inr h) w'"
  shows "wp (openRecoveryLockAt_loop rounds d) Q w"
  using assms(1)
proof (induction rounds arbitrary: w K)
  case 0
  then show ?case
    by (simp, elim job_hang) (simp add: assms(3) gone_def working_anything)
next
  case (Suc rounds)
  show ?case
    unfolding openRecoveryLockAt_loop.simps
    by (insert Suc.prems assms(2), (erule job_rules job_createPrivateFileAt | rule wp_branches |
      erule Suc.IH | rule assms(3), erule working_anything |
      rule assms(4), assumption, assumption, erule working_anything | simp split del: if_split)+)
qed

lemma job_openRecoveryLockAt [job_rules]:
  assumes "working f D C K w" "d \<in> D"
    and "\<And>e w'. working f D C anything w' \<Longrightarrow> e \<noteq> [] \<Longrightarrow> Q (Inl e) w'"
    and "\<And>h w'. h \<notin> C \<Longrightarrow> h \<notin> D \<Longrightarrow> working f D (insert h C) anything w' \<Longrightarrow> Q (Inr h) w'"
  shows "wp (openRecoveryLockAt d) Q w"
  unfolding openRecoveryLockAt_def wp_bind
  by (rule job_loop_fuel [OF assms(1)]) (erule job_openRecoveryLockAt_loop; simp add: assms)

text \<open>Publishing: a success means that the state on disk is the published one.\<close>

abbreviation state_is :: "frame \<Rightarrow> PersistedJobState \<Rightarrow> fs \<Rightarrow> bool" where
  "state_is f s \<equiv> \<lambda>I. state_at (fr_store f) I (fr_job f) = Some s"

lemma job_publishStateLocked:
  assumes "working f D C K w" "lj_dir job \<in> D" "\<And>I. K I \<Longrightarrow> state_is f (lj_state job) I"
    and "transitionAllowed policy_v1 (lj_state job) next_state"
    and "\<And>e w'. working f D C (\<lambda>I. e = [] \<longrightarrow> state_is f next_state I) w' \<Longrightarrow>
      e = [] \<longrightarrow> update_allowed (lj_state job) jobID next_state \<Longrightarrow> Q e w'"
  shows "wp (publishStateLocked (fr_store f) job jobID next_state) Q w"
proof (rule workingE [OF assms(1)])
  fix I F assume st: "St (fr_euid f) I F w" and fr: "in_frame f D C I F" and K: "K I"
  obtain b where d: "F (lj_dir job) = Some (fr_job f, b)"
    using in_frame_dir [OF fr assms(2)] by blast
  show ?thesis
  proof (rule wp_publishStateLocked [OF st d assms(3) [OF K]], goal_cases)
    case 1
    show ?case using assms(4) in_frame_jobs(3) [OF fr] by simp
  next
    case (2 e I' w')
    show ?case
      by (rule assms(5), rule workingI [OF 2(2) in_frame_moved [OF fr job_step_hidden [OF 2(1)]]])
        (simp_all add: 2(3))
  next
    case (3 e I' w' raw)
    show ?case
      by (rule assms(5), rule workingI [OF 3(5) in_frame_moved [OF fr job_step_replaced [OF 3(1,2)]]])
        (simp_all add: 3(3,4))
  qed
qed

lemma runnerLost_transition:
  "jm_Status (ps_Job s) = JobStatusRunning \<Longrightarrow> transitionAllowed policy_v1 s (runnerLostState s now)"
  by (simp add: transition_v1 runnerLostState_def Let_def all_terminal_statuses_def)

lemma job_publishRunnerLostLocked:
  assumes "working f D C K w" "lj_dir job \<in> D" "\<And>I. K I \<Longrightarrow> state_is f (lj_state job) I"
    and "\<And>e w'. working f D C
      (\<lambda>I. e = [] \<longrightarrow> (\<exists>s. state_is f s I \<and> jm_Status (ps_Job s) \<noteq> JobStatusRunning)) w' \<Longrightarrow> Q e w'"
  shows "wp (publishRunnerLostLocked (fr_store f) job jobID) Q w"
proof (cases "jm_Status (ps_Job (lj_state job)) = JobStatusRunning")
  case True
  have lost: "jm_Status (ps_Job (runnerLostState (lj_state job) now)) \<noteq> JobStatusRunning" for now
    by (simp add: runnerLostState_def Let_def)
  show ?thesis
    unfolding publishRunnerLostLocked_def if_not_P [OF iffD2 [OF not_not True]] wp_bind
    by (rule job_unix_milli_now [OF assms(1)],
        erule job_publishStateLocked [OF _ assms(2,3) runnerLost_transition [OF True]])
      (assumption, rule assms(4), erule working_weaken, use lost in auto)
next
  case False
  then show ?thesis
    unfolding publishRunnerLostLocked_def
    using assms(4) [OF working_weaken [OF assms(1), of D]] assms(3) by auto
qed

subsection \<open>Reconciliation\<close>

text \<open>
  An action on the job: it may be called at any point and leaves the descriptors alone; \<open>P r\<close> holds of
  the file system when it has returned \<open>r\<close>.
\<close>

definition job_does :: "frame \<Rightarrow> 'a io \<Rightarrow> ('a \<Rightarrow> fs \<Rightarrow> bool) \<Rightarrow> bool" where
  "job_does f m P \<longleftrightarrow>
    (\<forall>D C K w Q. working f D C K w \<longrightarrow> (\<forall>r w'. working f D C (P r) w' \<longrightarrow> Q r w') \<longrightarrow> wp m Q w)"

abbreviation job_action :: "frame \<Rightarrow> 'a io \<Rightarrow> bool" where
  "job_action f m \<equiv> job_does f m (\<lambda>r. anything)"

lemma job_doesD:
  assumes "working f D C K w" "job_does f m P" "\<And>r w'. working f D C (P r) w' \<Longrightarrow> Q r w'"
  shows "wp m Q w"
  using assms unfolding job_does_def by blast

lemma job_doesI:
  assumes "\<And>D C K w Q. working f D C K w \<Longrightarrow> (\<And>r w'. working f D C (P r) w' \<Longrightarrow> Q r w') \<Longrightarrow> wp m Q w"
  shows "job_does f m P"
  unfolding job_does_def using assms by blast

text \<open>What \<open>P\<close> says of the result of an action that may not have run.\<close>

abbreviation done_then :: "('a \<Rightarrow> fs \<Rightarrow> bool) \<Rightarrow> 'a option \<Rightarrow> fs \<Rightarrow> bool" where
  "done_then P x \<equiv> \<lambda>I. \<forall>r. x = Some r \<longrightarrow> P r I"

lemma job_closeRecovery [job_rules]:
  assumes "working f D C K w" "recoveryLock \<in> C" "directory \<in> C" "recoveryLock \<noteq> directory"
    and "\<And>e w'. working f (D - {recoveryLock} - {directory}) (C - {recoveryLock} - {directory}) K w' \<Longrightarrow>
      Q e w'"
  shows "wp (closeRecovery recoveryLock directory) Q w"
  unfolding closeRecovery_def
  by (insert assms(1-4), (erule job_rules | rule assms(5) | simp split del: if_split)+)

lemma job_closeRunner [job_rules]:
  assumes "working f D C K w" "runnerLock \<in> C" "recoveryLock \<in> C" "directory \<in> C"
    "recoveryLock \<noteq> directory" "runnerLock \<noteq> directory" "runnerLock \<noteq> recoveryLock"
    and "\<And>e w'. working f (D - {runnerLock} - {recoveryLock} - {directory})
      (C - {runnerLock} - {recoveryLock} - {directory}) K w' \<Longrightarrow> Q e w'"
  shows "wp (closeRunner runnerLock recoveryLock directory) Q w"
  unfolding closeRunner_def
  by (insert assms(1-7), (erule job_rules | rule assms(8) | simp split del: if_split)+)

lemma job_reconcile_locked [job_rules]:
  assumes "working f (insert d D) (insert s (insert r (insert c (insert d C)))) K w"
    and "d \<notin> C" "d \<notin> D" "c \<notin> insert d C" "c \<notin> insert d D" "r \<notin> insert c (insert d C)"
      "r \<notin> insert d D" "s \<notin> insert r (insert c (insert d C))" "s \<notin> insert d D"
    and "\<And>x w'. working f D C anything w' \<Longrightarrow> Q x w'"
  shows "wp (reconcile_locked (fr_store f) (fr_jobID f) d c r s) Q w"
  unfolding reconcile_locked_def
  by (insert assms(1-9), (erule job_rules | erule job_publishRunnerLostLocked | rule wp_branches |
    rule assms(10), erule working_anything | simp split del: if_split)+)

lemma job_reconcile_lost [job_rules]:
  assumes "working f (insert d D) (insert r (insert c (insert d C))) K w"
    and "d \<notin> C" "d \<notin> D" "c \<notin> insert d C" "c \<notin> insert d D" "r \<notin> insert c (insert d C)"
      "r \<notin> insert d D"
    and "\<And>x w'. working f D C anything w' \<Longrightarrow> Q x w'"
  shows "wp (reconcile_lost (fr_store f) (fr_jobID f) deadline intent d c r) Q w"
  unfolding reconcile_lost_def
  by (insert assms(1-7), (erule job_rules | rule wp_branches |
    rule assms(8), erule working_anything | simp split del: if_split)+)

definition action_if :: "frame \<Rightarrow> 'a io option \<Rightarrow> ('a \<Rightarrow> fs \<Rightarrow> bool) \<Rightarrow> bool" where
  "action_if f mutateActive P \<longleftrightarrow> (\<forall>mutate. mutateActive = Some mutate \<longrightarrow> job_does f mutate P)"

lemma job_mutation [job_rules]:
  assumes "working f D C K w" "action_if f mutateActive P"
    and "\<And>x w'. working f D C (done_then P x) w' \<Longrightarrow> Q x w'"
  shows "wp (case mutateActive of None \<Rightarrow> State_Monad.return None
    | Some mutate \<Rightarrow>
        if intent then State_Monad.return None
        else do { r \<leftarrow> mutate; State_Monad.return (Some r) }) Q w"
proof (cases "mutateActive = None \<or> intent")
  case True
  then show ?thesis
    using assms(3) [OF working_when [OF assms(1)], of None] by (cases mutateActive) auto
next
  case False
  then obtain m where m: "mutateActive = Some m" "job_does f m P"
    using assms(2) by (auto simp: action_if_def)
  show ?thesis
    using False m(1) by (simp, intro job_doesD [OF assms(1) m(2)]) (simp add: assms(3))
qed

lemma job_reconcile_recovering [job_rules]:
  assumes "working f (insert d D) (insert c (insert d C)) K w"
    and "action_if f mutateActive P" "d \<notin> C" "d \<notin> D" "c \<notin> insert d C" "c \<notin> insert d D"
    and "\<And>x w'. working f D C (done_then P (snd x)) w' \<Longrightarrow> Q x w'"
  shows "wp (reconcile_recovering (fr_store f) (fr_jobID f) deadline mutateActive d c) Q w"
  unfolding reconcile_recovering_def
  by (insert assms(1-6), (erule job_rules | rule wp_branches |
    rule assms(7), erule working_when, simp | simp split del: if_split)+)

lemma job_reconcile [job_rules]:
  assumes "working f D C K w" "action_if f mutateActive P"
    and "\<And>x w'. working f D C (done_then P (snd x)) w' \<Longrightarrow> Q x w'"
  shows "wp (reconcileRunnerStateWithActiveMutation (fr_store f) (fr_jobID f) deadline mutateActive) Q w"
  unfolding reconcileRunnerStateWithActiveMutation_def
  by (insert assms(1,2), (erule job_rules |
    rule wp_branches | rule assms(3), erule working_when, simp | simp split del: if_split)+)

lemma job_reconcileRunnerState [job_rules]:
  assumes "working f D C K w" and "\<And>x w'. working f D C anything w' \<Longrightarrow> Q x w'"
  shows "wp (reconcileRunnerState (fr_store f) (fr_jobID f) deadline) Q w"
  unfolding reconcileRunnerState_def wp_bind
  by (rule job_reconcile [OF assms(1), where P = "\<lambda>r. anything"])
    (auto simp: action_if_def intro: assms(2))

subsection \<open>Locked jobs\<close>

lemma job_poll_timer [job_rules]:
  assumes "working f D C K w" and "\<And>e w'. working f D C K w' \<Longrightarrow> Q e w'"
  shows "wp poll_timer Q w"
  unfolding poll_timer_def by (insert assms(1), (erule job_rules | rule assms(2) | simp)+)

lemma job_waitForTerminalIntent_loop:
  assumes "working f D C K w" and "\<And>e w'. working f D C anything w' \<Longrightarrow> Q e w'"
  shows "wp (waitForTerminalIntent_loop rounds (fr_store f) (fr_jobID f) deadline) Q w"
  using assms(1)
proof (induction rounds arbitrary: w K)
  case 0
  show ?case by (insert 0, (erule job_rules | rule assms(2), erule working_anything | simp)+)
next
  case (Suc rounds)
  show ?case
    unfolding waitForTerminalIntent_loop.simps
    by (insert Suc.prems, (erule job_rules Suc.IH | rule wp_branches |
      rule assms(2), erule working_anything | simp split del: if_split)+)
qed

lemma job_waitForTerminalIntent [job_rules]:
  assumes "working f D C K w" and "\<And>e w'. working f D C anything w' \<Longrightarrow> Q e w'"
  shows "wp (waitForTerminalIntent (fr_store f) (fr_jobID f) deadline) Q w"
  unfolding waitForTerminalIntent_def
  by (insert assms(1), (erule job_rules job_waitForTerminalIntent_loop | rule wp_branches |
    rule assms(2), erule working_anything | simp split del: if_split)+)

text \<open>The world of an operation that holds the locked job \<open>job\<close>.\<close>

definition holds_job :: "frame \<Rightarrow> handle set \<Rightarrow> handle set \<Rightarrow> lockedJob \<Rightarrow> bool" where
  "holds_job f D C job \<longleftrightarrow>
    lj_dir job \<notin> C \<and> lj_dir job \<notin> D \<and> lj_stateLock job \<notin> insert (lj_dir job) C \<and>
    lj_stateLock job \<notin> insert (lj_dir job) D \<and> jm_JobID (ps_Job (lj_state job)) = fr_jobID f"

abbreviation locking ::
  "frame \<Rightarrow> handle set \<Rightarrow> handle set \<Rightarrow> lockedJob \<Rightarrow> (fs \<Rightarrow> bool) \<Rightarrow> world \<Rightarrow> bool" where
  "locking f D C job K w \<equiv>
    holds_job f D C job \<and>
    working f (insert (lj_dir job) D) (insert (lj_stateLock job) (insert (lj_dir job) C)) K w"

lemma job_openLockedJobWith:
  assumes "working f D C K w" "takes_lock acquire"
    and "\<And>e w'. working f D C K w' \<Longrightarrow> e \<noteq> [] \<Longrightarrow> Q (Inl e) w'"
    and "\<And>job w'. holds_job f D C job \<Longrightarrow>
      working f (insert (lj_dir job) D) (insert (lj_stateLock job) (insert (lj_dir job) C))
        (\<lambda>I. K I \<and> state_is f (lj_state job) I) w' \<Longrightarrow> Q (Inr job) w'"
  shows "wp (openLockedJobWith (fr_store f) (fr_jobID f) acquire) Q w"
proof (rule workingE [OF assms(1)])
  fix I F assume st: "St (fr_euid f) I F w" and fr: "in_frame f D C I F" and K: "K I"
    and same: "\<And>w'. St (fr_euid f) I F w' \<Longrightarrow> working f D C K w'"
  obtain b where jd: "F (st_jobs (fr_store f)) = Some (fr_jobs f, b)"
    using in_frame_jobs(1) [OF fr] by blast
  show ?thesis
  proof (rule wp_openLockedJobWith [OF st jd assms(2)], goal_cases)
    case (1 e w')
    then show ?case using assms(3) same by simp
  next
    case (2 job j l w')
    then have j: "j = fr_job f" using in_frame_jobs(2) [OF fr] by simp
    note o1 = in_frame_opened(1,2) [OF fr 2(2)]
    note o1' = in_frame_opened(4) [OF fr 2(2) j, where c = False]
    have lock: "(F(lj_dir job \<mapsto> (j, False))) (lj_stateLock job) = None"
      using 2(3,4) by simp
    note o2 = in_frame_opened(1,2) [where F = "F(lj_dir job \<mapsto> (j, False))", OF o1' lock]
    note o2' = in_frame_opened(3) [where F = "F(lj_dir job \<mapsto> (j, False))" and n = l and c = True, OF o1' lock]
    have "in_frame f (insert (lj_dir job) D) (insert (lj_stateLock job) (insert (lj_dir job) C)) I
        (locked_fds F job j l)"
      unfolding locked_fds_def using o2' j by simp
    then show ?case
      using o1(1,2) o2(1,2) j 2(5,7,8) K
      by (intro assms(4)) (auto simp: holds_job_def intro!: workingI)
  qed
qed

lemmas job_openLocked [job_rules] =
  job_openLockedJobWith [OF _ takes_lock_lockStateFile]
  job_openLockedJobWith [OF _ takes_lock_blocking]

lemma holds_job_simps:
  assumes "holds_job f D C job"
  shows "insert (lj_dir job) D - {lj_stateLock job} - {lj_dir job} = D"
    and "insert (lj_stateLock job) (insert (lj_dir job) C) - {lj_stateLock job} - {lj_dir job} = C"
    and "lj_dir job \<noteq> lj_stateLock job"
  using assms by (auto simp: holds_job_def)

lemma job_locked_close [job_rules]:
  assumes "working f (insert (lj_dir job) D) (insert (lj_stateLock job) (insert (lj_dir job) C)) K w"
    and "holds_job f D C job" and "\<And>e w'. working f D C K w' \<Longrightarrow> Q e w'"
  shows "wp (locked_close job) Q w"
  unfolding locked_close_def wp_bind
  by (rule job_unlock_close [OF assms(1)], simp, erule job_Close)
    (use holds_job_simps [OF assms(2)] assms(3) in simp_all)

lemma job_openLockedJob_loop:
  assumes "working f D C K w"
    and "\<And>e w'. working f D C anything w' \<Longrightarrow> e \<noteq> [] \<Longrightarrow> Q (Inl e) w'"
    and "\<And>job w'. holds_job f D C job \<Longrightarrow>
      working f (insert (lj_dir job) D) (insert (lj_stateLock job) (insert (lj_dir job) C))
        (state_is f (lj_state job)) w' \<Longrightarrow> Q (Inr job) w'"
  shows "wp (openLockedJob_loop rounds (fr_store f) (fr_jobID f) deadline) Q w"
  using assms(1)
proof (induction rounds arbitrary: w K)
  case 0
  show ?case
    by (insert 0, (erule job_rules | rule assms(2), erule working_anything | simp add: gone_def)+)
next
  case (Suc rounds)
  show ?case
    unfolding openLockedJob_loop.simps
    by (insert Suc.prems, (erule job_rules Suc.IH | rule wp_branches | assumption |
      rule assms(2), erule working_anything | rule assms(3) | simp split del: if_split)+)
qed

lemma job_openLockedJobContext [job_rules]:
  assumes "working f D C K w"
    and "\<And>e w'. working f D C anything w' \<Longrightarrow> e \<noteq> [] \<Longrightarrow> Q (Inl e) w'"
    and "\<And>job w'. holds_job f D C job \<Longrightarrow>
      working f (insert (lj_dir job) D) (insert (lj_stateLock job) (insert (lj_dir job) C))
        (state_is f (lj_state job)) w' \<Longrightarrow> Q (Inr job) w'"
  shows "wp (openLockedJobContext (fr_store f) (fr_jobID f)) Q w"
  unfolding openLockedJobContext_def
  by (insert assms(1), (erule job_rules | erule job_openLockedJob_loop | rule assms(2) | rule assms(3) | simp)+)

subsection \<open>States an operation has seen\<close>

text \<open>\<open>s\<close> was the job's state at some moment between the beginning of the operation and now.\<close>

definition seen :: "frame \<Rightarrow> PersistedJobState \<Rightarrow> fs \<Rightarrow> bool" where
  "seen f s I \<longleftrightarrow>
    (\<exists>I1. job_step (fr_store f) (fr_job f) (fr_fs f) I1 \<and> state_is f s I1 \<and>
       job_step (fr_store f) (fr_job f) I1 I)"

lemma working_seen:
  assumes "working f D C K w" "\<And>I. K I \<Longrightarrow> state_is f s I"
  shows "working f D C (seen f s) w"
  using assms unfolding working_def in_frame_def seen_def by (metis job_step_refl)

lemma seen_moved:
  assumes "in_frame f D C I F" "state_is f s I" "job_step (fr_store f) (fr_job f) I I'"
  shows "seen f s I'"
  using assms unfolding in_frame_def seen_def by blast

subsection \<open>Appending\<close>

lemma written_parts:
  assumes "written_from ino k raw I I'"
  obtains x y where "I ino = Some x" "I' ino = Some y" "k \<le> length (i_data x)"
    "k + length raw \<le> length (i_data y)" "take (k + length raw) (i_data y) = take k (i_data x) @ raw"
    "touches {ino} {} I I'"
proof -
  obtain x y where xy: "I ino = Some x" "I' ino = Some y" "k \<le> length (i_data x)"
    "take (k + length raw) (i_data y) = take k (i_data x) @ raw" "touches {ino} {} I I'"
    using assms by (auto simp: written_from_def)
  have "length (take (k + length raw) (i_data y)) = k + length raw"
    unfolding xy(4) using xy(3) by simp
  then have "k + length raw \<le> length (i_data y)"
    unfolding length_take by linarith
  then show ?thesis using that xy by simp
qed

text \<open>Writing at the captured end keeps the job as it is, with more bytes after the captured ones.\<close>

lemma written_on_disk:
  assumes "written_from ino k raw I I'" "lookup_at I j ''output.log'' = Some ino"
    and "job_on_disk store I j s out" "k = captured_of s"
  obtains out' where "job_on_disk store I' j s out'" "take (k + length raw) out' = take k out @ raw"
    "k + length raw \<le> length out'"
proof -
  obtain x y where xy: "I ino = Some x" "I' ino = Some y" "k \<le> length (i_data x)"
    "k + length raw \<le> length (i_data y)" "take (k + length raw) (i_data y) = take k (i_data x) @ raw"
    and t: "touches {ino} {} I I'"
    using written_parts [OF assms(1)] by blast
  have out: "out = i_data x"
    using assms(2,3) xy(1) by (simp add: job_on_disk_def output_at_def content_at_def)
  have same: "lookup_at I' j name = lookup_at I j name" if "lookup_at I j name = Some n" for name n
    using lookup_touches [OF t that] that by simp
  obtain raw' where st: "content_at I j ''state.json'' = Some raw'"
    using assms(3) by (auto simp: job_on_disk_def state_at_def split: option.splits)
  have other: "lookup_at I j ''state.json'' \<noteq> Some ino"
    using assms(2,3) by (simp add: job_on_disk_def)
  have "content_at I' j ''state.json'' = Some raw'"
    by (rule content_touches [OF t st]) (use other in auto)
  moreover obtain n where "lookup_at I j ''state.json'' = Some n"
    using st by (auto simp: content_at_Some)
  ultimately have "job_on_disk store I' j s (i_data y)"
    using assms(2-4) same [OF assms(2)] same [of _ n] st xy(2,4)
    by (auto simp: job_on_disk_def state_at_def output_at_def content_at_def)
  then show ?thesis using that xy out by blast
qed

lemma job_step_written:
  assumes "written_from ino (captured_of s) raw I I'" "lookup_at I j ''output.log'' = Some ino"
    and "state_at store I j = Some s"
  shows "job_step store j I I'"
  unfolding job_step_def job_evolves_def
proof (intro conjI allI impI)
  fix s' out assume disk: "job_on_disk store I j s' out"
  then have s': "s' = s" using assms(3) by (simp add: job_on_disk_def)
  obtain out' where "job_on_disk store I' j s out'"
    "take (captured_of s + length raw) out' = take (captured_of s) out @ raw"
    using written_on_disk [OF assms(1,2) disk] s' by auto
  moreover from this(2) have "take (captured_of s) out' = take (captured_of s) out"
  proof -
    have le: "captured_of s \<le> length out"
      using disk s' by (simp add: job_on_disk_def nat_le_iff)
    have "take (captured_of s) out' = take (captured_of s) (take (captured_of s + length raw) out')"
      by (simp add: min_absorb1)
    also have "\<dots> = take (captured_of s) out"
      unfolding \<open>take (captured_of s + length raw) out' = _\<close> using le by simp
    finally show ?thesis .
  qed
  ultimately show "\<exists>s'' out'. job_on_disk store I' j s'' out' \<and>
      evolves (k_policy (st_contracts store)) s' s'' \<and>
      take (captured_of s') out' = take (captured_of s') out"
    unfolding s' using evolves_refl by blast
next
  show "touches {n. lookup_at I j ''output.log'' = Some n}
      ({j} \<times> {name. name \<noteq> ''output.log''}) I I'"
    using assms(1,2) by (auto simp: written_from_def elim!: touches_mono)
qed

lemma job_step_appended:
  assumes "k_policy (st_contracts store) = policy_v1" "I j = Some dir"
    and "output_appended j (captured_of s) raw I I'" "state_at store I j = Some s"
  shows "job_step store j I I'"
proof -
  obtain ino I1 where "lookup_at I j ''output.log'' = Some ino"
    "written_from ino (captured_of s) raw I I1" "touches {} (hidden_in j) I1 I'"
    using assms(3) by (auto simp: output_appended_def)
  then show ?thesis
    using job_step_trans [where I' = I1 and I = I and j = j, OF assms(1,2)] job_step_written
      job_step_hidden assms(4)
    by blast
qed

text \<open>What a successful append leaves on disk: the state counts the accepted bytes, and they follow
  the captured output.\<close>

definition grown :: "Store \<Rightarrow> nat \<Rightarrow> PersistedJobState \<Rightarrow> bytes \<Rightarrow> fs \<Rightarrow> bool" where
  "grown store j s accepted I \<longleftrightarrow>
    (\<exists>s' out. job_on_disk store I j s' out \<and>
       s' = s\<lparr> ps_Job := (ps_Job s)
              \<lparr> jm_CapturedBytes := jm_CapturedBytes (ps_Job s) + int (length accepted) \<rparr> \<rparr> \<and>
       drop (captured_of s) (take (captured_of s') out) = accepted)"

lemma append_published_grown:
  assumes pub: "append_published store u j s' raw (captured_of s) I I'"
    and s': "s' = s\<lparr> ps_Job := (ps_Job s)
              \<lparr> jm_CapturedBytes := jm_CapturedBytes (ps_Job s) + int (length raw) \<rparr> \<rparr>"
    and disk: "job_on_disk store I j s out"
  obtains out' where "job_on_disk store I' j s' out'"
    "take (captured_of s') out' = take (captured_of s) out @ raw" "captured_of s \<le> length out"
proof -
  obtain ino I1 enc where ino: "lookup_at I j ''output.log'' = Some ino"
    and w: "written_from ino (captured_of s) raw I I1"
    and enc: "encodeState (st_contracts store) (st_workspace store) s' = Inr enc"
    and r: "replaced u j ''state.json'' enc I1 I'"
    using pub by (auto simp: append_published_def)
  obtain out1 where d1: "job_on_disk store I1 j s out1"
    "take (captured_of s + length raw) out1 = take (captured_of s) out @ raw"
    "captured_of s + length raw \<le> length out1"
    using written_on_disk [OF w ino disk] by auto
  have "0 \<le> jm_CapturedBytes (ps_Job s)"
    using state_at_valid [of store I j s] disk
    by (simp add: well_formed_state_def capture_bounded_checked job_on_disk_def)
  then have cap: "jm_CapturedBytes (ps_Job s') = int (captured_of s + length raw)"
    by (simp add: s')
  obtain n x where n: "lookup_at I1 j ''output.log'' = Some n" "I1 n = Some x" "i_data x = out1"
    using d1(1) by (auto simp: job_on_disk_def output_at_def content_at_Some)
  note out = replaced_output [OF r n(1,2)]
  have "jm_CapturedBytes (ps_Job s') \<le> int (length out1)"
    unfolding cap using d1(3) by linarith
  then have "job_on_disk store I' j s' out1"
    using out n(3) replaced_state [OF r enc]
    by (auto simp: job_on_disk_def output_at_def content_at_def)
  moreover have "captured_of s' = captured_of s + length raw" unfolding cap nat_int by (rule refl)
  moreover have "captured_of s \<le> length out" using disk by (simp add: job_on_disk_def nat_le_iff)
  ultimately show ?thesis using that [of out1] d1(2) by simp
qed

lemma append_published_step:
  assumes pub: "append_published store u j s' raw (captured_of s) I I'" and st: "state_at store I j = Some s"
    and s': "s' = s\<lparr> ps_Job := (ps_Job s)
              \<lparr> jm_CapturedBytes := jm_CapturedBytes (ps_Job s) + int (length raw) \<rparr> \<rparr>"
  shows "job_step store j I I'"
  unfolding job_step_def job_evolves_def
proof (intro conjI allI impI)
  fix t out assume disk: "job_on_disk store I j t out"
  then have t: "t = s" using st by (simp add: job_on_disk_def)
  obtain out' where out': "job_on_disk store I' j s' out'"
    "take (captured_of s') out' = take (captured_of s) out @ raw" "captured_of s \<le> length out"
    using append_published_grown [OF pub s'] disk t by blast
  have "evolves (k_policy (st_contracts store)) s s'"
    unfolding s' by (simp add: evolves_def sameImmutableStateFields_def transitionAllowed_def
        preserves_iff)
  moreover from this have "captured_of s \<le> captured_of s'" by (rule evolves_captured)
  then have "take (captured_of s) out' = take (captured_of s) (take (captured_of s') out')"
    by (simp add: min_absorb1)
  then have "take (captured_of s) out' = take (captured_of s) out"
    unfolding out'(2) using out'(3) by simp
  ultimately show "\<exists>s'' out'. job_on_disk store I' j s'' out' \<and>
      evolves (k_policy (st_contracts store)) t s'' \<and>
      take (captured_of t) out' = take (captured_of t) out"
    using out'(1) t by blast
next
  obtain ino I1 enc where "lookup_at I j ''output.log'' = Some ino"
    "written_from ino (captured_of s) raw I I1" "replaced u j ''state.json'' enc I1 I'"
    using pub by (auto simp: append_published_def)
  then show "touches {n. lookup_at I j ''output.log'' = Some n}
      ({j} \<times> {name. name \<noteq> ''output.log''}) I I'"
    unfolding written_from_def replaced_def
    by (auto intro!: touches_trans [of "{ino}" "{}" I I1 "{}" "insert (j, ''state.json'') (hidden_in j)" I']
        dest: hidden_names)
qed

lemma append_published_grows:
  assumes "append_published store u j s' raw (captured_of s) I I'"
    and "s' = s\<lparr> ps_Job := (ps_Job s)
           \<lparr> jm_CapturedBytes := jm_CapturedBytes (ps_Job s) + int (length raw) \<rparr> \<rparr>"
    and "job_on_disk store I j s out"
  shows "grown store j s raw I'"
proof -
  obtain out' where "job_on_disk store I' j s' out'"
    "take (captured_of s') out' = take (captured_of s) out @ raw" "captured_of s \<le> length out"
    using append_published_grown [OF assms] by blast
  then show ?thesis
    unfolding grown_def using assms(2)
    by (intro exI [of _ s'] exI [of _ out']) simp
qed

text \<open>The part of the incoming bytes an append to \<open>s\<close> accepts, and what it reports.\<close>

definition accepted_of :: "PersistedJobState \<Rightarrow> bytes \<Rightarrow> bytes" where
  "accepted_of s incoming =
    fst (AcceptedIncomingPrefix policy_v1 (u64_of (jm_CapturedBytes (ps_Job s))) incoming
      (u64_of (jm_OutputLimitBytes (ps_Job s))))"

definition append_report :: "PersistedJobState \<Rightarrow> bytes \<Rightarrow> outputAppend" where
  "append_report s incoming =
    \<lparr> ap_AcceptedBytes = int (length (accepted_of s incoming)),
      ap_LimitReached = (jm_CapturedBytes (ps_Job s) + int (length (accepted_of s incoming)) =
        jm_OutputLimitBytes (ps_Job s)) \<rparr>"

definition sound_job :: "frame \<Rightarrow> bool" where
  "sound_job f \<longleftrightarrow> (\<exists>s out. job_on_disk (fr_store f) (fr_fs f) (fr_job f) s out)"

text \<open>\<open>s\<close> is the state the append found when it had the lock.\<close>

definition appended_to :: "frame \<Rightarrow> PersistedJobState \<Rightarrow> bytes \<Rightarrow> fs \<Rightarrow> bool" where
  "appended_to f s incoming I \<longleftrightarrow>
    seen f s I \<and> (sound_job f \<longrightarrow> grown (fr_store f) (fr_job f) s (accepted_of s incoming) I)"

lemma in_frame_disk:
  "in_frame f D C I F \<Longrightarrow> sound_job f \<Longrightarrow> \<exists>s out. job_on_disk (fr_store f) I (fr_job f) s out"
  unfolding in_frame_def sound_job_def job_step_def job_evolves_def by blast

lemma grown_nothing: "job_on_disk store I j s out \<Longrightarrow> grown store j s [] I"
  unfolding grown_def by (intro exI [of _ s] exI [of _ out]) simp

lemma job_append_locked:
  assumes "working f D C K w" "lj_dir job \<in> D" "\<And>I. K I \<Longrightarrow> state_is f (lj_state job) I"
    and fail: "\<And>e w'. working f D C anything w' \<Longrightarrow> e \<noteq> [] \<Longrightarrow> Q (Inl e) w'"
    and ok: "\<And>w'. working f D C (appended_to f (lj_state job) incoming) w' \<Longrightarrow>
      jm_Status (ps_Job (lj_state job)) = JobStatusRunning \<Longrightarrow>
      Q (Inr (append_report (lj_state job) incoming)) w'"
  shows "wp (append_locked (fr_store f) job incoming) Q w"
proof (rule workingE [OF assms(1)])
  fix I F assume st: "St (fr_euid f) I F w" and fr: "in_frame f D C I F" and K: "K I"
    and same: "\<And>w'. St (fr_euid f) I F w' \<Longrightarrow> working f D C K w'"
  let ?s = "lj_state job"
  have policy: "k_policy (st_contracts (fr_store f)) = policy_v1" using in_frame_jobs(3) [OF fr] .
  obtain b where d: "F (lj_dir job) = Some (fr_job f, b)" using in_frame_dir [OF fr assms(2)] by blast
  have at: "state_at (fr_store f) I (fr_job f) = Some ?s" using assms(3) [OF K] .
  obtain dir where dir: "I (fr_job f) = Some dir"
    using at by (auto simp: state_at_def content_at_def lookup_at_def split: option.splits)
  have pos: "jm_CapturedBytes (ps_Job ?s) = int (captured_of ?s)"
    using state_at_valid [OF at] by (simp add: well_formed_state_def capture_bounded_checked)
  have no: "Q (Inl e) w'" if "St (fr_euid f) I F w'" "e \<noteq> []" for e w'
    using fail [OF working_anything [OF same [OF that(1)]] that(2)] .
  obtain accepted decision where acc: "AcceptedIncomingPrefix policy_v1
      (u64_of (jm_CapturedBytes (ps_Job ?s))) incoming (u64_of (jm_OutputLimitBytes (ps_Job ?s))) =
      (accepted, decision)" by fastforce
  then have a: "accepted_of ?s incoming = accepted" by (simp add: accepted_of_def)
  show ?thesis
  proof (cases "jm_Status (ps_Job ?s) = JobStatusRunning \<and> d_Allowed decision")
    case False
    then show ?thesis using no [OF st] by (auto simp: append_locked_def Let_def policy acc)
  next
    case True
    have grown: "Q (Inr (append_report ?s incoming)) w'"
      if "St (fr_euid f) I' F w'" "job_step (fr_store f) (fr_job f) I I'"
        "\<And>out. job_on_disk (fr_store f) I (fr_job f) ?s out \<Longrightarrow>
           grown (fr_store f) (fr_job f) ?s accepted I'" for I' w'
    proof (rule ok, rule workingI [OF that(1) in_frame_moved [OF fr that(2)]])
      show "appended_to f ?s incoming I'"
        using in_frame_disk [OF fr] that(3) at seen_moved [OF fr at that(2)]
        by (auto simp: appended_to_def a job_on_disk_def)
    qed (use True in simp)
    have "wp (append_accepted (fr_store f) job accepted (append_report ?s incoming)
        (jm_CapturedBytes (ps_Job ?s) + int (length accepted))) Q w"
    proof (rule wp_append_accepted [OF st d pos refl], goal_cases)
      case (1 e w')
      then show ?case using no by simp
    next
      case (2 w')
      then show ?case
        using grown [OF 2(1) job_step_refl] grown_nothing by simp
    next
      case (3 e m I' w')
      then show ?case
        using fail job_changed [OF fr job_step_appended [OF policy dir 3(1) at] 3(2)] by simp
    next
      case (4 e I' w')
      then show ?case
        using fail job_changed [OF fr append_published_step [OF 4(1) at refl] 4(2)] by simp
    next
      case (5 I' w')
      show ?case
        by (rule grown [OF 5(2) append_published_step [OF 5(1) at refl]],
            rule append_published_grows [OF 5(1) refl])
    qed
    then show ?thesis
      using True by (simp add: append_locked_def Let_def policy acc append_report_def a)
  qed
qed

subsection \<open>The store's updates\<close>

lemma job_appendOutput:
  assumes "working f D C K w"
    and fail: "\<And>e w'. working f D C anything w' \<Longrightarrow> e \<noteq> [] \<Longrightarrow> Q (Inl e) w'"
    and ok: "\<And>s w'. working f D C (appended_to f s incoming) w' \<Longrightarrow>
      jm_Status (ps_Job s) = JobStatusRunning \<Longrightarrow> Q (Inr (append_report s incoming)) w'"
  shows "wp (appendOutput (fr_store f) (fr_jobID f) incoming) Q w"
  unfolding appendOutput_def wp_bind
proof (rule job_openLockedJobContext [OF assms(1)], goal_cases)
  case (1 e w')
  then show ?case using fail by simp
next
  case (2 job w')
  show ?case
    unfolding sum.case wp_bind
    by (rule job_append_locked [OF 2(2)])
      (simp_all, (erule job_locked_close [OF _ 2(1)],
        force simp: with_close_def intro: fail working_anything ok)+)
qed

lemma job_publishState:
  assumes "working f D C K w"
    and "\<And>e w'. working f D C (\<lambda>I. e = [] \<longrightarrow> state_is f next_state I) w' \<Longrightarrow> Q e w'"
  shows "wp (publishState (fr_store f) (fr_jobID f) next_state) Q w"
  unfolding publishState_def wp_bind
proof (rule job_openLockedJobContext [OF assms(1)], goal_cases)
  case (1 e w')
  then show ?case using assms(2) [OF working_when [OF 1(1)]] by simp
next
  case (2 job w')
  show ?case
  proof (cases "jm_Status (ps_Job next_state) = jm_Status (ps_Job (lj_state job))")
    case True
    then have "transitionAllowed policy_v1 (lj_state job) next_state"
      by (simp add: transitionAllowed_def)
    then show ?thesis
      using True
      by (simp, intro job_publishStateLocked [OF 2(2)]) (simp_all, erule job_locked_close [OF _ 2(1)],
        simp, rule assms(2), erule working_when, simp)
  next
    case False
    then show ?thesis
      by (simp, intro job_locked_close [OF 2(2,1)])
        (simp, rule assms(2), erule working_when, simp)
  qed
qed

text \<open>What holds of the job's state does not mind other files of the job to change.\<close>

definition about_state :: "frame \<Rightarrow> (fs \<Rightarrow> bool) \<Rightarrow> bool" where
  "about_state f K \<longleftrightarrow>
    (\<forall>I I'. (\<forall>raw. content_at I (fr_job f) ''state.json'' = Some raw \<longrightarrow>
               content_at I' (fr_job f) ''state.json'' = Some raw) \<longrightarrow> K I \<longrightarrow> K I')"

lemma state_at_content:
  assumes "\<And>raw. content_at I j ''state.json'' = Some raw \<Longrightarrow> content_at I' j ''state.json'' = Some raw"
    and "state_at store I j = Some s"
  shows "state_at store I' j = Some s"
proof -
  obtain raw where "content_at I j ''state.json'' = Some raw"
    using assms(2) by (auto simp: state_at_def split: option.splits)
  then show ?thesis using assms by (auto simp: state_at_def)
qed

lemma about_state_is [simp]: "about_state f (\<lambda>I. c \<longrightarrow> (\<exists>s. P s \<and> state_is f s I))"
  unfolding about_state_def using state_at_content by blast

lemma job_removeTerminalIntent_keeps:
  assumes "working f D C K w" "h \<in> D" "about_state f K" and "\<And>e w'. working f D C K w' \<Longrightarrow> Q e w'"
  shows "wp (removeTerminalIntent h) Q w"
proof -
  have unlink: "wp (unix_Unlinkat h terminalIntentName False) Q' w'"
    if w': "working f D C K w'" and Q': "\<And>e w'. working f D C K w' \<Longrightarrow> Q' e w'" for Q' w'
  proof (rule workingE [OF w'])
    fix I F assume st: "St (fr_euid f) I F w'" and fr: "in_frame f D C I F" and K: "K I"
      and same: "\<And>w'. St (fr_euid f) I F w' \<Longrightarrow> working f D C K w'"
    obtain b where d: "F h = Some (fr_job f, b)" using in_frame_dir [OF fr assms(2)] by blast
    show ?thesis
    proof (rule wp_Unlinkat [OF st], goal_cases)
      case (1 e w')
      then show ?case using Q' same by blast
    next
      case (2 d' b' dir n x w')
      let ?I = "fs_update (fs_update I n unlink_inode) d' (drop_entry terminalIntentName)"
      have d': "d' = fr_job f" using 2(1) d by simp
      have step: "job_step (fr_store f) (fr_job f) I ?I"
        by (rule job_step_touches [OF touches_unlinkat]) (auto simp: d')
      have keep: "content_at ?I (fr_job f) ''state.json'' = Some raw"
        if "content_at I (fr_job f) ''state.json'' = Some raw" for raw
        by (rule content_touches [OF touches_unlinkat that])
          (use intent_names(1) [symmetric] in simp_all)
      have "K ?I" using assms(3) K keep unfolding about_state_def by blast
      then show ?case by (intro Q' workingI [OF 2(7) in_frame_moved [OF fr step]])
    qed
  qed
  show ?thesis
    unfolding removeTerminalIntent_def
    by (insert assms(1,2), (erule job_rules | erule unlink | rule wp_branches | rule assms(4) |
      simp split del: if_split)+)
qed

text \<open>A terminal state that \<open>build\<close> made from a running one is on disk.\<close>

definition published ::
  "frame \<Rightarrow> (PersistedJobState \<Rightarrow> int \<Rightarrow> error + PersistedJobState) \<Rightarrow> fs \<Rightarrow> bool" where
  "published f build I \<longleftrightarrow>
    (\<exists>s. (jm_Status (ps_Job s) \<in> set all_terminal_statuses \<and>
       (\<exists>current now. jm_Status (ps_Job current) = JobStatusRunning \<and> build current now = Inr s)) \<and>
       state_is f s I)"

lemma about_published: "about_state f (\<lambda>I. c \<longrightarrow> published f build I)"
  unfolding published_def by (rule about_state_is)

lemma job_publish_terminal_recovering:
  assumes "working f (insert d D) (insert c (insert d C)) K w"
    and "d \<notin> C" "d \<notin> D" "c \<notin> insert d C" "c \<notin> insert d D"
    and build: "\<And>s now. build s now \<noteq> Inl []"
    and Q: "\<And>e w'. working f D C (\<lambda>I. e = [] \<longrightarrow> published f build I) w' \<Longrightarrow> Q e w'"
  shows "wp (publish_terminal_recovering (fr_store f) (fr_jobID f) build d c) Q w"
proof -
  have close: "wp (closeRecovery c d) Q' w'"
    if "working f (insert d D) (insert c (insert d C)) K' w'"
      "\<And>e w'. working f D C K' w' \<Longrightarrow> Q' e w'" for K' Q' w'
    by (rule job_closeRecovery [OF that(1)]) (use assms(2-5) that(2) in simp_all)
  have policy: "k_policy (st_contracts (fr_store f)) = policy_v1"
    using assms(1) by (auto simp: working_def in_frame_def)
  have failed: "working f D C K' w' \<Longrightarrow> e \<noteq> [] \<Longrightarrow> Q e w'" for e w' K'
    by (rule Q) (erule working_when, simp)
  show ?thesis
    unfolding publish_terminal_recovering_def wp_bind
  proof (rule job_createTerminalIntent [OF assms(1)], rule wp_if, goal_cases)
    case (1 e w1)
    then show ?case unfolding wp_bind by (elim close) (simp add: failed)
  next
    case (2 e w1)
    show ?case
      unfolding wp_bind
    proof (rule job_openLocked(2) [OF 2(1)], goal_cases)
      case (1 e w2)
      then show ?case
        unfolding sum.case wp_bind
        by (elim job_clearTerminalIntent) (erule close, simp add: failed)
    next
      case (2 job w2)
      let ?D = "insert (lj_dir job) (insert d D)"
      let ?C = "insert (lj_stateLock job) (insert (lj_dir job) (insert c (insert d C)))"
      have finish: "wp (do {
             intentErr \<leftarrow> removeTerminalIntent (lj_dir job);
             stateCloseErr \<leftarrow> locked_close job;
             closeErr \<leftarrow> closeRecovery c d;
             State_Monad.return (errors_Join [operationErr, intentErr, stateCloseErr, closeErr]) }) Q w3"
        if w3: "working f ?D ?C (\<lambda>I. operationErr = [] \<longrightarrow> published f build I) w3"
        for operationErr w3
        unfolding wp_bind
        by (rule job_removeTerminalIntent_keeps [OF w3 _ about_published], simp,
            erule job_locked_close [OF _ 2(1)], erule close, simp, rule Q, erule working_when, simp)
      show ?case
        unfolding sum.case wp_bind
      proof (rule job_unix_milli_now [OF 2(2)], goal_cases)
        case (1 now w3)
        have stop: "working f ?D ?C (\<lambda>I. e = [] \<longrightarrow> published f build I) w3" if "e \<noteq> []" for e
          using that by (intro working_when [OF 1]) simp
        show ?case
        proof (cases "build (lj_state job) now")
          case (Inl e)
          then have "e \<noteq> []" using build [of "lj_state job" now] by auto
          then show ?thesis
            using finish [OF stop] unfolding Inl sum.case wp_bind wp_return by blast
        next
          case (Inr s)
          show ?thesis
          proof (cases "jm_Status (ps_Job s) \<noteq> jm_Status (ps_Job (lj_state job)) \<and>
              transitionAllowed policy_v1 (lj_state job) s")
            case False
            then have "(jm_Status (ps_Job s) = jm_Status (ps_Job (lj_state job)) \<or>
                \<not> transitionAllowed (k_policy (st_contracts (fr_store f))) (lj_state job) s) = True"
              by (simp add: policy)
            then show ?thesis
              using finish [OF stop, of "[ErrInvalidStateUpdate]"]
              unfolding Inr sum.case wp_bind wp_return by (simp only: if_True wp_return) blast
          next
            case True
            then have "jm_Status (ps_Job s) \<in> set all_terminal_statuses"
              "jm_Status (ps_Job (lj_state job)) = JobStatusRunning"
              by (auto simp: transition_v1)
            then have goes: "published f build I" if "state_is f s I" for I
              using that Inr unfolding published_def by blast
            have "(jm_Status (ps_Job s) = jm_Status (ps_Job (lj_state job)) \<or>
                \<not> transitionAllowed (k_policy (st_contracts (fr_store f))) (lj_state job) s) = False"
              using True by (simp add: policy)
            moreover have "wp (publishStateLocked (fr_store f) job (fr_jobID f) s) Q' w3"
              if "\<And>e w'. working f ?D ?C (\<lambda>I. e = [] \<longrightarrow> published f build I) w' \<Longrightarrow> Q' e w'" for Q'
              by (rule job_publishStateLocked [OF 1]) (simp, simp, rule conjunct2 [OF True], rule that,
                erule working_when, use goes in blast)
            ultimately show ?thesis
              using finish unfolding Inr sum.case wp_bind by (simp only: if_False)
          qed
        qed
      qed
    qed
  qed
qed

text \<open>
  A publication that reports no error has put a terminal state on disk and given up the runner's
  lease; any other leaves the lease with the runner, unless only its release failed.
\<close>

lemma job_publishTerminalState:
  assumes "working f D C K w" "le_file lease = Some fd" "fd \<in> C" "fd \<notin> D"
    and build: "\<And>s now. build s now \<noteq> Inl []"
    and kept: "\<And>e w'. working f D C anything w' \<Longrightarrow> e \<noteq> [] \<Longrightarrow> Q (lease, e) w'"
    and released: "\<And>e w'. working f D (C - {fd}) (published f build) w' \<Longrightarrow>
      Q (lease\<lparr> le_file := None \<rparr>, e) w'"
  shows "wp (publishTerminalState (fr_store f) (fr_jobID f) lease build) Q w"
proof (cases "le_jobID lease = fr_jobID f")
  case False
  then show ?thesis
    using kept working_anything [OF assms(1)] by (simp add: publishTerminalState_def)
next
  case True
  have D: "D - {fd} = D" using assms(4) by simp
  have recovering: "wp (publish_terminal_recovering (fr_store f) (fr_jobID f) build d c)
      (\<lambda>err. wp (if err \<noteq> noerr then State_Monad.return (lease, err) else releaseLocked lease) Q) w'"
    if "working f (insert d D) (insert c (insert d C)) K' w'"
      "d \<notin> C" "d \<notin> D" "c \<notin> insert d C" "c \<notin> insert d D" for d c K' w'
  proof (rule job_publish_terminal_recovering [OF that build], goal_cases)
    case (1 e w2)
    show ?case
    proof (cases "e = []")
      case True
      have "wp (unlock_close fd) (\<lambda>err. wp (State_Monad.return (lease\<lparr> le_file := None \<rparr>, err)) Q) w2"
        by (rule job_unlock_close [OF 1 assms(3)], simp, rule released, erule working_weaken)
          (simp_all add: D True)
      then show ?thesis using True assms(2) by (simp add: releaseLocked_def)
    next
      case False
      then show ?thesis using kept working_anything [OF 1] by simp
    qed
  qed
  have start: "(le_file lease = None \<or> le_jobID lease \<noteq> fr_jobID f) = False"
    using True assms(2) by simp
  show ?thesis
    unfolding publishTerminalState_def start if_False
    by (insert assms(1), (erule job_rules | erule recovering | rule wp_branches |
      rule kept, erule working_anything | simp split del: if_split)+)
qed

end
