(* ===== verification/Control.thy ===== *)
theory Control
  imports Recovery "HOL-Library.Char_ord" "HOL-Library.List_Lexorder"
begin

section \<open>Cancelling, observing, waiting, removing\<close>

text \<open>
  The operations behind the manager's interface: \<open>cancel_unix.go\<close>, \<open>observe_unix.go\<close>,
  \<open>wait_unix.go\<close>, \<open>remove_unix.go\<close> and \<open>control_unix.go\<close>, with the requests of \<open>control.go\<close>. Times are
  readings of the monotonic clock in nanoseconds.
\<close>

subsection \<open>Cancellation\<close>

definition job_access :: "Store \<Rightarrow> PersistedJobState \<Rightarrow> AccessContext" where
  "job_access store s =
    \<lparr> ac_JobWorkspace = jm_WorkspacePath (ps_Job s), ac_RequestWorkspace = st_workspace store,
      ac_OwnerSession = jm_OwnerSessionID (ps_Job s), ac_ActorSession = st_sessionID store \<rparr>"

definition cancelLocked :: "Store \<Rightarrow> lockedJob \<Rightarrow> JobID \<Rightarrow> CancellationResult result io" where
  "cancelLocked store job jobID =
    (let policy = k_policy (st_contracts store); s = lj_state job;
         authorization = AuthorizeMutation policy (job_access store s) in
     if \<not> d_Allowed authorization
     then State_Monad.return (Inl (decisionError (d_Code authorization)))
     else
       let decision = EvaluateCancellation policy
             \<lparr> cc_Status = jm_Status (ps_Job s), cc_AlreadyRequested = (ps_Cancellation s \<noteq> None) \<rparr> in
       if \<not> d_Allowed (cd_Decision decision)
       then State_Monad.return (Inl (decisionError (d_Code (cd_Decision decision))))
       else if cd_PersistRequest decision then do {
         now \<leftarrow> unix_milli_now;
         err \<leftarrow> publishStateLocked store job jobID (cancelledState s (st_sessionID store) now);
         State_Monad.return
           (if err \<noteq> noerr then Inl err
            else Inr (cancellationResult (cancelledState s (st_sessionID store) now)
                        (d_Code (cd_Decision decision)))) }
       else State_Monad.return (Inr (cancellationResult s (d_Code (cd_Decision decision)))))"

definition cancelActive :: "Store \<Rightarrow> JobID \<Rightarrow> int \<Rightarrow> CancellationResult result io" where
  "cancelActive store jobID deadline = do {
     remaining \<leftarrow> time_Until deadline;
     if remaining \<le> 0 then State_Monad.return (Inl [ErrStateLockTimeout])
     else do {
       opened \<leftarrow> openLockedJobWith store jobID lockStateFile;
       case opened of
         Inl err \<Rightarrow> State_Monad.return (Inl err)
       | Inr job \<Rightarrow> do {
           r \<leftarrow> cancelLocked store job jobID;
           closeErr \<leftarrow> locked_close job;
           State_Monad.return (with_close closeErr r) } } }"

definition cancelCurrent :: "Store \<Rightarrow> JobID \<Rightarrow> CancellationResult result io" where
  "cancelCurrent store jobID = do {
     opened \<leftarrow> openLockedJobContext store jobID;
     case opened of
       Inl err \<Rightarrow> State_Monad.return (Inl err)
     | Inr job \<Rightarrow> do {
         r \<leftarrow> cancelLocked store job jobID;
         closeErr \<leftarrow> locked_close job;
         State_Monad.return (with_close closeErr r) } }"

definition cancel :: "Store \<Rightarrow> JobID \<Rightarrow> CancellationResult result io" where
  "cancel store jobID = do {
     opened \<leftarrow> openSnapshotJob store jobID;
     case opened of
       Inl err \<Rightarrow> State_Monad.return (Inl err)
     | Inr snapshot \<Rightarrow> do {
         closeErr \<leftarrow> snapshot_close snapshot;
         if closeErr \<noteq> noerr then State_Monad.return (Inl closeErr)
         else
           let s = sj_state snapshot;
               authorization = AuthorizeMutation (k_policy (st_contracts store)) (job_access store s) in
           if \<not> d_Allowed authorization
           then State_Monad.return (Inl (decisionError (d_Code authorization)))
           else if jm_Status (ps_Job s) = JobStatusRunning then do {
             now \<leftarrow> monotonic_now;
             deadline \<leftarrow> State_Monad.return (now + st_lockTimeout store);
             ((runnerActive, err), mutated) \<leftarrow> reconcileRunnerStateWithActiveMutation store jobID deadline
               (Some (cancelActive store jobID deadline));
             if err \<noteq> noerr then State_Monad.return (Inl err)
             else case mutated of
               Some activeResult \<Rightarrow>
                 if runnerActive then State_Monad.return activeResult else cancelCurrent store jobID
             | None \<Rightarrow> cancelCurrent store jobID }
           else cancelCurrent store jobID } }"

subsection \<open>Observation\<close>

definition observationFromState :: "PersistedJobState \<Rightarrow> JobObservation" where
  "observationFromState persisted =
    \<lparr> jo_Job = ps_Job persisted, jo_ProcessResult = ps_Result persisted \<rparr>"

definition openAuthorizedSnapshot :: "Store \<Rightarrow> JobID \<Rightarrow> snapshotJob result io" where
  "openAuthorizedSnapshot store jobID = do {
     opened \<leftarrow> openSnapshotJob store jobID;
     case opened of
       Inl err \<Rightarrow> State_Monad.return (Inl err)
     | Inr job \<Rightarrow>
         let decision = AuthorizeRead (k_policy (st_contracts store)) (job_access store (sj_state job)) in
         if \<not> d_Allowed decision then do {
           closeErr \<leftarrow> snapshot_close job;
           State_Monad.return (Inl (errors_Join [decisionError (d_Code decision), closeErr])) }
         else State_Monad.return (Inr job) }"

definition openObservedSnapshot :: "Store \<Rightarrow> JobID \<Rightarrow> snapshotJob result io" where
  "openObservedSnapshot store jobID = do {
     ctxErr \<leftarrow> ctx_Err;
     if ctxErr \<noteq> noerr then State_Monad.return (Inl ctxErr)
     else do {
       opened \<leftarrow> openAuthorizedSnapshot store jobID;
       case opened of
         Inl err \<Rightarrow> State_Monad.return (Inl err)
       | Inr job \<Rightarrow>
           if jm_Status (ps_Job (sj_state job)) \<noteq> JobStatusRunning
           then State_Monad.return (Inr job)
           else do {
             now \<leftarrow> monotonic_now;
             deadline \<leftarrow> State_Monad.return (now + st_lockTimeout store);
             waitErr \<leftarrow> waitForTerminalIntent store jobID deadline;
             closeErr \<leftarrow> snapshot_close job;
             if waitErr \<noteq> noerr then State_Monad.return (Inl (errors_Join [waitErr, closeErr]))
             else if closeErr \<noteq> noerr then State_Monad.return (Inl closeErr)
             else do {
               reopened \<leftarrow> openAuthorizedSnapshot store jobID;
               case reopened of
                 Inl err \<Rightarrow> State_Monad.return (Inl err)
               | Inr job \<Rightarrow>
                   if jm_Status (ps_Job (sj_state job)) \<noteq> JobStatusRunning
                   then State_Monad.return (Inr job)
                   else do {
                     (runnerActive, err) \<leftarrow> reconcileRunnerState store jobID deadline;
                     if err \<noteq> noerr then do {
                       closeErr \<leftarrow> snapshot_close job;
                       State_Monad.return (Inl (errors_Join [err, closeErr])) }
                     else if runnerActive then State_Monad.return (Inr job)
                     else do {
                       closeErr \<leftarrow> snapshot_close job;
                       if closeErr \<noteq> noerr then State_Monad.return (Inl closeErr)
                       else openAuthorizedSnapshot store jobID } } } } } }"

definition store_status :: "Store \<Rightarrow> JobID \<Rightarrow> JobObservation result io" where
  "store_status store jobID = do {
     opened \<leftarrow> openObservedSnapshot store jobID;
     case opened of
       Inl err \<Rightarrow> State_Monad.return (Inl err)
     | Inr job \<Rightarrow> do {
         closeErr \<leftarrow> snapshot_close job;
         State_Monad.return (with_close closeErr (Inr (observationFromState (sj_state job)))) } }"

definition outputSnapshot :: "Store \<Rightarrow> snapshotJob \<Rightarrow> OutputPayload \<Rightarrow> OutputObservation result io" where
  "outputSnapshot store job payload = do {
     rd \<leftarrow> readOutputSnapshot job;
     State_Monad.return (case rd of
       Inl err \<Rightarrow> Inl err
     | Inr raw \<Rightarrow>
         (case ResolveOutputRange (k_policy (st_contracts store)) payload
                 (jm_CapturedBytes (ps_Job (sj_state job))) of
            (resolved, decision) \<Rightarrow>
              if \<not> d_Allowed decision then Inl (decisionError (d_Code decision))
              else (case Output (k_policy (st_contracts store)) raw
                          \<lparr> ox_Range = resolved,
                            ox_Terminal = (jm_Status (ps_Job (sj_state job)) \<noteq> JobStatusRunning) \<rparr> of
                      (chunk, decision) \<Rightarrow>
                        if \<not> d_Allowed decision then Inl (decisionError (d_Code decision))
                        else Inr \<lparr> oo_Observation = observationFromState (sj_state job),
                                   oo_Output = chunk \<rparr>))) }"

record StatusRequest =
  sr_Invocation :: TrustedInvocation
  sr_JobID :: JobID

record OutputRequest =
  ot_Invocation :: TrustedInvocation
  ot_JobID :: JobID
  ot_StartCursorBytes :: "ByteCursor option"
  ot_EndCursorBytes :: "ByteCursor option"

definition store_output :: "Store \<Rightarrow> OutputRequest \<Rightarrow> OutputObservation result io" where
  "store_output store request = do {
     opened \<leftarrow> openObservedSnapshot store (ot_JobID request);
     case opened of
       Inl err \<Rightarrow> State_Monad.return (Inl err)
     | Inr job \<Rightarrow> do {
         r \<leftarrow> outputSnapshot store job
               \<lparr> op_EndCursorBytes = ot_EndCursorBytes request, op_JobID = ot_JobID request,
                 op_StartCursorBytes = ot_StartCursorBytes request \<rparr>;
         closeErr \<leftarrow> snapshot_close job;
         State_Monad.return (with_close closeErr r) } }"

text \<open>The loop of \<open>list\<close> over the entries of the jobs directory.\<close>

primrec list_entries ::
  "Store \<Rightarrow> (string \<times> filekind) list \<Rightarrow> JobMetadata list \<Rightarrow> JobMetadata list result io" where
  "list_entries store [] jobs = State_Monad.return (Inr jobs)"
| "list_entries store (entry # entries) jobs =
    (if has_prefix (fst entry) ''.starting-'' then list_entries store entries jobs
     else if snd entry \<noteq> S_IFDIR \<or> \<not> validJobID (fst entry)
     then State_Monad.return (Inl [ErrUnsafeFilesystem])
     else do {
       r \<leftarrow> store_status store (fst entry);
       case r of
         Inl err \<Rightarrow>
           if errors_Is err ErrJobNotFound then list_entries store entries jobs
           else State_Monad.return (Inl err)
       | Inr observation \<Rightarrow> list_entries store entries (jobs @ [jo_Job observation]) })"

definition store_list :: "Store \<Rightarrow> ListResult result io" where
  "store_list store = do {
     duplicated \<leftarrow> duplicateCloseOnExec (st_jobs store);
     case duplicated of
       Inl err \<Rightarrow> State_Monad.return (Inl err)
     | Inr reader \<Rightarrow> do {
         entries \<leftarrow> file_ReadDir reader;
         closeErr \<leftarrow> file_Close reader;
         case entries of
           Inl readErr \<Rightarrow> State_Monad.return (Inl (errors_Join [readErr, closeErr]))
         | Inr names \<Rightarrow>
             if closeErr \<noteq> noerr then State_Monad.return (Inl (errors_Join [noerr, closeErr]))
             else do {
               listed \<leftarrow> list_entries store names [];
               State_Monad.return (case listed of
                 Inl err \<Rightarrow> Inl err
               | Inr jobs \<Rightarrow> Inr \<lparr> lr_Jobs = sort_key jm_JobID jobs \<rparr>) } } }"

subsection \<open>Removal\<close>

definition runnerLeaseActive :: "Store \<Rightarrow> JobID \<Rightarrow> (bool \<times> error) io" where
  "runnerLeaseActive store jobID = do {
     opened \<leftarrow> openDirectoryAt (st_jobs store) jobID True;
     case opened of
       Inl err \<Rightarrow> State_Monad.return (False, err)
     | Inr directory \<Rightarrow> do {
         lock \<leftarrow> openPrivateFileAt directory ''runner.lock'' {O_RDWR};
         case lock of
           Inl err \<Rightarrow> do {
             dirErr \<leftarrow> file_Close directory;
             State_Monad.return (False, errors_Join [err, dirErr]) }
         | Inr runnerLock \<Rightarrow> do {
             lockErr \<leftarrow> lockFile runnerLock True;
             if lockErr \<noteq> noerr then do {
               runnerErr \<leftarrow> file_Close runnerLock;
               dirErr \<leftarrow> file_Close directory;
               State_Monad.return
                 (if errors_Is lockErr ErrRunnerActive then (True, errors_Join [runnerErr, dirErr])
                  else (False, errors_Join [lockErr, runnerErr, dirErr])) }
             else do {
               runnerErr \<leftarrow> unlock_close runnerLock;
               dirErr \<leftarrow> file_Close directory;
               State_Monad.return (False, errors_Join [runnerErr, dirErr]) } } } }"

text \<open>The part of \<open>removeTerminal\<close> that holds the runner's lock and the job's state lock.\<close>

definition remove_locked :: "Store \<Rightarrow> JobID \<Rightarrow> handle \<Rightarrow> lockedJob \<Rightarrow> error io" where
  "remove_locked store jobID runnerLock job = do {
     (contentsRemoved, operationErr) \<leftarrow>
       (let policy = k_policy (st_contracts store);
            authorization = AuthorizeMutation policy (job_access store (lj_state job)) in
        if \<not> d_Allowed authorization
        then State_Monad.return (False, decisionError (d_Code authorization))
        else
          let decision = AuthorizeRemoval policy (jm_Status (ps_Job (lj_state job))) in
          if \<not> d_Allowed decision
          then State_Monad.return
            (False, if d_Code decision = CodeActiveJob then [ErrActiveJob] else [ErrCorruptState])
          else removeDirectoryContents (lj_dir job));
     stateCloseErr \<leftarrow> locked_close job;
     runnerCloseErr \<leftarrow> unlock_close runnerLock;
     if \<not> contentsRemoved
     then State_Monad.return (errors_Join [operationErr, stateCloseErr, runnerCloseErr])
     else do {
       removeErr \<leftarrow> removeDirectory (st_jobs store) jobID;
       State_Monad.return
         (errors_Join [errors_Join [operationErr, stateCloseErr, runnerCloseErr], removeErr]) } }"

text \<open>The part of \<open>removeTerminal\<close> after the runner was found gone.\<close>

definition remove_inactive :: "Store \<Rightarrow> JobID \<Rightarrow> error io" where
  "remove_inactive store jobID = do {
     opened \<leftarrow> openDirectoryAt (st_jobs store) jobID True;
     case opened of
       Inl err \<Rightarrow> State_Monad.return err
     | Inr directory \<Rightarrow> do {
         lock \<leftarrow> openPrivateFileAt directory ''runner.lock'' {O_RDWR};
         case lock of
           Inl err \<Rightarrow> do {
             dirErr \<leftarrow> file_Close directory;
             State_Monad.return (errors_Join [err, dirErr]) }
         | Inr runnerLock \<Rightarrow> do {
             lockErr \<leftarrow> lockFile runnerLock True;
             if lockErr \<noteq> noerr then do {
               runnerErr \<leftarrow> file_Close runnerLock;
               dirErr \<leftarrow> file_Close directory;
               State_Monad.return (errors_Join [lockErr, runnerErr, dirErr]) }
             else do {
               dirErr \<leftarrow> file_Close directory;
               if dirErr \<noteq> noerr then do {
                 runnerErr \<leftarrow> unlock_close runnerLock;
                 State_Monad.return (errors_Join [dirErr, runnerErr]) }
               else do {
                 locked \<leftarrow> openLockedJobWith store jobID lockStateFile;
                 case locked of
                   Inl err \<Rightarrow> do {
                     runnerErr \<leftarrow> unlock_close runnerLock;
                     State_Monad.return (errors_Join [err, runnerErr]) }
                 | Inr job \<Rightarrow> remove_locked store jobID runnerLock job } } } } }"

definition removeTerminal :: "Store \<Rightarrow> JobID \<Rightarrow> error io" where
  "removeTerminal store jobID = do {
     opened \<leftarrow> openSnapshotJob store jobID;
     case opened of
       Inl err \<Rightarrow> State_Monad.return err
     | Inr snapshot \<Rightarrow> do {
         closeErr \<leftarrow> snapshot_close snapshot;
         if closeErr \<noteq> noerr then State_Monad.return closeErr
         else
           let s = sj_state snapshot;
               authorization = AuthorizeMutation (k_policy (st_contracts store)) (job_access store s) in
           if \<not> d_Allowed authorization then State_Monad.return (decisionError (d_Code authorization))
           else if jm_Status (ps_Job s) = JobStatusRunning then do {
             (active, err) \<leftarrow> runnerLeaseActive store jobID;
             if err \<noteq> noerr then State_Monad.return err
             else if active then State_Monad.return [ErrActiveJob]
             else do {
               now \<leftarrow> monotonic_now;
               (runnerActive, err) \<leftarrow> reconcileRunnerState store jobID (now + st_lockTimeout store);
               if err \<noteq> noerr then State_Monad.return err
               else if runnerActive then State_Monad.return [ErrActiveJob]
               else remove_inactive store jobID } }
           else remove_inactive store jobID } }"

subsection \<open>The manager\<close>

record Config =
  cf_Executable :: string
  cf_StartupTimeout :: int
  cf_TerminationGrace :: int
  cf_PollInterval :: int
  cf_StateLockTimeout :: int
  cf_StateLockPoll :: int

record Manager =
  mg_config :: Config
  mg_contracts :: Contracts

definition manager_openStore :: "Manager \<Rightarrow> TrustedInvocation \<Rightarrow> Store result io" where
  "manager_openStore manager invocation = do {
     opened \<leftarrow> OpenStore invocation (mg_contracts manager);
     State_Monad.return (case opened of
       Inl err \<Rightarrow> Inl err
     | Inr store \<Rightarrow> Inr (store\<lparr> st_lockTimeout := cf_StateLockTimeout (mg_config manager),
                                st_lockPoll := cf_StateLockPoll (mg_config manager) \<rparr>)) }"

text \<open>The shape the manager's operations share: open the store, act, close it.\<close>

definition with_store ::
  "Manager \<Rightarrow> TrustedInvocation \<Rightarrow> (Store \<Rightarrow> 'a result io) \<Rightarrow> 'a result io" where
  "with_store manager invocation operation = do {
     ctxErr \<leftarrow> ctx_Err;
     if ctxErr \<noteq> noerr then State_Monad.return (Inl ctxErr)
     else do {
       opened \<leftarrow> manager_openStore manager invocation;
       case opened of
         Inl err \<Rightarrow> State_Monad.return (Inl err)
       | Inr store \<Rightarrow> do {
           r \<leftarrow> operation store;
           closeErr \<leftarrow> Store_Close store;
           State_Monad.return (with_close closeErr r) } } }"

definition Manager_Status :: "Manager \<Rightarrow> StatusRequest \<Rightarrow> JobObservation result io" where
  "Manager_Status manager request =
    with_store manager (sr_Invocation request) (\<lambda>store. store_status store (sr_JobID request))"

definition Manager_Output :: "Manager \<Rightarrow> OutputRequest \<Rightarrow> OutputObservation result io" where
  "Manager_Output manager request =
    with_store manager (ot_Invocation request) (\<lambda>store. store_output store request)"

record CancelRequest =
  cq_Invocation :: TrustedInvocation
  cq_JobID :: JobID

definition Manager_Cancel :: "Manager \<Rightarrow> CancelRequest \<Rightarrow> CancellationResult result io" where
  "Manager_Cancel manager request =
    with_store manager (cq_Invocation request) (\<lambda>store. cancel store (cq_JobID request))"

record ListRequest =
  lq_Invocation :: TrustedInvocation

definition Manager_List :: "Manager \<Rightarrow> ListRequest \<Rightarrow> ListResult result io" where
  "Manager_List manager request = with_store manager (lq_Invocation request) store_list"

record RemoveRequest =
  rq_Invocation :: TrustedInvocation
  rq_JobID :: JobID

definition Manager_Remove :: "Manager \<Rightarrow> RemoveRequest \<Rightarrow> RemoveResult result io" where
  "Manager_Remove manager request =
    with_store manager (rq_Invocation request) (\<lambda>store. do {
      err \<leftarrow> removeTerminal store (rq_JobID request);
      State_Monad.return
        (if err \<noteq> noerr then Inl err
         else Inr \<lparr> rr_JobID = rq_JobID request, rr_Removed = True \<rparr>) })"

end
