(* ===== verification/Wait.thy ===== *)
theory Wait
  imports Control
begin

section \<open>Waiting for output\<close>

text \<open>
  \<open>wait_unix.go\<close>: a wait polls the job until it is terminal, its deadline is over or no output came
  for the idle time, and then reads the output from its cursor on. Its commit stores the cursor it
  reached as the session's observer. The context a wait derives from its caller's adds a deadline;
  both are read through \<open>ctx_Err\<close>.
\<close>

record WaitRequest =
  wr_Invocation :: TrustedInvocation
  wr_JobID :: JobID
  wr_CursorBytes :: "ByteCursor option"
  wr_Timeout :: int
  wr_IdleTimeout :: int

record PreparedWait =
  pw_Observation :: OutputObservation
  pw_Reason :: ObservationReason
  pw_manager :: Manager
  pw_invocation :: TrustedInvocation
  pw_jobID :: JobID
  pw_cursor :: ByteCursor
  pw_updatedAt :: TimestampUnixMs
  pw_output :: OutputChunk
  pw_committed :: bool

definition millisecond :: int where "millisecond = 1000000"

subsection \<open>One look at the job\<close>

text \<open>The loops that look for a session's observer: its index and value.\<close>

fun find_observer :: "SessionID \<Rightarrow> ObserverCursor list \<Rightarrow> (nat \<times> ObserverCursor) option" where
  "find_observer sessionID [] = None"
| "find_observer sessionID (observer # rest) =
    (if oc_SessionID observer = sessionID then Some (0, observer)
     else map_option (\<lambda>(i, found). (Suc i, found)) (find_observer sessionID rest))"

definition resolve_cursor :: "Store \<Rightarrow> PersistedJobState \<Rightarrow> SessionID \<Rightarrow> ByteCursor option \<Rightarrow> ByteCursor"
  where "resolve_cursor store s sessionID explicit =
    ResolveWaitCursor (k_policy (st_contracts store))
      \<lparr> wc_Explicit = explicit,
        wc_Observer = map_option snd (find_observer sessionID (ps_Observers s)) \<rparr>"

definition waitMetadata ::
  "Store \<Rightarrow> JobID \<Rightarrow> SessionID \<Rightarrow> ByteCursor option \<Rightarrow> (JobObservation \<times> ByteCursor) result io" where
  "waitMetadata store jobID sessionID explicit = do {
     opened \<leftarrow> openObservedSnapshot store jobID;
     case opened of
       Inl err \<Rightarrow> State_Monad.return (Inl err)
     | Inr job \<Rightarrow> do {
         closeErr \<leftarrow> snapshot_close job;
         State_Monad.return (with_close closeErr
           (let resolved = resolve_cursor store (sj_state job) sessionID explicit;
                decision = ValidateCursor (k_policy (st_contracts store))
                  \<lparr> cu_Cursor = resolved, cu_Captured = jm_CapturedBytes (ps_Job (sj_state job)) \<rparr> in
            if \<not> d_Allowed decision then Inl (decisionError (d_Code decision))
            else Inr (observationFromState (sj_state job), resolved))) } }"

definition waitOutput :: "Store \<Rightarrow> JobID \<Rightarrow> ByteCursor \<Rightarrow> OutputObservation result io" where
  "waitOutput store jobID cursor = do {
     opened \<leftarrow> openObservedSnapshot store jobID;
     case opened of
       Inl err \<Rightarrow> State_Monad.return (Inl err)
     | Inr job \<Rightarrow> do {
         r \<leftarrow> outputSnapshot store job
               \<lparr> op_EndCursorBytes = None, op_JobID = jobID, op_StartCursorBytes = Some cursor \<rparr>;
         closeErr \<leftarrow> snapshot_close job;
         State_Monad.return (with_close closeErr r) } }"

text \<open>The look a wait takes when its own deadline is over; the closing error is dropped here.\<close>

definition waitSnapshot ::
  "Store \<Rightarrow> JobID \<Rightarrow> SessionID \<Rightarrow> ByteCursor option \<Rightarrow> (OutputObservation \<times> ByteCursor) result io" where
  "waitSnapshot store jobID sessionID explicit =
    (if \<not> validJobID jobID then State_Monad.return (Inl [ErrInvalidJobID])
     else do {
       opened \<leftarrow> openDirectoryAt (st_jobs store) jobID True;
       case opened of
         Inl err \<Rightarrow> State_Monad.return (Inl err)
       | Inr directory \<Rightarrow> do {
           stored \<leftarrow> readState store directory jobID;
           r \<leftarrow> (case stored of
             Inl err \<Rightarrow> State_Monad.return (Inl err)
           | Inr persisted \<Rightarrow>
               let decision = AuthorizeRead (k_policy (st_contracts store)) (job_access store persisted) in
               if \<not> d_Allowed decision
               then State_Monad.return (Inl (decisionError (d_Code decision)))
               else
                 let resolved = resolve_cursor store persisted sessionID explicit in do {
                 observation \<leftarrow> outputSnapshot store \<lparr> sj_dir = directory, sj_state = persisted \<rparr>
                   \<lparr> op_EndCursorBytes = None, op_JobID = jobID,
                     op_StartCursorBytes = Some resolved \<rparr>;
                 State_Monad.return (case observation of
                   Inl err \<Rightarrow> Inl err | Inr observed \<Rightarrow> Inr (observed, resolved)) });
           _ \<leftarrow> file_Close directory;
           State_Monad.return r } })"

subsection \<open>The wait\<close>

definition observationReason :: "OutputObservation \<Rightarrow> int \<Rightarrow> int \<Rightarrow> ObservationReason" where
  "observationReason observation now absoluteDeadline =
    (if jm_Status (jo_Job (oo_Observation observation)) \<noteq> JobStatusRunning
     then ObservationReasonTerminal
     else if \<not> now < absoluteDeadline then ObservationReasonObservationTimeout
     else ObservationReasonOutputIdle)"

text \<open>\<open>now\<close> has both clocks: milliseconds since the epoch and the monotonic reading.\<close>

definition newPreparedWait ::
  "Manager \<Rightarrow> WaitRequest \<Rightarrow> OutputObservation \<Rightarrow> int \<times> int \<Rightarrow> int \<Rightarrow> PreparedWait" where
  "newPreparedWait manager request observation now absoluteDeadline =
    (let job = jo_Job (oo_Observation observation);
         bounded = max (fst now) (jm_CreatedAtUnixMs job);
         updatedAt = (case jm_FinishedAtUnixMs job of None \<Rightarrow> bounded | Some f \<Rightarrow> min bounded f) in
     \<lparr> pw_Observation = observation,
       pw_Reason = observationReason observation (snd now) absoluteDeadline,
       pw_manager = manager, pw_invocation = wr_Invocation request, pw_jobID = wr_JobID request,
       pw_cursor = ck_NextCursorBytes (oo_Output observation), pw_updatedAt = updatedAt,
       pw_output = oo_Output observation, pw_committed = False \<rparr>)"

text \<open>The read at the end of a wait, which falls back to a plain look when only the deadline is over.\<close>

definition wait_read ::
  "Store \<Rightarrow> JobID \<Rightarrow> SessionID \<Rightarrow> ByteCursor option \<Rightarrow> ByteCursor \<Rightarrow> OutputObservation result io" where
  "wait_read store jobID sessionID cursor resolved = do {
     r \<leftarrow> waitOutput store jobID resolved;
     case r of
       Inr observation \<Rightarrow> State_Monad.return (Inr observation)
     | Inl err \<Rightarrow>
         if \<not> errors_Is err ContextDeadlineExceeded then State_Monad.return (Inl err)
         else do {
           ctxErr \<leftarrow> ctx_Err;
           if ctxErr \<noteq> noerr then State_Monad.return (Inl err)
           else do {
             snapshot \<leftarrow> waitSnapshot store jobID sessionID cursor;
             State_Monad.return (case snapshot of
               Inl snapshotErr \<Rightarrow> Inl snapshotErr | Inr (observation, _) \<Rightarrow> Inr observation) } } }"

primrec wait_loop ::
  "nat \<Rightarrow> Manager \<Rightarrow> Store \<Rightarrow> WaitRequest \<Rightarrow> int \<Rightarrow> int \<Rightarrow> ByteCursor option \<Rightarrow> ByteCursor \<Rightarrow> int \<Rightarrow>
   PreparedWait result io" where
  "wait_loop 0 manager store request absoluteDeadline idle cursor lastCaptured idleDeadline = do {
     hang; State_Monad.return (Inl gone) }"
| "wait_loop (Suc rounds) manager store request absoluteDeadline idle cursor lastCaptured idleDeadline = do {
     looked \<leftarrow> waitMetadata store (wr_JobID request) (ti_sessionID (wr_Invocation request)) cursor;
     case looked of
       Inl err \<Rightarrow>
         if \<not> errors_Is err ContextDeadlineExceeded then State_Monad.return (Inl err)
         else do {
           ctxErr \<leftarrow> ctx_Err;
           if ctxErr \<noteq> noerr then State_Monad.return (Inl err)
           else do {
             snapshot \<leftarrow> waitSnapshot store (wr_JobID request) (ti_sessionID (wr_Invocation request)) cursor;
             case snapshot of
               Inl snapshotErr \<Rightarrow> State_Monad.return (Inl snapshotErr)
             | Inr (observation, snapshotCursor) \<Rightarrow> do {
                 now \<leftarrow> time_Now;
                 State_Monad.return
                   (Inr (newPreparedWait manager request observation now absoluteDeadline)) } } }
     | Inr (metadata, resolved) \<Rightarrow> do {
         now \<leftarrow> time_Now;
         let captured = jm_CapturedBytes (jo_Job metadata);
             cursor' = (case cursor of None \<Rightarrow> Some resolved | Some c \<Rightarrow> Some c);
             lastCaptured' = (if captured > lastCaptured then captured else lastCaptured);
             idleDeadline' = (if captured > lastCaptured then snd now + idle else idleDeadline) in
         if jm_Status (jo_Job metadata) \<noteq> JobStatusRunning \<or> \<not> snd now < absoluteDeadline \<or>
            \<not> snd now < idleDeadline'
         then do {
           r \<leftarrow> wait_read store (wr_JobID request) (ti_sessionID (wr_Invocation request)) cursor' resolved;
           case r of
             Inl err \<Rightarrow> State_Monad.return (Inl err)
           | Inr observation \<Rightarrow> do {
               returnedAt \<leftarrow> time_Now;
               let job = jo_Job (oo_Observation observation) in
               if jm_Status job = JobStatusRunning \<and> snd returnedAt < absoluteDeadline \<and>
                  jm_CapturedBytes job > lastCaptured'
               then wait_loop rounds manager store request absoluteDeadline idle cursor'
                      (jm_CapturedBytes job) (snd returnedAt + idle)
               else State_Monad.return
                 (Inr (newPreparedWait manager request observation returnedAt absoluteDeadline)) } }
         else do {
           _ \<leftarrow> time_Until absoluteDeadline;
           _ \<leftarrow> time_Until idleDeadline';
           doneErr \<leftarrow> poll_timer;
           if doneErr \<noteq> noerr then State_Monad.return (Inl doneErr)
           else wait_loop rounds manager store request absoluteDeadline idle cursor' lastCaptured'
                  idleDeadline' } } }"

definition PrepareWait :: "Manager \<Rightarrow> WaitRequest \<Rightarrow> PreparedWait result io" where
  "PrepareWait manager request = do {
     ctxErr \<leftarrow> ctx_Err;
     if ctxErr \<noteq> noerr then State_Monad.return (Inl ctxErr)
     else
       let policy = k_policy (mg_contracts manager);
           timeout = (if wr_Timeout request = 0 then i64 (WaitTimeout policy * millisecond)
                      else wr_Timeout request);
           idle = (if wr_IdleTimeout request = 0 then i64 (IdleCheckpoint policy * millisecond)
                   else wr_IdleTimeout request) in
       if timeout < millisecond \<or> idle < millisecond
       then State_Monad.return (Inl [ErrInvalidStateUpdate])
       else do {
         opened \<leftarrow> manager_openStore manager (wr_Invocation request);
         case opened of
           Inl err \<Rightarrow> State_Monad.return (Inl err)
         | Inr store \<Rightarrow> do {
             started \<leftarrow> monotonic_now;
             rounds \<leftarrow> loop_fuel;
             r \<leftarrow> wait_loop rounds manager store request (started + timeout) idle
                   (wr_CursorBytes request) (- 1) (started + idle);
             closeErr \<leftarrow> Store_Close store;
             State_Monad.return (with_close closeErr r) } } }"

subsection \<open>The commit\<close>

text \<open>The state \<open>commitWait\<close> publishes: \<open>None\<close> if the stored cursor is already as far.\<close>

definition committedState ::
  "Policy \<Rightarrow> SessionID \<Rightarrow> PreparedWait \<Rightarrow> PersistedJobState \<Rightarrow> error + PersistedJobState option" where
  "committedState policy sessionID prepared s =
    (let found = find_observer sessionID (ps_Observers s);
         current = (case found of
             None \<Rightarrow> \<lparr> oc_CursorBytes = 0, oc_SessionID = sessionID,
                       oc_UpdatedAtUnixMs = jm_CreatedAtUnixMs (ps_Job s) \<rparr>
           | Some (i, observer) \<Rightarrow> observer) in
     if found \<noteq> None \<and> oc_CursorBytes current \<ge> pw_cursor prepared then Inr None
     else
       let updatedAt = (case jm_FinishedAtUnixMs (ps_Job s) of
                          None \<Rightarrow> pw_updatedAt prepared
                        | Some finished \<Rightarrow> min (pw_updatedAt prepared) finished) in
       case ObserverAfter policy
              \<lparr> oa_Action = ActionWait, oa_Current = current, oa_Output = pw_output prepared,
                oa_UpdatedAtUnixMs = updatedAt \<rparr> of
         (nextObserver, decision) \<Rightarrow>
           if \<not> d_Allowed decision then Inl (decisionError (d_Code decision))
           else Inr (Some (s\<lparr> ps_Observers :=
             (case found of
                None \<Rightarrow> ps_Observers s @ [nextObserver]
              | Some (i, _) \<Rightarrow> (ps_Observers s)[i := nextObserver]) \<rparr>)))"

definition commitWait :: "Store \<Rightarrow> PreparedWait \<Rightarrow> error io" where
  "commitWait store prepared = do {
     opened \<leftarrow> openLockedJobContext store (pw_jobID prepared);
     case opened of
       Inl err \<Rightarrow> State_Monad.return err
     | Inr job \<Rightarrow> do {
         err \<leftarrow>
           (let policy = k_policy (st_contracts store);
                decision = AuthorizeRead policy (job_access store (lj_state job)) in
            if \<not> d_Allowed decision then State_Monad.return (decisionError (d_Code decision))
            else case committedState policy (st_sessionID store) prepared (lj_state job) of
              Inl err \<Rightarrow> State_Monad.return err
            | Inr None \<Rightarrow> State_Monad.return noerr
            | Inr (Some next_state) \<Rightarrow>
                publishStateLocked store job (pw_jobID prepared) next_state);
         closeErr \<leftarrow> locked_close job;
         State_Monad.return (errors_Join [err, closeErr]) } }"

text \<open>The second result is the prepared wait as the commit leaves it.\<close>

definition PreparedWait_commit :: "PreparedWait \<Rightarrow> (error \<times> PreparedWait) io" where
  "PreparedWait_commit prepared =
    (if pw_committed prepared then State_Monad.return (noerr, prepared)
     else do {
       opened \<leftarrow> manager_openStore (pw_manager prepared) (pw_invocation prepared);
       case opened of
         Inl err \<Rightarrow> State_Monad.return (err, prepared)
       | Inr store \<Rightarrow> do {
           commitErr \<leftarrow> commitWait store prepared;
           closeErr \<leftarrow> Store_Close store;
           State_Monad.return
             (if errors_Join [commitErr, closeErr] \<noteq> noerr
              then (errors_Join [commitErr, closeErr], prepared)
              else (noerr, prepared\<lparr> pw_committed := True \<rparr>)) } })"

end
