(* ===== verification/Observe.thy ===== *)
theory Observe
  imports JobOps Wait
begin

section \<open>What the manager's operations do to a job, and what they report\<close>

text \<open>
  The rules for the operations of \<open>Control\<close> and \<open>Wait\<close>. An observation reports a state that was on
  disk at some moment during the call: \<open>seen\<close> places that state between the one the call found and
  the one it left.
\<close>

subsection \<open>What an action does since it began\<close>

definition always_action :: "Store \<Rightarrow> JobID \<Rightarrow> 'a io \<Rightarrow> bool" where
  "always_action store jobID m \<longleftrightarrow>
    (\<forall>f. fr_store f = store \<longrightarrow> fr_jobID f = jobID \<longrightarrow> job_action f m)"

lemma restrict_UNIV: "F |` UNIV = F"
  by (simp add: restrict_map_def)

lemma job_since:
  assumes "working f D C K w" "always_action (fr_store f) (fr_jobID f) m"
    and Q: "\<And>r w'. working f D C
      (\<lambda>I. \<exists>I0. K I0 \<and> job_step (fr_store f) (fr_job f) I0 I) w' \<Longrightarrow> Q r w'"
  shows "wp m Q w"
proof (rule workingE [OF assms(1)])
  fix I F assume st: "St (fr_euid f) I F w" and fr: "in_frame f D C I F" and K: "K I"
  define g where "g = f\<lparr> fr_fs := I, fr_fds := F \<rparr>"
  have g: "fr_store g = fr_store f" "fr_jobID g = fr_jobID f" "fr_euid g = fr_euid f"
    "fr_fs g = I" "fr_fds g = F" "fr_job g = fr_job f" "fr_jobs g = fr_jobs f"
    by (simp_all add: g_def)
  have "\<exists>dir. I (fr_job f) = Some dir"
    using fr touches_inode unfolding in_frame_def job_step_def by blast
  then have "in_frame g {} {} I F"
    using fr in_frame_jobs(2) [OF fr] by (simp add: in_frame_def g restrict_UNIV)
  then have "working g {} {} anything w"
    by (intro workingI [of g I F]) (simp_all add: st g)
  moreover have "job_action g m"
    using assms(2) g by (simp add: always_action_def)
  ultimately show ?thesis
  proof (rule job_doesD)
    fix r w' assume "working g {} {} anything w'"
    then obtain I' F' where st': "St (fr_euid f) I' F' w'" and fr': "in_frame g {} {} I' F'"
      unfolding working_def g by blast
    then have F': "F' = F" and step: "job_step (fr_store f) (fr_job f) I I'"
      by (auto simp: in_frame_def g restrict_UNIV)
    show "Q r w'"
      by (rule Q, rule workingI [OF st' [unfolded F'] in_frame_moved [OF fr step]]) (use K step in blast)
  qed
qed

lemma action_reconcile: "always_action store jobID (reconcileRunnerState store jobID deadline)"
  unfolding always_action_def by (blast intro: job_doesI job_reconcileRunnerState)

lemma action_waitForTerminalIntent:
  "always_action store jobID (waitForTerminalIntent store jobID deadline)"
  unfolding always_action_def by (blast intro: job_doesI job_waitForTerminalIntent)

lemma job_step_dir: "job_step store j I I' \<Longrightarrow> I j = Some dir \<Longrightarrow> \<exists>dir'. I' j = Some dir'"
  unfolding job_step_def using touches_inode by blast

lemma working_seen_since:
  assumes "working f D C (\<lambda>I. \<exists>I0. seen f s I0 \<and> job_step (fr_store f) (fr_job f) I0 I) w"
  shows "working f D C (seen f s) w"
proof -
  have "seen f s I" if fr: "in_frame f D C I F"
    and I0: "seen f s I0" "job_step (fr_store f) (fr_job f) I0 I" for I F I0
  proof -
    obtain I1 where I1: "job_step (fr_store f) (fr_job f) (fr_fs f) I1" "state_is f s I1"
      "job_step (fr_store f) (fr_job f) I1 I0"
      using I0(1) by (auto simp: seen_def)
    obtain dir where "fr_fs f (fr_job f) = Some dir" using fr by (auto simp: in_frame_def)
    then obtain dir' where "I1 (fr_job f) = Some dir'" using job_step_dir I1(1) by blast
    then have "job_step (fr_store f) (fr_job f) I1 I"
      using job_step_trans in_frame_jobs(3) [OF fr] I1(3) I0(2) by blast
    then show ?thesis using I1(1,2) unfolding seen_def by blast
  qed
  then show ?thesis using assms unfolding working_def by blast
qed

subsection \<open>Snapshots\<close>

lemma job_openSnapshotJob [job_rules]:
  assumes "working f D C K w"
    and "\<And>e w'. working f D C K w' \<Longrightarrow> e \<noteq> [] \<Longrightarrow> Q (Inl e) w'"
    and ok: "\<And>job w'. sj_dir job \<notin> C \<Longrightarrow> sj_dir job \<notin> D \<Longrightarrow>
      working f (insert (sj_dir job) D) (insert (sj_dir job) C)
        (\<lambda>I. K I \<and> state_is f (sj_state job) I) w' \<Longrightarrow>
      jm_JobID (ps_Job (sj_state job)) = fr_jobID f \<Longrightarrow> Q (Inr job) w'"
  shows "wp (openSnapshotJob (fr_store f) (fr_jobID f)) Q w"
proof -
  have ok': "Q (Inr \<lparr> sj_dir = h, sj_state = s \<rparr>) w'"
    if "h \<notin> C" "h \<notin> D" "working f (insert h D) (insert h C) (\<lambda>I. K I \<and> state_is f s I) w'"
      "jm_JobID (ps_Job s) = fr_jobID f" for h s w'
    using ok [of "\<lparr> sj_dir = h, sj_state = s \<rparr>" w'] that by simp
  show ?thesis
    unfolding openSnapshotJob_def
    by (insert assms(1), (erule job_rules | rule wp_branches | rule assms(2), assumption |
      rule ok' | simp split del: if_split)+)
qed

lemma job_snapshot_close [job_rules]:
  assumes "working f D C K w" "sj_dir job \<in> C"
    and "\<And>e w'. working f (D - {sj_dir job}) (C - {sj_dir job}) K w' \<Longrightarrow> Q e w'"
  shows "wp (snapshot_close job) Q w"
  unfolding snapshot_close_def by (rule job_Close [OF assms])

lemma decisionError_not_nil [simp]: "decisionError code \<noteq> []"
  by (simp add: decisionError_def split: Code.split)

lemma job_openAuthorizedSnapshot [job_rules]:
  assumes "working f D C K w"
    and "\<And>e w'. working f D C K w' \<Longrightarrow> e \<noteq> [] \<Longrightarrow> Q (Inl e) w'"
    and "\<And>job w'. sj_dir job \<notin> C \<Longrightarrow> sj_dir job \<notin> D \<Longrightarrow>
      working f (insert (sj_dir job) D) (insert (sj_dir job) C)
        (\<lambda>I. K I \<and> state_is f (sj_state job) I) w' \<Longrightarrow>
      jm_JobID (ps_Job (sj_state job)) = fr_jobID f \<Longrightarrow> Q (Inr job) w'"
  shows "wp (openAuthorizedSnapshot (fr_store f) (fr_jobID f)) Q w"
  unfolding openAuthorizedSnapshot_def Let_def
  by (insert assms(1), (erule job_rules | rule wp_branches | rule assms(2), erule working_when, blast |
    rule assms(3) | simp split del: if_split)+)

text \<open>An observed snapshot holds a state the job had during the call.\<close>

lemma job_reconcile_seen:
  assumes "working f D C (seen f s) w" and "\<And>r w'. working f D C (seen f s) w' \<Longrightarrow> Q r w'"
  shows "wp (reconcileRunnerState (fr_store f) (fr_jobID f) deadline) Q w"
  by (rule job_since [OF assms(1) action_reconcile], rule assms(2), erule working_seen_since)

lemma job_openObservedSnapshot [job_rules]:
  assumes "working f D C K w"
    and fail: "\<And>e w'. working f D C anything w' \<Longrightarrow> e \<noteq> [] \<Longrightarrow> Q (Inl e) w'"
    and ok: "\<And>job w'. sj_dir job \<notin> C \<Longrightarrow> sj_dir job \<notin> D \<Longrightarrow>
      working f (insert (sj_dir job) D) (insert (sj_dir job) C) (seen f (sj_state job)) w' \<Longrightarrow>
      Q (Inr job) w'"
  shows "wp (openObservedSnapshot (fr_store f) (fr_jobID f)) Q w"
proof -
  have found: "Q (Inr job) w'"
    if "sj_dir job \<notin> C" "sj_dir job \<notin> D"
      "working f (insert (sj_dir job) D) (insert (sj_dir job) C) K' w'"
      "\<And>I. K' I \<Longrightarrow> state_is f (sj_state job) I" for job w' K'
    using ok [OF that(1,2) working_seen [OF that(3,4)]] by simp
  have live: "wp (do {
         (runnerActive, err) \<leftarrow> reconcileRunnerState (fr_store f) (fr_jobID f) deadline;
         if err \<noteq> noerr then do {
           closeErr \<leftarrow> snapshot_close job;
           State_Monad.return (Inl (errors_Join [err, closeErr])) }
         else if runnerActive then State_Monad.return (Inr job)
         else do {
           closeErr \<leftarrow> snapshot_close job;
           if closeErr \<noteq> noerr then State_Monad.return (Inl closeErr)
           else openAuthorizedSnapshot (fr_store f) (fr_jobID f) } }) Q w'"
    if "sj_dir job \<notin> C" "sj_dir job \<notin> D"
      "working f (insert (sj_dir job) D) (insert (sj_dir job) C) K' w'"
      "\<And>I. K' I \<Longrightarrow> state_is f (sj_state job) I" for job w' K' deadline
  proof -
    have "working f (insert (sj_dir job) D) (insert (sj_dir job) C) (seen f (sj_state job)) w'"
      by (rule working_seen [OF that(3,4)])
    then show ?thesis
      unfolding wp_bind
      by (rule job_reconcile_seen)
        (insert that(1,2), (erule job_rules | rule wp_branches | rule ok, assumption, assumption, assumption |
          rule fail, erule working_anything |
          rule found, assumption, assumption, assumption | simp split del: if_split)+)
  qed
  show ?thesis
    unfolding openObservedSnapshot_def
    by (insert assms(1), (erule job_rules | simp only: sum.case | rule live, assumption, assumption, assumption |
      rule wp_branches | rule fail, erule working_anything |
      rule found, assumption, assumption, assumption | simp split del: if_split)+)
qed

subsection \<open>Reading output\<close>

definition reads :: "frame \<Rightarrow> PersistedJobState \<Rightarrow> bytes \<Rightarrow> fs \<Rightarrow> bool" where
  "reads f s raw I \<longleftrightarrow>
    (\<exists>out. output_at I (fr_job f) = Some out \<and> captured_of s \<le> length out \<and>
       raw = take (captured_of s) out)"

lemma job_readOutputSnapshot [job_rules]:
  assumes "working f D C K w" "sj_dir job \<in> D"
    and "\<And>e w'. working f D C K w' \<Longrightarrow> e \<noteq> [] \<Longrightarrow> Q (Inl e) w'"
    and "\<And>raw w'. working f D C (\<lambda>I. K I \<and> reads f (sj_state job) raw I) w' \<Longrightarrow> Q (Inr raw) w'"
  shows "wp (readOutputSnapshot job) Q w"
proof (rule workingE [OF assms(1)])
  fix I F assume st: "St (fr_euid f) I F w" and fr: "in_frame f D C I F" and K: "K I"
    and same: "\<And>w'. St (fr_euid f) I F w' \<Longrightarrow> working f D C K w'"
  obtain b where d: "F (sj_dir job) = Some (fr_job f, b)" using in_frame_dir [OF fr assms(2)] by blast
  show ?thesis
  proof (rule wp_readOutputSnapshot [OF st d], goal_cases)
    case (1 e w')
    then show ?case using assms(3) same by simp
  next
    case (2 out w')
    show ?case
      by (rule assms(4), rule workingI [OF 2(1) fr]) (use K 2(2,3) in \<open>auto simp: reads_def\<close>)
  qed
qed

lemma job_outputSnapshot [job_rules]:
  assumes "working f D C K w" "sj_dir job \<in> D"
    and "\<And>e w'. working f D C K w' \<Longrightarrow> e \<noteq> [] \<Longrightarrow> Q (Inl e) w'"
    and "\<And>raw resolved chunk w'. working f D C (\<lambda>I. K I \<and> reads f (sj_state job) raw I) w' \<Longrightarrow>
      ResolveOutputRange (k_policy (st_contracts (fr_store f))) payload
        (jm_CapturedBytes (ps_Job (sj_state job))) = resolved \<Longrightarrow> d_Allowed (snd resolved) \<Longrightarrow>
      Output (k_policy (st_contracts (fr_store f))) raw
        \<lparr> ox_Range = fst resolved,
          ox_Terminal = (jm_Status (ps_Job (sj_state job)) \<noteq> JobStatusRunning) \<rparr> = chunk \<Longrightarrow>
      d_Allowed (snd chunk) \<Longrightarrow>
      Q (Inr \<lparr> oo_Observation = observationFromState (sj_state job), oo_Output = fst chunk \<rparr>) w'"
  shows "wp (outputSnapshot (fr_store f) job payload) Q w"
  unfolding outputSnapshot_def wp_bind
proof (rule job_readOutputSnapshot [OF assms(1,2)], goal_cases)
  case (1 e w')
  then show ?case using assms(3) by simp
next
  case (2 raw w')
  then show ?case
    using assms(3) [OF working_when [OF 2]] assms(4) [OF 2 refl _ refl]
    by (auto split: prod.splits)
qed

lemma job_store_status:
  assumes "working f D C K w"
    and fail: "\<And>e w'. working f D C anything w' \<Longrightarrow> e \<noteq> [] \<Longrightarrow> Q (Inl e) w'"
    and ok: "\<And>s w'. working f D C (seen f s) w' \<Longrightarrow> Q (Inr (observationFromState s)) w'"
  shows "wp (store_status (fr_store f) (fr_jobID f)) Q w"
  unfolding store_status_def with_close_def
  by (insert assms(1), (erule job_rules | simp only: sum.case | rule wp_branches |
    rule fail, erule working_anything | rule ok, assumption | simp)+,
    auto intro: ok fail working_anything)

text \<open>An observation of the output shows the captured bytes of a state the job had.\<close>

definition shows_output ::
  "Policy \<Rightarrow> OutputPayload \<Rightarrow> PersistedJobState \<Rightarrow> bytes \<Rightarrow> OutputObservation \<Rightarrow> bool" where
  "shows_output policy payload s raw observation \<longleftrightarrow>
    (let resolved = ResolveOutputRange policy payload (jm_CapturedBytes (ps_Job s));
         chunk = Output policy raw
           \<lparr> ox_Range = fst resolved, ox_Terminal = (jm_Status (ps_Job s) \<noteq> JobStatusRunning) \<rparr> in
     d_Allowed (snd resolved) \<and> d_Allowed (snd chunk) \<and>
     observation = \<lparr> oo_Observation = observationFromState s, oo_Output = fst chunk \<rparr>)"

lemma job_output_with_close:
  assumes w: "working f (insert (sj_dir job) D) (insert (sj_dir job) C) (seen f (sj_state job)) w"
    and h: "sj_dir job \<notin> C" "sj_dir job \<notin> D"
    and fail: "\<And>e w'. working f D C anything w' \<Longrightarrow> e \<noteq> [] \<Longrightarrow> Q (Inl e) w'"
    and ok: "\<And>s raw observation w'. working f D C (\<lambda>I. seen f s I \<and> reads f s raw I) w' \<Longrightarrow>
      shows_output policy_v1 payload s raw observation \<Longrightarrow> Q (Inr observation) w'"
  shows "wp (do {
    r \<leftarrow> outputSnapshot (fr_store f) job payload;
    closeErr \<leftarrow> snapshot_close job;
    State_Monad.return (with_close closeErr r) }) Q w"
proof -
  have policy: "k_policy (st_contracts (fr_store f)) = policy_v1"
    using w by (auto simp: working_def in_frame_def)
  show ?thesis
    unfolding wp_bind
  proof (rule job_outputSnapshot [OF w], goal_cases)
    case 1
    show ?case by simp
  next
    case (2 e w')
    then show ?case
      using h by (elim job_snapshot_close) (auto simp: with_close_def intro: fail working_anything)
  next
    case (3 raw resolved chunk w')
    have "shows_output policy_v1 payload (sj_state job) raw
        \<lparr> oo_Observation = observationFromState (sj_state job), oo_Output = fst chunk \<rparr>"
      using 3(2-5) by (simp add: shows_output_def Let_def policy)
    then show ?case
      using h 3(1)
      by (elim job_snapshot_close) (auto simp: with_close_def intro: fail working_anything ok)
  qed
qed

lemma job_store_output:
  assumes "working f D C K w" "ot_JobID request = fr_jobID f"
    and fail: "\<And>e w'. working f D C anything w' \<Longrightarrow> e \<noteq> [] \<Longrightarrow> Q (Inl e) w'"
    and ok: "\<And>s raw observation w'. working f D C (\<lambda>I. seen f s I \<and> reads f s raw I) w' \<Longrightarrow>
      shows_output policy_v1 \<lparr> op_EndCursorBytes = ot_EndCursorBytes request, op_JobID = fr_jobID f,
        op_StartCursorBytes = ot_StartCursorBytes request \<rparr> s raw observation \<Longrightarrow>
      Q (Inr observation) w'"
  shows "wp (store_output (fr_store f) request) Q w"
  unfolding store_output_def assms(2) State_Monad.bind_assoc
  apply (subst wp_bind)
  apply (rule job_openObservedSnapshot [OF assms(1)])
   apply (simp add: fail)
  apply (simp only: sum.case)
  apply (rule job_output_with_close; (assumption | rule fail | rule ok); assumption)
  done

end
