(* ===== verification/Mutations.thy ===== *)
theory Mutations
  imports Observe PolicyProps
begin

section \<open>Cancelling a job and committing a wait\<close>

text \<open>
  The rules for the operations of \<open>Control\<close> and \<open>Wait\<close> that change a job's state, and for the
  looks a wait takes. A cancellation that answers has found the actor to be the owner, and its
  answer is made from the state on disk.
\<close>

subsection \<open>Cancellation\<close>

lemma mutation_owner: "d_Allowed (AuthorizeMutation policy_v1 (job_access store s)) \<Longrightarrow>
    jm_OwnerSessionID (ps_Job s) = st_sessionID store \<and> jm_WorkspacePath (ps_Job s) = st_workspace store"
  using access_v1.mutation_same_workspace_owner [of "job_access store s"] by (simp add: job_access_def)

text \<open>What the answer of a cancellation says of the job on disk.\<close>

definition cancelled :: "frame \<Rightarrow> CancellationResult result \<Rightarrow> fs \<Rightarrow> bool" where
  "cancelled f r I \<longleftrightarrow>
    (\<forall>result. r = Inr result \<longrightarrow>
      (\<exists>s code. state_is f s I \<and> result = cancellationResult s code \<and>
         jm_JobID (ps_Job s) = fr_jobID f \<and> jm_OwnerSessionID (ps_Job s) = st_sessionID (fr_store f) \<and>
         (if code = CodeCancellationTerminal then jm_Status (ps_Job s) \<noteq> JobStatusRunning
          else code \<in> {CodeCancellationRequested, CodeCancellationIdempotent} \<and>
            ps_Cancellation s \<noteq> None)))"

lemma cancelled_Inl [simp]: "cancelled f (Inl e) I"
  by (simp add: cancelled_def)

lemma EvaluateCancellation_v1_cases:
  assumes "EvaluateCancellation policy_v1 \<lparr> cc_Status = status, cc_AlreadyRequested = already \<rparr> = d"
    "d_Allowed (cd_Decision d)"
  shows "if cd_PersistRequest d then d_Code (cd_Decision d) = CodeCancellationRequested \<and>
        status = JobStatusRunning \<and> \<not> already
      else if d_Code (cd_Decision d) = CodeCancellationTerminal then status \<noteq> JobStatusRunning
      else d_Code (cd_Decision d) = CodeCancellationIdempotent \<and> already"
  using assms by (auto simp: EvaluateCancellation_def isKnownStatus_v1 split: if_splits)

lemma job_cancelLocked:
  assumes "working f D C K w" "lj_dir job \<in> D" "\<And>I. K I \<Longrightarrow> state_is f (lj_state job) I"
    and "jm_JobID (ps_Job (lj_state job)) = fr_jobID f"
    and Q: "\<And>r w'. working f D C (cancelled f r) w' \<Longrightarrow> Q r w'"
  shows "wp (cancelLocked (fr_store f) job (fr_jobID f)) Q w"
proof -
  let ?s = "lj_state job" and ?p = "k_policy (st_contracts (fr_store f))"
  have policy: "?p = policy_v1" using assms(1) by (auto simp: working_def in_frame_def)
  define d where "d = EvaluateCancellation policy_v1
    \<lparr> cc_Status = jm_Status (ps_Job ?s), cc_AlreadyRequested = (ps_Cancellation ?s \<noteq> None) \<rparr>"
  have no: "Q (Inl e) w'" if "working f D C K' w'" for e K' w'
    by (rule Q, rule working_when [OF that]) simp
  show ?thesis
  proof (cases "d_Allowed (AuthorizeMutation policy_v1 (job_access (fr_store f) ?s)) \<and> d_Allowed (cd_Decision d)")
    case False
    then show ?thesis
      unfolding cancelLocked_def Let_def policy d_def [symmetric] using no [OF assms(1)] by auto
  next
    case True
    note owner = mutation_owner [OF conjunct1 [OF True]]
    note code = EvaluateCancellation_v1_cases [OF d_def [symmetric] conjunct2 [OF True]]
    show ?thesis
    proof (cases "cd_PersistRequest d")
      case False
      have "working f D C (cancelled f (Inr (cancellationResult ?s (d_Code (cd_Decision d))))) w"
        using owner code False assms(4) unfolding cancelled_def
        by (intro working_when [OF assms(1)]) (auto dest!: assms(3) split: if_splits)
      then show ?thesis
        unfolding cancelLocked_def Let_def policy d_def [symmetric] using True False Q by simp
    next
      case persist: True
      have step: "transitionAllowed policy_v1 ?s (cancelledState ?s (st_sessionID (fr_store f)) now)" for now
        by (simp add: transition_v1 cancelledState_def)
      have result: "cancelled f (Inr (cancellationResult s' (d_Code (cd_Decision d)))) I"
        if "state_is f s' I" "s' = cancelledState ?s (st_sessionID (fr_store f)) now" for s' now I
        using owner code persist assms(4) that
        unfolding cancelled_def by (intro allI impI exI [of _ s']) (auto simp: cancelledState_def)
      have "wp (unix_milli_now \<bind> (\<lambda>now.
          publishStateLocked (fr_store f) job (fr_jobID f)
            (cancelledState ?s (st_sessionID (fr_store f)) now) \<bind> (\<lambda>err.
          State_Monad.return (if err \<noteq> noerr then Inl err
            else Inr (cancellationResult (cancelledState ?s (st_sessionID (fr_store f)) now)
                   (d_Code (cd_Decision d))))))) Q w"
        unfolding wp_bind
        by (rule job_unix_milli_now [OF assms(1)], erule job_publishStateLocked [OF _ assms(2,3) step])
          (auto intro!: Q result elim!: working_when)
      then show ?thesis
        unfolding cancelLocked_def Let_def policy d_def [symmetric] using True persist by simp
    qed
  qed
qed

lemma with_close_Inr: "with_close e r = Inr x \<longleftrightarrow> r = Inr x \<and> e = []"
  by (auto simp: with_close_def split: sum.splits)

lemma cancelled_with_close:
  "cancelled f r I \<Longrightarrow> cancelled f (with_close e r) I"
  unfolding cancelled_def by (auto simp: with_close_Inr)

lemma job_cancel_with_close:
  assumes "working f (insert (lj_dir job) D) (insert (lj_stateLock job) (insert (lj_dir job) C))
      (state_is f (lj_state job)) w"
    and h: "holds_job f D C job" and Q: "\<And>r w'. working f D C (cancelled f r) w' \<Longrightarrow> Q r w'"
  shows "wp (do {
    r \<leftarrow> cancelLocked (fr_store f) job (fr_jobID f);
    closeErr \<leftarrow> locked_close job;
    State_Monad.return (with_close closeErr r) }) Q w"
  unfolding wp_bind
  by (rule job_cancelLocked [OF assms(1)])
    (use h in \<open>auto simp: holds_job_def intro!: Q elim!: job_locked_close [OF _ h] working_when
      cancelled_with_close\<close>)

lemma job_cancelActive: "job_does f (cancelActive (fr_store f) (fr_jobID f) deadline) (cancelled f)"
proof (rule job_doesI)
  fix D C K w and Q :: "CancellationResult result \<Rightarrow> world \<Rightarrow> bool"
  assume w: "working f D C K w" and Q: "\<And>r w'. working f D C (cancelled f r) w' \<Longrightarrow> Q r w'"
  have no: "Q (Inl e) w'" if "working f D C K' w'" for e w' K'
    by (rule Q, rule working_when [OF that]) simp
  have found: "wp (do {
      r \<leftarrow> cancelLocked (fr_store f) job (fr_jobID f);
      closeErr \<leftarrow> locked_close job;
      State_Monad.return (with_close closeErr r) }) Q w'"
    if "holds_job f D C job" "working f (insert (lj_dir job) D)
      (insert (lj_stateLock job) (insert (lj_dir job) C)) (\<lambda>I. K' I \<and> state_is f (lj_state job) I) w'"
    for job w' K'
    by (rule job_cancel_with_close [OF working_when [OF that(2)] that(1) Q]) simp_all
  show "wp (cancelActive (fr_store f) (fr_jobID f) deadline) Q w"
    unfolding cancelActive_def
    by (insert w, (erule job_rules | simp only: sum.case | rule found, assumption, assumption |
      rule wp_branches | rule no, assumption | simp split del: if_split)+)
qed

lemma job_cancelCurrent: "job_does f (cancelCurrent (fr_store f) (fr_jobID f)) (cancelled f)"
proof (rule job_doesI)
  fix D C K w and Q :: "CancellationResult result \<Rightarrow> world \<Rightarrow> bool"
  assume w: "working f D C K w" and Q: "\<And>r w'. working f D C (cancelled f r) w' \<Longrightarrow> Q r w'"
  have no: "Q (Inl e) w'" if "working f D C K' w'" for e w' K'
    by (rule Q, rule working_when [OF that]) simp
  show "wp (cancelCurrent (fr_store f) (fr_jobID f)) Q w"
    unfolding cancelCurrent_def
    by (insert w, (erule job_rules | simp only: sum.case | erule job_cancel_with_close, assumption, rule Q |
      assumption | rule wp_branches | rule no, assumption | simp split del: if_split)+)
qed

lemma wp_prod_applied:
  "(\<And>x y. p = (x, y) \<Longrightarrow> wp (b x y z) Q w) \<Longrightarrow> wp ((case p of (x, y) \<Rightarrow> b x y) z) Q w"
  by (cases p) simp

lemma job_cancel: "job_does f (cancel (fr_store f) (fr_jobID f)) (cancelled f)"
proof (rule job_doesI)
  fix D C K w and Q :: "CancellationResult result \<Rightarrow> world \<Rightarrow> bool"
  assume w: "working f D C K w" and Q: "\<And>r w'. working f D C (cancelled f r) w' \<Longrightarrow> Q r w'"
  have no: "Q (Inl e) w'" if "working f D C K' w'" for e w' K'
    by (rule Q, rule working_when [OF that]) simp
  have current: "wp (cancelCurrent (fr_store f) (fr_jobID f)) Q w'" if "working f D C K' w'" for w' K'
    by (rule job_doesD [OF that job_cancelCurrent Q])
  have active: "wp (reconcileRunnerStateWithActiveMutation (fr_store f) (fr_jobID f) deadline
      (Some (cancelActive (fr_store f) (fr_jobID f) deadline))) Q' w'"
    if "working f D C K' w'" "\<And>x w'. working f D C (done_then (cancelled f) (snd x)) w' \<Longrightarrow> Q' x w'"
    for Q' w' K' deadline
    by (rule job_reconcile [OF that(1)])
      (use job_cancelActive that(2) in \<open>simp_all add: action_if_def\<close>)
  show "wp (cancel (fr_store f) (fr_jobID f)) Q w"
    unfolding cancel_def Let_def
    by (insert w, (erule active | erule job_rules | rule wp_branches | rule no, assumption |
      rule wp_prod_applied | rule Q, erule working_when, simp; fail | erule current | simp split del: if_split)+)
qed

subsection \<open>The looks of a wait\<close>

text \<open>An observation of the output that some cursor was the start of.\<close>

definition shows_from :: "frame \<Rightarrow> OutputObservation \<Rightarrow> fs \<Rightarrow> bool" where
  "shows_from f observation I \<longleftrightarrow>
    (\<exists>s raw start. seen f s I \<and> reads f s raw I \<and>
       shows_output policy_v1 \<lparr> op_EndCursorBytes = None, op_JobID = fr_jobID f,
         op_StartCursorBytes = Some start \<rparr> s raw observation)"

lemma job_waitMetadata:
  assumes "working f D C K w" and "\<And>r w'. working f D C anything w' \<Longrightarrow> Q r w'"
  shows "wp (waitMetadata (fr_store f) (fr_jobID f) sessionID explicit) Q w"
  unfolding waitMetadata_def
  by (insert assms(1), (erule job_rules | rule wp_branches | rule assms(2), erule working_anything |
    simp split del: if_split)+)

lemma job_waitOutput:
  assumes "working f D C K w"
    and fail: "\<And>e w'. working f D C anything w' \<Longrightarrow> e \<noteq> [] \<Longrightarrow> Q (Inl e) w'"
    and ok: "\<And>observation w'. working f D C (shows_from f observation) w' \<Longrightarrow> Q (Inr observation) w'"
  shows "wp (waitOutput (fr_store f) (fr_jobID f) cursor) Q w"
  unfolding waitOutput_def
  by (subst wp_bind, rule job_openObservedSnapshot [OF assms(1)], simp add: fail, simp only: sum.case,
      rule job_output_with_close, assumption, assumption, assumption, erule fail, assumption, rule ok,
      erule working_when)
    (auto simp: shows_from_def)

lemma job_waitSnapshot:
  assumes "working f D C K w"
    and fail: "\<And>e w'. working f D C anything w' \<Longrightarrow> Q (Inl e) w'"
    and ok: "\<And>x w'. working f D C (shows_from f (fst x)) w' \<Longrightarrow> Q (Inr x) w'"
  shows "wp (waitSnapshot (fr_store f) (fr_jobID f) sessionID explicit) Q w"
proof -
  have policy: "k_policy (st_contracts (fr_store f)) = policy_v1"
    using assms(1) by (auto simp: working_def in_frame_def)
  have shown: "Q (Inr (\<lparr> oo_Observation = observationFromState s, oo_Output = fst chunk \<rparr>, start)) w'"
    if w': "working f D C (\<lambda>I. K' I \<and> state_is f s I \<and> reads f s raw I) w'"
      and "ResolveOutputRange (k_policy (st_contracts (fr_store f)))
        \<lparr> op_EndCursorBytes = None, op_JobID = fr_jobID f, op_StartCursorBytes = Some start \<rparr>
        (jm_CapturedBytes (ps_Job s)) = resolved" "d_Allowed (snd resolved)"
        "Output (k_policy (st_contracts (fr_store f))) raw
          \<lparr> ox_Range = fst resolved, ox_Terminal = (jm_Status (ps_Job s) \<noteq> JobStatusRunning) \<rparr> = chunk"
        "d_Allowed (snd chunk)"
    for s raw resolved chunk start w' K'
  proof (rule ok)
    have "working f D C (\<lambda>I. seen f s I \<and> reads f s raw I) w'"
      using w' unfolding working_def in_frame_def seen_def by (metis job_step_refl)
    then show "working f D C (shows_from f (fst
        (\<lparr> oo_Observation = observationFromState s, oo_Output = fst chunk \<rparr>, start))) w'"
      by (rule working_when) (use that(2-) in \<open>auto simp: shows_from_def shows_output_def Let_def policy\<close>)
  qed
  show ?thesis
    unfolding waitSnapshot_def Let_def
    by (insert assms(1), (erule job_rules | simp only: sum.case | rule wp_branches |
      rule fail, erule working_anything | rule shown, assumption, assumption, assumption, assumption, assumption |
      simp split del: if_split)+)
qed
lemma job_wait_read:
  assumes "working f D C K w"
    and fail: "\<And>e w'. working f D C anything w' \<Longrightarrow> Q (Inl e) w'"
    and ok: "\<And>observation w'. working f D C (shows_from f observation) w' \<Longrightarrow> Q (Inr observation) w'"
  shows "wp (wait_read (fr_store f) (fr_jobID f) sessionID cursor resolved) Q w"
proof -
  have shown: "Q (case x of (observation, start) \<Rightarrow> Inr observation) w'"
    if "working f D C (shows_from f (fst x)) w'" for x :: "OutputObservation \<times> ByteCursor" and w'
    using ok that by (cases x) simp
  show ?thesis
    unfolding wait_read_def
    by (insert assms(1), (erule job_rules job_waitOutput job_waitSnapshot | simp only: sum.case |
    rule wp_branches | rule ok, assumption | rule shown, assumption | rule fail, erule working_anything |
    simp split del: if_split)+)
qed

text \<open>What a prepared wait of this job holds.\<close>

definition wait_shows :: "frame \<Rightarrow> PreparedWait \<Rightarrow> fs \<Rightarrow> bool" where
  "wait_shows f prepared I \<longleftrightarrow>
    shows_from f (pw_Observation prepared) I \<and> pw_output prepared = oo_Output (pw_Observation prepared) \<and>
    pw_cursor prepared = ck_NextCursorBytes (pw_output prepared) \<and> pw_jobID prepared = fr_jobID f \<and>
    \<not> pw_committed prepared"

lemma wait_shows_new:
  "wr_JobID request = fr_jobID f \<Longrightarrow>
    wait_shows f (newPreparedWait manager request observation now deadline) I \<longleftrightarrow> shows_from f observation I"
  by (auto simp: wait_shows_def newPreparedWait_def Let_def)

lemma job_time_Now [job_rules]:
  assumes "working f D C K w" and "\<And>now w'. working f D C K w' \<Longrightarrow> Q now w'"
  shows "wp time_Now Q w"
  by (rule workingE [OF assms(1)]) (erule wp_time_Now; simp add: assms(2))

lemma job_wait_loop:
  assumes "working f D C K w" "wr_JobID request = fr_jobID f"
    and fail: "\<And>e w'. working f D C anything w' \<Longrightarrow> Q (Inl e) w'"
    and ok: "\<And>prepared w'. working f D C (wait_shows f prepared) w' \<Longrightarrow> Q (Inr prepared) w'"
  shows "wp (wait_loop rounds manager (fr_store f) request absoluteDeadline idle cursor lastCaptured idleDeadline) Q w"
  using assms(1)
proof (induction rounds arbitrary: w K cursor lastCaptured idleDeadline)
  case 0
  then show ?case
    by (simp, elim job_hang) (simp add: fail working_anything)
next
  case (Suc rounds)
  have new: "Q (Inr (newPreparedWait manager request observation now absoluteDeadline)) w'"
    if "working f D C (shows_from f observation) w'" for observation now w'
    by (rule ok, rule working_when [OF that]) (simp add: wait_shows_new assms(2))
  have metadata: "wp (waitMetadata (fr_store f) (fr_jobID f) sessionID explicit) Q' w'"
    if "working f D C K' w'" "\<And>r w'. working f D C anything w' \<Longrightarrow> Q' r w'" for sessionID explicit Q' w' K'
    by (rule job_waitMetadata [OF that])
  show ?case
    unfolding wait_loop.simps assms(2) Let_def
    by (insert Suc.prems, (erule job_rules metadata job_waitSnapshot job_wait_read Suc.IH | simp only: sum.case |
      rule wp_branches | rule new, assumption | rule new, simp; fail |
      rule fail, erule working_anything | simp split del: if_split)+)
qed

subsection \<open>Committing a wait\<close>

lemma find_observer_Some:
  "find_observer sessionID os = Some (i, observer) \<Longrightarrow>
    i < length os \<and> os ! i = observer \<and> oc_SessionID observer = sessionID"
  by (induction os arbitrary: i) (auto split: if_splits)

lemma ObserverAfter_wait:
  assumes "ObserverAfter p \<lparr> oa_Action = ActionWait, oa_Current = current, oa_Output = output,
      oa_UpdatedAtUnixMs = now \<rparr> = (n, decision)" "d_Allowed decision"
  shows "oc_SessionID n = oc_SessionID current \<and> oc_CursorBytes n = ck_NextCursorBytes output"
  using assms by (auto simp: ObserverAfter_def Let_def split: if_splits)

definition observes_up_to :: "SessionID \<Rightarrow> ByteCursor \<Rightarrow> PersistedJobState \<Rightarrow> bool" where
  "observes_up_to sessionID cursor s \<longleftrightarrow>
    (\<exists>observer \<in> set (ps_Observers s). oc_SessionID observer = sessionID \<and> cursor \<le> oc_CursorBytes observer)"

lemma committedState_Some:
  assumes "committedState p sessionID prepared s = Inr (Some s')"
  shows "\<exists>os. s' = s\<lparr> ps_Observers := os \<rparr>"
    and "pw_cursor prepared = ck_NextCursorBytes (pw_output prepared) \<Longrightarrow>
      observes_up_to sessionID (pw_cursor prepared) s'"
proof -
  have "\<exists>n. oc_SessionID n = sessionID \<and> oc_CursorBytes n = ck_NextCursorBytes (pw_output prepared) \<and>
      (s' = s\<lparr> ps_Observers := ps_Observers s @ [n] \<rparr> \<or>
       (\<exists>i < length (ps_Observers s). s' = s\<lparr> ps_Observers := (ps_Observers s)[i := n] \<rparr>))"
    using assms unfolding committedState_def Let_def
    by (auto split: prod.splits if_splits option.splits dest!: ObserverAfter_wait find_observer_Some)
  then obtain n where n: "oc_SessionID n = sessionID"
      "oc_CursorBytes n = ck_NextCursorBytes (pw_output prepared)"
    and s': "s' = s\<lparr> ps_Observers := ps_Observers s @ [n] \<rparr> \<or>
       (\<exists>i < length (ps_Observers s). s' = s\<lparr> ps_Observers := (ps_Observers s)[i := n] \<rparr>)"
    by blast
  show "\<exists>os. s' = s\<lparr> ps_Observers := os \<rparr>" using s' by blast
  have "n \<in> set (ps_Observers s')" using s' by (auto simp: set_update_memI)
  then show "observes_up_to sessionID (pw_cursor prepared) s'"
    if "pw_cursor prepared = ck_NextCursorBytes (pw_output prepared)"
    unfolding observes_up_to_def using n that by auto
qed

lemma committedState_None:
  "committedState p sessionID prepared s = Inr None \<Longrightarrow> observes_up_to sessionID (pw_cursor prepared) s"
  unfolding committedState_def Let_def observes_up_to_def
  by (auto split: option.splits prod.splits if_splits dest!: find_observer_Some)

definition committed :: "frame \<Rightarrow> PreparedWait \<Rightarrow> error \<Rightarrow> fs \<Rightarrow> bool" where
  "committed f prepared e I \<longleftrightarrow>
    (e = [] \<and> pw_cursor prepared = ck_NextCursorBytes (pw_output prepared) \<longrightarrow>
      (\<exists>s. state_is f s I \<and> observes_up_to (st_sessionID (fr_store f)) (pw_cursor prepared) s))"

lemma committed_error [simp]: "e \<noteq> [] \<Longrightarrow> committed f prepared e I"
  by (simp add: committed_def)

lemma committedState_not_nil: "committedState p sessionID prepared s \<noteq> Inl []"
  unfolding committedState_def Let_def by (auto split: option.splits prod.splits if_splits)

lemma wp_return_fun: "wp (State_Monad.return x) Q = Q x"
  by (rule ext) simp

lemma wp_bind_fun: "wp (State_Monad.bind m f) Q = wp m (\<lambda>r. wp (f r) Q)"
  by (rule ext) simp

lemma job_commitWait:
  assumes "pw_jobID prepared = fr_jobID f"
  shows "job_does f (commitWait (fr_store f) prepared) (committed f prepared)"
proof (rule job_doesI)
  fix D C K w and Q :: "error \<Rightarrow> world \<Rightarrow> bool"
  assume w: "working f D C K w" and Q: "\<And>e w'. working f D C (committed f prepared e) w' \<Longrightarrow> Q e w'"
  let ?p = "k_policy (st_contracts (fr_store f))" and ?sid = "st_sessionID (fr_store f)"
  show "wp (commitWait (fr_store f) prepared) Q w"
    unfolding commitWait_def assms wp_bind
  proof (rule job_openLockedJobContext [OF w], goal_cases)
    case (1 e w')
    then show ?case by (auto intro!: Q elim!: working_when)
  next
    case (2 job w')
    let ?D = "insert (lj_dir job) D" and ?C = "insert (lj_stateLock job) (insert (lj_dir job) C)"
    let ?decision = "AuthorizeRead ?p (job_access (fr_store f) (lj_state job))"
    have finish: "wp (locked_close job) (\<lambda>closeErr. wp (State_Monad.return (errors_Join [e, closeErr])) Q) w''"
      if "working f ?D ?C (committed f prepared e) w''" for e w''
      by (rule job_locked_close [OF that 2(1)], simp, rule Q, erule working_when)
        (simp add: committed_def)
    have stop: "wp (locked_close job) (\<lambda>closeErr. wp (State_Monad.return (errors_Join [e, closeErr])) Q) w'"
      if "\<And>I. state_is f (lj_state job) I \<Longrightarrow> committed f prepared e I" for e
      by (rule finish, rule working_when [OF 2(2)]) (rule that)
    show ?case
    proof (cases "committedState ?p ?sid prepared (lj_state job)")
      case (Inl e)
      then have "e \<noteq> []" using committedState_not_nil by metis
      then show ?thesis using stop by (simp add: Let_def Inl)
    next
      case (Inr r)
      show ?thesis
      proof (cases r)
        case None
        then have "committed f prepared [] I" if "state_is f (lj_state job) I" for I
          using committedState_None [OF Inr [unfolded None]] that unfolding committed_def by blast
        then show ?thesis using stop [of "[]"] stop [of "decisionError (d_Code ?decision)"] None
          by (simp add: Let_def Inr wp_return_fun)
      next
        case (Some s')
        note s' = committedState_Some [OF Inr [unfolded Some]]
        have step: "transitionAllowed policy_v1 (lj_state job) s'"
          using s'(1) by (auto simp: transitionAllowed_def)
        have "wp (publishStateLocked (fr_store f) job (fr_jobID f) s') (\<lambda>e.
            wp (locked_close job) (\<lambda>closeErr. wp (State_Monad.return (errors_Join [e, closeErr])) Q)) w'"
          by (rule job_publishStateLocked [OF 2(2) _ _ step], simp, simp, rule finish, erule working_when)
            (use s'(2) in \<open>auto simp: committed_def\<close>)
        then show ?thesis using stop Some by (simp add: Let_def Inr wp_bind_fun)
      qed
    qed
  qed
qed

end
