(* ===== verification/Example.thy ===== *)
theory Example
  imports Mutations
begin

section \<open>A concrete store, and how the code is run on it\<close>

text \<open>
  A world with one running job, for the witnesses. Its codec stores the states of the example as
  one-letter files; \<open>run_rules\<close> and \<open>run_congs\<close> let the simplifier execute a function of the code
  step by step on a concrete world, call by call and never inside a continuation that is not
  reached.
\<close>

subsection \<open>The example\<close>

definition codec_table :: "(bytes \<times> PersistedJobState) list \<Rightarrow> Contracts" where
  "codec_table table =
    \<lparr> k_policy = policy_v1, k_schema_valid = (\<lambda>raw. True),
      k_decode_state = (\<lambda>raw. map_option (\<lambda>s. (s, [])) (map_of table raw)),
      k_marshal_state = (\<lambda>s. map_option fst (find (\<lambda>e. snd e = s) table)),
      k_decode_runtime = (\<lambda>raw. None), k_marshal_runtime = (\<lambda>r. None) \<rparr>"

definition example_grown :: PersistedJobState where
  "example_grown = example_job\<lparr> ps_Job := (ps_Job example_job)\<lparr> jm_CapturedBytes := 2 \<rparr> \<rparr>"

definition example_finished :: PersistedJobState where
  "example_finished =
    example_job\<lparr> ps_Job := (ps_Job example_job)\<lparr> jm_Status := JobStatusNonzeroExit,
                   jm_FinishedAtUnixMs := Some 30 \<rparr>,
      ps_Result := Some \<lparr> pr_CapturedBytes = 0, pr_Diagnostic = None, pr_ExitCode = Some 3,
        pr_FinishedAtUnixMs = 30, pr_Signal = None, pr_Status = TerminalStatusNonzeroExit \<rparr> \<rparr>"

definition example_observed :: PersistedJobState where
  "example_observed = example_job\<lparr> ps_Observers :=
     [\<lparr> oc_CursorBytes = 0, oc_SessionID = ''s'', oc_UpdatedAtUnixMs = 30 \<rparr>] \<rparr>"

definition example_contracts :: Contracts where
  "example_contracts = codec_table [(''a'', example_job), (''b'', example_grown),
     (''c'', example_cancelled), (''d'', example_finished),
     (''e'', example_observed)]"

definition example_store :: Store where
  "example_store =
    \<lparr> st_jobs = 3, st_workspace = ''/w'', st_cwd = ''/w/x'', st_sessionID = ''s'',
      st_contracts = example_contracts, st_lockTimeout = 1000, st_lockPoll = 10 \<rparr>"

definition example_file :: "bytes \<Rightarrow> inode" where
  "example_file raw =
    \<lparr> i_kind = S_IFREG, i_uid = 0, i_perm = 384, i_nlink = 1, i_data = raw, i_entries = [] \<rparr>"

definition example_dir :: "(string \<times> nat) list \<Rightarrow> inode" where
  "example_dir entries =
    \<lparr> i_kind = S_IFDIR, i_uid = 0, i_perm = 448, i_nlink = 2, i_data = [], i_entries = entries \<rparr>"

text \<open>The runner's lock, inode 6, is held by the runner.\<close>

definition example_fs :: fs where
  "example_fs = [1 \<mapsto> example_dir [(''job-1'', 2)],
     2 \<mapsto> example_dir [(''state.json'', 3), (''output.log'', 4), (''state.lock'', 5),
       (''runner.lock'', 6), (''recovery.lock'', 7)],
     3 \<mapsto> example_file ''a'', 4 \<mapsto> example_file [], 5 \<mapsto> example_file [], 6 \<mapsto> example_file [],
     7 \<mapsto> example_file []]"

definition example_world :: world where
  "example_world =
    \<lparr> w_inodes = example_fs, w_next = 8, w_fds = [3 \<mapsto> (1, False)], w_nextfd = 4, w_foreign = [6],
      w_euid = 0, w_alive = True, w_script = [], w_clock = [(30, 0)], w_random = [], w_selects = [],
      w_ctx = [], w_fuel = 1 \<rparr>"

subsection \<open>Facts of the example\<close>

lemma example_job_fields [simp]:
  "jm_JobID (ps_Job example_job) = ''job-1''" "jm_WorkspacePath (ps_Job example_job) = ''/w''"
  "jm_CapturedBytes (ps_Job example_job) = 0" "jm_OutputLimitBytes (ps_Job example_job) = 100"
  "jm_OwnerSessionID (ps_Job example_job) = ''s''" "jm_Status (ps_Job example_job) = JobStatusRunning"
  "jm_FinishedAtUnixMs (ps_Job example_job) = None" "ps_Result example_job = None"
  "jm_CreatedAtUnixMs (ps_Job example_job) = 10" "jm_StartedAtUnixMs (ps_Job example_job) = 20"
  "ps_Observers example_job = []" "ps_Cancellation example_job = None"
  by (simp_all add: example_job_def initialJobState_def example_request_def)

lemma example_contracts_policy [simp]: "k_policy example_contracts = policy_v1"
  by (simp add: example_contracts_def codec_table_def)

lemma example_store_fields [simp]:
  "st_jobs example_store = 3" "st_workspace example_store = ''/w''" "st_sessionID example_store = ''s''"
  "st_contracts example_store = example_contracts" "st_lockTimeout example_store = 1000"
  by (simp_all add: example_store_def)

lemma example_finished_built: "execution_terminal example_outcome example_job 30 = Inr example_finished"
  by (simp add: execution_terminal_def terminalState_def processResult_def example_outcome_def
      example_finished_def empty_result_def Let_def)

lemma example_states_ok:
  "well_formed_state policy_v1 example_grown" "well_formed_state policy_v1 example_finished"
  "well_formed_state policy_v1 example_observed"
  using example_path
  by (auto simp: well_formed_state_def example_grown_def example_finished_def example_observed_def
      example_job_def
      example_request_def initialJobState_def identity_agrees_checked capture_bounded_checked
      cursors_inside_def times_ordered_def result_agrees_checked isKnownStatus_def List.member_iff Let_def
      u64_of_def word_le_nat_alt validProcessResult_def
      all_terminal_statuses_def)

lemma example_fields [simp]:
  "ps_Cancellation example_cancelled \<noteq> None" "jm_CapturedBytes (ps_Job example_cancelled) = 0"
  "jm_CapturedBytes (ps_Job example_grown) = 2" "ps_Result example_finished \<noteq> None"
  "jm_CapturedBytes (ps_Job example_finished) = 0" "ps_Cancellation example_finished = None"
  "jm_WorkspacePath (ps_Job example_grown) = ''/w''" "jm_WorkspacePath (ps_Job example_cancelled) = ''/w''"
  "jm_WorkspacePath (ps_Job example_finished) = ''/w''" "jm_WorkspacePath (ps_Job example_observed) = ''/w''"
  "ps_Observers example_observed \<noteq> []" "ps_Observers example_grown = []"
  "ps_Observers example_cancelled = []" "ps_Observers example_finished = []"
  by (simp_all add: example_cancelled_def cancelledState_def example_grown_def example_finished_def
      example_observed_def)

lemma example_states [simp]:
  "example_job \<noteq> example_grown" "example_job \<noteq> example_cancelled" "example_job \<noteq> example_finished"
  "example_grown \<noteq> example_cancelled" "example_grown \<noteq> example_finished"
  "example_cancelled \<noteq> example_finished" "example_observed \<notin> {example_job, example_grown,
    example_cancelled, example_finished}"
proof -
  have differ: "f s \<noteq> f s' \<Longrightarrow> s \<noteq> s'" for f :: "PersistedJobState \<Rightarrow> 'a" and s s' by auto
  show "example_job \<noteq> example_grown" "example_grown \<noteq> example_cancelled"
    "example_grown \<noteq> example_finished"
    by (rule differ [of "\<lambda>s. jm_CapturedBytes (ps_Job s)"], simp)+
  show "example_job \<noteq> example_cancelled" "example_cancelled \<noteq> example_finished"
    by (rule differ [of "\<lambda>s. ps_Cancellation s = None"], simp)+
  show "example_job \<noteq> example_finished"
    by (rule differ [of "\<lambda>s. ps_Result s = None"], simp)
  show "example_observed \<notin> {example_job, example_grown, example_cancelled, example_finished}"
    by (auto dest!: arg_cong [where f = ps_Observers])
qed



definition example_decision :: "bytes \<Rightarrow> Decision" where
  "example_decision raw = snd (ValidateStored example_contracts raw ''/w'')"

lemma example_decoded:
  assumes "k_decode_state example_contracts raw = Some (s, [])" "utf8_Valid raw"
    and "well_formed_state policy_v1 s" "jm_WorkspacePath (ps_Job s) = ''/w''"
  shows "ValidateStored example_contracts raw ''/w'' = (s, example_decision raw)"
    and "d_Allowed (example_decision raw)"
proof -
  have "k_schema_valid example_contracts raw"
    by (simp add: example_contracts_def codec_table_def)
  then have "ValidateStored example_contracts raw ''/w'' = (s, ValidatePersistedState policy_v1 s)"
    using assms by (simp add: ValidateStored_def at_EOF_def ValidatePersistedState_allowed Let_def)
  then show "ValidateStored example_contracts raw ''/w'' = (s, example_decision raw)"
    "d_Allowed (example_decision raw)"
    using assms(3) by (simp_all add: example_decision_def ValidatePersistedState_allowed)
qed

lemma example_letters: "utf8_Valid ''a''" "utf8_Valid ''b''" "utf8_Valid ''c''" "utf8_Valid ''d''" "utf8_Valid ''e''"
  by (simp_all add: utf8_Valid.simps rune_width_def rune_width_bytes_def byte_at_def)

lemma example_codec:
  "k_decode_state example_contracts ''a'' = Some (example_job, [])"
  "k_decode_state example_contracts ''b'' = Some (example_grown, [])"
  "k_decode_state example_contracts ''c'' = Some (example_cancelled, [])"
  "k_decode_state example_contracts ''d'' = Some (example_finished, [])"
  "k_decode_state example_contracts ''e'' = Some (example_observed, [])"
  "k_marshal_state example_contracts example_job = Some ''a''"
  "k_marshal_state example_contracts example_grown = Some ''b''"
  "k_marshal_state example_contracts example_cancelled = Some ''c''"
  "k_marshal_state example_contracts example_finished = Some ''d''"
  "k_marshal_state example_contracts example_observed = Some ''e''"
  using example_states(7) by (auto simp: example_contracts_def codec_table_def)

lemmas example_decode [simp] =
  example_decoded [OF example_codec(1) example_letters(1) example_job_ok(1) example_job_fields(2)]
  example_decoded [OF example_codec(2) example_letters(2) example_states_ok(1) example_fields(7)]
  example_decoded [OF example_codec(3) example_letters(3) example_cancelled_ok(1) example_fields(8)]
  example_decoded [OF example_codec(4) example_letters(4) example_states_ok(2) example_fields(9)]
  example_decoded [OF example_codec(5) example_letters(5) example_states_ok(3) example_fields(10)]

lemma example_encode [simp]:
  "encodeState example_contracts ''/w'' example_job = Inr ''a''"
  "encodeState example_contracts ''/w'' example_grown = Inr ''b''"
  "encodeState example_contracts ''/w'' example_cancelled = Inr ''c''"
  "encodeState example_contracts ''/w'' example_finished = Inr ''d''"
  "encodeState example_contracts ''/w'' example_observed = Inr ''e''"
  by (simp_all add: encodeState_def example_codec)

lemma example_on_disk: "job_on_disk example_store (w_inodes example_world) 2 example_job []"
  by (simp add: job_on_disk_def state_at_def output_at_def content_at_def lookup_at_def example_world_def
      example_fs_def example_dir_def example_file_def)

subsection \<open>Running the code\<close>

lemma run_bind:
  "run_state (State_Monad.bind m f) w = (case run_state m w of (r, w') \<Rightarrow> run_state (f r) w')"
  by (simp add: State_Monad.bind_def split: prod.splits)

lemma run_return: "run_state (State_Monad.return x) w = (x, w)"
  by (simp add: State_Monad.return_def)

lemma run_if: "run_state (if c then a else b) w = (if c then run_state a w else run_state b w)"
  by simp

lemma run_State: "run_state (State f) w = f w"
  by simp

lemma run_syscall:
  "run_state (syscall act failing) w =
    (if \<not> w_alive w then (Inl gone, w)
     else case w_script w of
       [] \<Rightarrow> act w
     | Fine # rest \<Rightarrow> act (w\<lparr> w_script := rest \<rparr>)
     | Fail e n # rest \<Rightarrow> (Inl [Errno e], failing n (w\<lparr> w_script := rest \<rparr>))
     | Kill # rest \<Rightarrow> (Inl gone, kill_process w))"
  by (simp add: syscall_def)

text \<open>Nothing is rewritten inside a call or a continuation before it runs.\<close>

lemma run_congs:
  "State_Monad.bind m f = State_Monad.bind m f"
  "syscall a b = syscall a b"
  "State g = State g"
  by (rule refl)+

text \<open>The search for another descriptor with the lock, over the updates of the table.\<close>

definition held :: "fdtable \<Rightarrow> handle list \<Rightarrow> nat \<Rightarrow> handle \<Rightarrow> bool" where
  "held F others n bound \<longleftrightarrow> (\<exists>k < bound. k \<notin> set others \<and> F k = Some (n, True))"

lemma run_locked: "locked_by_other w fd n \<longleftrightarrow> n \<in> set (w_foreign w) \<or> held (w_fds w) [fd] n (w_nextfd w)"
  by (auto simp: locked_by_other_def held_def list_ex_iff)

lemma held_update:
  "held Map.empty others n bound = False"
  "held (F(k := v)) others n bound \<longleftrightarrow>
    (k < bound \<and> k \<notin> set others \<and> v = Some (n, True)) \<or> held F (k # others) n bound"
  by (auto simp: held_def)

lemmas call_defs =
  unix_Openat_def file_Close_def unix_Fstat_def unix_Fstatat_def unix_Mkdirat_def unix_Unlinkat_def
  unix_Renameat_def file_Sync_def unix_Dup_def flock_nonblocking_def flock_blocking_def
  flock_unlock_def io_ReadAll_def io_ReadFull_def file_WriteAt_def file_Size_def file_ReadDir_def
  time_Now_def unix_milli_now_def monotonic_now_def time_Until_def rand_Read_def ctx_Err_def
  next_selects_def loop_fuel_def os_Geteuid_def fileFromFD_def

lemmas world_defs =
  inode_of_fd_def directory_of_fd_def new_fd_def new_inode_def add_entry_def drop_entry_def
  unlink_inode_def create_at_def drop_fd_def error_of_def update_inode_def rename_in_def
  run_locked held_update set_lock_def put_bytes_def write_inode_def errno_defs

lemmas store_defs =
  openDirectoryAt_def openPrivateFileAt_def validateDirectory_def validatePrivateFile_def
  private_file_def privateDirectoryMode_def privateFileMode_def classifyOpenError_def readState_def
  readAtomicSnapshotFileAt_def maximumStateBytes_def readPrivateFileAt_def lockStateFile_def
  unlockFile_def unlock_close_def openSnapshotJob_def snapshot_close_def openLockedJobWith_def
  locked_close_def with_close_def lockFile_def lockStateFileBlocking_def

lemmas recovery_defs =
  terminalIntentExists_def terminalIntentName_def waitForTerminalIntent_def openLockedJobContext_def
  appendOutput_def append_locked_def append_accepted_def requireCommittedOutput_def writeAt_def
  writeAtomicFile_def publish_temporary_def unlinkTemporary_def check_existing_def createPrivateFileAt_def
  entryExists_def

lemmas control_defs =
  cancel_def cancelActive_def cancelCurrent_def cancelLocked_def publishStateLocked_def
  reconcileRunnerState_def reconcileRunnerStateWithActiveMutation_def reconcile_recovering_def
  openRecoveryLockAt_def recoveryLockName_def closeRecovery_def closeRunner_def
  store_status_def openObservedSnapshot_def openAuthorizedSnapshot_def

lemmas id_defs = validJobID_def jobID_char_def in_chars_def

lemmas example_world_defs =
  example_world_def example_fs_def example_file_def example_dir_def

lemmas run_rules =
  run_bind run_return run_State run_syscall run_if call_defs world_defs store_defs id_defs Let_def

lemma example_accepts [simp]:
  "AcceptedIncomingPrefix policy_v1 (u64_of 0) ''hi'' (u64_of 100) =
    (''hi'', \<lparr> d_Allowed = True, d_Code = CodeAllow \<rparr>)"
  by code_simp

lemma example_fold [simp]:
  "example_job\<lparr> ps_Job := (ps_Job example_job)\<lparr> jm_CapturedBytes := 2 \<rparr> \<rparr> = example_grown"
  "cancelledState example_job ''s'' 30 = example_cancelled"
  by (simp_all add: example_grown_def example_cancelled_def)

lemma example_authorized [simp]:
  "d_Allowed (AuthorizeMutation policy_v1 (job_access example_store example_job))"
  "d_Allowed (AuthorizeRead policy_v1 (job_access example_store example_job))"
  by (simp_all add: AuthorizeMutation_def AuthorizeRead_def job_access_def)

lemma example_cancellation [simp]:
  "EvaluateCancellation policy_v1 \<lparr> cc_Status = JobStatusRunning, cc_AlreadyRequested = False \<rparr> =
    \<lparr> cd_Decision = \<lparr> d_Allowed = True, d_Code = CodeCancellationRequested \<rparr>, cd_PersistRequest = True \<rparr>"
  by (simp add: EvaluateCancellation_def isKnownStatus_v1)

lemma example_update [simp]: "update_allowed example_job ''job-1'' example_cancelled"
  by (simp add: update_allowed_def example_cancelled_def cancelledState_def sameImmutableStateFields_def
      preserves_iff)

lemma example_append:
  "fst (run_state (appendOutput example_store ''job-1'' ''hi'') example_world) =
    Inr \<lparr> ap_AcceptedBytes = 2, ap_LimitReached = False \<rparr>"
  by (simp add: run_rules recovery_defs example_world_defs cong: run_congs split del: if_split)

lemma example_cancel:
  "fst (run_state (cancel example_store ''job-1'') example_world) =
    Inr (cancellationResult example_cancelled CodeCancellationRequested)"
  apply (simp add: run_rules recovery_defs control_defs example_world_defs cong: run_congs split del: if_split)
  done

lemma example_status:
  "fst (run_state (store_status example_store ''job-1'') example_world) =
    Inr (observationFromState example_job)"
  apply (simp add: run_rules recovery_defs control_defs example_world_defs cong: run_congs split del: if_split)
  done

end
