(* ===== verification/Jobs.thy ===== *)
theory Jobs
  imports Example
begin

section \<open>Whole operations on a job\<close>

text \<open>
  The contract every operation on a job meets, as a locale: it may be run in any world that has the
  store open and the job in it, with any faults and a crash at any point. The locale's lemmas say
  what a run does; its interpretations are the code's operations. A \<open>history\<close> is a sequence of
  operations of several processes, each of them possibly killed, and it keeps the job.
\<close>

subsection \<open>Running an operation\<close>

definition job_at :: "Store \<Rightarrow> JobID \<Rightarrow> nat \<Rightarrow> world \<Rightarrow> bool" where
  "job_at store jobID j w \<longleftrightarrow>
    world_ok w \<and> w_alive w \<and> k_policy (st_contracts store) = policy_v1 \<and>
    (\<exists>jd b dir. w_fds w (st_jobs store) = Some (jd, b) \<and> jd \<noteq> j \<and>
       lookup_at (w_inodes w) jd jobID = Some j \<and> w_inodes w j = Some dir)"

text \<open>The frame of a run that starts in \<open>w\<close> and may close the descriptors in \<open>C\<close>.\<close>

definition frame_at :: "Store \<Rightarrow> JobID \<Rightarrow> nat \<Rightarrow> handle set \<Rightarrow> world \<Rightarrow> frame" where
  "frame_at store jobID j C w =
    \<lparr> fr_store = store, fr_jobID = jobID, fr_euid = w_euid w,
      fr_jobs = fst (the (w_fds w (st_jobs store))), fr_job = j, fr_fs = w_inodes w,
      fr_fds = w_fds w |` (- C) \<rparr>"

lemma frame_at_simps [simp]:
  "fr_store (frame_at store jobID j C w) = store" "fr_jobID (frame_at store jobID j C w) = jobID"
  "fr_job (frame_at store jobID j C w) = j" "fr_fs (frame_at store jobID j C w) = w_inodes w"
  by (simp_all add: frame_at_def)

lemma working_start:
  assumes "job_at store jobID j w" "C \<subseteq> dom (w_fds w)" "st_jobs store \<notin> C"
  shows "working (frame_at store jobID j C w) {} C anything w"
proof (rule workingI)
  show "St (fr_euid (frame_at store jobID j C w)) (w_inodes w) (w_fds w) w"
    using assms(1) by (simp add: frame_at_def job_at_def St_start)
  show "in_frame (frame_at store jobID j C w) {} C (w_inodes w) (w_fds w)"
    using assms by (auto simp: in_frame_def frame_at_def job_at_def)
qed simp

lemma working_end:
  assumes "working (frame_at store jobID j C w) {} C' K w'"
  shows "job_step store j (w_inodes w) (w_inodes w')" "world_ok w'" "K (w_inodes w')"
    and "w_alive w' \<Longrightarrow> w_fds w' |` (- C') = w_fds w |` (- C)"
    and "w_alive w' \<Longrightarrow> C' \<subseteq> dom (w_fds w')"
  using assms unfolding working_def in_frame_def by (auto simp: frame_at_def dest!: St_end)

lemma sound_frame_at:
  "job_on_disk store (w_inodes w) j s out \<Longrightarrow> sound_job (frame_at store jobID j C w)"
  unfolding sound_job_def by auto

locale job_operation =
  fixes store :: Store and jobID :: JobID and operation :: "'a io"
    and post :: "frame \<Rightarrow> 'a \<Rightarrow> fs \<Rightarrow> bool"
  assumes does: "fr_store f = store \<Longrightarrow> fr_jobID f = jobID \<Longrightarrow> job_does f operation (post f)"
begin

lemma run:
  assumes "job_at store jobID j w" "run_state operation w = (r, w')"
  shows "working (frame_at store jobID j {} w) {} {} (post (frame_at store jobID j {} w) r) w'"
  using wp_run [OF job_doesD [OF working_start [OF assms(1), of "{}"] does] assms(2),
      where Q = "\<lambda>r. working (frame_at store jobID j {} w) {} {} (post (frame_at store jobID j {} w) r)"]
  by simp

lemmas step = working_end(1) [OF run]
lemmas ends = working_end(2) [OF run]
lemmas answer = working_end(3) [OF run]

text \<open>The process has the same descriptors and the same locks as before, unless it was killed.\<close>

lemma no_leak:
  assumes "job_at store jobID j w" "run_state operation w = (r, w')" "w_alive w'"
  shows "w_fds w' = w_fds w"
  using working_end(4) [OF run [OF assms(1,2)] assms(3)] by (simp add: restrict_UNIV)

lemma keeps_job:
  assumes "job_at store jobID j w" "run_state operation w = (r, w')"
    and "job_on_disk store (w_inodes w) j s out"
  obtains s' out' where "job_on_disk store (w_inodes w') j s' out'" "evolves policy_v1 s s'"
    "take (captured_of s) out' = take (captured_of s) out"
  using step [OF assms(1,2)] assms(1,3) unfolding job_step_def job_evolves_def job_at_def by metis

lemma keeps_others:
  assumes "job_at store jobID j w" "run_state operation w = (r, w')"
    and "apart (w_inodes w) j k" "content_at (w_inodes w) k name = Some raw"
  shows "content_at (w_inodes w') k name = Some raw"
  using job_step_apart [OF step [OF assms(1,2)] assms(3,4)] .

end

subsection \<open>The operations\<close>

text \<open>What holds when an operation has answered; an error promises nothing more than the contract.\<close>

definition answers :: "(frame \<Rightarrow> 'a \<Rightarrow> fs \<Rightarrow> bool) \<Rightarrow> frame \<Rightarrow> 'a result \<Rightarrow> fs \<Rightarrow> bool" where
  "answers P f r I \<longleftrightarrow> (\<forall>x. r = Inr x \<longrightarrow> P f x I)"

lemma job_does_answer:
  assumes "\<And>D C K w. working f D C K w \<Longrightarrow>
    wp m (\<lambda>r. case r of Inl e \<Rightarrow> working f D C anything | Inr x \<Rightarrow> working f D C (P f x)) w"
  shows "job_does f m (answers P f)"
proof (rule job_doesI)
  fix D C K w Q
  assume w: "working f D C K w" and Q: "\<And>r w'. working f D C (answers P f r) w' \<Longrightarrow> Q r w'"
  show "wp m Q w"
    by (rule wp_mono [OF assms [OF w]], rule Q) (auto simp: answers_def elim: working_when split: sum.splits)
qed

definition appended :: "bytes \<Rightarrow> frame \<Rightarrow> outputAppend \<Rightarrow> fs \<Rightarrow> bool" where
  "appended incoming f report I \<longleftrightarrow>
    (\<exists>s. appended_to f s incoming I \<and> report = append_report s incoming \<and>
       jm_Status (ps_Job s) = JobStatusRunning)"

interpretation append: job_operation store jobID "appendOutput store jobID incoming"
  "answers (appended incoming)"
proof (unfold_locales, goal_cases)
  case (1 f)
  then show ?case
    by (intro job_does_answer, auto elim!: job_appendOutput)
      (erule working_when, auto simp: appended_def)
qed

interpretation publish: job_operation store jobID "publishState store jobID next_state"
  "\<lambda>f e I. e = [] \<longrightarrow> state_is f next_state I"
  by unfold_locales (auto intro!: job_doesI job_publishState)

interpretation cancels: job_operation store jobID "cancel store jobID" cancelled
  by unfold_locales (use job_cancel in blast)

definition status_seen :: "frame \<Rightarrow> JobObservation \<Rightarrow> fs \<Rightarrow> bool" where
  "status_seen f observation I \<longleftrightarrow> (\<exists>s. seen f s I \<and> observation = observationFromState s)"

interpretation status: job_operation store jobID "store_status store jobID" "answers status_seen"
proof (unfold_locales, goal_cases)
  case (1 f)
  then show ?case
    by (intro job_does_answer, auto elim!: job_store_status)
      (erule working_when, auto simp: status_seen_def)
qed

definition output_seen :: "OutputPayload \<Rightarrow> frame \<Rightarrow> OutputObservation \<Rightarrow> fs \<Rightarrow> bool" where
  "output_seen payload f observation I \<longleftrightarrow>
    (\<exists>s raw. seen f s I \<and> reads f s raw I \<and> shows_output policy_v1 payload s raw observation)"

definition output_payload :: "OutputRequest \<Rightarrow> OutputPayload" where
  "output_payload request =
    \<lparr> op_EndCursorBytes = ot_EndCursorBytes request, op_JobID = ot_JobID request,
      op_StartCursorBytes = ot_StartCursorBytes request \<rparr>"

interpretation outputs: job_operation store "ot_JobID request" "store_output store request"
  "answers (output_seen (output_payload request))"
proof (unfold_locales, goal_cases)
  case (1 f)
  then show ?case
    by (intro job_does_answer, auto elim!: job_store_output)
      (erule working_when, auto simp: output_seen_def output_payload_def)
qed

interpretation commits: job_operation store "pw_jobID prepared" "commitWait store prepared"
  "\<lambda>f e. committed f prepared e"
  by unfold_locales (use job_commitWait in metis)

interpretation waits: job_operation store "wr_JobID request"
  "wait_loop rounds manager store request absoluteDeadline idle cursor lastCaptured idleDeadline"
  "answers wait_shows"
proof (unfold_locales, goal_cases)
  case (1 f)
  then show ?case
    by (intro job_does_answer) (auto elim!: job_wait_loop)
qed

interpretation reconciles: job_operation store jobID "reconcileRunnerState store jobID deadline"
  "\<lambda>f r. anything"
  by unfold_locales (use action_reconcile in \<open>auto simp: always_action_def\<close>)

subsection \<open>Publishing the end of a job\<close>

text \<open>
  The runner owns the descriptor \<open>fd\<close> of the lease. It keeps it when the publication fails, and when
  it has given it up a terminal state is on disk.
\<close>

lemma publishTerminalState_run:
  assumes at: "job_at store jobID j w" and lease: "le_file lease = Some fd" "fd \<in> dom (w_fds w)"
    "fd \<noteq> st_jobs store"
    and build: "\<And>s now. build s now \<noteq> Inl []"
    and run: "run_state (publishTerminalState store jobID lease build) w = ((lease', e), w')"
  shows "(lease' = lease \<and> e \<noteq> [] \<and> working (frame_at store jobID j {fd} w) {} {fd} anything w') \<or>
    (lease' = lease\<lparr> le_file := None \<rparr> \<and>
     working (frame_at store jobID j {fd} w) {} {} (published (frame_at store jobID j {fd} w) build) w')"
proof -
  let ?f = "frame_at store jobID j {fd} w"
  have start: "working ?f {} {fd} anything w"
    by (rule working_start [OF at]) (use lease in auto)
  have "wp (publishTerminalState (fr_store ?f) (fr_jobID ?f) lease build) (\<lambda>(lease', e) w'.
      (lease' = lease \<and> e \<noteq> [] \<and> working ?f {} {fd} anything w') \<or>
      (lease' = lease\<lparr> le_file := None \<rparr> \<and> working ?f {} {} (published ?f build) w')) w"
    by (rule job_publishTerminalState [OF start lease(1) _ _ build]) simp_all
  then show ?thesis using run by (simp add: wp_def)
qed

lemma execution_terminal_status:
  assumes "wait_ok outcome" "execution_terminal outcome current now = Inr s"
  shows "jm_Status (ps_Job s) =
    (if ps_Cancellation s \<noteq> None then JobStatusCancelled
     else JobStatus_of_TerminalStatus (outcome_status outcome))"
proof -
  let ?o = "if ps_Cancellation current \<noteq> None then outcome\<lparr> eo_cause := causeCancelled \<rparr> else outcome"
  have "wait_ok ?o" using assms(1) by (simp add: wait_ok_def)
  then obtain result where "processResult ?o (max now (jm_StartedAtUnixMs (ps_Job current)))
      (jm_CapturedBytes (ps_Job current)) =
      Inr (result, JobStatus_of_TerminalStatus (outcome_status ?o))"
    using processResult_ok by blast
  then have "ps_Cancellation s = ps_Cancellation current"
    "jm_Status (ps_Job s) = JobStatus_of_TerminalStatus (outcome_status ?o)"
    using assms(2) by (auto simp: execution_terminal_def terminalState_def Let_def)
  then show ?thesis by (cases "ps_Cancellation current") (simp_all add: outcome_status_def)
qed

lemma execution_terminal_not_nil: "execution_terminal outcome s now \<noteq> Inl []"
  by (auto simp: execution_terminal_def terminalState_def processResult_def Let_def
      split: sum.splits option.splits if_splits)

subsection \<open>Histories\<close>

datatype job_request =
    Append bytes
  | Publish PersistedJobState
  | RequestCancel
  | ReadStatus
  | ReadRange OutputRequest
  | CommitWait PreparedWait
  | WaitRounds nat Manager WaitRequest int int "ByteCursor option" ByteCursor int
  | Reconcile int

definition perform :: "Store \<Rightarrow> JobID \<Rightarrow> job_request \<Rightarrow> unit io" where
  "perform store jobID request =
    (case request of
       Append incoming \<Rightarrow> do { _ \<leftarrow> appendOutput store jobID incoming; State_Monad.return () }
     | Publish next_state \<Rightarrow> do { _ \<leftarrow> publishState store jobID next_state; State_Monad.return () }
     | RequestCancel \<Rightarrow> do { _ \<leftarrow> cancel store jobID; State_Monad.return () }
     | ReadStatus \<Rightarrow> do { _ \<leftarrow> store_status store jobID; State_Monad.return () }
     | ReadRange r \<Rightarrow> do { _ \<leftarrow> store_output store (r\<lparr> ot_JobID := jobID \<rparr>); State_Monad.return () }
     | CommitWait p \<Rightarrow> do { _ \<leftarrow> commitWait store (p\<lparr> pw_jobID := jobID \<rparr>); State_Monad.return () }
     | WaitRounds rounds manager r absolute idle cursor lastCaptured idleDeadline \<Rightarrow> do {
         _ \<leftarrow> wait_loop rounds manager store (r\<lparr> wr_JobID := jobID \<rparr>) absolute idle cursor lastCaptured
                idleDeadline;
         State_Monad.return () }
     | Reconcile deadline \<Rightarrow> do {
         _ \<leftarrow> reconcileRunnerState store jobID deadline; State_Monad.return () })"

lemma does_then:
  assumes "job_does f m P"
  shows "job_action f (do { _ \<leftarrow> m; State_Monad.return () })"
proof (rule job_doesI)
  fix D C K w and Q :: "unit \<Rightarrow> world \<Rightarrow> bool"
  assume "working f D C K w" and Q: "\<And>r w'. working f D C anything w' \<Longrightarrow> Q r w'"
  then show "wp (do { _ \<leftarrow> m; State_Monad.return () }) Q w"
    unfolding wp_bind wp_return_fun
    by (rule job_doesD [OF _ assms]) (erule working_anything)
qed

interpretation performs: job_operation store jobID "perform store jobID request" "\<lambda>f r. anything"
proof (unfold_locales, goal_cases)
  case (1 f)
  then show ?case
    by (cases request)
      (simp_all add: perform_def, (rule does_then, rule append.does publish.does cancels.does status.does
        outputs.does [where request = "r\<lparr> ot_JobID := jobID \<rparr>" for r, simplified]
        commits.does [where prepared = "p\<lparr> pw_jobID := jobID \<rparr>" for p, simplified]
        waits.does [where request = "r\<lparr> wr_JobID := jobID \<rparr>" for r, simplified] reconciles.does; simp)+)
qed

text \<open>
  A history of a job: processes that perform requests on it one after the other, each with its own
  store, descriptors, clock and fault script and each possibly killed on the way; runners that
  publish the end of the job; and changes elsewhere in the file system.
\<close>

definition away :: "fs \<Rightarrow> nat \<Rightarrow> nat set \<Rightarrow> (nat \<times> string) set \<Rightarrow> bool" where
  "away I j W T \<longleftrightarrow>
    (\<forall>name. (j, name) \<notin> T) \<and> (\<forall>name n. lookup_at I j name = Some n \<longrightarrow> n \<notin> W)"

definition same_store :: "Store \<Rightarrow> Store \<Rightarrow> bool" where
  "same_store store other \<longleftrightarrow>
    st_contracts other = st_contracts store \<and> st_workspace other = st_workspace store"

inductive history :: "Store \<Rightarrow> JobID \<Rightarrow> nat \<Rightarrow> fs \<Rightarrow> fs \<Rightarrow> bool" for store jobID j I0 where
  start: "history store jobID j I0 I0"
| request: "history store jobID j I0 (w_inodes w) \<Longrightarrow> same_store store other \<Longrightarrow>
    job_at other jobID j w \<Longrightarrow> run_state (perform other jobID r) w = (u, w') \<Longrightarrow>
    history store jobID j I0 (w_inodes w')"
| finish: "history store jobID j I0 (w_inodes w) \<Longrightarrow> same_store store other \<Longrightarrow>
    job_at other jobID j w \<Longrightarrow> le_file lease = Some fd \<Longrightarrow> fd \<in> dom (w_fds w) \<Longrightarrow> fd \<noteq> st_jobs other \<Longrightarrow>
    run_state (publishExecutionTerminal other jobID outcome lease) w = (x, w') \<Longrightarrow>
    history store jobID j I0 (w_inodes w')"
| elsewhere: "history store jobID j I0 I \<Longrightarrow> touches W T I I' \<Longrightarrow> away I j W T \<Longrightarrow>
    history store jobID j I0 I'"

lemma same_store_on_disk: "same_store store other \<Longrightarrow> job_on_disk other I j s out = job_on_disk store I j s out"
  by (simp add: same_store_def job_on_disk_def state_at_def cong: option.case_cong)

lemma same_store_evolves: "same_store store other \<Longrightarrow> job_evolves other j I I' = job_evolves store j I I'"
  unfolding job_evolves_def same_store_on_disk by (simp add: same_store_def)

lemma job_on_disk_away:
  assumes "touches W T I I'" "away I j W T" "job_on_disk store I j s out"
  shows "job_on_disk store I' j s out"
proof -
  have keep: "content_at I' j name = Some raw" if "content_at I j name = Some raw" for name raw
    by (rule content_touches [OF assms(1) that]) (use assms(2) in \<open>auto simp: away_def\<close>)
  have look: "lookup_at I' j name = Some n" if "lookup_at I j name = Some n" for name n
    by (rule lookup_touches [OF assms(1) that]) (use assms(2) in \<open>auto simp: away_def\<close>)
  obtain raw n m where "content_at I j ''state.json'' = Some raw" "content_at I j ''output.log'' = Some out"
    "lookup_at I j ''state.json'' = Some n" "lookup_at I j ''output.log'' = Some m"
    using assms(3) by (auto simp: job_on_disk_def state_at_def output_at_def content_at_Some split: option.splits)
  then show ?thesis
    using assms(3) keep look by (auto simp: job_on_disk_def state_at_def output_at_def)
qed

text \<open>The abstract job: its state and the output captured so far, and how it may change.\<close>

definition abstracts :: "Store \<Rightarrow> nat \<Rightarrow> fs \<Rightarrow> PersistedJobState \<times> bytes \<Rightarrow> bool" where
  "abstracts store j I a \<longleftrightarrow> (\<exists>out. job_on_disk store I j (fst a) out \<and> snd a = take (captured_of (fst a)) out)"

definition abstract_step :: "PersistedJobState \<times> bytes \<Rightarrow> PersistedJobState \<times> bytes \<Rightarrow> bool" where
  "abstract_step a a' \<longleftrightarrow>
    well_formed_state policy_v1 (fst a') \<and> evolves policy_v1 (fst a) (fst a') \<and>
    length (snd a') = captured_of (fst a') \<and> (\<exists>more. snd a' = snd a @ more)"

lemma abstracts_evolves:
  assumes "k_policy (st_contracts store) = policy_v1" "job_evolves store j I I'" "abstracts store j I a"
  shows "\<exists>a'. abstracts store j I' a' \<and> abstract_step a a'"
proof -
  obtain out where out: "job_on_disk store I j (fst a) out" "snd a = take (captured_of (fst a)) out"
    using assms(3) by (auto simp: abstracts_def)
  obtain s' out' where s': "job_on_disk store I' j s' out'" "evolves policy_v1 (fst a) s'"
    "take (captured_of (fst a)) out' = take (captured_of (fst a)) out"
    using assms(2) [unfolded job_evolves_def assms(1)] out(1) by blast
  have le: "captured_of (fst a) \<le> captured_of s'" by (rule evolves_captured [OF s'(2)])
  have "well_formed_state policy_v1 s'"
    using s'(1) assms(1) state_at_valid [of store I' j s'] by (simp add: job_on_disk_def)
  moreover have "length (take (captured_of s') out') = captured_of s'"
    using s'(1) by (simp add: job_on_disk_def nat_le_iff)
  moreover have "take (captured_of s') out' = snd a @ drop (captured_of (fst a)) (take (captured_of s') out')"
    using le s'(3) out(2)
    by (metis append_take_drop_id min.absorb1 take_take)
  ultimately show ?thesis
    using s'(1,2) unfolding abstracts_def abstract_step_def
    by (intro exI [of _ "(s', take (captured_of s') out')"]) auto
qed

lemma history_evolves:
  assumes "history store jobID j I0 I" "k_policy (st_contracts store) = policy_v1"
  shows "job_evolves store j I0 I"
  using assms(1)
proof induction
  case start
  show ?case by simp
next
  case (request w other r u w')
  have "job_evolves other j (w_inodes w) (w_inodes w')"
    using performs.step [OF request(3,4)] by (simp add: job_step_def)
  then show ?case
    using job_evolves_trans [OF assms(2) request.IH] same_store_evolves [OF request(2)] by blast
next
  case (finish w other lease fd outcome x w')
  obtain lease' e where x: "x = (lease', e)" by fastforce
  have "job_evolves other j (w_inodes w) (w_inodes w')"
    using publishTerminalState_run [OF finish(3-6) execution_terminal_not_nil
        finish(7) [unfolded x publishExecutionTerminal_def]]
    by (auto dest!: working_end(1) simp: job_step_def)
  then show ?case
    using job_evolves_trans [OF assms(2) finish.IH] same_store_evolves [OF finish(2)] by blast
next
  case (elsewhere I W T I')
  have "job_evolves store j I I'"
    unfolding job_evolves_def using job_on_disk_away [OF elsewhere(2,3)] evolves_refl by blast
  then show ?case
    using job_evolves_trans [OF assms(2) elsewhere.IH] by blast
qed

end
