(* ===== verification/Removal.thy ===== *)
theory Removal
  imports Mutations
begin

section \<open>Removing a job\<close>

text \<open>
  Removal is the one operation that takes a job away, so its contract has a second judgement beside
  \<open>working\<close>: \<open>removing f C w\<close> says that the job made a \<open>job_step\<close> to a state that the policy lets
  the session remove, and that since then only the job's own directory and its name changed.
\<close>

definition removable :: "Store \<Rightarrow> PersistedJobState \<Rightarrow> bool" where
  "removable store s \<longleftrightarrow>
    d_Allowed (AuthorizeMutation policy_v1 (job_access store s)) \<and>
    d_Allowed (AuthorizeRemoval policy_v1 (jm_Status (ps_Job s)))"

lemma removable_v1:
  assumes "removable store s"
  shows "jm_OwnerSessionID (ps_Job s) = st_sessionID store" "jm_Status (ps_Job s) \<noteq> JobStatusRunning"
    "isTerminal policy_v1 (jm_Status (ps_Job s))"
  using assms mutation_owner [of store s]
  by (auto simp: removable_def AuthorizeRemoval_def isKnownStatus_v1 split: if_splits)

definition removed_from :: "frame \<Rightarrow> PersistedJobState \<Rightarrow> fs \<Rightarrow> bool" where
  "removed_from f s I \<longleftrightarrow>
    (\<exists>I1. job_step (fr_store f) (fr_job f) (fr_fs f) I1 \<and> state_is f s I1 \<and>
       touches {} (({fr_job f} \<times> UNIV) \<union> {(fr_jobs f, fr_jobID f)}) I1 I)"

definition removing :: "frame \<Rightarrow> handle set \<Rightarrow> (fs \<Rightarrow> bool) \<Rightarrow> world \<Rightarrow> bool" where
  "removing f C K w \<longleftrightarrow>
    (\<exists>s I F. St (fr_euid f) I F w \<and> removable (fr_store f) s \<and> removed_from f s I \<and> K I \<and>
       (\<exists>b. F (st_jobs (fr_store f)) = Some (fr_jobs f, b)) \<and> st_jobs (fr_store f) \<notin> C \<and>
       C \<subseteq> dom F \<and> F |` (- C) = fr_fds f)"

lemma removing_weaken: "removing f C K w \<Longrightarrow> (\<And>I. K I \<Longrightarrow> K' I) \<Longrightarrow> removing f C K' w"
  unfolding removing_def by blast

lemma removing_closes:
  assumes "removing f C K w" "h \<in> C"
    and "\<And>Q u I F w. St u I F w \<Longrightarrow> (\<And>e w'. St u I (F(h := None)) w' \<Longrightarrow> Q e w') \<Longrightarrow> wp (close h) Q w"
    and Q: "\<And>e w'. removing f (C - {h}) K w' \<Longrightarrow> Q e w'"
  shows "wp (close h) Q w"
proof -
  obtain s I F b where *: "St (fr_euid f) I F w" "removable (fr_store f) s" "removed_from f s I" "K I"
    "F (st_jobs (fr_store f)) = Some (fr_jobs f, b)" "st_jobs (fr_store f) \<notin> C" "C \<subseteq> dom F"
    "F |` (- C) = fr_fds f"
    using assms(1) unfolding removing_def by blast
  have "(F(h := None)) |` (- (C - {h})) = F |` (- C)"
    using assms(2) by (auto simp: restrict_map_def)
  then have "removing f (C - {h}) K w'" if "St (fr_euid f) I (F(h := None)) w'" for w'
    using * that assms(2) unfolding removing_def
    by (intro exI [of _ s] exI [of _ I] exI [of _ "F(h := None)"])
      (auto simp del: fun_upd_restrict_conv)
  then show ?thesis by (intro assms(3) [OF *(1)] Q)
qed

lemma removing_Close:
  "removing f C K w \<Longrightarrow> h \<in> C \<Longrightarrow> (\<And>e w'. removing f (C - {h}) K w' \<Longrightarrow> Q e w') \<Longrightarrow> wp (file_Close h) Q w"
  by (rule removing_closes) (assumption | erule wp_Close)+

lemma removing_unlock_close:
  "removing f C K w \<Longrightarrow> h \<in> C \<Longrightarrow> (\<And>e w'. removing f (C - {h}) K w' \<Longrightarrow> Q e w') \<Longrightarrow> wp (unlock_close h) Q w"
  by (rule removing_closes) (assumption | erule wp_unlock_close)+

text \<open>The name of the job is gone.\<close>

definition name_gone :: "frame \<Rightarrow> fs \<Rightarrow> bool" where
  "name_gone f I \<longleftrightarrow> lookup_at I (fr_jobs f) (fr_jobID f) = None"

lemma removing_removeDirectory:
  assumes "removing f C K w"
    and Q: "\<And>e w'. removing f C (\<lambda>I. e = [] \<longrightarrow> name_gone f I) w' \<Longrightarrow> Q e w'"
  shows "wp (removeDirectory (st_jobs (fr_store f)) (fr_jobID f)) Q w"
proof -
  obtain s I F b where *: "St (fr_euid f) I F w" "removable (fr_store f) s" "removed_from f s I"
    "F (st_jobs (fr_store f)) = Some (fr_jobs f, b)" "st_jobs (fr_store f) \<notin> C" "C \<subseteq> dom F"
    "F |` (- C) = fr_fds f"
    using assms(1) unfolding removing_def by blast
  have still: "removing f C K' w'" if "St (fr_euid f) I' F w'" "K' I'"
    "touches {} {(fr_jobs f, fr_jobID f)} I I'" for I' w' K'
  proof -
    obtain I1 where "job_step (fr_store f) (fr_job f) (fr_fs f) I1" "state_is f s I1"
      "touches {} (({fr_job f} \<times> UNIV) \<union> {(fr_jobs f, fr_jobID f)}) I1 I"
      using *(3) unfolding removed_from_def by blast
    then have "removed_from f s I'"
      unfolding removed_from_def using touches_trans [OF _ that(3)] by blast
    then show ?thesis using * that(1,2) unfolding removing_def by blast
  qed
  show ?thesis
    by (rule wp_removeDirectory [OF *(1,4)])
      (auto intro!: Q still simp: name_gone_def)
qed

text \<open>What a removal leaves: a job that only made a step, or one that was taken away rightly.\<close>

definition removal_end :: "frame \<Rightarrow> handle set \<Rightarrow> handle set \<Rightarrow> error \<Rightarrow> world \<Rightarrow> bool" where
  "removal_end f D C e w \<longleftrightarrow>
    working f D C anything w \<and> e \<noteq> [] \<or> removing f C (\<lambda>I. e = [] \<longrightarrow> name_gone f I) w"

lemma job_removeDirectoryContents:
  assumes "working f D C (state_is f s) w" "h \<in> D" "removable (fr_store f) s"
    and Q: "\<And>emptied e w'. removing f C anything w' \<Longrightarrow> \<not> emptied \<longrightarrow> e \<noteq> [] \<Longrightarrow> Q (emptied, e) w'"
  shows "wp (removeDirectoryContents h) Q w"
proof (rule workingE [OF assms(1)])
  fix I F assume st: "St (fr_euid f) I F w" and fr: "in_frame f D C I F" and at: "state_is f s I"
  obtain b where d: "F h = Some (fr_job f, b)" using in_frame_dir [OF fr assms(2)] by blast
  have gone: "removing f C anything w'"
    if "touches {} ({fr_job f} \<times> UNIV) I I'" "St (fr_euid f) I' F w'" for I' w'
  proof -
    have "touches {} (({fr_job f} \<times> UNIV) \<union> {(fr_jobs f, fr_jobID f)}) I I'"
      by (rule touches_mono [OF that(1)]) auto
    then have "removed_from f s I'"
      unfolding removed_from_def using fr at
      by (intro exI [of _ I]) (auto simp: in_frame_def)
    then show ?thesis
      using fr that(2) assms(3) unfolding removing_def in_frame_def by blast
  qed
  show ?thesis
    by (rule wp_removeDirectoryContents [OF st d]) (use gone Q in auto)
qed

lemma job_remove_locked:
  assumes "working f (insert (lj_dir job) D)
      (insert (lj_stateLock job) (insert (lj_dir job) (insert r C))) (\<lambda>I. state_is f (lj_state job) I) w"
    and "r \<notin> C" "r \<notin> D" and h: "holds_job f D (insert r C) job"
    and Q: "\<And>e w'. removal_end f D C e w' \<Longrightarrow> Q e w'"
  shows "wp (remove_locked (fr_store f) (fr_jobID f) r job) Q w"
proof -
  let ?s = "lj_state job"
  have policy: "k_policy (st_contracts (fr_store f)) = policy_v1"
    using assms(1) by (auto simp: working_def in_frame_def)
  have C: "insert r C - {r} = C" "D - {r} = D" using assms(2,3) by auto
  have kept: "wp (do {
      stateCloseErr \<leftarrow> locked_close job;
      runnerCloseErr \<leftarrow> unlock_close r;
      State_Monad.return (errors_Join [e, stateCloseErr, runnerCloseErr]) }) Q w" if "e \<noteq> []" for e
    unfolding wp_bind
    by (rule job_locked_close [OF assms(1) h], rule job_unlock_close, assumption, simp)
      (use that in \<open>auto simp: C removal_end_def intro!: Q elim!: working_anything\<close>)
  show ?thesis
  proof (cases "removable (fr_store f) ?s")
    case False
    then show ?thesis
      using kept unfolding remove_locked_def Let_def policy removable_def
      by (auto simp: State_Monad.bind_assoc)
  next
    case True
    note closes = removing_Close removing_unlock_close
    have "wp (removeDirectoryContents (lj_dir job)) (\<lambda>x. wp (case x of (contentsRemoved, operationErr) \<Rightarrow> do {
        stateCloseErr \<leftarrow> locked_close job;
        runnerCloseErr \<leftarrow> unlock_close r;
        if \<not> contentsRemoved
        then State_Monad.return (errors_Join [operationErr, stateCloseErr, runnerCloseErr])
        else do {
          removeErr \<leftarrow> removeDirectory (st_jobs (fr_store f)) (fr_jobID f);
          State_Monad.return
            (errors_Join [errors_Join [operationErr, stateCloseErr, runnerCloseErr], removeErr]) } }) Q) w"
    proof (rule job_removeDirectoryContents [OF assms(1) _ True], goal_cases)
      case (2 emptied e w1)
      have C3: "insert (lj_stateLock job) (insert (lj_dir job) (insert r C)) - {lj_stateLock job} - {lj_dir job} - {r} = C"
        "lj_dir job \<noteq> lj_stateLock job" "r \<noteq> lj_dir job" "r \<noteq> lj_stateLock job"
        using h assms(2) by (auto simp: holds_job_def)
      have closed: "wp (locked_close job) (\<lambda>a. wp (unlock_close r) (Q' a)) w1"
        if Q': "\<And>a b w'. removing f C anything w' \<Longrightarrow> Q' a b w'" for Q'
        unfolding locked_close_def wp_bind wp_return_fun
        by (rule removing_unlock_close [OF 2(1)], simp, rule removing_Close, assumption, simp add: C3(2),
            rule removing_unlock_close, assumption, simp add: C3(3,4), rule Q', simp only: C3(1))
      show ?case
        unfolding prod.case wp_bind_fun
      proof (rule closed, goal_cases)
        case (1 a b w')
        have over: "Q e' w''" if "removing f C K w''" "\<And>I. K I \<Longrightarrow> e' = [] \<longrightarrow> name_gone f I" for e' K w''
          by (rule Q, unfold removal_end_def, rule disjI2, rule removing_weaken [OF that(1)], rule that(2))
        show ?case
        proof (cases emptied)
          case True
          then show ?thesis
            by simp (rule removing_removeDirectory [OF 1], simp, erule over, simp)
        next
          case False
          then show ?thesis using over [OF 1, of "e @ a @ b"] 2(2) by simp
        qed
      qed
    qed simp
    then show ?thesis
      using True unfolding remove_locked_def Let_def policy removable_def
      by (simp add: wp_bind_fun)
  qed
qed

lemma job_remove_inactive:
  assumes "working f D C K w" and Q: "\<And>e w'. removal_end f D C e w' \<Longrightarrow> Q e w'"
  shows "wp (remove_inactive (fr_store f) (fr_jobID f)) Q w"
proof -
  have fail: "Q e w'" if "working f D C K' w'" "e \<noteq> []" for e K' w'
    by (rule Q) (use working_anything [OF that(1)] that(2) in \<open>simp add: removal_end_def\<close>)
  have locked: "wp (remove_locked (fr_store f) (fr_jobID f) r job) Q w'"
    if "r \<notin> C" "r \<notin> D" "holds_job f D (insert r C) job"
      "working f (insert (lj_dir job) D) (insert (lj_stateLock job) (insert (lj_dir job) (insert r C)))
        (\<lambda>I. K' I \<and> state_is f (lj_state job) I) w'" for r job K' w'
    by (rule job_remove_locked [OF working_when [OF that(4)] that(1-3) Q]) auto
  show ?thesis
    unfolding remove_inactive_def
    by (insert assms(1), (erule job_rules | simp only: sum.case | rule locked, blast, assumption, assumption, assumption |
      rule wp_branches | rule fail, assumption | simp add: insert_Diff_if split del: if_split)+)
qed

lemma job_runnerLeaseActive [job_rules]:
  assumes "working f D C K w" and "\<And>x w'. working f D C K w' \<Longrightarrow> Q x w'"
  shows "wp (runnerLeaseActive (fr_store f) (fr_jobID f)) Q w"
  unfolding runnerLeaseActive_def
  by (insert assms(1), (erule job_rules | rule wp_branches | rule assms(2), assumption |
    simp split del: if_split)+)

lemma job_removeTerminal:
  assumes "working f D C K w" and Q: "\<And>e w'. removal_end f D C e w' \<Longrightarrow> Q e w'"
  shows "wp (removeTerminal (fr_store f) (fr_jobID f)) Q w"
proof -
  have fail: "Q e w'" if "working f D C K' w'" "e \<noteq> []" for e K' w'
    by (rule Q) (use working_anything [OF that(1)] that(2) in \<open>simp add: removal_end_def\<close>)
  have inactive: "wp (remove_inactive (fr_store f) (fr_jobID f)) Q w'" if "working f D C K' w'" for K' w'
    by (rule job_remove_inactive [OF that Q])
  show ?thesis
    unfolding removeTerminal_def Let_def
    by (insert assms(1), (erule job_rules inactive | rule wp_branches | rule fail, assumption |
      simp split del: if_split)+)
qed

end
