(* ===== verification/JobProps.thy ===== *)
theory JobProps
  imports Jobs Removal
begin

section \<open>What the store promises about a job\<close>

text \<open>
  The properties of whole operations, each for every fault script: system calls that fail, and a
  process that is killed between any two of them. They are facts of the interpretations of
  \<open>job_operation\<close>, written out over the code.
\<close>




lemma example_at: "job_at example_store ''job-1'' 2 example_world"
  by (auto simp: job_at_def world_ok_def lookup_at_def example_world_defs)

lemma example_run: "run_state m example_world = (r, snd (run_state m example_world)) \<longleftrightarrow>
    fst (run_state m example_world) = r"
  by (metis fst_conv prod.collapse snd_conv)


text \<open>C2: The job on disk refines an abstract job, its state and the captured output: over any history,
  of any processes that cancel, publish, append, read, wait, reconcile or finish the job one after
  the other, with any failing system calls and killed at any point, and with any changes elsewhere
  in the file system, the abstract job makes a step of its specification: it stays well formed,
  its identity, result, cancellation and finish time stay, its status follows the policy, and its
  output only grows at the end.\<close>

theorem history_refines:
  assumes "history store jobID j I0 I" "k_policy (st_contracts store) = policy_v1"
    and "abstracts store j I0 a"
  shows "\<exists>a'. abstracts store j I a' \<and> abstract_step a a'"
  using abstracts_evolves [OF assms(2) history_evolves [OF assms(1,2)] assms(3)] .

lemma history_refines_witness:
  "\<exists>a'. abstracts example_store 2 (w_inodes (snd (run_state (perform example_store ''job-1'' (Append ''hi''))
      example_world))) a' \<and> abstract_step (example_job, []) a'"
proof (rule history_refines)
  have "history example_store ''job-1'' 2 (w_inodes example_world) (w_inodes example_world)"
    by (rule history.start)
  then show "history example_store ''job-1'' 2 (w_inodes example_world)
      (w_inodes (snd (run_state (perform example_store ''job-1'' (Append ''hi'')) example_world)))"
    by (rule history.request [where r = "Append ''hi''" and other = example_store])
      (auto simp: same_store_def example_at prod_eq_iff)
  show "abstracts example_store 2 (w_inodes example_world) (example_job, [])"
    using example_on_disk by (auto simp: abstracts_def)
qed simp

text \<open>C29: No operation leaks or disturbs anything: whatever fails, when an operation on a job returns
  the process has the same open descriptors and holds the same locks as before, and the files of
  every other job that does not share the output file are as they were.\<close>

theorem perform_leaves_no_trace:
  assumes "job_at store jobID j w" "run_state (perform store jobID request) w = (u, w')"
  shows "(w_alive w' \<longrightarrow> w_fds w' = w_fds w) \<and>
    (\<forall>k name raw. apart (w_inodes w) j k \<longrightarrow> content_at (w_inodes w) k name = Some raw \<longrightarrow>
       content_at (w_inodes w') k name = Some raw)"
  using performs.no_leak [OF assms] performs.keeps_others [OF assms] by blast

lemma example_perform_alive:
  "w_alive (snd (run_state (perform example_store ''job-1'' RequestCancel) example_world))"
  by (simp add: perform_def run_rules recovery_defs control_defs example_world_defs
      cong: run_congs split del: if_split)

lemma perform_leaves_no_trace_witness:
  "w_fds (snd (run_state (perform example_store ''job-1'' RequestCancel) example_world)) = [3 \<mapsto> (1, False)]"
  using perform_leaves_no_trace [OF example_at prod.collapse [symmetric], where request = RequestCancel]
    example_perform_alive
  by (simp add: example_world_def)

subsection \<open>Observing\<close>

text \<open>What was seen during an operation on a sound job, seen from both its ends.\<close>

lemma seen_between:
  assumes "seen (frame_at store jobID j C w) s1 I" "job_on_disk store (w_inodes w) j s out"
    and "k_policy (st_contracts store) = policy_v1"
  obtains out1 s2 out2 where "evolves policy_v1 s s1" "take (captured_of s) out1 = take (captured_of s) out"
    "job_on_disk store I j s2 out2" "evolves policy_v1 s1 s2"
    "take (captured_of s1) out2 = take (captured_of s1) out1" "captured_of s1 \<le> length out1"
proof -
  obtain I1 where I1: "job_evolves store j (w_inodes w) I1" "state_at store I1 j = Some s1"
    "job_evolves store j I1 I"
    using assms(1) by (auto simp: seen_def job_step_def)
  obtain s1' out1 where 1: "job_on_disk store I1 j s1' out1" "evolves policy_v1 s s1'"
    "take (captured_of s) out1 = take (captured_of s) out"
    using I1(1) [unfolded job_evolves_def assms(3)] assms(2) by blast
  then have "s1' = s1" using I1(2) by (simp add: job_on_disk_def)
  moreover obtain s2 out2 where "job_on_disk store I j s2 out2" "evolves policy_v1 s1' s2"
    "take (captured_of s1') out2 = take (captured_of s1') out1"
    using I1(3) [unfolded job_evolves_def assms(3)] 1(1) by blast
  moreover have "captured_of s1' \<le> length out1" using 1(1) by (simp add: job_on_disk_def nat_le_iff)
  ultimately show ?thesis using that 1(2,3) by blast
qed

text \<open>A status is a state the job really had: the observation \<open>status\<close> answers with is made from a
  state \<open>s1\<close> that lies between the state the call found and the one it left behind, so it never
  shows a job that goes back, and a job it shows as terminal stays so.\<close>

lemma status_between:
  assumes "job_at store jobID j w" "job_on_disk store (w_inodes w) j s out"
    and "run_state (store_status store jobID) w = (Inr observation, w')"
  shows "\<exists>s1 s2 out2. observation = observationFromState s1 \<and> evolves policy_v1 s s1 \<and>
    job_on_disk store (w_inodes w') j s2 out2 \<and> evolves policy_v1 s1 s2"
proof -
  obtain s1 where s1: "seen (frame_at store jobID j {} w) s1 (w_inodes w')"
    "observation = observationFromState s1"
    using status.answer [OF assms(1,3)] by (auto simp: answers_def status_seen_def)
  show ?thesis
    by (rule seen_between [OF s1(1) assms(2)]) (use assms(1) s1(2) in \<open>auto simp: job_at_def\<close>)
qed

lemma status_between_witness:
  "\<exists>s2 out2. job_on_disk example_store
      (w_inodes (snd (run_state (store_status example_store ''job-1'') example_world))) 2 s2 out2"
  using status_between [OF example_at example_on_disk iffD2 [OF example_run example_status]] by blast

text \<open>C30: An output observation shows captured bytes only: the chunk \<open>output\<close> answers with is cut, as
  \<open>ResolveOutputRange\<close> and \<open>Output\<close> say, from the bytes \<open>raw\<close> that some state \<open>s1\<close> of the job during
  the call had captured; they begin with the bytes captured before the call and stay at the
  beginning of the output file.\<close>

theorem output_between:
  assumes "job_at store (ot_JobID request) j w" "job_on_disk store (w_inodes w) j s out"
    and "run_state (store_output store request) w = (Inr observation, w')"
  shows "\<exists>s1 s2 out2 raw. shows_output policy_v1 (output_payload request) s1 raw observation \<and>
    length raw = captured_of s1 \<and> take (captured_of s) raw = take (captured_of s) out \<and>
    evolves policy_v1 s s1 \<and> job_on_disk store (w_inodes w') j s2 out2 \<and> evolves policy_v1 s1 s2 \<and>
    take (captured_of s1) out2 = raw"
proof -
  obtain s1 raw where s1: "seen (frame_at store (ot_JobID request) j {} w) s1 (w_inodes w')"
    "reads (frame_at store (ot_JobID request) j {} w) s1 raw (w_inodes w')"
    "shows_output policy_v1 (output_payload request) s1 raw observation"
    using outputs.answer [OF assms(1,3)] by (auto simp: answers_def output_seen_def)
  show ?thesis
  proof (rule seen_between [OF s1(1) assms(2)])
    show "k_policy (st_contracts store) = policy_v1" using assms(1) by (simp add: job_at_def)
    fix out1 s2 out2
    assume e: "evolves policy_v1 s s1" "take (captured_of s) out1 = take (captured_of s) out"
      and disk: "job_on_disk store (w_inodes w') j s2 out2" "evolves policy_v1 s1 s2"
      and out2: "take (captured_of s1) out2 = take (captured_of s1) out1" "captured_of s1 \<le> length out1"
    have raw: "raw = take (captured_of s1) out2" "captured_of s1 \<le> length out2"
      using s1(2) disk(1) by (auto simp: reads_def job_on_disk_def)
    have "take (captured_of s) raw = take (captured_of s) out"
      using evolves_captured [OF e(1)] e(2) unfolding raw(1) out2(1) by (simp add: min_absorb1)
    then show ?thesis
      using s1(3) e(1) disk raw by (intro exI [of _ s1] exI [of _ s2] exI [of _ out2] exI [of _ raw]) simp
  qed
qed

text \<open>The example after an append.\<close>

definition example_world2 :: world where
  "example_world2 = example_world\<lparr> w_inodes := example_fs(3 \<mapsto> example_file ''b'', 4 \<mapsto> example_file ''hi'') \<rparr>"

definition example_output :: OutputRequest where
  "example_output = \<lparr> ot_Invocation = empty_invocation, ot_JobID = ''job-1'',
     ot_StartCursorBytes = Some 1, ot_EndCursorBytes = None \<rparr>"

lemma example_at2: "job_at example_store (ot_JobID example_output) 2 example_world2"
  by (auto simp: job_at_def world_ok_def lookup_at_def example_world2_def example_world_defs example_output_def)

lemma example_on_disk2: "job_on_disk example_store (w_inodes example_world2) 2 example_grown ''hi''"
  by (simp add: job_on_disk_def state_at_def output_at_def content_at_def lookup_at_def example_world2_def
      example_world_defs)

lemma example_grown_fields [simp]:
  "jm_Status (ps_Job example_grown) = JobStatusRunning" "jm_JobID (ps_Job example_grown) = ''job-1''"
  "d_Allowed (AuthorizeRead policy_v1 (job_access example_store example_grown))"
  by (simp_all add: example_grown_def AuthorizeRead_def job_access_def del: example_fold)

lemma example_range [simp]:
  "ResolveOutputRange policy_v1 \<lparr> op_EndCursorBytes = None, op_JobID = ''job-1'',
      op_StartCursorBytes = Some 1 \<rparr> 2 =
    (\<lparr> rg_Start = 1, rg_End = 2, rg_Captured = 2 \<rparr>, \<lparr> d_Allowed = True, d_Code = CodeAllow \<rparr>)"
  by (simp add: ResolveOutputRange_def ValidateRange_def Let_def)

lemma example_chunk [simp]:
  "Output policy_v1 ''hi'' \<lparr> ox_Range = \<lparr> rg_Start = 1, rg_End = 2, rg_Captured = 2 \<rparr>, ox_Terminal = False \<rparr> =
    (\<lparr> ck_CapturedBytes = 2, ck_Eof = False, ck_NextCursorBytes = 2, ck_StartCursorBytes = 1, ck_Text = ''i'' \<rparr>,
     \<lparr> d_Allowed = True, d_Code = CodeAllow \<rparr>)"
  by (simp add: Output_def ValidateRange_def byte_slice_def Let_def numeral_eq_Suc strings_ToValidUTF8_def
      to_valid_from.simps rune_width_ascii)

lemma example_output_run:
  "\<exists>observation. fst (run_state (store_output example_store example_output) example_world2) = Inr observation \<and>
     ck_Text (oo_Output observation) = ''i''"
  by (simp add: run_rules recovery_defs control_defs example_world_defs example_world2_def store_output_def
    outputSnapshot_def readOutputSnapshot_def example_output_def cong: run_congs split del: if_split)

lemma output_between_witness:
  "\<exists>s1 s2 out2. evolves policy_v1 example_grown s1 \<and> job_on_disk example_store
      (w_inodes (snd (run_state (store_output example_store example_output) example_world2))) 2 s2 out2"
proof -
  obtain observation where
    "run_state (store_output example_store example_output) example_world2 =
      (Inr observation, snd (run_state (store_output example_store example_output) example_world2))"
    using example_output_run by (metis prod.collapse)
  from output_between [OF example_at2 example_on_disk2 this] show ?thesis by blast
qed

subsection \<open>Cancelling and committing\<close>

lemma state_is_on_disk:
  assumes "state_at store I j = Some s2" "job_evolves store j (w_inodes w) I"
    and "job_on_disk store (w_inodes w) j s out" "k_policy (st_contracts store) = policy_v1"
  obtains out2 where "job_on_disk store I j s2 out2" "evolves policy_v1 s s2"
    "take (captured_of s) out2 = take (captured_of s) out"
  using assms(1,3) assms(2) [unfolded job_evolves_def assms(4)] that by (force simp: job_on_disk_def)

text \<open>C28: A cancellation that is answered is the owner's and is on disk: when \<open>cancel\<close> answers, the
  session is the job's owner, the answer shows the status and the cancellation record of the
  state on disk, and the job is either terminal or has a cancellation record, which the job keeps
  whatever happens later. Another session's request is always refused.\<close>

theorem cancel_answered:
  assumes "job_at store jobID j w" "job_on_disk store (w_inodes w) j s out"
    and "run_state (cancel store jobID) w = (Inr result, w')"
  shows "jm_OwnerSessionID (ps_Job s) = st_sessionID store \<and>
    (\<exists>s2 out2. job_on_disk store (w_inodes w') j s2 out2 \<and> evolves policy_v1 s s2 \<and>
       cr_JobID result = jobID \<and> cr_Status result = jm_Status (ps_Job s2) \<and>
       cr_Cancellation result = ps_Cancellation s2 \<and>
       (if cr_Outcome result = CancellationOutcomeAlreadyTerminal
        then jm_Status (ps_Job s2) \<noteq> JobStatusRunning else ps_Cancellation s2 \<noteq> None))"
proof -
  obtain s2 code where s2: "state_at store (w_inodes w') j = Some s2" "result = cancellationResult s2 code"
    "jm_JobID (ps_Job s2) = jobID" "jm_OwnerSessionID (ps_Job s2) = st_sessionID store"
    "if code = CodeCancellationTerminal then jm_Status (ps_Job s2) \<noteq> JobStatusRunning
     else code \<in> {CodeCancellationRequested, CodeCancellationIdempotent} \<and> ps_Cancellation s2 \<noteq> None"
    using cancels.answer [OF assms(1,3)] by (auto simp: cancelled_def)
  have step: "job_evolves store j (w_inodes w) (w_inodes w')"
    using cancels.step [OF assms(1,3)] by (simp add: job_step_def)
  show ?thesis
    by (rule state_is_on_disk [OF s2(1) step assms(2)])
      (use assms(1) s2 in \<open>auto simp: job_at_def cancellationResult_def evolves_def
        sameImmutableStateFields_def split: if_splits\<close>)
qed

lemma cancel_answered_witness:
  "\<exists>s2 out2. job_on_disk example_store
      (w_inodes (snd (run_state (cancel example_store ''job-1'') example_world))) 2 s2 out2 \<and>
    ps_Cancellation s2 \<noteq> None"
  using cancel_answered [OF example_at example_on_disk iffD2 [OF example_run example_cancel]]
  by (auto simp: cancellationResult_def)


subsection \<open>The end of a job\<close>

text \<open>C3: A published end is final: when \<open>publishExecutionTerminal\<close> has released the runner's lease, the
  job on disk is terminal with the status its cancellation record and the execution's outcome
  call for, a result and a finish time; the captured output is kept; and the process holds what it
  held before less the lease. When it has not, it reports an error and the runner keeps its lease.\<close>

theorem publishExecutionTerminal_final:
  assumes "job_at store jobID j w" "job_on_disk store (w_inodes w) j s out"
    and "le_file lease = Some fd" "fd \<in> dom (w_fds w)" "fd \<noteq> st_jobs store" "wait_ok outcome"
    and "run_state (publishExecutionTerminal store jobID outcome lease) w = ((lease', e), w')"
  shows "lease' = lease \<and> e \<noteq> noerr \<and> (w_alive w' \<longrightarrow> (\<exists>x. w_fds w' = (w_fds w)(fd := Some x))) \<or>
    le_file lease' = None \<and> (w_alive w' \<longrightarrow> w_fds w' = (w_fds w)(fd := None)) \<and>
    (\<exists>s2 out2. job_on_disk store (w_inodes w') j s2 out2 \<and> evolves policy_v1 s s2 \<and>
       take (captured_of s) out2 = take (captured_of s) out \<and>
       jm_Status (ps_Job s2) = (if ps_Cancellation s2 \<noteq> None then JobStatusCancelled
                                else JobStatus_of_TerminalStatus (outcome_status outcome)) \<and>
       ps_Result s2 \<noteq> None \<and> jm_FinishedAtUnixMs (ps_Job s2) \<noteq> None)"
proof -
  let ?f = "frame_at store jobID j {fd} w"
  have policy: "k_policy (st_contracts store) = policy_v1" using assms(1) by (simp add: job_at_def)
  have restrict: "G |` (- {fd}) = F |` (- {fd}) \<Longrightarrow> G = F(fd := G fd)" for F G :: fdtable
    by (auto simp: restrict_map_def fun_eq_iff split: if_splits)
  from publishTerminalState_run [OF assms(1,3-5) execution_terminal_not_nil
      assms(7) [unfolded publishExecutionTerminal_def]]
  show ?thesis
  proof (elim disjE conjE, goal_cases)
    case 1
    have "w_alive w' \<Longrightarrow> \<exists>x. w_fds w' = (w_fds w)(fd := Some x)"
      using restrict [OF working_end(4) [OF 1(3)]] working_end(5) [OF 1(3)] by (metis domD insert_subset)
    then show ?thesis using 1 by blast
  next
    case 2
    obtain s2 current now where s2: "state_at store (w_inodes w') j = Some s2"
      "execution_terminal outcome current now = Inr s2" "jm_Status (ps_Job s2) \<in> set all_terminal_statuses"
      using working_end(3) [OF 2(2)] by (auto simp: published_def)
    have step: "job_evolves store j (w_inodes w) (w_inodes w')"
      using working_end(1) [OF 2(2)] by (simp add: job_step_def)
    have fds: "w_alive w' \<Longrightarrow> w_fds w' = (w_fds w)(fd := None)"
      using working_end(4) [OF 2(2)] by (auto simp: restrict_UNIV restrict_map_def fun_eq_iff)
    have finished: "ps_Result s2 \<noteq> None" "jm_FinishedAtUnixMs (ps_Job s2) \<noteq> None"
      using s2(2) by (auto simp: execution_terminal_def terminalState_def Let_def split: sum.splits)
    show ?thesis
    proof (rule state_is_on_disk [OF s2(1) step assms(2) policy], goal_cases)
      case (1 out2)
      then show ?case
        using 2(1) fds finished execution_terminal_status [OF assms(6) s2(2)]
        by (intro disjI2 conjI impI exI [of _ s2] exI [of _ out2]) simp_all
    qed
  qed
qed

text \<open>The runner of the example: it holds the lock of inode 6 and a recorded lease.\<close>

definition example_runner :: world where
  "example_runner = example_world
    \<lparr> w_foreign := [], w_fds := [3 \<mapsto> (1, False), 9 \<mapsto> (6, True)], w_nextfd := 10 \<rparr>"

definition example_lease :: runnerLease where
  "example_lease = \<lparr> le_file = Some 9, le_jobID = ''job-1'' \<rparr>"

lemma example_finish_update [simp]:
  "update_allowed example_job ''job-1'' example_finished"
  "transitionAllowed policy_v1 example_job example_finished"
  "jm_Status (ps_Job example_finished) = JobStatusNonzeroExit"
  by (simp_all add: update_allowed_def example_finished_def sameImmutableStateFields_def preserves_iff
      transition_v1 all_terminal_statuses_def)

lemma example_finish:
  "fst (run_state (publishExecutionTerminal example_store ''job-1'' example_outcome example_lease)
      example_runner) = (example_lease\<lparr> le_file := None \<rparr>, noerr)"
  by (simp add: run_rules recovery_defs control_defs example_world_defs example_runner_def example_lease_def
    publishExecutionTerminal_def publishTerminalState_def publish_terminal_recovering_def
    createTerminalIntent_def createSyncedFile_def removeTerminalIntent_def releaseLocked_def
    example_finished_built cong: run_congs split del: if_split)

lemma publishExecutionTerminal_final_witness:
  "\<exists>s2 out2. job_on_disk example_store (w_inodes (snd (run_state
      (publishExecutionTerminal example_store ''job-1'' example_outcome example_lease) example_runner))) 2 s2 out2 \<and>
    ps_Result s2 \<noteq> None"
proof -
  have at: "job_at example_store ''job-1'' 2 example_runner"
    by (auto simp: job_at_def world_ok_def lookup_at_def example_runner_def example_world_defs)
  have disk: "job_on_disk example_store (w_inodes example_runner) 2 example_job []"
    using example_on_disk by (simp add: example_runner_def)
  have run: "run_state (publishExecutionTerminal example_store ''job-1'' example_outcome example_lease)
      example_runner = ((example_lease\<lparr> le_file := None \<rparr>, noerr), snd (run_state
      (publishExecutionTerminal example_store ''job-1'' example_outcome example_lease) example_runner))"
    using example_finish by (metis prod.collapse)
  from publishExecutionTerminal_final [OF at disk _ _ _ example_outcome_ok run, of 9]
  show ?thesis by (auto simp: example_lease_def example_runner_def)
qed

definition example_prepared :: PreparedWait where
  "example_prepared =
    \<lparr> pw_Observation =
        \<lparr> oo_Observation = observationFromState example_job, oo_Output = empty_chunk \<rparr>,
      pw_Reason = ObservationReasonOutputIdle,
      pw_manager = \<lparr> mg_config = \<lparr> cf_Executable = [], cf_StartupTimeout = 0, cf_TerminationGrace = 0,
        cf_PollInterval = 0, cf_StateLockTimeout = 0, cf_StateLockPoll = 0 \<rparr>, mg_contracts = example_contracts \<rparr>,
      pw_invocation = empty_invocation, pw_jobID = ''job-1'', pw_cursor = 0, pw_updatedAt = 30,
      pw_output = empty_chunk, pw_committed = False \<rparr>"

lemma example_committed [simp]:
  "committedState policy_v1 ''s'' example_prepared example_job = Inr (Some example_observed)"
  by (simp add: committedState_def example_prepared_def ObserverAfter_def ValidateCursor_def empty_chunk_def
      example_observed_def Let_def)

lemma example_observe_update [simp]: "update_allowed example_job ''job-1'' example_observed"
  "jm_CapturedBytes (ps_Job example_observed) = 0"
  by (simp_all add: update_allowed_def example_observed_def sameImmutableStateFields_def preserves_iff)



subsection \<open>Removal\<close>



lemma example_finished_fields [simp]:
  "jm_JobID (ps_Job example_finished) = ''job-1''"
  "d_Allowed (AuthorizeMutation policy_v1 (job_access example_store example_finished))"
  "d_Allowed (AuthorizeRemoval policy_v1 JobStatusNonzeroExit)"
  by (simp_all add: example_finished_def AuthorizeMutation_def AuthorizeRead_def job_access_def
      AuthorizeRemoval_def isKnownStatus_v1 isTerminal_v1)



end

