(* ===== verification/Supervise.thy ===== *)
theory Supervise
  imports JobProps
begin

section \<open>Supervising the shell\<close>

text \<open>
  \<open>internal/runner/supervise_unix.go\<close>, with the signals and the reaping it calls in
  \<open>guardian_unix.go\<close> and \<open>process_unix.go\<close>. The runner's select loop is a state machine: its
  state are the variables of \<open>superviseShell\<close>, a channel that is \<open>nil\<close> is a flag that is off, and
  an event is the channel the \<open>select\<close> chose, which is never a \<open>nil\<close> one. The sequence of events
  is an argument; if it ends before the loop does, the runner blocks. What an event does to the
  job goes through the store's own operations, with their faults.

  The process group is the list of what was done to it, and the answers of \<open>kill\<close> and \<open>wait4\<close>.
\<close>

subsection \<open>The process group\<close>

definition SIGKILL :: int where "SIGKILL = 9"
definition SIGTERM :: int where "SIGTERM = 15"
definition ESRCH :: err where "ESRCH = Errno 3"

datatype group_call = Signalled int | Reaped

text \<open>
  \<open>rs_calls\<close> is what has been done to the group, \<open>rs_reaped\<close> says that \<open>ProcessState\<close> is set,
  \<open>rs_kill\<close> and \<open>rs_wait\<close> are the answers of \<open>unix.Kill\<close> and \<open>Process.Wait\<close>.
\<close>

record runningShell =
  rs_processGroup :: int
  rs_calls :: "group_call list"
  rs_reaped :: bool
  rs_kill :: "int \<Rightarrow> error"
  rs_wait :: error

text \<open>\<open>process_group_signal_linux.go\<close>.\<close>

definition benignProcessGroupSignalError :: "int \<Rightarrow> error \<Rightarrow> bool" where
  "benignProcessGroupSignalError processGroupID signalErr = False"

definition signalProcessGroup :: "int \<Rightarrow> runningShell \<Rightarrow> error \<times> runningShell" where
  "signalProcessGroup signal shell =
    (if rs_processGroup shell \<le> 0 then ([ErrExecution], shell)
     else
       let err = rs_kill shell signal;
           shell' = shell\<lparr> rs_calls := rs_calls shell @ [Signalled signal] \<rparr>
       in if err \<noteq> noerr \<and> \<not> errors_Is err ESRCH \<and>
             \<not> benignProcessGroupSignalError (rs_processGroup shell) err
          then (fmt_Errorf ''signal process group: %w'' err, shell')
          else (noerr, shell'))"

definition signalGroup :: "int \<Rightarrow> runningShell \<Rightarrow> error \<times> runningShell" where
  "signalGroup signal shell =
    (if rs_reaped shell then ([ErrExecution], shell) else signalProcessGroup signal shell)"

text \<open>\<open>exec.Cmd.Wait\<close>; that the guardian exited with a failure is not an error here.\<close>

definition reapGuardian :: "runningShell \<Rightarrow> error \<times> runningShell" where
  "reapGuardian shell =
    (rs_wait shell,
     shell\<lparr> rs_calls := rs_calls shell @ [Reaped], rs_reaped := (rs_wait shell = noerr) \<rparr>)"

definition reconcileProcessGroupSignalErrors :: "int \<Rightarrow> error list \<Rightarrow> error" where
  "reconcileProcessGroupSignalErrors processGroupID signalErrors =
    fold (\<lambda>err result.
      if err \<noteq> noerr \<and> \<not> benignProcessGroupSignalError processGroupID err
      then errors_Join [result, err] else result) signalErrors noerr"

subsection \<open>The loop's state and its events\<close>

record supervision =
  sv_shell :: runningShell
  sv_pollEvents :: bool
  sv_cause :: executionCause
  sv_waitResult :: shellWaitResult
  sv_operationErr :: error
  sv_signalErrors :: "error list"
  sv_waited :: bool
  sv_captureDone :: bool
  sv_cleanupStarted :: bool
  sv_cleanupDone :: bool
  sv_hardTimeout :: bool
  sv_canceled :: bool
  sv_graceTimer :: "int option"
  sv_graceExpired :: bool

datatype supervise_event =
    Captured bytes
  | CaptureDone error
  | ShellWaited shellWaitResult
  | HardTimeoutFired
  | GraceExpired
  | ContextDone
  | PollTick

definition no_wait :: shellWaitResult where
  "no_wait = \<lparr> sw_exitCode = None, sw_signal = None, sw_err = noerr \<rparr>"

definition supervise_start :: "runningShell \<Rightarrow> supervision" where
  "supervise_start shell =
    \<lparr> sv_shell = shell, sv_pollEvents = True, sv_cause = causeNormal, sv_waitResult = no_wait,
      sv_operationErr = noerr, sv_signalErrors = [], sv_waited = False, sv_captureDone = False,
      sv_cleanupStarted = False, sv_cleanupDone = False, sv_hardTimeout = True,
      sv_canceled = True, sv_graceTimer = None, sv_graceExpired = False \<rparr>"

definition supervise_finished :: "supervision \<Rightarrow> bool" where
  "supervise_finished s \<longleftrightarrow> sv_waited s \<and> sv_captureDone s \<and> sv_cleanupDone s"

text \<open>The channels that are not \<open>nil\<close>.\<close>

fun event_enabled :: "supervise_event \<Rightarrow> supervision \<Rightarrow> bool" where
  "event_enabled HardTimeoutFired s \<longleftrightarrow> sv_hardTimeout s"
| "event_enabled GraceExpired s \<longleftrightarrow> sv_graceExpired s"
| "event_enabled ContextDone s \<longleftrightarrow> sv_canceled s"
| "event_enabled PollTick s \<longleftrightarrow> sv_pollEvents s"
| "event_enabled _ s \<longleftrightarrow> True"

definition startCleanup :: "int \<Rightarrow> supervision \<Rightarrow> supervision" where
  "startCleanup grace s =
    (if sv_cleanupStarted s then s
     else case signalGroup SIGTERM (sv_shell s) of
       (err, shell) \<Rightarrow>
         s\<lparr> sv_shell := shell, sv_cleanupStarted := True,
            sv_signalErrors := sv_signalErrors s @ [err],
            sv_graceTimer := Some (if sv_cause s = causeNormal then 0 else grace),
            sv_graceExpired := True \<rparr>)"

definition join_error :: "error \<Rightarrow> supervision \<Rightarrow> supervision" where
  "join_error err s = s\<lparr> sv_operationErr := errors_Join [sv_operationErr s, err] \<rparr>"

definition stop_hard_timer :: "supervision \<Rightarrow> supervision" where
  "stop_hard_timer s = s\<lparr> sv_hardTimeout := False \<rparr>"

definition after_append :: "int \<Rightarrow> outputAppend result \<Rightarrow> supervision \<Rightarrow> supervision" where
  "after_append grace r s =
    (case r of
       Inl err \<Rightarrow> startCleanup grace (join_error err s)
     | Inr report \<Rightarrow>
         if ap_LimitReached report \<and> sv_cause s = causeNormal
         then startCleanup grace (stop_hard_timer (s\<lparr> sv_cause := causeOutputLimit \<rparr>))
         else s)"

definition after_wait :: "int \<Rightarrow> shellWaitResult \<Rightarrow> supervision \<Rightarrow> supervision" where
  "after_wait grace reportedWait s =
    (let wait = (if sw_signal reportedWait = None
                 then reportedWait\<lparr> sw_signal := sw_signal (sv_waitResult s) \<rparr> else reportedWait);
         s = s\<lparr> sv_waitResult := wait, sv_waited := True \<rparr>;
         s = (if sw_err wait \<noteq> noerr \<and> sv_cause s = causeNormal then join_error (sw_err wait) s else s)
     in startCleanup grace (stop_hard_timer s))"

definition after_hard_timeout :: "int \<Rightarrow> supervision \<Rightarrow> supervision" where
  "after_hard_timeout grace s =
    (let s = stop_hard_timer s in
     if sv_cause s = causeNormal then startCleanup grace (s\<lparr> sv_cause := causeHardTimeout \<rparr>) else s)"

definition after_grace :: "supervision \<Rightarrow> supervision" where
  "after_grace s =
    (case signalGroup SIGKILL (sv_shell s) of
       (killErr, shell) \<Rightarrow>
         (case reapGuardian shell of
            (reapErr, shell') \<Rightarrow>
              let wait = sv_waitResult s;
                  wait = (if sw_signal wait = None \<and> sv_cause s \<noteq> causeNormal
                          then wait\<lparr> sw_signal := Some SIGKILL \<rparr> else wait)
              in join_error reapErr
                   (s\<lparr> sv_graceExpired := False, sv_signalErrors := sv_signalErrors s @ [killErr],
                      sv_shell := shell', sv_waitResult := wait, sv_cleanupDone := True \<rparr>)))"

definition after_poll :: "int \<Rightarrow> Snapshot result \<Rightarrow> supervision \<Rightarrow> supervision" where
  "after_poll grace r s =
    (case r of
       Inl err \<Rightarrow> startCleanup grace (join_error err s)
     | Inr snapshot \<Rightarrow>
         if ps_Cancellation (sn_State snapshot) \<noteq> None
         then startCleanup grace (stop_hard_timer (s\<lparr> sv_pollEvents := False, sv_cause := causeCancelled \<rparr>))
         else s)"

definition supervise_step ::
  "Store \<Rightarrow> JobID \<Rightarrow> int \<Rightarrow> supervise_event \<Rightarrow> supervision \<Rightarrow> supervision io" where
  "supervise_step store jobID grace event s =
    (case event of
       CaptureDone err \<Rightarrow> State_Monad.return (join_error err (s\<lparr> sv_captureDone := True \<rparr>))
     | Captured data \<Rightarrow>
         if sv_cause s = causeOutputLimit \<or> sv_operationErr s \<noteq> noerr then State_Monad.return s
         else do {
           r \<leftarrow> appendOutput store jobID data;
           State_Monad.return (after_append grace r s) }
     | ShellWaited reportedWait \<Rightarrow> State_Monad.return (after_wait grace reportedWait s)
     | HardTimeoutFired \<Rightarrow> State_Monad.return (after_hard_timeout grace s)
     | GraceExpired \<Rightarrow> State_Monad.return (after_grace s)
     | ContextDone \<Rightarrow> do {
         err \<leftarrow> ctx_Err;
         State_Monad.return (startCleanup grace (join_error err (s\<lparr> sv_canceled := False \<rparr>))) }
     | PollTick \<Rightarrow> do {
         r \<leftarrow> Load store jobID;
         State_Monad.return (after_poll grace r s) })"

primrec supervise_loop ::
  "Store \<Rightarrow> JobID \<Rightarrow> int \<Rightarrow> supervise_event list \<Rightarrow> supervision \<Rightarrow> supervision io" where
  "supervise_loop store jobID grace [] s =
    (if supervise_finished s then State_Monad.return s else do { hang; State_Monad.return s })"
| "supervise_loop store jobID grace (event # events) s =
    (if supervise_finished s then State_Monad.return s
     else if \<not> event_enabled event s then supervise_loop store jobID grace events s
     else do {
       s' \<leftarrow> supervise_step store jobID grace event s;
       supervise_loop store jobID grace events s' })"

definition supervise_outcome :: "supervision \<Rightarrow> executionOutcome result" where
  "supervise_outcome s =
    (let operationErr = errors_Join [sv_operationErr s,
           reconcileProcessGroupSignalErrors (rs_processGroup (sv_shell s)) (sv_signalErrors s)]
     in if operationErr \<noteq> noerr then Inl (fmt_Errorf ''supervise shell: %w'' operationErr)
        else Inr \<lparr> eo_cause = sv_cause s, eo_wait = sv_waitResult s \<rparr>)"

definition superviseShell ::
  "Store \<Rightarrow> JobID \<Rightarrow> runningShell \<Rightarrow> int \<Rightarrow> supervise_event list \<Rightarrow>
   (executionOutcome result \<times> runningShell) io" where
  "superviseShell store jobID shell grace events = do {
     s \<leftarrow> supervise_loop store jobID grace events (supervise_start shell);
     State_Monad.return (supervise_outcome s, sv_shell s) }"

subsection \<open>A shell whose job was not published\<close>

record unpublished =
  un_shell :: runningShell
  un_signalErr :: error
  un_waited :: bool
  un_captureDone :: bool
  un_killed :: bool
  un_captureErr :: error

definition kill_and_reap :: "unpublished \<Rightarrow> unpublished" where
  "kill_and_reap s =
    (case signalGroup SIGKILL (un_shell s) of
       (killErr, shell) \<Rightarrow>
         (case reapGuardian shell of
            (reapErr, shell') \<Rightarrow>
              s\<lparr> un_shell := shell',
                 un_signalErr := errors_Join [errors_Join [un_signalErr s, killErr], reapErr] \<rparr>))"

text \<open>Of the events only the shell's exit, the captured output and the timer are selected.\<close>

definition stop_step :: "supervise_event \<Rightarrow> unpublished \<Rightarrow> unpublished" where
  "stop_step event s =
    (case event of
       ShellWaited r \<Rightarrow> s\<lparr> un_waited := True \<rparr>
     | CaptureDone err \<Rightarrow> s\<lparr> un_captureDone := True, un_captureErr := err \<rparr>
     | GraceExpired \<Rightarrow> if un_killed s then s else (kill_and_reap s)\<lparr> un_killed := True \<rparr>
     | _ \<Rightarrow> s)"

primrec stop_loop :: "supervise_event list \<Rightarrow> unpublished \<Rightarrow> unpublished option" where
  "stop_loop [] s = (if un_waited s \<and> un_captureDone s then Some s else None)"
| "stop_loop (event # events) s =
    (if un_waited s \<and> un_captureDone s then Some s else stop_loop events (stop_step event s))"

text \<open>\<open>None\<close> if the events end while the loop still waits.\<close>

definition stopUnpublishedShell ::
  "runningShell \<Rightarrow> supervise_event list \<Rightarrow> (error \<times> runningShell) option" where
  "stopUnpublishedShell shell events =
    (case signalGroup SIGTERM shell of
       (signalErr, shell') \<Rightarrow>
         map_option (\<lambda>s.
           let s = (if un_killed s then s else kill_and_reap s)
           in (errors_Join [un_signalErr s, un_captureErr s], un_shell s))
         (stop_loop events
           \<lparr> un_shell = shell', un_signalErr = signalErr, un_waited = False,
             un_captureDone = False, un_killed = False, un_captureErr = noerr \<rparr>))"

subsection \<open>The loop as a step relation\<close>

text \<open>What one event can do, whatever the store and the context answer.\<close>

inductive supervises :: "int \<Rightarrow> supervise_event \<Rightarrow> supervision \<Rightarrow> supervision \<Rightarrow> bool" for grace where
  discard: "sv_cause s = causeOutputLimit \<or> sv_operationErr s \<noteq> noerr \<Longrightarrow>
    supervises grace (Captured data) s s"
| append: "sv_cause s \<noteq> causeOutputLimit \<Longrightarrow> sv_operationErr s = noerr \<Longrightarrow>
    supervises grace (Captured data) s (after_append grace r s)"
| captured: "supervises grace (CaptureDone err) s (join_error err (s\<lparr> sv_captureDone := True \<rparr>))"
| waited: "supervises grace (ShellWaited r) s (after_wait grace r s)"
| timeout: "sv_hardTimeout s \<Longrightarrow> supervises grace HardTimeoutFired s (after_hard_timeout grace s)"
| expired: "sv_graceExpired s \<Longrightarrow> supervises grace GraceExpired s (after_grace s)"
| cancelled: "sv_canceled s \<Longrightarrow>
    supervises grace ContextDone s (startCleanup grace (join_error err (s\<lparr> sv_canceled := False \<rparr>)))"
| polled: "sv_pollEvents s \<Longrightarrow> supervises grace PollTick s (after_poll grace r s)"

inductive_cases supervises_cases: "supervises grace event s s'"

lemma supervise_step_supervises:
  assumes "event_enabled event s" "run_state (supervise_step store jobID grace event s) w = (s', w')"
  shows "supervises grace event s s'"
  using assms by (cases event) (auto simp: supervise_step_def split: if_splits prod.splits intro: supervises.intros)

text \<open>The states the loop reaches with the events it has taken.\<close>

inductive supervised :: "int \<Rightarrow> runningShell \<Rightarrow> supervise_event list \<Rightarrow> supervision \<Rightarrow> bool"
  for grace shell where
  start: "supervised grace shell [] (supervise_start shell)"
| step: "supervised grace shell events s \<Longrightarrow> \<not> supervise_finished s \<Longrightarrow> supervises grace event s s' \<Longrightarrow>
    supervised grace shell (events @ [event]) s'"

lemma supervise_loop_supervised:
  "run_state (supervise_loop store jobID grace events s) w = (s', w') \<Longrightarrow> supervised grace shell before s \<Longrightarrow>
   \<exists>taken. supervised grace shell (before @ taken) s' \<and> set taken \<subseteq> set events"
proof (induction events arbitrary: s w before)
  case Nil
  then have "s' = s"
    by (auto simp: split: if_splits prod.splits)
  then show ?case
    using Nil.prems(2) by (intro exI [of _ "[]"]) simp
next
  case (Cons event events)
  show ?case
  proof (cases "supervise_finished s")
    case True
    then show ?thesis
      using Cons.prems by (intro exI [of _ "[]"]) auto
  next
    case busy: False
    show ?thesis
    proof (cases "event_enabled event s")
      case False
      then show ?thesis
        using Cons.IH [of s w before] Cons.prems busy by auto
    next
      case True
      obtain s1 w1 where step: "run_state (supervise_step store jobID grace event s) w = (s1, w1)"
        by fastforce
      have "supervised grace shell (before @ [event]) s1"
        by (rule supervised.step [OF Cons.prems(2) busy supervise_step_supervises [OF True step]])
      moreover have "run_state (supervise_loop store jobID grace events s1) w1 = (s', w')"
        using Cons.prems(1) busy True step by simp
      ultimately obtain taken where "supervised grace shell ((before @ [event]) @ taken) s'"
          "set taken \<subseteq> set events"
        using Cons.IH by blast
      then show ?thesis
        by (intro exI [of _ "event # taken"]) auto
    qed
  qed
qed

lemma superviseShell_run:
  assumes "run_state (superviseShell store jobID shell grace events) w = ((r, shell'), w')"
  obtains s taken where "run_state (supervise_loop store jobID grace events (supervise_start shell)) w = (s, w')"
    "supervised grace shell taken s" "set taken \<subseteq> set events" "r = supervise_outcome s" "shell' = sv_shell s"
proof -
  obtain s w1 where loop: "run_state (supervise_loop store jobID grace events (supervise_start shell)) w = (s, w1)"
    by fastforce
  then have "w1 = w'" "r = supervise_outcome s" "shell' = sv_shell s"
    using assms by (auto simp: superviseShell_def)
  moreover obtain taken where "supervised grace shell ([] @ taken) s" "set taken \<subseteq> set events"
    using supervise_loop_supervised [OF loop supervised.start] by blast
  ultimately show thesis
    using loop that by simp
qed

subsection \<open>Signals\<close>

definition fresh_shell :: "runningShell \<Rightarrow> bool" where
  "fresh_shell shell \<longleftrightarrow> rs_calls shell = [] \<and> \<not> rs_reaped shell \<and> 0 < rs_processGroup shell"

text \<open>How far the cleanup is, what was done to the group until then, and the grace timer.\<close>

definition cleanup_in_order :: "supervision \<Rightarrow> bool" where
  "cleanup_in_order s \<longleftrightarrow>
    0 < rs_processGroup (sv_shell s) \<and>
    rs_calls (sv_shell s) =
      (if sv_cleanupDone s then [Signalled SIGTERM, Signalled SIGKILL, Reaped]
       else if sv_cleanupStarted s then [Signalled SIGTERM] else []) \<and>
    (rs_reaped (sv_shell s) \<longrightarrow> sv_cleanupDone s) \<and>
    (sv_cleanupDone s \<longrightarrow> sv_cleanupStarted s) \<and>
    sv_graceExpired s = (sv_cleanupStarted s \<and> \<not> sv_cleanupDone s) \<and>
    (sv_waited s \<or> sv_cause s \<noteq> causeNormal \<longrightarrow> sv_cleanupStarted s \<and> \<not> sv_hardTimeout s)"

lemma signalGroup_live:
  assumes "\<not> rs_reaped shell" "0 < rs_processGroup shell"
  shows "\<exists>err. signalGroup signal shell =
    (err, shell\<lparr> rs_calls := rs_calls shell @ [Signalled signal] \<rparr>)"
  using assms by (simp add: signalGroup_def signalProcessGroup_def Let_def)

lemma startCleanup_started [simp]: "sv_cleanupStarted s \<Longrightarrow> startCleanup grace s = s"
  by (simp add: startCleanup_def)

lemma startCleanup_fields [simp]:
  "sv_cause (startCleanup grace s) = sv_cause s" "sv_waitResult (startCleanup grace s) = sv_waitResult s"
  "sv_operationErr (startCleanup grace s) = sv_operationErr s" "sv_waited (startCleanup grace s) = sv_waited s"
  "sv_captureDone (startCleanup grace s) = sv_captureDone s"
  "sv_cleanupDone (startCleanup grace s) = sv_cleanupDone s"
  "sv_hardTimeout (startCleanup grace s) = sv_hardTimeout s"
  "sv_pollEvents (startCleanup grace s) = sv_pollEvents s"
  "sv_cleanupStarted (startCleanup grace s)"
  by (simp_all add: startCleanup_def split: prod.splits)

lemmas supervise_defs =
  after_append_def after_wait_def after_hard_timeout_def after_poll_def join_error_def
  stop_hard_timer_def

text \<open>Starting the cleanup, from a state that is in order but for what the cleanup is for.\<close>

lemma startCleanup_in_order:
  assumes "cleanup_in_order s"
    and "sv_shell s' = sv_shell s" "sv_cleanupStarted s' = sv_cleanupStarted s"
    and "sv_cleanupDone s' = sv_cleanupDone s" "sv_graceExpired s' = sv_graceExpired s"
    and "sv_waited s' \<or> sv_cause s' \<noteq> causeNormal \<Longrightarrow> \<not> sv_hardTimeout s'"
  shows "cleanup_in_order (startCleanup grace s')"
proof (cases "sv_cleanupStarted s")
  case True
  then show ?thesis
    using assms by (auto simp: cleanup_in_order_def)
next
  case False
  then have "\<not> rs_reaped (sv_shell s)" "0 < rs_processGroup (sv_shell s)" "rs_calls (sv_shell s) = []"
      "\<not> sv_cleanupDone s"
    using assms(1) by (auto simp: cleanup_in_order_def)
  moreover from this obtain err where "signalGroup SIGTERM (sv_shell s) =
      (err, (sv_shell s)\<lparr> rs_calls := rs_calls (sv_shell s) @ [Signalled SIGTERM] \<rparr>)"
    using signalGroup_live by blast
  ultimately show ?thesis
    using False assms by (simp add: cleanup_in_order_def startCleanup_def)
qed

lemma after_grace_in_order:
  assumes "cleanup_in_order s" "sv_graceExpired s"
  shows "cleanup_in_order (after_grace s)"
proof -
  have s: "\<not> rs_reaped (sv_shell s)" "0 < rs_processGroup (sv_shell s)" "sv_cleanupStarted s"
      "rs_calls (sv_shell s) = [Signalled SIGTERM]"
    using assms by (auto simp: cleanup_in_order_def)
  then obtain err where "signalGroup SIGKILL (sv_shell s) =
      (err, (sv_shell s)\<lparr> rs_calls := rs_calls (sv_shell s) @ [Signalled SIGKILL] \<rparr>)"
    using signalGroup_live by blast
  then show ?thesis
    using s assms by (simp add: after_grace_def reapGuardian_def cleanup_in_order_def join_error_def Let_def)
qed

lemma same_in_order:
  assumes "cleanup_in_order s"
    and "sv_shell s' = sv_shell s" "sv_cleanupStarted s' = sv_cleanupStarted s"
    and "sv_cleanupDone s' = sv_cleanupDone s" "sv_graceExpired s' = sv_graceExpired s"
    and "sv_waited s' = sv_waited s" "sv_cause s' = sv_cause s" "sv_hardTimeout s' \<longrightarrow> sv_hardTimeout s"
  shows "cleanup_in_order s'"
  using assms by (simp add: cleanup_in_order_def) blast

lemma supervises_in_order:
  assumes "supervises grace event s s'" "cleanup_in_order s"
  shows "cleanup_in_order s'"
proof -
  have idle: "\<not> sv_hardTimeout s" if "sv_waited s \<or> sv_cause s \<noteq> causeNormal"
    using that assms(2) by (simp add: cleanup_in_order_def)
  note start = startCleanup_in_order [OF assms(2)]
  note same = same_in_order [OF assms(2)]
  show ?thesis
    using assms(1)
  proof cases
    case (append data r)
    show ?thesis
      unfolding append(2) after_append_def
      by (cases r; simp add: assms(2); (rule impI)?; rule start; simp add: supervise_defs idle)
  next
    case (captured err)
    show ?thesis
      unfolding captured(2) by (rule same) (simp_all add: supervise_defs)
  next
    case (waited r)
    show ?thesis
      unfolding waited(2) after_wait_def Let_def by (rule start) (simp_all add: supervise_defs)
  next
    case timeout
    have "cleanup_in_order (stop_hard_timer s)"
      by (rule same) (simp_all add: supervise_defs)
    moreover have "cleanup_in_order (startCleanup grace (stop_hard_timer s\<lparr> sv_cause := causeHardTimeout \<rparr>))"
      by (rule start) (simp_all add: supervise_defs)
    ultimately show ?thesis
      unfolding timeout(2) after_hard_timeout_def Let_def by simp
  next
    case expired
    then show ?thesis
      using after_grace_in_order [OF assms(2)] by simp
  next
    case (cancelled err)
    show ?thesis
      unfolding cancelled(2) by (rule start) (simp_all add: supervise_defs idle)
  next
    case (polled r)
    show ?thesis
      unfolding polled(2) after_poll_def
      by (cases r; simp add: assms(2); (rule impI)?; rule start; simp add: supervise_defs idle)
  qed (use assms(2) in simp)
qed

lemma supervised_in_order:
  assumes "supervised grace shell events s" "fresh_shell shell"
  shows "cleanup_in_order s"
  using assms
proof induction
  case start
  then show ?case
    by (simp add: cleanup_in_order_def supervise_start_def fresh_shell_def)
qed (rule supervises_in_order)

subsection \<open>The outcome and its cause\<close>

text \<open>What the guardian may report: an error, or a valid signal or exit code.\<close>

definition report_ok :: "shellWaitResult \<Rightarrow> bool" where
  "report_ok r \<longleftrightarrow> valid_signal (sw_signal r) \<and>
    (sw_err r = noerr \<and> sw_signal r = None \<longrightarrow> (\<exists>c. sw_exitCode r = Some c \<and> 0 \<le> c \<and> c \<le> 255))"

definition exit_ok :: "shellWaitResult \<Rightarrow> bool" where
  "exit_ok r \<longleftrightarrow> (sw_signal r = None \<longrightarrow> (\<exists>c. sw_exitCode r = Some c \<and> 0 \<le> c \<and> c \<le> 255))"

text \<open>The cause, and the wait result of a shell that ended by itself, come from the events.\<close>

definition explained :: "supervise_event list \<Rightarrow> supervision \<Rightarrow> bool" where
  "explained events s \<longleftrightarrow>
    (sv_cause s = causeHardTimeout \<longrightarrow> HardTimeoutFired \<in> set events) \<and>
    (sv_cause s = causeOutputLimit \<longrightarrow> (\<exists>data. Captured data \<in> set events)) \<and>
    (sv_cause s = causeCancelled \<longrightarrow> PollTick \<in> set events) \<and>
    (HardTimeoutFired \<in> set events \<longrightarrow> sv_cause s \<noteq> causeNormal) \<and>
    (\<forall>err. CaptureDone err \<in> set events \<longrightarrow> err \<noteq> noerr \<longrightarrow> sv_operationErr s \<noteq> noerr) \<and>
    (sv_waited s \<longrightarrow> (\<exists>r. ShellWaited r \<in> set events \<and> sw_exitCode (sv_waitResult s) = sw_exitCode r)) \<and>
    valid_signal (sw_signal (sv_waitResult s)) \<and>
    (sv_cause s = causeNormal \<and> \<not> sv_waited s \<longrightarrow> sw_signal (sv_waitResult s) = None) \<and>
    (sv_cause s = causeNormal \<and> sv_operationErr s = noerr \<and> sv_waited s \<longrightarrow> exit_ok (sv_waitResult s))"

lemma explained_start: "explained [] (supervise_start shell)"
  by (simp add: explained_def supervise_start_def no_wait_def valid_signal_def)

lemma explained_startCleanup [simp]: "explained events (startCleanup grace s) = explained events s"
  by (simp add: explained_def)

lemma after_grace_fields [simp]:
  "sv_cause (after_grace s) = sv_cause s" "sv_waited (after_grace s) = sv_waited s"
  "sv_operationErr (after_grace s) = sv_operationErr s @ rs_wait (snd (signalGroup SIGKILL (sv_shell s)))"
  "sv_captureDone (after_grace s) = sv_captureDone s" "sv_cleanupDone (after_grace s)"
  "sv_cleanupStarted (after_grace s) = sv_cleanupStarted s"
  "sv_waitResult (after_grace s) =
    (if sw_signal (sv_waitResult s) = None \<and> sv_cause s \<noteq> causeNormal
     then (sv_waitResult s)\<lparr> sw_signal := Some SIGKILL \<rparr> else sv_waitResult s)"
  by (simp_all add: after_grace_def reapGuardian_def join_error_def Let_def split: prod.splits)

lemma explained_after_wait:
  assumes "explained events s" "report_ok r"
  shows "explained (events @ [ShellWaited r]) (after_wait grace r s)"
proof -
  have "valid_signal (sw_signal (sv_waitResult s))" "valid_signal (sw_signal r)"
    using assms by (simp_all add: explained_def report_ok_def)
  then show ?thesis
    using assms unfolding after_wait_def Let_def explained_startCleanup
    by (simp add: explained_def supervise_defs report_ok_def exit_ok_def) (metis (full_types))
qed

lemma explained_supervises:
  assumes "supervises grace event s s'" "explained events s"
    and "\<And>r. event = ShellWaited r \<Longrightarrow> report_ok r"
  shows "explained (events @ [event]) s'"
  using assms(1)
proof cases
  case (append data r)
  then show ?thesis
    using assms(2) by (cases r) (simp_all add: supervise_defs explained_def, metis)
next
  case (captured err)
  then show ?thesis
    using assms(2) by (simp add: supervise_defs explained_def)
next
  case (waited r)
  then show ?thesis
    using explained_after_wait [OF assms(2)] assms(3) by simp
next
  case timeout
  then show ?thesis
    using assms(2) by (simp add: supervise_defs explained_def Let_def)
next
  case expired
  then show ?thesis
    using assms(2) by (simp add: explained_def valid_signal_def SIGKILL_def)
next
  case (cancelled err)
  then show ?thesis
    using assms(2) by (simp add: supervise_defs explained_def)
next
  case (polled r)
  then show ?thesis
    using assms(2) by (cases r) (simp_all add: supervise_defs explained_def)
qed (use assms(2) in \<open>auto simp: explained_def\<close>)

lemma supervised_explained:
  assumes "supervised grace shell events s" "\<forall>r. ShellWaited r \<in> set events \<longrightarrow> report_ok r"
  shows "explained events s"
  using assms
proof induction
  case (step events s event s')
  then show ?case
    using explained_supervises by auto
qed (rule explained_start)

lemma supervise_loop_alive:
  "run_state (supervise_loop store jobID grace events s) w = (s', w') \<Longrightarrow> w_alive w' \<Longrightarrow> supervise_finished s'"
proof (induction events arbitrary: s w)
  case Nil
  then show ?case
    by (auto simp: hang_def hang_process_def split: if_splits)
next
  case (Cons event events)
  then show ?case
    by (auto split: if_splits prod.splits)
qed

subsection \<open>The loop ends\<close>

text \<open>The events still to come suffice to end the loop.\<close>

definition will_end :: "supervise_event list \<Rightarrow> supervision \<Rightarrow> bool" where
  "will_end events s \<longleftrightarrow>
    (sv_captureDone s \<or> (\<exists>err. CaptureDone err \<in> set events)) \<and>
    (sv_waited s \<or> (\<exists>r. ShellWaited r \<in> set events)) \<and>
    (sv_cleanupDone s \<or> sv_cleanupStarted s \<and> GraceExpired \<in> set events \<or>
     (\<exists>pre r post. events = pre @ ShellWaited r # post \<and> GraceExpired \<in> set post))"

lemma supervises_progress:
  assumes "supervises grace event s s'"
  shows "sv_captureDone s \<or> (\<exists>err. event = CaptureDone err) \<longleftrightarrow> sv_captureDone s'"
    and "sv_waited s \<or> (\<exists>r. event = ShellWaited r) \<longleftrightarrow> sv_waited s'"
    and "sv_cleanupStarted s \<or> (\<exists>r. event = ShellWaited r) \<Longrightarrow> sv_cleanupStarted s'"
    and "sv_cleanupDone s \<or> event = GraceExpired \<longleftrightarrow> sv_cleanupDone s'"
  using assms
  by (cases; auto simp: supervise_defs Let_def split: sum.splits)+

text \<open>An event of a channel that is \<open>nil\<close> is never one the loop needs.\<close>

lemma will_end_skip:
  assumes "will_end (event # events) s" "\<not> event_enabled event s" "cleanup_in_order s"
  shows "will_end events s"
proof -
  have other: "\<forall>err. event \<noteq> CaptureDone err" "\<forall>r. event \<noteq> ShellWaited r"
    using assms(2) by (cases event; simp)+
  have "sv_cleanupDone s" if "event = GraceExpired" "sv_cleanupStarted s"
    using that assms(2,3) by (simp add: cleanup_in_order_def)
  then show ?thesis
    using assms(1) other unfolding will_end_def by (auto simp: Cons_eq_append_conv)
qed

lemma will_end_step:
  assumes "will_end (event # events) s" "supervises grace event s s'"
  shows "will_end events s'"
  using assms(1) supervises_progress [OF assms(2)]
  unfolding will_end_def by (auto simp: Cons_eq_append_conv)

lemma will_end_Nil: "will_end [] s \<Longrightarrow> supervise_finished s"
  by (simp add: will_end_def supervise_finished_def)

lemma supervise_loop_ends:
  "cleanup_in_order s \<Longrightarrow> will_end events s \<Longrightarrow>
   supervise_finished (fst (run_state (supervise_loop store jobID grace events s) w))"
proof (induction events arbitrary: s w)
  case Nil
  then show ?case
    using will_end_Nil [of s] by simp
next
  case (Cons event events)
  obtain s1 w1 where step: "run_state (supervise_step store jobID grace event s) w = (s1, w1)"
    by fastforce
  have on: "supervises grace event s s1" if "event_enabled event s"
    by (rule supervise_step_supervises [OF that step])
  have "supervise_finished (fst (run_state (supervise_loop store jobID grace events s) w))"
    if "\<not> event_enabled event s"
    using Cons.IH [OF Cons.prems(1) will_end_skip [OF Cons.prems(2) that Cons.prems(1)]] .
  moreover have "supervise_finished (fst (run_state (supervise_loop store jobID grace events s1) w1))"
    if "event_enabled event s"
    using Cons.IH [OF supervises_in_order [OF on [OF that] Cons.prems(1)]
        will_end_step [OF Cons.prems(2) on [OF that]]] .
  ultimately show ?case
    using step by simp
qed

lemma supervise_start_in_order: "fresh_shell shell \<Longrightarrow> cleanup_in_order (supervise_start shell)"
  by (rule supervised_in_order [OF supervised.start])

subsection \<open>The job under supervision\<close>

lemma job_Load:
  assumes "working f D C K w"
    and fail: "\<And>e w'. working f D C K w' \<Longrightarrow> Q (Inl e) w'"
    and ok: "\<And>snapshot w'. working f D C (\<lambda>I. K I \<and> state_is f (sn_State snapshot) I) w' \<Longrightarrow>
      Q (Inr snapshot) w'"
  shows "wp (Load (fr_store f) (fr_jobID f)) Q w"
proof (rule workingE [OF assms(1)], goal_cases)
  case (1 I F)
  obtain b where jobs: "F (st_jobs (fr_store f)) = Some (fr_jobs f, b)"
    using in_frame_jobs(1) [OF 1(2)] by blast
  show ?case
  proof (rule wp_Load [OF 1(1) jobs], goal_cases)
    case (1 e w')
    then show ?case
      using fail \<open>\<And>w'. St (fr_euid f) I F w' \<Longrightarrow> working f D C K w'\<close> by blast
  next
    case (2 j s rt w')
    then have "state_is f s I"
      using in_frame_jobs(2) [OF \<open>in_frame f D C I F\<close>] by simp
    then have "working f D C (\<lambda>I. K I \<and> state_is f s I) w'"
      using workingI [OF 2(1) \<open>in_frame f D C I F\<close>] \<open>K I\<close> by simp
    then show ?case
      using ok [of "\<lparr> sn_State = s, sn_Runtime = rt \<rparr>"] by simp
  qed
qed

lemma action_supervise_step: "job_action f (supervise_step (fr_store f) (fr_jobID f) grace event s)"
proof (rule job_doesI)
  fix D C K w and Q :: "supervision \<Rightarrow> world \<Rightarrow> bool"
  assume w: "working f D C K w" and Q: "\<And>r w'. working f D C anything w' \<Longrightarrow> Q r w'"
  show "wp (supervise_step (fr_store f) (fr_jobID f) grace event s) Q w"
    using w unfolding supervise_step_def
    by (cases event)
      (auto simp: wp_bind intro!: Q elim: working_anything
        elim!: job_appendOutput job_ctx_Err job_Load)
qed

lemma action_supervise_loop:
  "job_action f (supervise_loop (fr_store f) (fr_jobID f) grace events s)"
proof (rule job_doesI)
  fix D C K w and Q :: "supervision \<Rightarrow> world \<Rightarrow> bool"
  assume "working f D C K w" and Q: "\<And>r w'. working f D C anything w' \<Longrightarrow> Q r w'"
  then show "wp (supervise_loop (fr_store f) (fr_jobID f) grace events s) Q w"
  proof (induction events arbitrary: K w s)
    case Nil
    have "wp hang (\<lambda>u. wp (State_Monad.return s) Q) w"
      by (rule job_hang [OF Nil.prems(1)]) (simp add: Nil.prems(2) [OF working_anything])
    then show ?case
      using Nil.prems(2) [OF working_anything [OF Nil.prems(1)]] by (simp add: wp_bind)
  next
    case (Cons event events)
    have "wp (supervise_step (fr_store f) (fr_jobID f) grace event s)
        (\<lambda>s'. wp (supervise_loop (fr_store f) (fr_jobID f) grace events s') Q) w"
      by (rule job_doesD [OF Cons.prems(1) action_supervise_step], rule Cons.IH [OF _ Cons.prems(2)])
    then show ?case
      using Cons.IH [OF Cons.prems] Cons.prems by (auto simp: wp_bind intro: working_anything)
  qed
qed

lemma action_superviseShell:
  "job_action f (superviseShell (fr_store f) (fr_jobID f) shell grace events)"
proof (rule job_doesI)
  fix D C K w and Q :: "executionOutcome result \<times> runningShell \<Rightarrow> world \<Rightarrow> bool"
  assume "working f D C K w" and Q: "\<And>r w'. working f D C anything w' \<Longrightarrow> Q r w'"
  then show "wp (superviseShell (fr_store f) (fr_jobID f) shell grace events) Q w"
    unfolding superviseShell_def wp_bind wp_return_fun
    by (rule job_doesD [OF _ action_supervise_loop])
qed

interpretation supervises: job_operation store jobID "superviseShell store jobID shell grace events"
  "\<lambda>f r. anything"
  by unfold_locales (use action_superviseShell in blast)

subsection \<open>What supervision guarantees\<close>

lemma superviseShell_in_order:
  assumes "fresh_shell shell"
    and "run_state (superviseShell store jobID shell grace events) w = ((r, shell'), w')"
  obtains s where "cleanup_in_order s" "shell' = sv_shell s" "w_alive w' \<Longrightarrow> sv_cleanupDone s"
proof -
  obtain s taken where s: "run_state (supervise_loop store jobID grace events (supervise_start shell)) w = (s, w')"
      "supervised grace shell taken s" "shell' = sv_shell s"
    by (rule superviseShell_run [OF assms(2)]) blast
  moreover have "cleanup_in_order s"
    by (rule supervised_in_order [OF s(2) assms(1)])
  moreover have "w_alive w' \<Longrightarrow> sv_cleanupDone s"
    using supervise_loop_alive [OF s(1)] by (simp add: supervise_finished_def)
  ultimately show thesis using that by blast
qed

text \<open>The calls of a cleanup that has run to its end.\<close>

definition group_ended :: "runningShell \<Rightarrow> bool" where
  "group_ended shell \<longleftrightarrow> rs_calls shell = [Signalled SIGTERM, Signalled SIGKILL, Reaped]"

lemma superviseShell_ends_group:
  assumes "fresh_shell shell"
    and "run_state (superviseShell store jobID shell grace events) w = ((r, shell'), w')" "w_alive w'"
  shows "group_ended shell'"
  using superviseShell_in_order [OF assms(1,2)] assms(3)
  by (auto simp: cleanup_in_order_def group_ended_def)

text \<open>C11: The runner ends the whole process group, in order, once, and before anything could reuse
  its number. Whatever events come, whatever the store and the system calls answer, the group has
  been left alone, or sent \<open>SIGTERM\<close>, or sent \<open>SIGTERM\<close> and then \<open>SIGKILL\<close> and only after both
  its leader was reaped; no signal follows the reaping. When the runner returns, all three have
  happened: no process of the group outlives the supervision of a job.\<close>

theorem superviseShell_signals:
  assumes "fresh_shell shell"
    and "run_state (superviseShell store jobID shell grace events) w = ((r, shell'), w')"
  shows "rs_calls shell' \<in> {[], [Signalled SIGTERM], [Signalled SIGTERM, Signalled SIGKILL, Reaped]} \<and>
    (w_alive w' \<longrightarrow> rs_calls shell' = [Signalled SIGTERM, Signalled SIGKILL, Reaped])"
proof -
  obtain s where "cleanup_in_order s" "shell' = sv_shell s" "w_alive w' \<Longrightarrow> sv_cleanupDone s"
    using superviseShell_in_order [OF assms] by blast
  then show ?thesis
    by (auto simp: cleanup_in_order_def)
qed

text \<open>C18: The supervision ends. If the shell's exit is reported, the grace timer fires at some time
  after that, and the capture of the output ends, then the loop finishes, whatever else happens in
  whatever order, and whatever the store answers: it never blocks on a channel that stays silent.
  (The timer of a shell that exited by itself is set to zero when its exit is reported.)\<close>

theorem supervise_loop_finishes:
  assumes "fresh_shell shell"
    and "events = pre @ ShellWaited r # post" "GraceExpired \<in> set post" "CaptureDone err \<in> set events"
  shows "supervise_finished
    (fst (run_state (supervise_loop store jobID grace events (supervise_start shell)) w))"
proof (rule supervise_loop_ends [OF supervise_start_in_order [OF assms(1)]])
  show "will_end events (supervise_start shell)"
    using assms(2-4) unfolding will_end_def by (metis in_set_conv_decomp)
qed

subsection \<open>What the loop saw\<close>

text \<open>The steps of a run with the world each was taken in.\<close>

inductive supervise_trace ::
  "Store \<Rightarrow> JobID \<Rightarrow> int \<Rightarrow> supervision \<Rightarrow> world \<Rightarrow> (supervise_event \<times> world) list \<Rightarrow> supervision \<Rightarrow>
   world \<Rightarrow> bool" for store jobID grace s0 w0 where
  start: "supervise_trace store jobID grace s0 w0 [] s0 w0"
| step: "supervise_trace store jobID grace s0 w0 trace s w \<Longrightarrow> \<not> supervise_finished s \<Longrightarrow>
    event_enabled event s \<Longrightarrow>
    run_state (supervise_step store jobID grace event s) w = (s', w') \<Longrightarrow>
    supervise_trace store jobID grace s0 w0 (trace @ [(event, w)]) s' w'"

lemma supervise_trace_supervised:
  "supervise_trace store jobID grace (supervise_start shell) w0 trace s w \<Longrightarrow>
   supervised grace shell (map fst trace) s"
proof (induction rule: supervise_trace.induct)
  case (step trace s w event s' w')
  then show ?case
    using supervised.step [OF step.IH _ supervise_step_supervises] by simp
qed (simp add: supervised.start)

lemma supervise_loop_trace:
  assumes "run_state (supervise_loop store jobID grace events s) w = (s', w')"
    and "supervise_trace store jobID grace s0 w0 seen_before s w"
  shows "\<exists>trace w1. supervise_trace store jobID grace s0 w0 (seen_before @ trace) s' w1 \<and>
    set (map fst trace) \<subseteq> set events \<and> (w_alive w' \<longrightarrow> w1 = w')"
  using assms
proof (induction events arbitrary: s w seen_before)
  case Nil
  show ?case
  proof (cases "supervise_finished s")
    case True
    then show ?thesis using Nil by (intro exI [of _ "[]"] exI [of _ w]) simp
  next
    case False
    have "\<not> w_alive w'" "s' = s"
      using Nil(1) False by (auto simp: hang_def hang_process_def split: prod.splits)
    then show ?thesis using Nil(2) by (intro exI [of _ "[]"] exI [of _ w]) simp
  qed
next
  case (Cons event events)
  show ?case
  proof (cases "supervise_finished s")
    case True
    then show ?thesis
      using Cons.prems by (intro exI [of _ "[]"] exI [of _ w]) simp
  next
    case busy: False
    show ?thesis
    proof (cases "event_enabled event s")
      case False
      then show ?thesis
        using Cons.IH [of s w seen_before] Cons.prems busy by fastforce
    next
      case True
      obtain s1 w1 where step: "run_state (supervise_step store jobID grace event s) w = (s1, w1)"
        by fastforce
      have "supervise_trace store jobID grace s0 w0 (seen_before @ [(event, w)]) s1 w1"
        by (rule supervise_trace.step [OF Cons.prems(2) busy True step])
      moreover have "run_state (supervise_loop store jobID grace events s1) w1 = (s', w')"
        using Cons.prems(1) busy True step by simp
      ultimately obtain trace w2 where
        "supervise_trace store jobID grace s0 w0 ((seen_before @ [(event, w)]) @ trace) s' w2"
          "set (map fst trace) \<subseteq> set events" "w_alive w' \<longrightarrow> w2 = w'"
        using Cons.IH by blast
      then show ?thesis
        by (intro exI [of _ "(event, w) # trace"] exI [of _ w2]) auto
    qed
  qed
qed

text \<open>An append that reported the output limit, and a poll that found a cancellation.\<close>

definition limit_reported :: "Store \<Rightarrow> JobID \<Rightarrow> (supervise_event \<times> world) list \<Rightarrow> bool" where
  "limit_reported store jobID trace \<longleftrightarrow>
    (\<exists>data w report w'. (Captured data, w) \<in> set trace \<and>
       run_state (appendOutput store jobID data) w = (Inr report, w') \<and> ap_LimitReached report)"

definition cancellation_found :: "Store \<Rightarrow> JobID \<Rightarrow> (supervise_event \<times> world) list \<Rightarrow> bool" where
  "cancellation_found store jobID trace \<longleftrightarrow>
    (\<exists>w snapshot w'. (PollTick, w) \<in> set trace \<and>
       run_state (Load store jobID) w = (Inr snapshot, w') \<and> ps_Cancellation (sn_State snapshot) \<noteq> None)"

definition timer_fired :: "(supervise_event \<times> world) list \<Rightarrow> bool" where
  "timer_fired trace \<longleftrightarrow> HardTimeoutFired \<in> set (map fst trace)"

lemma seen_snoc:
  "limit_reported store jobID (trace @ [(event, w)]) \<longleftrightarrow> limit_reported store jobID trace \<or>
     (\<exists>data report w'. event = Captured data \<and>
        run_state (appendOutput store jobID data) w = (Inr report, w') \<and> ap_LimitReached report)"
  "cancellation_found store jobID (trace @ [(event, w)]) \<longleftrightarrow> cancellation_found store jobID trace \<or>
     (\<exists>snapshot w'. event = PollTick \<and>
       run_state (Load store jobID) w = (Inr snapshot, w') \<and> ps_Cancellation (sn_State snapshot) \<noteq> None)"
  "timer_fired (trace @ [(event, w)]) \<longleftrightarrow> timer_fired trace \<or> event = HardTimeoutFired"
  by (auto simp: limit_reported_def cancellation_found_def timer_fired_def)

definition cause_explained :: "Store \<Rightarrow> JobID \<Rightarrow> (supervise_event \<times> world) list \<Rightarrow> supervision \<Rightarrow> bool" where
  "cause_explained store jobID trace s \<longleftrightarrow>
    (sv_cause s = causeCancelled \<longleftrightarrow> cancellation_found store jobID trace) \<and>
    (sv_cause s = causeOutputLimit \<longrightarrow> limit_reported store jobID trace) \<and>
    (sv_cause s = causeHardTimeout \<longrightarrow> timer_fired trace) \<and>
    (sv_cause s = causeNormal \<and> sv_operationErr s = noerr \<longrightarrow>
       \<not> limit_reported store jobID trace \<and> \<not> timer_fired trace)"

lemma cause_explained_step:
  assumes "cause_explained store jobID trace s" "event_enabled event s"
    and "run_state (supervise_step store jobID grace event s) w = (s', w')"
  shows "cause_explained store jobID (trace @ [(event, w)]) s'"
proof (cases event)
  case (Captured data)
  obtain r w1 where r: "run_state (appendOutput store jobID data) w = (r, w1)" by fastforce
  show ?thesis
    using assms r unfolding Captured cause_explained_def seen_snoc
    by (cases r) (auto simp: supervise_step_def after_append_def supervise_defs split: if_splits)
next
  case PollTick
  obtain r w1 where r: "run_state (Load store jobID) w = (r, w1)" by fastforce
  show ?thesis
    using assms r unfolding PollTick cause_explained_def seen_snoc
    by (cases r) (auto simp: supervise_step_def after_poll_def supervise_defs split: if_splits)
next
  case (ShellWaited r)
  show ?thesis
    using assms unfolding ShellWaited cause_explained_def seen_snoc
    by (auto simp: supervise_step_def after_wait_def Let_def supervise_defs split: if_splits)
next
  case HardTimeoutFired
  show ?thesis
    using assms unfolding HardTimeoutFired cause_explained_def seen_snoc
    by (auto simp: supervise_step_def after_hard_timeout_def Let_def supervise_defs split: if_splits)
next
  case GraceExpired
  show ?thesis
    using assms unfolding GraceExpired cause_explained_def seen_snoc
    by (auto simp: supervise_step_def)
next
  case (CaptureDone err)
  show ?thesis
    using assms unfolding CaptureDone cause_explained_def seen_snoc
    by (auto simp: supervise_step_def supervise_defs)
next
  case ContextDone
  show ?thesis
    using assms unfolding ContextDone cause_explained_def seen_snoc
    by (auto simp: supervise_step_def supervise_defs split: prod.splits)
qed

lemma supervise_trace_explained:
  "supervise_trace store jobID grace (supervise_start shell) w0 trace s w \<Longrightarrow>
   cause_explained store jobID trace s"
proof (induction rule: supervise_trace.induct)
  case start
  then show ?case
    by (simp add: cause_explained_def supervise_start_def limit_reported_def cancellation_found_def timer_fired_def)
qed (rule cause_explained_step)

text \<open>C19: The outcome the runner reports is one it can publish, and its cause is what happened. If
  the guardian reports valid exit codes and signals, then an outcome that supervision returns is
  \<open>wait_ok\<close>. Over the steps the loop took, each in the world it was taken in: the cause is a
  cancellation exactly if a poll loaded a state with a cancellation record; it is the output limit
  only if an append of captured bytes reported that the limit was reached, a hard timeout only if
  the hard timer fired, and the shell's own end exactly if none of the three happened; the exit
  code is one the shell reported; and the capture ended without an error, so a job whose output
  was lost has no outcome.\<close>

theorem superviseShell_outcome:
  assumes "\<forall>r. ShellWaited r \<in> set events \<longrightarrow> report_ok r"
    and "run_state (superviseShell store jobID shell grace events) w = ((Inr outcome, shell'), w')"
    and "w_alive w'"
  shows "wait_ok outcome \<and>
    (\<exists>trace s. supervise_trace store jobID grace (supervise_start shell) w trace s w' \<and>
       supervise_finished s \<and> set (map fst trace) \<subseteq> set events \<and>
       (eo_cause outcome = causeCancelled \<longleftrightarrow> cancellation_found store jobID trace) \<and>
       (eo_cause outcome = causeOutputLimit \<longrightarrow> limit_reported store jobID trace) \<and>
       (eo_cause outcome = causeHardTimeout \<longrightarrow> timer_fired trace) \<and>
       (eo_cause outcome = causeNormal \<longleftrightarrow>
          \<not> cancellation_found store jobID trace \<and> \<not> limit_reported store jobID trace \<and> \<not> timer_fired trace) \<and>
       (\<exists>r. ShellWaited r \<in> set (map fst trace) \<and> sw_exitCode (eo_wait outcome) = sw_exitCode r) \<and>
       (\<forall>err. CaptureDone err \<in> set (map fst trace) \<longrightarrow> err = noerr))"
proof -
  obtain s where s: "run_state (supervise_loop store jobID grace events (supervise_start shell)) w = (s, w')"
      "Inr outcome = supervise_outcome s"
    by (rule superviseShell_run [OF assms(2)]) blast
  obtain trace where trace: "supervise_trace store jobID grace (supervise_start shell) w trace s w'"
      "set (map fst trace) \<subseteq> set events"
    using supervise_loop_trace [OF s(1) supervise_trace.start] assms(3) by auto
  have explained: "explained (map fst trace) s"
    using supervised_explained [OF supervise_trace_supervised [OF trace(1)]] assms(1) trace(2) by blast
  have cause: "cause_explained store jobID trace s"
    by (rule supervise_trace_explained [OF trace(1)])
  have outcome: "eo_cause outcome = sv_cause s" "eo_wait outcome = sv_waitResult s" "sv_operationErr s = noerr"
    using s(2) by (auto simp: supervise_outcome_def Let_def split: if_splits)
  have finished: "supervise_finished s" "sv_waited s"
    using supervise_loop_alive [OF s(1) assms(3)] by (simp_all add: supervise_finished_def)
  have "wait_ok outcome"
    using explained finished(2) by (simp add: explained_def wait_ok_def exit_ok_def outcome)
  moreover have "(sv_cause s = causeNormal \<longleftrightarrow>
      \<not> cancellation_found store jobID trace \<and> \<not> limit_reported store jobID trace \<and> \<not> timer_fired trace)"
    using cause outcome(3) unfolding cause_explained_def by (cases "sv_cause s") simp_all
  moreover have "\<exists>r. ShellWaited r \<in> set (map fst trace) \<and> sw_exitCode (sv_waitResult s) = sw_exitCode r"
    using explained finished(2) unfolding explained_def by blast
  moreover have "\<forall>err. CaptureDone err \<in> set (map fst trace) \<longrightarrow> err = noerr"
    using explained outcome(3) unfolding explained_def by blast
  ultimately show ?thesis
    using cause trace finished(1) unfolding cause_explained_def outcome(1,2) by blast
qed

subsection \<open>Stopping an unpublished shell\<close>

definition stop_in_order :: "unpublished \<Rightarrow> bool" where
  "stop_in_order s \<longleftrightarrow>
    0 < rs_processGroup (un_shell s) \<and>
    rs_calls (un_shell s) =
      (if un_killed s then [Signalled SIGTERM, Signalled SIGKILL, Reaped] else [Signalled SIGTERM]) \<and>
    (rs_reaped (un_shell s) \<longrightarrow> un_killed s)"

lemma kill_and_reap_in_order:
  assumes "stop_in_order s" "\<not> un_killed s"
  shows "stop_in_order ((kill_and_reap s)\<lparr> un_killed := True \<rparr>)"
    and "un_waited (kill_and_reap s) = un_waited s" "un_captureDone (kill_and_reap s) = un_captureDone s"
proof -
  have s: "\<not> rs_reaped (un_shell s)" "0 < rs_processGroup (un_shell s)"
      "rs_calls (un_shell s) = [Signalled SIGTERM]"
    using assms by (auto simp: stop_in_order_def)
  then obtain err where "signalGroup SIGKILL (un_shell s) =
      (err, (un_shell s)\<lparr> rs_calls := rs_calls (un_shell s) @ [Signalled SIGKILL] \<rparr>)"
    using signalGroup_live by blast
  then show "stop_in_order ((kill_and_reap s)\<lparr> un_killed := True \<rparr>)"
    "un_waited (kill_and_reap s) = un_waited s" "un_captureDone (kill_and_reap s) = un_captureDone s"
    using s by (simp_all add: kill_and_reap_def reapGuardian_def stop_in_order_def)
qed

lemma stop_step_in_order:
  assumes "stop_in_order s"
  shows "stop_in_order (stop_step event s)"
    and "un_waited (stop_step event s) \<longleftrightarrow> un_waited s \<or> (\<exists>r. event = ShellWaited r)"
    and "un_captureDone (stop_step event s) \<longleftrightarrow> un_captureDone s \<or> (\<exists>err. event = CaptureDone err)"
  using assms kill_and_reap_in_order [OF assms]
  by (cases event; cases "un_killed s"; simp add: stop_step_def stop_in_order_def)+

lemma stop_loop_ends:
  "stop_in_order s \<Longrightarrow> un_waited s \<or> (\<exists>r. ShellWaited r \<in> set events) \<Longrightarrow>
   un_captureDone s \<or> (\<exists>err. CaptureDone err \<in> set events) \<Longrightarrow>
   \<exists>s'. stop_loop events s = Some s' \<and> stop_in_order s'"
proof (induction events arbitrary: s)
  case (Cons event events)
  then show ?case
    using stop_step_in_order [OF Cons.prems(1), of event] Cons.IH [of "stop_step event s"] by auto
qed simp

lemma stop_loop_in_order: "stop_loop events s = Some s' \<Longrightarrow> stop_in_order s \<Longrightarrow> stop_in_order s'"
  by (induction events arbitrary: s) (auto split: if_splits intro: stop_step_in_order(1))

definition unpublished_start :: "runningShell \<Rightarrow> unpublished" where
  "unpublished_start shell =
    (case signalGroup SIGTERM shell of
       (signalErr, shell') \<Rightarrow>
         \<lparr> un_shell = shell', un_signalErr = signalErr, un_waited = False,
           un_captureDone = False, un_killed = False, un_captureErr = noerr \<rparr>)"

lemma unpublished_start_in_order: "fresh_shell shell \<Longrightarrow> stop_in_order (unpublished_start shell)"
  using signalGroup_live [of shell SIGTERM]
  by (auto simp: stop_in_order_def fresh_shell_def unpublished_start_def)

lemma stopUnpublishedShell_start:
  "stopUnpublishedShell shell events = map_option (\<lambda>s.
     let s = (if un_killed s then s else kill_and_reap s)
     in (errors_Join [un_signalErr s, un_captureErr s], un_shell s))
   (stop_loop events (unpublished_start shell))"
  by (simp add: stopUnpublishedShell_def unpublished_start_def split: prod.split)

lemma stopUnpublishedShell_ends_group:
  assumes "fresh_shell shell" "stopUnpublishedShell shell events = Some (e, shell')"
  shows "group_ended shell'"
proof -
  obtain s where s: "stop_loop events (unpublished_start shell) = Some s"
      "shell' = un_shell (if un_killed s then s else kill_and_reap s)"
    using assms(2) by (auto simp: stopUnpublishedShell_start Let_def)
  have "stop_in_order s"
    by (rule stop_loop_in_order [OF s(1) unpublished_start_in_order [OF assms(1)]])
  then show ?thesis
    using s(2) kill_and_reap_in_order(1) [of s] by (auto simp: stop_in_order_def group_ended_def)
qed

text \<open>C20: A shell whose job could not be published is stopped as thoroughly as a supervised one:
  once its exit is reported and its output has ended, in any order and with or without the grace
  timer firing, \<open>stopUnpublishedShell\<close> returns, and has sent the group \<open>SIGTERM\<close> and then
  \<open>SIGKILL\<close>, each once, and reaped its leader after both.\<close>

theorem stopUnpublishedShell_ends:
  assumes "fresh_shell shell" "ShellWaited r \<in> set events" "CaptureDone err \<in> set events"
  shows "\<exists>e shell'. stopUnpublishedShell shell events = Some (e, shell') \<and>
    rs_calls shell' = [Signalled SIGTERM, Signalled SIGKILL, Reaped]"
proof -
  obtain s where "stop_loop events (unpublished_start shell) = Some s"
    using stop_loop_ends [OF unpublished_start_in_order [OF assms(1)]] assms(2,3) by metis
  then obtain e shell' where "stopUnpublishedShell shell events = Some (e, shell')"
    by (simp add: stopUnpublishedShell_start Let_def)
  then show ?thesis
    using stopUnpublishedShell_ends_group [OF assms(1)] by (simp add: group_ended_def)
qed

subsection \<open>A concrete supervision\<close>

definition example_shell :: runningShell where
  "example_shell =
    \<lparr> rs_processGroup = 77, rs_calls = [], rs_reaped = False, rs_kill = (\<lambda>signal. noerr), rs_wait = noerr \<rparr>"

definition example_exit :: shellWaitResult where
  "example_exit = \<lparr> sw_exitCode = Some 3, sw_signal = None, sw_err = noerr \<rparr>"

lemma example_shell_fresh: "fresh_shell example_shell"
  by (simp add: fresh_shell_def example_shell_def)

abbreviation example_events :: "supervise_event list" where
  "example_events \<equiv> [ShellWaited example_exit, CaptureDone noerr, GraceExpired]"

lemma example_supervision:
  "\<exists>shell'. run_state (superviseShell example_store ''job-1'' example_shell 50 example_events) example_world =
    ((Inr \<lparr> eo_cause = causeNormal, eo_wait = example_exit \<rparr>, shell'), example_world)"
  by (simp add: superviseShell_def supervise_step_def supervise_start_def supervise_finished_def no_wait_def
      supervise_defs Let_def startCleanup_def after_grace_def signalGroup_def signalProcessGroup_def
      reapGuardian_def example_shell_def example_exit_def supervise_outcome_def
      reconcileProcessGroupSignalErrors_def)

lemma superviseShell_signals_witness:
  "\<exists>r shell'. run_state (superviseShell example_store ''job-1'' example_shell 50 example_events) example_world =
      ((r, shell'), example_world) \<and>
    rs_calls shell' = [Signalled SIGTERM, Signalled SIGKILL, Reaped]"
proof -
  obtain shell' where "run_state (superviseShell example_store ''job-1'' example_shell 50 example_events)
      example_world = ((Inr \<lparr> eo_cause = causeNormal, eo_wait = example_exit \<rparr>, shell'), example_world)"
    using example_supervision by blast
  from superviseShell_signals [OF example_shell_fresh this] this show ?thesis
    by (auto simp: example_world_def)
qed

lemma supervise_loop_finishes_witness:
  "supervise_finished (fst (run_state (supervise_loop example_store ''job-1'' 50
     [PollTick, ShellWaited example_exit, CaptureDone noerr, PollTick, GraceExpired]
     (supervise_start example_shell)) example_world))"
  by (rule supervise_loop_finishes [OF example_shell_fresh,
        where pre = "[PollTick]" and r = example_exit and err = noerr and
          post = "[CaptureDone noerr, PollTick, GraceExpired]"]) simp_all

lemma superviseShell_outcome_witness:
  "wait_ok \<lparr> eo_cause = causeNormal, eo_wait = example_exit \<rparr>"
proof -
  obtain shell' where "run_state (superviseShell example_store ''job-1'' example_shell 50 example_events)
      example_world = ((Inr \<lparr> eo_cause = causeNormal, eo_wait = example_exit \<rparr>, shell'), example_world)"
    using example_supervision by blast
  from superviseShell_outcome [OF _ this] show ?thesis
    by (simp add: report_ok_def example_exit_def valid_signal_def example_world_def)
qed

lemma stopUnpublishedShell_ends_witness:
  "\<exists>e shell'. stopUnpublishedShell example_shell [CaptureDone noerr, GraceExpired, ShellWaited example_exit] =
     Some (e, shell') \<and> rs_calls shell' = [Signalled SIGTERM, Signalled SIGKILL, Reaped]"
  by (rule stopUnpublishedShell_ends [OF example_shell_fresh, where r = example_exit and err = noerr]) simp_all

end
