(* ===== verification/Frames.thy ===== *)
theory Frames
  imports Prelude
begin

section \<open>Frames between the processes of a start\<close>

text \<open>
  \<open>internal/runner/internal_protocol.go\<close>: the framing of the messages that the manager, the
  bootstrap process, the runner and the guardian exchange over pipes. A frame is the magic
  \<open>AMB1\<close>, a version byte, a kind byte, the payload's length as a big-endian \<open>uint32\<close> and the
  payload, a JSON document of at most 128 KiB.

  An \<open>io.Writer\<close> is what it has accepted and a script of how much each \<open>Write\<close> takes and
  reports; an \<open>io.Reader\<close> is the list of pieces the successive \<open>Read\<close>s find and the error
  after the last. \<open>encoding/json\<close> is a parameter, one \<open>codec\<close> per message type.
\<close>

subsection \<open>Readers and writers\<close>

record writer =
  wr_out :: bytes
  wr_writes :: "(nat \<times> error) list"

definition writer_Write :: "bytes \<Rightarrow> writer \<Rightarrow> (nat \<times> error) \<times> writer" where
  "writer_Write raw w =
    (case wr_writes w of
       [] \<Rightarrow> ((length raw, noerr), w\<lparr> wr_out := wr_out w @ raw \<rparr>)
     | (n, err) # rest \<Rightarrow>
         ((min n (length raw), err), w\<lparr> wr_out := wr_out w @ take n raw, wr_writes := rest \<rparr>))"

record reader =
  rd_pieces :: "bytes list"
  rd_end :: err

text \<open>One \<open>Read\<close> into a buffer of \<open>n\<close> bytes.\<close>

definition reader_Read :: "nat \<Rightarrow> reader \<Rightarrow> (bytes \<times> error) \<times> reader" where
  "reader_Read n r =
    (case rd_pieces r of
       [] \<Rightarrow> (([], [rd_end r]), r)
     | c # cs \<Rightarrow>
         if length c \<le> n then ((c, noerr), r\<lparr> rd_pieces := cs \<rparr>)
         else ((take n c, noerr), r\<lparr> rd_pieces := drop n c # cs \<rparr>))"

definition stream :: "reader \<Rightarrow> bytes" where
  "stream r = concat (rd_pieces r)"

text \<open>\<open>io.ReadFull\<close>: reads until the buffer is full or a \<open>Read\<close> fails.\<close>

function read_more :: "nat \<Rightarrow> bytes \<Rightarrow> reader \<Rightarrow> (bytes \<times> error) \<times> reader" where
  "read_more n got r =
    (if n \<le> length got then ((got, noerr), r)
     else case reader_Read (n - length got) r of
       ((c, err), r') \<Rightarrow>
         if err \<noteq> noerr
         then ((got @ c,
                if n \<le> length (got @ c) then noerr
                else if got @ c \<noteq> [] \<and> err = [IoEOF] then [IoUnexpectedEOF] else err), r')
         else read_more n (got @ c) r')"
  by pat_completeness auto
termination
  by (relation "measures [\<lambda>(n, got, r). length (rd_pieces r), \<lambda>(n, got, r). n - length got]")
    (auto simp: reader_Read_def split: list.splits if_splits)

declare read_more.simps [simp del]

definition read_full :: "nat \<Rightarrow> reader \<Rightarrow> (bytes \<times> error) \<times> reader" where
  "read_full n r = read_more n [] r"

subsection \<open>Big-endian lengths\<close>

definition PutUint32 :: "32 word \<Rightarrow> bytes" where
  "PutUint32 v =
    [char_of (unat v div 16777216), char_of (unat v div 65536), char_of (unat v div 256),
     char_of (unat v)]"

fun Uint32 :: "bytes \<Rightarrow> 32 word" where
  "Uint32 (a # b # c # d # rest) =
    word_of_nat (of_char a * 16777216 + of_char b * 65536 + of_char c * 256 + of_char d)"
| "Uint32 _ = 0"

subsection \<open>Frames\<close>

definition internalProtocolVersion :: char where
  "internalProtocolVersion = CHR 0x01"

definition maximumFrameBytes :: nat where
  "maximumFrameBytes = 128 * 1024"

definition internalMagic :: bytes where
  "internalMagic = ''AMB1''"

datatype frameKind =
    frameStart | framePrepared | frameCommit | frameCommitted | frameFailure
  | frameGuardianReady | frameShellExited | frameUnknown char

fun byte_of_frameKind :: "frameKind \<Rightarrow> char" where
  "byte_of_frameKind frameStart = CHR 0x01"
| "byte_of_frameKind framePrepared = CHR 0x02"
| "byte_of_frameKind frameCommit = CHR 0x03"
| "byte_of_frameKind frameCommitted = CHR 0x04"
| "byte_of_frameKind frameFailure = CHR 0x05"
| "byte_of_frameKind frameGuardianReady = CHR 0x06"
| "byte_of_frameKind frameShellExited = CHR 0x07"
| "byte_of_frameKind (frameUnknown b) = b"

definition frameKind_of_byte :: "char \<Rightarrow> frameKind" where
  "frameKind_of_byte b =
    (if b = CHR 0x01 then frameStart else if b = CHR 0x02 then framePrepared
     else if b = CHR 0x03 then frameCommit else if b = CHR 0x04 then frameCommitted
     else if b = CHR 0x05 then frameFailure else if b = CHR 0x06 then frameGuardianReady
     else if b = CHR 0x07 then frameShellExited else frameUnknown b)"

record internalFrame =
  if_kind :: frameKind
  if_payload :: bytes

text \<open>
  A message type in \<open>encoding/json\<close>: \<open>json.Marshal\<close>, and a decoder that disallows unknown
  fields: its \<open>Decode\<close> result and what its \<open>Token\<close> answers after it.
\<close>

record 'v codec =
  cd_Marshal :: "'v \<Rightarrow> error + bytes"
  cd_Decode :: "bytes \<Rightarrow> error + 'v \<times> error"

function writeFull :: "bytes \<Rightarrow> writer \<Rightarrow> error \<times> writer" where
  "writeFull raw w =
    (if raw = [] then (noerr, w)
     else case writer_Write raw w of
       ((written, err), w') \<Rightarrow>
         if err \<noteq> noerr then (err, w')
         else if written = 0 then ([IoErrShortWrite], w')
         else writeFull (drop written raw) w')"
  by pat_completeness auto
termination
  by (relation "measure (\<lambda>(raw, w). length raw)")
    (auto simp: writer_Write_def split: list.splits)

declare writeFull.simps [simp del]

definition writeFrame ::
  "'v codec \<Rightarrow> frameKind \<Rightarrow> 'v \<Rightarrow> writer \<Rightarrow> error \<times> writer" where
  "writeFrame codec kind v w =
    (case cd_Marshal codec v of
       Inl err \<Rightarrow> (fmt_Errorf ''encode internal frame: %w'' err, w)
     | Inr payload \<Rightarrow>
         if length payload > maximumFrameBytes
         then (fmt_Errorf ''encode internal frame: %w'' [ErrInternalProtocol], w)
         else
           let header = internalMagic @ [internalProtocolVersion, byte_of_frameKind kind]
                 @ PutUint32 (word_of_nat (length payload))
           in case writeFull header w of
             (err, w1) \<Rightarrow>
               if err \<noteq> noerr then (fmt_Errorf ''write internal frame header: %w'' err, w1)
               else case writeFull payload w1 of
                 (err', w2) \<Rightarrow>
                   if err' \<noteq> noerr
                   then (fmt_Errorf ''write internal frame payload: %w'' err', w2)
                   else (noerr, w2))"

definition readFrame :: "(bytes \<Rightarrow> bool) \<Rightarrow> reader \<Rightarrow> (error + internalFrame) \<times> reader" where
  "readFrame json_Valid r =
    (case read_full 10 r of
       ((header, err), r1) \<Rightarrow>
         if err \<noteq> noerr then (Inl (fmt_Errorf ''read internal frame header: %w'' err), r1)
         else if take 4 header \<noteq> internalMagic \<or> header ! 4 \<noteq> internalProtocolVersion
         then (Inl [ErrInternalProtocol], r1)
         else
           let size = Uint32 (drop 6 header)
           in if size > word_of_nat maximumFrameBytes then (Inl [ErrInternalProtocol], r1)
              else case read_full (unat size) r1 of
                ((payload, err'), r2) \<Rightarrow>
                  if err' \<noteq> noerr
                  then (Inl (fmt_Errorf ''read internal frame payload: %w'' err'), r2)
                  else if \<not> json_Valid payload then (Inl [ErrInternalProtocol], r2)
                  else (Inr \<lparr> if_kind = frameKind_of_byte (header ! 5), if_payload = payload \<rparr>, r2))"

definition decodeFrame :: "'v codec \<Rightarrow> internalFrame \<Rightarrow> frameKind \<Rightarrow> error + 'v" where
  "decodeFrame codec frame expected =
    (if if_kind frame \<noteq> expected then Inl [ErrInternalProtocol]
     else case cd_Decode codec (if_payload frame) of
       Inl err \<Rightarrow> Inl (fmt_Errorf ''decode internal frame: %w'' err)
     | Inr (v, token) \<Rightarrow>
         if \<not> errors_Is token IoEOF then Inl [ErrInternalProtocol] else Inr v)"

subsection \<open>Reading and writing whole buffers\<close>

lemma reader_Read_Nil: "rd_pieces r = [] \<Longrightarrow> reader_Read n r = (([], [rd_end r]), r)"
  by (simp add: reader_Read_def)

lemma reader_Read_cases:
  assumes "rd_pieces r \<noteq> []"
  shows "\<exists>c r'. reader_Read n r = ((c, noerr), r') \<and> stream r = c @ stream r' \<and> length c \<le> n \<and>
    rd_end r' = rd_end r"
proof -
  obtain a as where "rd_pieces r = a # as"
    using assms by (cases "rd_pieces r") simp_all
  then show ?thesis
    by (cases "length a \<le> n") (simp_all add: reader_Read_def stream_def)
qed

text \<open>However the bytes are split into pieces, a full buffer holds the stream's next bytes.\<close>

definition end_of_stream :: "bytes \<Rightarrow> err \<Rightarrow> err" where
  "end_of_stream got e = (if got \<noteq> [] \<and> e = IoEOF then IoUnexpectedEOF else e)"

lemma read_more_stops:
  assumes "rd_pieces r = []"
  shows "read_more n got r =
    (if n \<le> length got then ((got, noerr), r) else ((got, [end_of_stream got (rd_end r)]), r))"
  using assms by (simp add: read_more.simps [of n got] reader_Read_Nil end_of_stream_def)

lemma read_more_goes_on:
  assumes "rd_pieces r \<noteq> []" "length got < n"
  obtains c r' where "read_more n got r = read_more n (got @ c) r'" "stream r = c @ stream r'"
    "length (got @ c) \<le> n" "rd_end r' = rd_end r"
    "reader_Read (n - length got) r = ((c, noerr), r')"
proof -
  obtain c r' where step: "reader_Read (n - length got) r = ((c, noerr), r')"
      and r': "stream r = c @ stream r'" "length c \<le> n - length got" "rd_end r' = rd_end r"
    using reader_Read_cases [OF assms(1)] by blast
  show thesis
    by (rule that [of c r']) (use assms r' in \<open>simp_all add: read_more.simps [of n got] step\<close>)
qed

lemma read_more_spec:
  "length got \<le> n \<Longrightarrow>
   (if n \<le> length (got @ stream r)
    then \<exists>r'. read_more n got r = ((take n (got @ stream r), noerr), r') \<and>
              stream r' = drop n (got @ stream r) \<and> rd_end r' = rd_end r
    else \<exists>r'. read_more n got r =
           ((got @ stream r, [end_of_stream (got @ stream r) (rd_end r)]), r'))"
proof (induction n got r rule: read_more.induct)
  case (1 n got r)
  consider "n = length got" | "length got < n" "rd_pieces r = []"
    | "length got < n" "rd_pieces r \<noteq> []"
    using 1(2) by fastforce
  then show ?case
  proof cases
    case 1
    then have "read_more n got r = ((got, noerr), r)"
      by (simp add: read_more.simps [of "length got" got])
    with 1 show ?thesis
      by simp
  next
    case 2
    then show ?thesis
      by (simp add: read_more_stops stream_def)
  next
    case 3
    obtain c r' where step: "read_more n got r = read_more n (got @ c) r'"
        and s: "stream r = c @ stream r'" and len: "length (got @ c) \<le> n"
        and e: "rd_end r' = rd_end r" and read: "reader_Read (n - length got) r = ((c, noerr), r')"
      by (rule read_more_goes_on [OF 3(2) 3(1)])
    have "\<not> n \<le> length got"
      using 3 by simp
    from 1(1) [OF this read [symmetric] refl _ len] e
    show ?thesis
      unfolding step s append_assoc [symmetric] by (simp only: simp_thms True_implies_equals)
  qed
qed

lemma read_full_enough:
  assumes "n \<le> length (stream r)"
  obtains r' where "read_full n r = ((take n (stream r), noerr), r')"
    "stream r' = drop n (stream r)" "rd_end r' = rd_end r"
  using read_more_spec [of "[]" n r] assms by (auto simp: read_full_def)

lemma read_full_short:
  assumes "length (stream r) < n"
  obtains r' where
    "read_full n r = ((stream r, [end_of_stream (stream r) (rd_end r)]), r')"
  using read_more_spec [of "[]" n r] assms by (auto simp: read_full_def)

lemma writer_Write_takes:
  "case writer_Write raw w of
     ((n, e), w1) \<Rightarrow> n \<le> length raw \<and> wr_out w1 = wr_out w @ take n raw \<and>
       set (wr_writes w1) \<subseteq> set (wr_writes w) \<and> (wr_writes w = [] \<longrightarrow> n = length raw \<and> e = noerr) \<and>
       (wr_writes w \<noteq> [] \<longrightarrow> n = min (fst (hd (wr_writes w))) (length raw) \<and> e = snd (hd (wr_writes w)))"
  by (cases "wr_writes w") (auto simp: writer_Write_def min_def)

lemma writeFull_prefix:
  "writeFull raw w = (err, w') \<Longrightarrow>
   \<exists>k \<le> length raw. wr_out w' = wr_out w @ take k raw \<and> (err = noerr \<longrightarrow> k = length raw)"
proof (induction raw w arbitrary: err w' rule: writeFull.induct)
  case (1 raw w)
  show ?case
  proof (cases "raw = []")
    case True
    then show ?thesis
      using 1(2) by (simp add: writeFull.simps)
  next
    case False
    obtain n e w1 where step: "writer_Write raw w = ((n, e), w1)"
      by (metis prod.collapse)
    then have n: "n \<le> length raw" and out: "wr_out w1 = wr_out w @ take n raw"
      using writer_Write_takes [of raw w] by auto
    show ?thesis
    proof (cases "e \<noteq> noerr \<or> n = 0")
      case True
      then show ?thesis
        using 1(2) False n out by (auto simp: writeFull.simps [of raw] step split: if_splits intro!: exI [of _ n])
    next
      case more: False
      then have "writeFull (drop n raw) w1 = (err, w')"
        using 1(2) False by (simp add: writeFull.simps [of raw] step)
      from 1(1) [OF False step [symmetric] refl _ _ this] more
      obtain k where k: "k \<le> length (drop n raw)" "wr_out w' = wr_out w1 @ take k (drop n raw)"
          "err = noerr \<longrightarrow> k = length (drop n raw)"
        by auto
      show ?thesis
        by (rule exI [of _ "n + k"]) (use k out n in \<open>auto simp: take_add\<close>)
    qed
  qed
qed

lemma writeFull_complete:
  "\<forall>(n, e) \<in> set (wr_writes w). e = noerr \<and> 0 < n \<Longrightarrow>
   \<exists>w'. writeFull raw w = (noerr, w') \<and> wr_out w' = wr_out w @ raw \<and>
        set (wr_writes w') \<subseteq> set (wr_writes w)"
proof (induction raw w rule: writeFull.induct)
  case (1 raw w)
  show ?case
  proof (cases "raw = []")
    case True
    then show ?thesis
      by (simp add: writeFull.simps)
  next
    case False
    obtain n w1 where step: "writer_Write raw w = ((n, noerr), w1)" and n: "0 < n"
        and out: "wr_out w1 = wr_out w @ take n raw" and sub: "set (wr_writes w1) \<subseteq> set (wr_writes w)"
      using writer_Write_takes [of raw w] 1(2) False by (cases "wr_writes w") auto
    from 1(1) [OF False step [symmetric] refl _ _] n 1(2) sub
    obtain w' where "writeFull (drop n raw) w1 = (noerr, w')" "wr_out w' = wr_out w1 @ drop n raw"
        "set (wr_writes w') \<subseteq> set (wr_writes w1)"
      by auto
    then show ?thesis
      using False n out sub by (auto simp: writeFull.simps [of raw] step)
  qed
qed

subsection \<open>The bytes of a frame\<close>

lemma length_PutUint32 [simp]: "length (PutUint32 v) = 4"
  by (simp add: PutUint32_def)

lemma Uint32_PutUint32 [simp]: "Uint32 (PutUint32 v) = v"
proof -
  define x where "x = unat v"
  define y where "y = x div 256"
  define z where "z = y div 256"
  have "x < 4294967296"
    using unsigned_less [of v] by (simp add: x_def)
  then have "z div 256 < 256"
    by (simp add: z_def y_def div_mult2_eq [symmetric] less_mult_imp_div_less)
  then have top: "z div 256 mod 256 = z div 256"
    by simp
  have "z = 256 * (z div 256) + z mod 256" "y = 256 * z + y mod 256" "x = 256 * y + x mod 256"
    unfolding z_def y_def by simp_all
  then have "z div 256 mod 256 * 16777216 + z mod 256 * 65536 + y mod 256 * 256 + x mod 256 = x"
    unfolding top by linarith
  moreover have "z div 256 = x div 16777216" "z = x div 65536" "y = x div 256"
    by (simp_all add: z_def y_def div_mult2_eq [symmetric])
  ultimately have "x div 16777216 mod 256 * 16777216 + x div 65536 mod 256 * 65536
      + x div 256 mod 256 * 256 + x mod 256 = x"
    by simp
  then show ?thesis
    by (simp only: PutUint32_def x_def Uint32.simps of_char_of) simp
qed

lemma char_of_digit: "n = of_char c + 256 * k \<Longrightarrow> char_of (n :: nat) = c"
  by (metis char_of_mod_256 char_of_char mod_mult_self2)

lemma PutUint32_Uint32:
  assumes "length b = 4"
  shows "PutUint32 (Uint32 b) = b"
proof -
  obtain p q r s where b: "b = [p, q, r, s]"
    using assms by (auto simp: length_Suc_conv numeral_eq_Suc)
  define n where "n = (of_char p * 16777216 + of_char q * 65536 + of_char r * 256 + of_char s :: nat)"
  have small: "(of_char c :: nat) < 256" for c
    by (rule nat_of_char_less_256)
  have "n < 4294967296"
    unfolding n_def using small [of p] small [of q] small [of r] small [of s] by linarith
  then have u: "unat (word_of_nat n :: 32 word) = n"
    by (simp add: unat_of_nat take_bit_nat_eq_self)
  have d1: "n div 256 = of_char p * 65536 + of_char q * 256 + of_char r"
    by (rule div_nat_eqI; simp add: n_def; use small [of s] in linarith)
  have d2: "n div 65536 = of_char p * 256 + of_char q"
    by (rule div_nat_eqI; simp add: n_def; use small [of s] small [of r] in linarith)
  have d3: "n div 16777216 = of_char p"
    by (rule div_nat_eqI; simp add: n_def; use small [of s] small [of r] small [of q] in linarith)
  have "char_of n = s"
    by (rule char_of_digit [of _ _ "of_char p * 65536 + of_char q * 256 + of_char r"])
      (simp add: n_def)
  moreover have "char_of (n div 256) = r"
    by (rule char_of_digit [of _ _ "of_char p * 256 + of_char q"]) (simp add: d1)
  moreover have "char_of (n div 65536) = q"
    by (rule char_of_digit [of _ _ "of_char p"]) (simp add: d2)
  ultimately show ?thesis
    unfolding b Uint32.simps n_def [symmetric] PutUint32_def u by (simp add: d3)
qed

definition frame_bytes :: "frameKind \<Rightarrow> bytes \<Rightarrow> bytes" where
  "frame_bytes kind payload =
    internalMagic @ [internalProtocolVersion, byte_of_frameKind kind]
    @ PutUint32 (word_of_nat (length payload)) @ payload"

text \<open>The kinds a reader can produce: a named kind is never also an unknown byte.\<close>

fun proper_kind :: "frameKind \<Rightarrow> bool" where
  "proper_kind (frameUnknown b) \<longleftrightarrow> frameKind_of_byte b = frameUnknown b"
| "proper_kind _ \<longleftrightarrow> True"

lemma frameKind_of_byte_of [simp]: "proper_kind k \<Longrightarrow> frameKind_of_byte (byte_of_frameKind k) = k"
  by (cases k) (simp_all add: frameKind_of_byte_def)

lemma byte_of_frameKind_of [simp]: "byte_of_frameKind (frameKind_of_byte b) = b"
  by (simp add: frameKind_of_byte_def)

lemma proper_frameKind_of_byte [simp]: "proper_kind (frameKind_of_byte b)"
  by (simp add: frameKind_of_byte_def)

lemma unat_length32: "n \<le> maximumFrameBytes \<Longrightarrow> unat (word_of_nat n :: 32 word) = n"
  by (simp add: maximumFrameBytes_def unat_of_nat take_bit_nat_eq_self)

lemma frame_too_long:
  "(word_of_nat maximumFrameBytes < (v :: 32 word)) \<longleftrightarrow> maximumFrameBytes < unat v"
  by (simp add: word_less_nat_alt unat_length32)

lemma writeFrame_ok:
  assumes "writeFrame codec kind v w = (noerr, w')"
  obtains payload where "cd_Marshal codec v = Inr payload" "length payload \<le> maximumFrameBytes"
    "wr_out w' = wr_out w @ frame_bytes kind payload"
proof -
  obtain payload where p: "cd_Marshal codec v = Inr payload" "length payload \<le> maximumFrameBytes"
    using assms by (auto simp: writeFrame_def split: sum.splits if_splits)
  define header where "header = internalMagic @ internalProtocolVersion # byte_of_frameKind kind
      # PutUint32 (word_of_nat (length payload))"
  obtain e1 w1 where h: "writeFull header w = (e1, w1)"
    by (metis prod.collapse)
  obtain e2 w2 where b: "writeFull payload w1 = (e2, w2)"
    by (metis prod.collapse)
  have "e1 = noerr" "e2 = noerr" "w' = w2"
    using assms p by (auto simp: writeFrame_def header_def [symmetric] h b split: if_splits)
  with writeFull_prefix [OF h] writeFull_prefix [OF b]
  have "wr_out w' = wr_out w @ frame_bytes kind payload"
    by (auto simp: frame_bytes_def header_def)
  with p show thesis
    by (rule that)
qed

text \<open>What \<open>readFrame\<close> takes from a stream: a whole frame, or an error.\<close>

lemma readFrame_short_header:
  assumes "length (stream r) < 10"
  shows "\<exists>r'. readFrame V r =
    (Inl (fmt_Errorf ''read internal frame header: %w'' [end_of_stream (stream r) (rd_end r)]), r')"
proof -
  obtain r' where "read_full 10 r = ((stream r, [end_of_stream (stream r) (rd_end r)]), r')"
    by (rule read_full_short [OF assms])
  then show ?thesis
    by (simp add: readFrame_def)
qed

definition frame_rest ::
  "(bytes \<Rightarrow> bool) \<Rightarrow> bytes \<Rightarrow> reader \<Rightarrow> (error + internalFrame) \<times> reader" where
  "frame_rest V s r1 =
    (if take 4 s \<noteq> internalMagic \<or> s ! 4 \<noteq> internalProtocolVersion
        \<or> maximumFrameBytes < unat (Uint32 (take 4 (drop 6 s)))
     then (Inl [ErrInternalProtocol], r1)
     else case read_full (unat (Uint32 (take 4 (drop 6 s)))) r1 of
       ((payload, err'), r2) \<Rightarrow>
         if err' \<noteq> noerr
         then (Inl (fmt_Errorf ''read internal frame payload: %w'' err'), r2)
         else if \<not> V payload then (Inl [ErrInternalProtocol], r2)
         else (Inr \<lparr> if_kind = frameKind_of_byte (s ! 5), if_payload = payload \<rparr>, r2))"

lemma header_parts:
  "take 4 (take 10 s) = take 4 s" "drop 6 (take 10 s) = take 4 (drop 6 s)"
  "take 10 s ! 4 = s ! 4" "take 10 s ! 5 = s ! 5"
  by (simp_all add: drop_take)

lemma if_or_if: "(if p \<or> q then x else if r then x else y) = (if p \<or> q \<or> r then x else y)"
  by simp

lemma readFrame_header:
  assumes "10 \<le> length (stream r)"
  obtains r1 where "readFrame V r = frame_rest V (stream r) r1"
    "stream r1 = drop 10 (stream r)" "rd_end r1 = rd_end r"
proof -
  obtain r1 where r1: "read_full 10 r = ((take 10 (stream r), noerr), r1)"
      "stream r1 = drop 10 (stream r)" "rd_end r1 = rd_end r"
    by (rule read_full_enough [OF assms])
  have "readFrame V r = frame_rest V (stream r) r1"
    unfolding readFrame_def frame_rest_def r1(1) prod.case Let_def frame_too_long header_parts if_or_if
    by (simp only: simp_thms if_False)
  then show thesis
    by (rule that [OF _ r1(2,3)])
qed

lemma frame_bytes_split:
  assumes "10 \<le> length s" "take 4 s = internalMagic" "s ! 4 = internalProtocolVersion"
  shows "s = internalMagic @ [internalProtocolVersion, s ! 5] @ take 4 (drop 6 s) @ drop 10 s"
proof -
  have "drop 4 s = s ! 4 # drop 5 s" "drop 5 s = s ! 5 # drop 6 s"
    using assms(1) Cons_nth_drop_Suc [of 4 s] Cons_nth_drop_Suc [of 5 s] by simp_all
  moreover have "drop 6 s = take 4 (drop 6 s) @ drop 10 s"
    using append_take_drop_id [of 4 "drop 6 s"] by simp
  ultimately show ?thesis
    using append_take_drop_id [of 4 s] assms(2,3) by simp
qed

lemma frame_bytes_parts:
  assumes "s = frame_bytes kind payload @ rest"
  shows "10 \<le> length s" "take 4 s = internalMagic" "s ! 4 = internalProtocolVersion"
    "s ! 5 = byte_of_frameKind kind" "take 4 (drop 6 s) = PutUint32 (word_of_nat (length payload))"
    "drop 10 s = payload @ rest"
  unfolding assms by (simp_all add: frame_bytes_def internalMagic_def)

lemma readFrame_frame:
  assumes s: "stream r = frame_bytes kind payload @ rest"
    and ok: "length payload \<le> maximumFrameBytes" "V payload" "proper_kind kind"
  obtains r' where "readFrame V r = (Inr \<lparr> if_kind = kind, if_payload = payload \<rparr>, r')"
    "stream r' = rest" "rd_end r' = rd_end r"
proof -
  note p = frame_bytes_parts [OF s]
  obtain r1 where r1: "readFrame V r = frame_rest V (stream r) r1"
      "stream r1 = drop 10 (stream r)" "rd_end r1 = rd_end r"
    by (rule readFrame_header [OF p(1)])
  have len: "length payload \<le> length (stream r1)"
    by (simp add: r1 p)
  obtain r2 where r2: "read_full (length payload) r1 = ((payload, noerr), r2)" "stream r2 = rest"
      "rd_end r2 = rd_end r1"
    by (rule read_full_enough [OF len]) (simp add: r1 p)
  have "readFrame V r = (Inr \<lparr> if_kind = kind, if_payload = payload \<rparr>, r2)"
    unfolding r1(1) frame_rest_def p using ok by (simp add: unat_length32 r2 not_less)
  then show thesis
    by (rule that [OF _ r2(2)]) (simp add: r1 r2)
qed

lemma readFrame_Inr:
  assumes "readFrame V r = (Inr f, r')"
  shows "stream r = frame_bytes (if_kind f) (if_payload f) @ stream r' \<and>
    length (if_payload f) \<le> maximumFrameBytes \<and> V (if_payload f) \<and> proper_kind (if_kind f) \<and>
    rd_end r' = rd_end r"
proof -
  have len: "10 \<le> length (stream r)"
    using readFrame_short_header [of r V] assms by (cases "length (stream r) < 10") auto
  define n where "n = unat (Uint32 (take 4 (drop 6 (stream r))))"
  obtain r1 where read: "readFrame V r = frame_rest V (stream r) r1"
      and r1: "stream r1 = drop 10 (stream r)" "rd_end r1 = rd_end r"
    by (rule readFrame_header [OF len])
  have rest: "frame_rest V (stream r) r1 = (Inr f, r')"
    using assms read by simp
  have h: "take 4 (stream r) = internalMagic" "stream r ! 4 = internalProtocolVersion"
      "n \<le> maximumFrameBytes"
    using rest unfolding frame_rest_def n_def [symmetric] by (simp_all split: if_splits)
  have body: "(case read_full n r1 of
       ((payload, err'), r2) \<Rightarrow>
         if err' \<noteq> noerr
         then (Inl (fmt_Errorf ''read internal frame payload: %w'' err'), r2)
         else if \<not> V payload then (Inl [ErrInternalProtocol], r2)
         else (Inr \<lparr> if_kind = frameKind_of_byte (stream r ! 5), if_payload = payload \<rparr>, r2))
      = (Inr f, r')"
    using rest h unfolding frame_rest_def n_def [symmetric] by simp
  have enough: "n \<le> length (stream r1)"
  proof (rule ccontr)
    assume "\<not> ?thesis"
    then have "length (stream r1) < n"
      by simp
    then obtain r2 where "read_full n r1 = ((stream r1, [end_of_stream (stream r1) (rd_end r1)]), r2)"
      by (rule read_full_short)
    then show False
      using body by simp
  qed
  then obtain r2 where r2: "read_full n r1 = ((take n (stream r1), noerr), r2)"
      "stream r2 = drop n (stream r1)" "rd_end r2 = rd_end r1"
    by (rule read_full_enough)
  have f: "f = \<lparr> if_kind = frameKind_of_byte (stream r ! 5), if_payload = take n (stream r1) \<rparr>"
      "V (take n (stream r1))" "r' = r2"
    using body by (simp_all add: r2(1) split: if_splits)
  have "PutUint32 (word_of_nat n) = take 4 (drop 6 (stream r))"
    using len by (simp add: n_def PutUint32_Uint32)
  moreover have "drop 10 (stream r) = take n (stream r1) @ stream r2"
    by (simp only: r1(1) [symmetric] r2(2) append_take_drop_id)
  ultimately have "stream r = frame_bytes (if_kind f) (if_payload f) @ stream r'"
    using frame_bytes_split [OF len h(1,2)] enough by (simp add: f frame_bytes_def)
  then show ?thesis
    using f h r1 r2 by simp
qed

lemma writeFull_consumes:
  "writeFull raw w = (err, w') \<Longrightarrow> \<exists>m \<le> length raw. wr_writes w' = drop m (wr_writes w)"
proof (induction raw w arbitrary: err w' rule: writeFull.induct)
  case (1 raw w)
  show ?case
  proof (cases "raw = []")
    case True
    then show ?thesis
      using 1(2) by (simp add: writeFull.simps)
  next
    case False
    obtain n e w1 where step: "writer_Write raw w = ((n, e), w1)"
      by (metis prod.collapse)
    then have w1: "wr_writes w1 = drop 1 (wr_writes w)"
      by (cases "wr_writes w") (auto simp: writer_Write_def)
    have one: "1 \<le> length raw"
      using False by (cases raw) simp_all
    show ?thesis
    proof (cases "e \<noteq> noerr \<or> n = 0")
      case True
      then have "w' = w1"
        using 1(2) False by (auto simp: writeFull.simps [of raw] step split: if_splits)
      then show ?thesis
        using w1 one by blast
    next
      case more: False
      then have "writeFull (drop n raw) w1 = (err, w')"
        using 1(2) False by (simp add: writeFull.simps [of raw] step)
      from 1(1) [OF False step [symmetric] refl _ _ this] more
      obtain m where "m \<le> length raw - n" "wr_writes w' = drop (m + 1) (wr_writes w)"
        by (auto simp: w1)
      then show ?thesis
        using more one by (intro exI [of _ "m + 1"]) auto
    qed
  qed
qed

subsection \<open>Conversations\<close>

text \<open>A sequence of messages sent on one pipe, and received from another in the same order.\<close>

primrec send :: "'v codec \<Rightarrow> (frameKind \<times> 'v) list \<Rightarrow> writer \<Rightarrow> error \<times> writer" where
  "send codec [] w = (noerr, w)"
| "send codec (m # ms) w =
    (case writeFrame codec (fst m) (snd m) w of
       (err, w') \<Rightarrow> if err \<noteq> noerr then (err, w') else send codec ms w')"

primrec receive ::
  "(bytes \<Rightarrow> bool) \<Rightarrow> 'v codec \<Rightarrow> frameKind list \<Rightarrow> reader \<Rightarrow> (error + 'v list) \<times> reader" where
  "receive V codec [] r = (Inr [], r)"
| "receive V codec (kind # kinds) r =
    (case readFrame V r of
       (Inl err, r') \<Rightarrow> (Inl err, r')
     | (Inr frame, r') \<Rightarrow>
         (case decodeFrame codec frame kind of
            Inl err \<Rightarrow> (Inl err, r')
          | Inr v \<Rightarrow>
              (case receive V codec kinds r' of
                 (Inl err, r'') \<Rightarrow> (Inl err, r'')
               | (Inr vs, r'') \<Rightarrow> (Inr (v # vs), r''))))"

text \<open>A message that \<open>encoding/json\<close> prints as valid JSON and reads back.\<close>

definition travels :: "(bytes \<Rightarrow> bool) \<Rightarrow> 'v codec \<Rightarrow> frameKind \<times> 'v \<Rightarrow> bool" where
  "travels V codec m \<longleftrightarrow> proper_kind (fst m) \<and>
    (case cd_Marshal codec (snd m) of
       Inl err \<Rightarrow> True
     | Inr p \<Rightarrow> V p \<and> cd_Decode codec p = Inr (snd m, [IoEOF]))"

text \<open>C17: What one process of a start writes the next one reads. However the writes of the
  sender are cut short and however the reads of the receiver split the bytes, once every frame
  has been written without an error, reading as many frames gives the same messages in the same
  order under the kinds they were sent with, and leaves the reader exactly at what follows them.
  \<open>travels\<close> is the only assumption on \<open>encoding/json\<close>.\<close>

theorem frames_roundtrip:
  assumes "\<forall>m \<in> set ms. travels V codec m"
    and "send codec ms w = (noerr, w')"
    and "wr_out w @ stream r = wr_out w' @ rest"
  shows "\<exists>r'. receive V codec (map fst ms) r = (Inr (map snd ms), r') \<and>
    stream r' = rest \<and> rd_end r' = rd_end r"
  using assms
proof (induction ms arbitrary: w r)
  case Nil
  then show ?case
    by simp
next
  case (Cons m ms)
  obtain w1 where first: "writeFrame codec (fst m) (snd m) w = (noerr, w1)"
      and more: "send codec ms w1 = (noerr, w')"
    using Cons.prems(2) by (auto split: prod.splits if_splits)
  from first obtain payload where p: "cd_Marshal codec (snd m) = Inr payload"
      "length payload \<le> maximumFrameBytes" "wr_out w1 = wr_out w @ frame_bytes (fst m) payload"
    by (rule writeFrame_ok)
  have m: "V payload" "proper_kind (fst m)" "cd_Decode codec payload = Inr (snd m, [IoEOF])"
    using Cons.prems(1) p(1) by (simp_all add: travels_def)
  obtain more_bytes where sent: "wr_out w' = wr_out w1 @ more_bytes"
    using more
  proof (induction ms arbitrary: w1)
    case (Cons m ms)
    then show ?case
      by (auto split: prod.splits if_splits elim!: writeFrame_ok) (metis append_assoc)
  qed simp
  have "stream r = frame_bytes (fst m) payload @ (more_bytes @ rest)"
    using Cons.prems(3) p(3) sent by simp
  then obtain r1
    where r1: "readFrame V r = (Inr \<lparr> if_kind = fst m, if_payload = payload \<rparr>, r1)"
      "stream r1 = more_bytes @ rest" "rd_end r1 = rd_end r"
    using p(2) m(1,2) by (rule readFrame_frame [where V = V])
  have "wr_out w1 @ stream r1 = wr_out w' @ rest"
    by (simp add: r1 sent)
  with Cons.IH [of w1 r1] Cons.prems(1) more obtain r'
    where "receive V codec (map fst ms) r1 = (Inr (map snd ms), r')" "stream r' = rest"
      "rd_end r' = rd_end r1"
    by auto
  then show ?case
    using r1 m(3) by (simp add: decodeFrame_def)
qed

definition empty_codec :: "unit codec" where
  "empty_codec =
    \<lparr> cd_Marshal = (\<lambda>_. Inr ''{}''),
      cd_Decode = (\<lambda>b. if b = ''{}'' then Inr ((), [IoEOF]) else Inl [IoUnexpectedEOF]) \<rparr>"

lemma frames_roundtrip_witness:
  "\<exists>r'. receive (\<lambda>b. b = ''{}'') empty_codec [framePrepared, frameCommit]
     \<lparr> rd_pieces = [''AM'', [CHR ''B'', CHR ''1'', CHR 0x01, CHR 0x02, CHR 0x00],
          [CHR 0x00, CHR 0x00, CHR 0x02, CHR 0x7B], [], [CHR 0x7D, CHR ''A''],
          [CHR ''M'', CHR ''B'', CHR ''1'', CHR 0x01, CHR 0x03, CHR 0x00, CHR 0x00, CHR 0x00,
           CHR 0x02, CHR 0x7B, CHR 0x7D, CHR ''A'']],
       rd_end = IoEOF \<rparr> = (Inr [(), ()], r') \<and> stream r' = ''A'' \<and> rd_end r' = IoEOF"
  (is "\<exists>r'. receive ?V _ _ ?r = _ \<and> _")
proof -
  let ?ms = "[(framePrepared, ()), (frameCommit, ())]"
  let ?w = "\<lparr> wr_out = [], wr_writes = [(3, noerr), (1, noerr), (6, noerr)] \<rparr>"
  let ?w' = "\<lparr> wr_out = frame_bytes framePrepared ''{}'' @ frame_bytes frameCommit ''{}'', wr_writes = [] \<rparr>"
  have "send empty_codec ?ms ?w = (noerr, ?w')"
    by (simp add: writeFrame_def empty_codec_def writeFull.simps writer_Write_def frame_bytes_def
        maximumFrameBytes_def internalMagic_def internalProtocolVersion_def PutUint32_def)
  moreover have "\<forall>m \<in> set ?ms. travels ?V empty_codec m"
    by (simp add: travels_def empty_codec_def)
  moreover have "wr_out ?w @ stream ?r = wr_out ?w' @ ''A''"
    by (simp add: stream_def frame_bytes_def internalMagic_def internalProtocolVersion_def PutUint32_def
        char_of_def bit_iff_odd)
  ultimately show ?thesis
    using frames_roundtrip [of ?ms ?V empty_codec ?w ?w' ?r "''A''"] by simp
qed

text \<open>C33: \<open>readFrame\<close> accepts exactly the frames: it returns a frame and leaves \<open>rest\<close> to be
  read if and only if the bytes ahead are the magic, the version, the kind, the payload's
  length in big-endian order and a valid JSON payload of at most 128 KiB, followed by \<open>rest\<close>.
  Every other stream, a truncated, oversized, foreign or malformed one, is an error.\<close>

theorem readFrame_exact:
  "(\<exists>r'. readFrame V r = (Inr f, r') \<and> stream r' = rest) \<longleftrightarrow>
   stream r = frame_bytes (if_kind f) (if_payload f) @ rest \<and>
   length (if_payload f) \<le> maximumFrameBytes \<and> V (if_payload f) \<and> proper_kind (if_kind f)"
proof
  assume "\<exists>r'. readFrame V r = (Inr f, r') \<and> stream r' = rest"
  then show "stream r = frame_bytes (if_kind f) (if_payload f) @ rest \<and>
    length (if_payload f) \<le> maximumFrameBytes \<and> V (if_payload f) \<and> proper_kind (if_kind f)"
    using readFrame_Inr by blast
next
  assume "stream r = frame_bytes (if_kind f) (if_payload f) @ rest \<and>
    length (if_payload f) \<le> maximumFrameBytes \<and> V (if_payload f) \<and> proper_kind (if_kind f)"
  then show "\<exists>r'. readFrame V r = (Inr f, r') \<and> stream r' = rest"
    using readFrame_frame [of r "if_kind f" "if_payload f" rest V] by fastforce
qed

text \<open>\<open>writeFull\<close> returns after at most one \<open>Write\<close> per byte, whatever the writer does. It
  has then written a prefix of the bytes, all of them when it reports no error; and when the
  writer fails no \<open>Write\<close> and takes a byte each time, it does write them all.\<close>

lemma writeFull_terminates:
  "\<exists>err w' k m. writeFull raw w = (err, w') \<and>
     k \<le> length raw \<and> wr_out w' = wr_out w @ take k raw \<and>
     m \<le> length raw \<and> wr_writes w' = drop m (wr_writes w) \<and>
     (err = noerr \<longrightarrow> k = length raw) \<and>
     ((\<forall>(n, e) \<in> set (wr_writes w). e = noerr \<and> 0 < n) \<longrightarrow> err = noerr)"
proof -
  obtain err w' where run: "writeFull raw w = (err, w')"
    by (metis prod.collapse)
  then show ?thesis
    using writeFull_prefix [OF run] writeFull_consumes [OF run] writeFull_complete [of w raw] by auto
qed

lemma writeFull_terminates_witness:
  "fst (writeFull ''abc'' \<lparr> wr_out = [], wr_writes = [(1, noerr), (1, noerr)] \<rparr>) = noerr \<and>
   wr_out (snd (writeFull ''abc'' \<lparr> wr_out = [], wr_writes = [(1, noerr), (1, noerr)] \<rparr>)) = ''abc''"
  using writeFull_terminates [of "''abc''" "\<lparr> wr_out = [], wr_writes = [(1, noerr), (1, noerr)] \<rparr>"]
  by (auto simp del: writeFull.simps)

end
