(* ===== verification/Launch.thy ===== *)
theory Launch
  imports Control Frames
begin

section \<open>Building a start request\<close>

text \<open>
  \<open>internal/runner/api_unix.go\<close> up to the point where the bootstrap process exists, the check
  of a decoded request in \<open>internal_mode_unix.go\<close>, and the directories a launch opens
  (\<open>capabilities_unix.go\<close>). A \<open>time.Duration\<close> counts nanoseconds.
\<close>

subsection \<open>The manager's configuration\<close>

definition Millisecond :: int where "Millisecond = 1000000"
definition Second :: int where "Second = 1000000000"

definition defaultStartupTimeout :: int where "defaultStartupTimeout = 5 * Second"
definition defaultTerminationGrace :: int where "defaultTerminationGrace = 10 * Second"
definition defaultPollInterval :: int where "defaultPollInterval = 100 * Millisecond"

lemmas duration_defs =
  Millisecond_def Second_def defaultStartupTimeout_def defaultTerminationGrace_def
  defaultPollInterval_def defaultStateLockTimeout_def defaultStateLockPoll_def

text \<open>\<open>Duration.Milliseconds\<close>, and \<open>time.Duration(n) * time.Millisecond\<close>.\<close>

definition Milliseconds :: "int \<Rightarrow> int" where
  "Milliseconds d = go_div d Millisecond"

definition from_Milliseconds :: "int \<Rightarrow> int" where
  "from_Milliseconds n = i64 (n * Millisecond)"

definition or_default :: "int \<Rightarrow> int \<Rightarrow> int" where
  "or_default d preset = (if d = 0 then preset else d)"

text \<open>\<open>os.Executable\<close> and \<open>contract.Load\<close> are the last two arguments.\<close>

definition New :: "Config \<Rightarrow> error + string \<Rightarrow> error + Contracts \<Rightarrow> error + Manager" where
  "New config os_Executable contract_Load =
    (case (if cf_Executable config = [] then os_Executable else Inr (cf_Executable config)) of
       Inl err \<Rightarrow> Inl (fmt_Errorf ''resolve executable: %w'' err)
     | Inr executable \<Rightarrow>
         let config =
           \<lparr> cf_Executable = executable,
             cf_StartupTimeout = or_default (cf_StartupTimeout config) defaultStartupTimeout,
             cf_TerminationGrace = or_default (cf_TerminationGrace config) defaultTerminationGrace,
             cf_PollInterval = or_default (cf_PollInterval config) defaultPollInterval,
             cf_StateLockTimeout = or_default (cf_StateLockTimeout config) defaultStateLockTimeout,
             cf_StateLockPoll = or_default (cf_StateLockPoll config) defaultStateLockPoll \<rparr>
         in if cf_StartupTimeout config < Millisecond \<or> cf_TerminationGrace config < Millisecond \<or>
               cf_PollInterval config < Millisecond \<or> cf_StateLockTimeout config < Millisecond \<or>
               cf_StateLockPoll config < Millisecond
            then Inl [ErrInvalidStart]
            else case contract_Load of
              Inl err \<Rightarrow> Inl (fmt_Errorf ''load contracts: %w'' err)
            | Inr contracts \<Rightarrow> Inr \<lparr> mg_config = config, mg_contracts = contracts \<rparr>)"

subsection \<open>The request\<close>

record StartRequest =
  sq_Invocation :: TrustedInvocation
  sq_Command :: string
  sq_HardTimeout :: int
  sq_OutputLimitBytes :: int

definition newJobID :: "JobID result io" where
  "newJobID = do {
     random \<leftarrow> rand_Read 16;
     State_Monad.return (case random of
       Inl err \<Rightarrow> Inl (fmt_Errorf ''generate job id: %w'' err)
     | Inr raw \<Rightarrow> Inr (''job-'' @ hex_EncodeToString raw)) }"

definition buildStartRequest :: "Manager \<Rightarrow> StartRequest \<Rightarrow> internalStartRequest result io" where
  "buildStartRequest manager request =
    (if sq_Command request = [] \<or> length (sq_Command request) > 65536
     then State_Monad.return (Inl [ErrInvalidStart])
     else
       let policy = k_policy (mg_contracts manager);
           hardTimeout =
             (if sq_HardTimeout request = 0 then from_Milliseconds (HardTimeout policy)
              else sq_HardTimeout request);
           hardTimeoutMs = Milliseconds hardTimeout
       in if hardTimeoutMs < 1 \<or> hardTimeoutMs > 86400000
          then State_Monad.return (Inl [ErrInvalidStart])
          else
            let outputLimit =
              (if sq_OutputLimitBytes request = 0 then int64_of_u64 (CaptureLimit policy)
               else sq_OutputLimitBytes request)
            in if outputLimit < 1 \<or> u64_of outputLimit > CaptureLimit policy
               then State_Monad.return (Inl [ErrInvalidStart])
               else do {
                 newID \<leftarrow> newJobID;
                 case newID of
                   Inl err \<Rightarrow> State_Monad.return (Inl err)
                 | Inr jobID \<Rightarrow> do {
                     now \<leftarrow> unix_milli_now;
                     State_Monad.return (Inr
                       \<lparr> is_JobID = jobID, is_SessionID = ti_sessionID (sq_Invocation request),
                         is_WorkspacePath = ti_workspacePath (sq_Invocation request),
                         is_Cwd = ti_cwd (sq_Invocation request), is_Command = sq_Command request,
                         is_CreatedAtUnixMs = now, is_HardTimeoutMs = hardTimeoutMs,
                         is_OutputLimitBytes = outputLimit,
                         is_StartupTimeoutMs = Milliseconds (cf_StartupTimeout (mg_config manager)),
                         is_TerminationGraceMs =
                           Milliseconds (cf_TerminationGrace (mg_config manager)),
                         is_PollIntervalMs = Milliseconds (cf_PollInterval (mg_config manager)) \<rparr>) } })"

definition validateInternalStart :: "internalStartRequest \<Rightarrow> error" where
  "validateInternalStart request =
    (if \<not> validJobID (is_JobID request) \<or> is_SessionID request = [] \<or>
        is_WorkspacePath request = [] \<or> is_Cwd request = [] \<or> is_Command request = [] \<or>
        is_HardTimeoutMs request < 1 \<or> is_OutputLimitBytes request < 1 \<or>
        is_StartupTimeoutMs request < 1 \<or> is_TerminationGraceMs request < 1 \<or>
        is_PollIntervalMs request < 1
     then [ErrInvalidStart] else noerr)"

subsection \<open>The directories of a launch\<close>

definition duplicateDirectory :: "handle \<Rightarrow> string \<Rightarrow> handle result io" where
  "duplicateDirectory directory name = do {
     fd \<leftarrow> duplicateCloseOnExec directory;
     case fd of
       Inl err \<Rightarrow> State_Monad.return (Inl err)
     | Inr fd \<Rightarrow> do {
         file \<leftarrow> fileFromFD fd name;
         case file of
           Inl err \<Rightarrow> State_Monad.return (Inl err)
         | Inr duplicated \<Rightarrow> do {
             err \<leftarrow> validateDirectory duplicated False;
             if err \<noteq> noerr then do {
               closeErr \<leftarrow> file_Close duplicated;
               State_Monad.return (Inl (errors_Join [err, closeErr])) }
             else State_Monad.return (Inr duplicated) } } }"

primrec open_beneath :: "string list \<Rightarrow> handle \<Rightarrow> handle result io" where
  "open_beneath [] current = State_Monad.return (Inr current)"
| "open_beneath (component # components) current = do {
     next \<leftarrow> openDirectoryAt current component False;
     closeErr \<leftarrow> file_Close current;
     case next of
       Inl openErr \<Rightarrow> State_Monad.return (Inl (errors_Join [openErr, closeErr]))
     | Inr fd \<Rightarrow>
         if closeErr \<noteq> noerr then do {
           closeNext \<leftarrow> file_Close fd;
           State_Monad.return (Inl (errors_Join [closeErr, closeNext])) }
         else open_beneath components fd }"

definition openDirectoryBeneath :: "handle \<Rightarrow> string \<Rightarrow> string \<Rightarrow> handle result io" where
  "openDirectoryBeneath workspace workspacePath targetPath =
    (case filepath_Rel workspacePath targetPath of
       None \<Rightarrow> State_Monad.return (Inl [ErrUnsafeFilesystem])
     | Some relative \<Rightarrow>
         if relative = ''..'' \<or> has_prefix relative ''../''
         then State_Monad.return (Inl [ErrUnsafeFilesystem])
         else do {
           current \<leftarrow> duplicateDirectory workspace ''cwd'';
           case current of
             Inl err \<Rightarrow> State_Monad.return (Inl err)
           | Inr current \<Rightarrow>
               if relative = ''.'' then State_Monad.return (Inr current)
               else open_beneath (split_sep relative) current })"

definition openLaunchCapabilities :: "string \<Rightarrow> string \<Rightarrow> (handle \<times> handle) result io" where
  "openLaunchCapabilities workspacePath cwdPath = do {
     opened \<leftarrow> openWorkspaceDirectory workspacePath;
     case opened of
       Inl err \<Rightarrow> State_Monad.return (Inl err)
     | Inr workspace \<Rightarrow> do {
         cwd \<leftarrow> openDirectoryBeneath workspace workspacePath cwdPath;
         case cwd of
           Inl err \<Rightarrow> do {
             closeErr \<leftarrow> file_Close workspace;
             State_Monad.return (Inl (errors_Join [err, closeErr])) }
         | Inr cwd \<Rightarrow> State_Monad.return (Inr (workspace, cwd)) } }"

lemma wp_rule_fileFromFD [wp_rules]: "Q (Inr fd) w \<Longrightarrow> wp (fileFromFD fd name) Q w"
  by (simp add: fileFromFD_def)

lemma wp_duplicateDirectory:
  assumes "St u I F w" and fail: "\<And>e w'. St u I F w' \<Longrightarrow> e \<noteq> [] \<Longrightarrow> Q (Inl e) w'"
    and ok: "\<And>h n w'. F h = None \<Longrightarrow> St u I (F(h \<mapsto> (n, False))) w' \<Longrightarrow> Q (Inr h) w'"
  shows "wp (duplicateDirectory fd name) Q w"
  unfolding duplicateDirectory_def wp_bind
proof (rule wp_duplicateCloseOnExec [OF assms(1)], goal_cases)
  case (1 e w')
  then show ?case by (simp add: fail)
next
  case (2 h n b w')
  have free: "F(h := None) = F"
    using 2(1) by auto
  have bad: "wp (file_Close h) (\<lambda>r. wp (State_Monad.return (Inl (e @ r))) Q) w''"
    if "St u I (F(h \<mapsto> (n, False))) w''" "e \<noteq> []" for e w''
    by (rule wp_Close [OF that(1)]) (use that(2) fail in \<open>simp add: free\<close>)
  show ?case
    by (simp add: fileFromFD_def, rule wp_validateDirectory [OF 2(3)])
      (simp_all add: ok [OF 2(1)] bad)
qed

lemma wp_open_beneath:
  assumes "St u I F' w" "F' = with_fd F h n" "F h = None"
    and fail: "\<And>e w'. St u I F w' \<Longrightarrow> e \<noteq> [] \<Longrightarrow> Q (Inl e) w'"
    and ok: "\<And>h n w'. F h = None \<Longrightarrow> St u I (F(h \<mapsto> (n, False))) w' \<Longrightarrow> Q (Inr h) w'"
  shows "wp (open_beneath components h) Q w"
  using assms(1-3)
proof (induction components arbitrary: F' h n w)
  case Nil
  have "Q (Inr h) w"
    by (rule ok [OF Nil.prems(3)]) (use Nil.prems(1,2) in \<open>simp only: with_fd_def\<close>)
  then show ?case by simp
next
  case (Cons component rest)
  have F: "F'(h := None) = F"
    using Cons.prems(2,3) by (auto simp: with_fd_def)
  show ?case
    unfolding open_beneath.simps wp_bind
  proof (rule wp_openDirectoryAt [OF Cons.prems(1)], goal_cases)
    case (1 e w')
    show ?case
      by (rule wp_Close [OF 1(1)]) (use 1(2) fail in \<open>simp add: F\<close>)
  next
    case (2 h' n' x w')
    then have h': "h' \<noteq> h" "F h' = None"
      using Cons.prems(2) by (auto simp: with_fd_def split: if_splits)
    have F2: "(F'(h' \<mapsto> (n', False)))(h := None) = F(h' \<mapsto> (n', False))"
      using h' Cons.prems(2,3) by (auto simp: with_fd_def)
    show ?case
    proof (rule wp_Close [OF 2(2)], goal_cases)
      case (1 closeErr w2)
      then have st: "St u I (F(h' \<mapsto> (n', False))) w2" unfolding F2 .
      have "wp (file_Close h') (\<lambda>r. wp (State_Monad.return (Inl (errors_Join [closeErr, r]))) Q) w2"
        if "closeErr \<noteq> []"
        by (rule wp_Close [OF st]) (use that h'(2) fail in simp)
      moreover have "wp (open_beneath rest h') Q w2"
        using Cons.IH [OF st _ h'(2)] by (simp add: with_fd_def)
      ultimately show ?case by simp
    qed
  qed
qed

text \<open>
  The launch's two directories are open together or not at all: an error leaves no descriptor
  behind, and neither outcome changes the file system.
\<close>

lemma wp_openLaunchCapabilities:
  assumes "St u I F w" and fail: "\<And>e w'. St u I F w' \<Longrightarrow> e \<noteq> [] \<Longrightarrow> Q (Inl e) w'"
    and ok: "\<And>h n h' n' w'. F h = None \<Longrightarrow> F h' = None \<Longrightarrow> h \<noteq> h' \<Longrightarrow>
      St u I (F(h \<mapsto> (n, False), h' \<mapsto> (n', False))) w' \<Longrightarrow> Q (Inr (h, h')) w'"
  shows "wp (openLaunchCapabilities workspacePath cwdPath) Q w"
  unfolding openLaunchCapabilities_def wp_bind
proof (rule wp_openWorkspaceDirectory [OF assms(1)], goal_cases)
  case (1 e w')
  then show ?case by (simp add: fail)
next
  case (2 h n w')
  let ?F = "F(h \<mapsto> (n, False))"
  have free: "F(h := None) = F"
    using 2(1) by auto
  have bad: "wp (file_Close h) (\<lambda>r. wp (State_Monad.return (Inl (e @ r))) Q) w''"
    if "St u I ?F w''" "e \<noteq> []" for e w''
    by (rule wp_Close [OF that(1)]) (use that(2) fail in \<open>simp add: free\<close>)
  have good: "Q (Inr (h, h')) w''" if "?F h' = None" "St u I (?F(h' \<mapsto> (n', False))) w''" for h' n' w''
    using that 2(1) by (intro ok) (auto split: if_splits)
  let ?R = "\<lambda>r. wp (case r of
      Inl err \<Rightarrow> do { closeErr \<leftarrow> file_Close h; State_Monad.return (Inl (errors_Join [err, closeErr])) }
    | Inr cwd \<Rightarrow> State_Monad.return (Inr (h, cwd))) Q"
  have inner: "wp (openDirectoryBeneath h workspacePath cwdPath) ?R w'"
    unfolding openDirectoryBeneath_def
  proof (cases "filepath_Rel workspacePath cwdPath", goal_cases)
    case 1
    then show ?case using bad [OF 2(2), of "[ErrUnsafeFilesystem]"] by simp
  next
    case (2 relative)
    show ?case
      using 2 bad [OF \<open>St u I ?F w'\<close>, of "[ErrUnsafeFilesystem]"] bad good
      by (auto simp: wp_bind intro!: wp_duplicateDirectory [OF \<open>St u I ?F w'\<close>]
          wp_open_beneath [where F = ?F] simp: with_fd_def)
  qed
  then show ?case by (simp only: sum.case wp_bind)
qed

subsection \<open>What an accepted request satisfies\<close>

lemma Milliseconds_ge_1: "1 \<le> Milliseconds d \<longleftrightarrow> Millisecond \<le> d"
proof (cases "0 \<le> d")
  case True
  then show ?thesis
    by (simp add: Milliseconds_def go_div_nonneg Millisecond_def zdiv_mono1 [of 1000000 d 1000000]
        pos_imp_zdiv_pos_iff int_one_le_iff_zero_less)
next
  case False
  then have "d sdiv Millisecond \<le> 0"
    by (simp add: signed_divide_int_def Millisecond_def sgn_if)
  then show ?thesis
    using False by (simp add: Milliseconds_def go_div_def Millisecond_def)
qed

lemma length_hex [simp]: "length (hex_EncodeToString raw) = 2 * length raw"
  by (induction raw) (simp_all add: hex_EncodeToString_def)

lemma jobID_char_hex: "n < 16 \<Longrightarrow> jobID_char (hex_digit n)"
proof -
  have "\<forall>n \<in> set [0..<16]. jobID_char (hex_digit n)"
    by (simp add: upt_conv_Cons hex_digit_def jobID_char_def in_chars_def)
  then show "n < 16 \<Longrightarrow> jobID_char (hex_digit n)"
    by simp
qed

lemma hex_jobID_chars: "list_all jobID_char (hex_EncodeToString raw)"
proof (induction raw)
  case (Cons c raw)
  have "(of_char c :: nat) div 16 < 16"
    using nat_of_char_less_256 [of c] by (simp add: less_mult_imp_div_less)
  then show ?case
    using Cons by (simp add: hex_EncodeToString_def jobID_char_hex)
qed (simp add: hex_EncodeToString_def)

lemma newJobID_valid:
  assumes "length raw = 16"
  shows "validJobID (''job-'' @ hex_EncodeToString raw)"
proof -
  have "list_all jobID_char ''job-''"
    by (simp add: jobID_char_def in_chars_def)
  then show ?thesis
    using hex_jobID_chars [of raw] assms by (simp add: validJobID_def)
qed

lemma rand_Read_length: "run_state (rand_Read n) w = (Inr raw, w') \<Longrightarrow> length raw = n"
  by (auto simp: rand_Read_def syscall_def split: if_splits list.splits fault.splits)

lemma New_Inr:
  assumes "New config exe load = Inr manager"
  shows "load = Inr (mg_contracts manager)" "Millisecond \<le> cf_StartupTimeout (mg_config manager)"
    "Millisecond \<le> cf_TerminationGrace (mg_config manager)"
    "Millisecond \<le> cf_PollInterval (mg_config manager)"
  using assms by (auto simp: New_def Let_def split: sum.splits if_splits)

text \<open>The limits \<open>buildStartRequest\<close> imposes, with what it puts in place of a zero.\<close>

definition chosen_timeout :: "Policy \<Rightarrow> StartRequest \<Rightarrow> int" where
  "chosen_timeout policy request =
    Milliseconds (if sq_HardTimeout request = 0 then from_Milliseconds (HardTimeout policy)
                  else sq_HardTimeout request)"

definition chosen_limit :: "Policy \<Rightarrow> StartRequest \<Rightarrow> int" where
  "chosen_limit policy request =
    (if sq_OutputLimitBytes request = 0 then int64_of_u64 (CaptureLimit policy)
     else sq_OutputLimitBytes request)"

definition within_limits :: "Policy \<Rightarrow> StartRequest \<Rightarrow> bool" where
  "within_limits policy request \<longleftrightarrow>
    sq_Command request \<noteq> [] \<and> length (sq_Command request) \<le> 65536 \<and>
    1 \<le> chosen_timeout policy request \<and> chosen_timeout policy request \<le> 86400000 \<and>
    1 \<le> chosen_limit policy request \<and> u64_of (chosen_limit policy request) \<le> CaptureLimit policy"

definition started_with ::
  "Manager \<Rightarrow> StartRequest \<Rightarrow> bytes \<Rightarrow> int \<Rightarrow> internalStartRequest" where
  "started_with manager request raw now =
    \<lparr> is_JobID = ''job-'' @ hex_EncodeToString raw,
      is_SessionID = ti_sessionID (sq_Invocation request),
      is_WorkspacePath = ti_workspacePath (sq_Invocation request),
      is_Cwd = ti_cwd (sq_Invocation request), is_Command = sq_Command request,
      is_CreatedAtUnixMs = now,
      is_HardTimeoutMs = chosen_timeout (k_policy (mg_contracts manager)) request,
      is_OutputLimitBytes = chosen_limit (k_policy (mg_contracts manager)) request,
      is_StartupTimeoutMs = Milliseconds (cf_StartupTimeout (mg_config manager)),
      is_TerminationGraceMs = Milliseconds (cf_TerminationGrace (mg_config manager)),
      is_PollIntervalMs = Milliseconds (cf_PollInterval (mg_config manager)) \<rparr>"

lemma buildStartRequest_within:
  "buildStartRequest manager request =
    (if \<not> within_limits (k_policy (mg_contracts manager)) request
     then State_Monad.return (Inl [ErrInvalidStart])
     else do {
       random \<leftarrow> rand_Read 16;
       case random of
         Inl err \<Rightarrow> State_Monad.return (Inl (fmt_Errorf ''generate job id: %w'' err))
       | Inr raw \<Rightarrow> do {
           now \<leftarrow> unix_milli_now;
           State_Monad.return (Inr (started_with manager request raw now)) } })"
proof -
  have new: "State_Monad.bind newJobID f = do {
       random \<leftarrow> rand_Read 16;
       f (case random of
           Inl err \<Rightarrow> Inl (fmt_Errorf ''generate job id: %w'' err)
         | Inr raw \<Rightarrow> Inr (''job-'' @ hex_EncodeToString raw)) }" for f :: "JobID result \<Rightarrow> internalStartRequest result io"
    by (simp add: newJobID_def)
  show ?thesis
    unfolding buildStartRequest_def new within_limits_def chosen_timeout_def [symmetric]
      chosen_limit_def [symmetric] Let_def started_with_def
    by (auto simp: not_le not_less split: sum.splits intro!: arg_cong2 [where f = State_Monad.bind])
qed

lemma buildStartRequest_Inr:
  assumes "run_state (buildStartRequest manager request) w = (Inr start, w')"
  obtains raw now where "within_limits (k_policy (mg_contracts manager)) request"
    "start = started_with manager request raw now" "length raw = 16"
proof -
  have within: "within_limits (k_policy (mg_contracts manager)) request"
    using assms unfolding buildStartRequest_within by (auto split: if_splits)
  obtain r w1 where read: "run_state (rand_Read 16) w = (r, w1)"
    by fastforce
  obtain raw where r: "r = Inr raw"
    using assms within read unfolding buildStartRequest_within by (cases r) auto
  obtain now w2 where "run_state unix_milli_now w1 = (now, w2)"
    by fastforce
  then have "start = started_with manager request raw now"
    using assms within read r unfolding buildStartRequest_within by auto
  with within rand_Read_length [of 16 w raw w1] read r show thesis
    by (intro that) auto
qed

lemma chosen_limit_v1:
  assumes "within_limits policy_v1 request" "i64_range (sq_OutputLimitBytes request)"
  shows "1 \<le> chosen_limit policy_v1 request \<and> chosen_limit policy_v1 request \<le> 104857600"
proof (cases "sq_OutputLimitBytes request = 0")
  case True
  then show ?thesis
    by (simp add: chosen_limit_def CaptureLimit_def int64_of_u64_small)
next
  case False
  have limit: "u64_of (sq_OutputLimitBytes request) \<le> 104857600" "1 \<le> sq_OutputLimitBytes request"
    using assms(1) False by (simp_all add: within_limits_def chosen_limit_def CaptureLimit_def)
  then have "uint (u64_of (sq_OutputLimitBytes request)) \<le> 104857600"
    by (simp add: word_le_def)
  then show ?thesis
    using limit(2) assms(2) False
    by (simp add: chosen_limit_def uint_u64_of_id i64_range_def)
qed

lemma validateWorkspacePath_nonempty:
  "d_Allowed (snd (validateWorkspacePath policy_v1 workspace cwd)) \<Longrightarrow> workspace \<noteq> [] \<and> cwd \<noteq> []"
  by (auto simp: validateWorkspacePath_def canonicalAbsolute_def filepath_IsAbs_def has_prefix_def
      split: if_splits)

text \<open>C34: A request the launcher builds is one every later process accepts. For a manager that
  \<open>New\<close> built on the version 1 policy and an invocation that policy bound, whatever
  \<open>buildStartRequest\<close> returns passes \<open>validateInternalStart\<close>, binds to the same invocation
  again in the runner, and gives an initial state that is well formed, owned by the invocation's
  session, with the caller's command, a hard timeout of at most a day and an output limit within
  the policy's.\<close>

theorem start_request_accepted:
  assumes "New config exe load = Inr manager" "k_policy (mg_contracts manager) = policy_v1"
    and "BindCapabilityInvocation policy_v1 host asserted = (sq_Invocation request, decision)"
    and "d_Allowed decision" "i64_range (sq_OutputLimitBytes request)"
    and "run_state (buildStartRequest manager request) w = (Inr start, w')"
  shows "validateInternalStart start = noerr \<and>
    BindCapabilityInvocation policy_v1
      \<lparr> hi_SessionID = is_SessionID start, hi_WorkspacePath = is_WorkspacePath start,
        hi_Cwd = is_Cwd start \<rparr>
      \<lparr> tc_Cwd = is_Cwd start, tc_SessionID = is_SessionID start,
        tc_WorkspacePath = is_WorkspacePath start \<rparr>
      = (sq_Invocation request, \<lparr> d_Allowed = True, d_Code = CodeAllow \<rparr>) \<and>
    well_formed_state policy_v1 (initialJobState start started) \<and>
    jm_OwnerSessionID (ps_Job (initialJobState start started)) = ti_sessionID (sq_Invocation request) \<and>
    jm_Command (ps_Job (initialJobState start started)) = sq_Command request \<and>
    1 \<le> is_HardTimeoutMs start \<and> is_HardTimeoutMs start \<le> 86400000 \<and>
    1 \<le> is_OutputLimitBytes start \<and> is_OutputLimitBytes start \<le> 104857600"
proof -
  obtain raw now where within: "within_limits policy_v1 request"
      and start: "start = started_with manager request raw now" and "length raw = 16"
    using buildStartRequest_Inr [OF assms(6)] assms(2) by metis
  then have id: "validJobID (is_JobID start)"
    by (simp only: started_with_def internalStartRequest.select_convs newJobID_valid)
  have host: "sq_Invocation request =
        \<lparr> ti_sessionID = hi_SessionID host, ti_workspacePath = hi_WorkspacePath host, ti_cwd = hi_Cwd host \<rparr>"
      "hi_SessionID host \<noteq> []"
      "d_Allowed (snd (validateWorkspacePath policy_v1 (hi_WorkspacePath host) (hi_Cwd host)))"
    using assms(3,4) by (auto simp: BindCapabilityInvocation_def bind_asserted_def Let_def split: if_splits)
  note fields = start started_with_def assms(2) host(1)
  have limits: "1 \<le> is_HardTimeoutMs start" "is_HardTimeoutMs start \<le> 86400000"
      "1 \<le> is_OutputLimitBytes start" "is_OutputLimitBytes start \<le> 104857600"
    using within chosen_limit_v1 [OF within assms(5)] by (simp_all add: fields within_limits_def)
  have "validateInternalStart start = noerr"
    using id limits within validateWorkspacePath_nonempty [OF host(3)] host(2) New_Inr [OF assms(1)]
    by (simp add: validateInternalStart_def fields within_limits_def Milliseconds_ge_1 linorder_not_less)
  moreover have "d_Allowed (snd (validateWorkspacePath policy_v1 (is_WorkspacePath start) (is_Cwd start)))"
    using host(3) by (simp add: fields)
  from initialJobState_ok [OF this limits(3,4)]
  have "well_formed_state policy_v1 (initialJobState start started)" by simp
  ultimately show ?thesis
    using limits host by (simp add: BindCapabilityInvocation_def bind_asserted_def Let_def
        initialJobState_def fields)
qed

subsection \<open>A command that cannot travel\<close>

text \<open>The characters JSON requires a string to escape (RFC 8259, section 7).\<close>

definition must_escape :: "char \<Rightarrow> bool" where
  "must_escape c \<longleftrightarrow> c = CHR 0x22 \<or> c = CHR 0x5C \<or> (of_char c :: nat) < 32"

text \<open>An escaped character takes at least two bytes, and a string two more for its quotes.\<close>

definition escapes :: "internalStartRequest codec \<Rightarrow> bool" where
  "escapes codec \<longleftrightarrow>
    (\<forall>r payload. cd_Marshal codec r = Inr payload \<longrightarrow>
       length (is_Command r) + length (filter must_escape (is_Command r)) + 2 \<le> length payload)"

text \<open>A command that \<open>buildStartRequest\<close> accepts need not fit a frame. Its limit of 65536
  counts the bytes of the command, the frame's limit of 128 KiB those of its JSON encoding, in
  which every quotation mark, backslash and control character takes at least two: if the two
  counts together exceed the frame's limit, \<open>writeFrame\<close> refuses the start frame with
  \<open>ErrInternalProtocol\<close> before it writes anything, so the job can never be started.\<close>

lemma accepted_command_exceeds_frame:
  assumes "run_state (buildStartRequest manager request) w = (Inr start, w')"
    and "escapes codec" "cd_Marshal codec start = Inr payload"
    and "maximumFrameBytes <
      length (sq_Command request) + length (filter must_escape (sq_Command request)) + 2"
  shows "length (sq_Command request) \<le> 65536 \<and>
    (\<exists>err. writeFrame codec frameStart start wr = (err, wr) \<and> errors_Is err ErrInternalProtocol)"
proof -
  obtain raw now where "within_limits (k_policy (mg_contracts manager)) request"
      "start = started_with manager request raw now"
    using buildStartRequest_Inr [OF assms(1)] by metis
  then have "length (sq_Command request) \<le> 65536" "is_Command start = sq_Command request"
    by (simp_all add: within_limits_def started_with_def)
  moreover from this have "maximumFrameBytes < length payload"
    using assms(2-4) unfolding escapes_def by fastforce
  ultimately show ?thesis
    using assms(3) by (simp add: writeFrame_def)
qed

subsection \<open>Concrete starts\<close>

definition example_config :: Config where
  "example_config =
    \<lparr> cf_Executable = ''/bin/managed-bash'', cf_StartupTimeout = 0, cf_TerminationGrace = 0,
      cf_PollInterval = 0, cf_StateLockTimeout = 0, cf_StateLockPoll = 0 \<rparr>"

definition example_manager :: Manager where
  "example_manager =
    \<lparr> mg_config =
        \<lparr> cf_Executable = ''/bin/managed-bash'', cf_StartupTimeout = 5000000000,
          cf_TerminationGrace = 10000000000, cf_PollInterval = 100000000,
          cf_StateLockTimeout = 5000000000, cf_StateLockPoll = 10000000 \<rparr>,
      mg_contracts = codec_for example_job \<rparr>"

lemma example_manager_New:
  "New example_config (Inl []) (Inr (codec_for example_job)) = Inr example_manager"
  by (simp add: New_def example_config_def example_manager_def or_default_def duration_defs)

definition example_start :: "string \<Rightarrow> StartRequest" where
  "example_start command =
    \<lparr> sq_Invocation = \<lparr> ti_sessionID = ''s'', ti_workspacePath = ''/w'', ti_cwd = ''/w/x'' \<rparr>,
      sq_Command = command, sq_HardTimeout = 0, sq_OutputLimitBytes = 0 \<rparr>"

lemma example_start_within:
  assumes "command \<noteq> []" "length command \<le> 65536"
  shows "within_limits policy_v1 (example_start command)"
  using assms
  by (simp add: within_limits_def example_start_def chosen_timeout_def chosen_limit_def HardTimeout_def
      CaptureLimit_def from_Milliseconds_def Milliseconds_def Millisecond_def go_div_nonneg
      i64_rangeI u64_of_def)

definition quiet_world :: world where
  "quiet_world =
    \<lparr> w_inodes = Map.empty, w_next = 1, w_fds = Map.empty, w_nextfd = 0, w_foreign = [],
      w_euid = 0, w_alive = True, w_script = [], w_clock = [(30, 0)], w_random = [], w_selects = [],
      w_ctx = [], w_fuel = 0 \<rparr>"

lemma example_start_runs:
  assumes "command \<noteq> []" "length command \<le> 65536"
  shows "run_state (buildStartRequest example_manager (example_start command)) quiet_world =
    (Inr (started_with example_manager (example_start command)
      (replicate 16 (char_of (0 :: nat))) 30), quiet_world)"
proof -
  have "k_policy (mg_contracts example_manager) = policy_v1"
    by (simp add: example_manager_def codec_for_def)
  then show ?thesis
    using example_start_within [OF assms]
    by (simp add: buildStartRequest_within rand_Read_def syscall_def unix_milli_now_def time_Now_def
        quiet_world_def State_Monad.bind_def State_Monad.return_def)
qed

lemma start_request_accepted_witness:
  "\<exists>start. run_state (buildStartRequest example_manager (example_start ''true'')) quiet_world =
       (Inr start, quiet_world) \<and>
     validateInternalStart start = noerr \<and>
     well_formed_state policy_v1 (initialJobState start 5) \<and> is_HardTimeoutMs start \<le> 86400000"
proof -
  let ?inv = "\<lparr> ti_sessionID = ''s'', ti_workspacePath = ''/w'', ti_cwd = ''/w/x'' \<rparr>"
  let ?host = "\<lparr> hi_SessionID = ''s'', hi_WorkspacePath = ''/w'', hi_Cwd = ''/w/x'' \<rparr>"
  let ?asserted = "\<lparr> tc_Cwd = ''/w/x'', tc_SessionID = ''s'', tc_WorkspacePath = ''/w'' \<rparr>"
  have bound: "BindCapabilityInvocation policy_v1 ?host ?asserted =
      (sq_Invocation (example_start ''true''), \<lparr> d_Allowed = True, d_Code = CodeAllow \<rparr>)"
    using example_path by (simp add: BindCapabilityInvocation_def bind_asserted_def Let_def example_start_def)
  have policy: "k_policy (mg_contracts example_manager) = policy_v1"
    by (simp add: example_manager_def codec_for_def)
  have range: "i64_range (sq_OutputLimitBytes (example_start ''true''))"
    by (simp add: example_start_def i64_range_def)
  have run: "run_state (buildStartRequest example_manager (example_start ''true'')) quiet_world =
    (Inr (started_with example_manager (example_start ''true'')
      (replicate 16 (char_of (0 :: nat))) 30), quiet_world)"
    by (rule example_start_runs) simp_all
  show ?thesis
    using start_request_accepted [OF example_manager_New policy bound _ range run, of 5] run by auto
qed

text \<open>A codec that prints the command only, with a backslash before every character.\<close>

definition escaping_codec :: "internalStartRequest codec" where
  "escaping_codec =
    \<lparr> cd_Marshal = (\<lambda>r. Inr ([CHR 0x22] @ concat (map (\<lambda>c. [CHR 0x5C, c]) (is_Command r)) @ [CHR 0x22])),
      cd_Decode = (\<lambda>raw. Inl [IoUnexpectedEOF]) \<rparr>"

lemma escaping_codec_escapes: "escapes escaping_codec"
proof -
  have "length (concat (map (\<lambda>c. [CHR 0x5C, c]) cs)) = 2 * length cs" for cs :: string
    by (induction cs) simp_all
  then show ?thesis
    by (auto simp: escapes_def escaping_codec_def)
qed

lemma accepted_command_exceeds_frame_witness:
  "\<exists>start err. run_state (buildStartRequest example_manager
       (example_start (replicate 65536 (CHR 0x22)))) quiet_world = (Inr start, quiet_world) \<and>
     writeFrame escaping_codec frameStart start \<lparr> wr_out = [], wr_writes = [] \<rparr> =
       (err, \<lparr> wr_out = [], wr_writes = [] \<rparr>) \<and> errors_Is err ErrInternalProtocol"
proof -
  let ?command = "replicate 65536 (CHR 0x22)"
  have nonempty: "?command \<noteq> []"
    by (simp only: replicate_empty)
  have run: "run_state (buildStartRequest example_manager (example_start ?command)) quiet_world =
    (Inr (started_with example_manager (example_start ?command)
      (replicate 16 (char_of (0 :: nat))) 30), quiet_world)"
    by (rule example_start_runs [OF nonempty]) (simp only: length_replicate)
  have "maximumFrameBytes < length (sq_Command (example_start ?command))
      + length (filter must_escape (sq_Command (example_start ?command))) + 2"
    by (simp only: example_start_def StartRequest.select_convs length_replicate filter_replicate
        must_escape_def maximumFrameBytes_def simp_thms if_True)
  from accepted_command_exceeds_frame [OF run escaping_codec_escapes _ this,
      of _ "\<lparr> wr_out = [], wr_writes = [] \<rparr>"] run
  show ?thesis
    by (auto simp: escaping_codec_def)
qed

end
