(* ===== verification/Guardian.thy ===== *)
theory Guardian
  imports Supervise Launch
begin

section \<open>The guardian\<close>

text \<open>
  \<open>internal/runner/guardian_unix.go\<close>, \<open>guardian_protocol.go\<close> and \<open>capture_unix.go\<close>, with
  \<open>verifyStartedProcessGroup\<close> of \<open>process_unix.go\<close>. The guardian is the process between the runner
  and the shell: it leads the process group, so that the group's number stays taken until the
  runner has reaped it, reports the shell's exit, and ends the group when the runner is gone.
  Processes, pipes and signals are the kernel's: what their calls answer is an argument, and what
  the code does to the group is recorded. A select is a list of events as in \<^theory_text>\<open>Supervise\<close>.
\<close>

subsection \<open>The shell's exit\<close>

record shellExit =
  se_ExitCode :: "int option"
  se_Signal :: "int option"

text \<open>\<open>syscall.WaitStatus\<close> on Linux.\<close>

definition WaitStatus_Exited :: "32 word \<Rightarrow> bool" where
  "WaitStatus_Exited status \<longleftrightarrow> and status 0x7F = 0"

definition WaitStatus_Signaled :: "32 word \<Rightarrow> bool" where
  "WaitStatus_Signaled status \<longleftrightarrow> and status 0x7F \<noteq> 0x7F \<and> and status 0x7F \<noteq> 0"

definition WaitStatus_ExitStatus :: "32 word \<Rightarrow> int" where
  "WaitStatus_ExitStatus status =
    (if \<not> WaitStatus_Exited status then - 1 else uint (and (drop_bit 8 status) 0xFF))"

definition WaitStatus_Signal :: "32 word \<Rightarrow> int" where
  "WaitStatus_Signal status =
    (if \<not> WaitStatus_Signaled status then - 1 else uint (and status 0x7F))"

text \<open>\<open>processState.Sys()\<close>, \<open>None\<close> when it is no \<open>WaitStatus\<close>, and the error of \<open>Wait\<close>.\<close>

definition normalizeShellExit :: "32 word option \<Rightarrow> error \<Rightarrow> shellExit result" where
  "normalizeShellExit processState waitErr =
    (case processState of
       None \<Rightarrow> Inl [ErrExecution]
     | Some status \<Rightarrow>
         if WaitStatus_Signaled status
         then Inr \<lparr> se_ExitCode = None, se_Signal = Some (WaitStatus_Signal status) \<rparr>
         else if WaitStatus_Exited status
         then Inr \<lparr> se_ExitCode = Some (WaitStatus_ExitStatus status), se_Signal = None \<rparr>
         else Inl (errors_Join [waitErr, [ErrExecution]]))"

definition readGuardianExit :: "(bytes \<Rightarrow> bool) \<Rightarrow> shellExit codec \<Rightarrow> reader \<Rightarrow> shellWaitResult" where
  "readGuardianExit json_Valid codec events =
    (case fst (readFrame json_Valid events) of
       Inl err \<Rightarrow> \<lparr> sw_exitCode = None, sw_signal = None, sw_err = err \<rparr>
     | Inr frame \<Rightarrow>
         (case decodeFrame codec frame frameShellExited of
            Inl err \<Rightarrow> \<lparr> sw_exitCode = None, sw_signal = None, sw_err = err \<rparr>
          | Inr exited \<Rightarrow>
              \<lparr> sw_exitCode = se_ExitCode exited, sw_signal = se_Signal exited, sw_err = noerr \<rparr>))"

subsection \<open>The shell's output\<close>

text \<open>
  The events the goroutine sends, one for every piece it reads; \<open>closeErr\<close> is the answer of closing the pipe.
\<close>

function captureMergedOutput :: "error \<Rightarrow> reader \<Rightarrow> supervise_event list" where
  "captureMergedOutput closeErr r =
    (case reader_Read 32768 r of
       ((chunk, err), r') \<Rightarrow>
         (if chunk \<noteq> [] then [Captured chunk] else []) @
         (if err \<noteq> noerr
          then [CaptureDone (errors_Join [if errors_Is err IoEOF then noerr else err, closeErr])]
          else captureMergedOutput closeErr r'))"
  by pat_completeness auto

termination
  by (relation "measures [\<lambda>(closeErr, r). length (stream r), \<lambda>(closeErr, r). length (rd_pieces r)]")
    (auto simp: reader_Read_def stream_def split: list.splits if_splits)

declare captureMergedOutput.simps [simp del]

subsection \<open>The guardian's main function\<close>

record guardianStart =
  gs_Command :: string
  gs_GraceMs :: int

record guardianReady =
  gr_GuardianPID :: int
  gr_ShellPID :: int
  gr_ProcessGroupID :: int

text \<open>
  What \<open>runGuardian\<close> waits for: the shell's exit (nothing when the channel was closed because the
  exit could not be read), the end of the runner (its end of the lifetime pipe is closed), a
  \<open>SIGTERM\<close>, or the grace timer.
\<close>

datatype guardian_event =
  ShellExited "shellExit option" | LifetimeEnded | Terminated | GraceFired

text \<open>
  The guardian's environment: its codecs, the answers of the calls before the select in the code's
  order, and the process numbers. Its state are its pipes, what it did to the group it leads, and
  what it did to the shell itself.
\<close>

datatype shell_call = ShellStarted | ShellKilled | ShellWaitedFor

record guardian_env =
  gd_json_Valid :: "bytes \<Rightarrow> bool"
  gd_start :: "guardianStart codec"
  gd_ready :: "guardianReady codec"
  gd_exit :: "shellExit codec"
  gd_Fchdir :: error
  gd_Pipe :: error
  gd_shellStart :: error
  gd_closeInput :: error
  gd_closeWriter :: error
  gd_shellKill :: error
  gd_shellWait :: error
  gd_Getpid :: int
  gd_shellPid :: int

record guardian =
  gn_control :: writer
  gn_shellInput :: writer
  gn_group :: runningShell
  gn_shellCalls :: "shell_call list"

definition kill_shell :: "guardian_env \<Rightarrow> guardian \<Rightarrow> error \<times> guardian" where
  "kill_shell env g =
    (errors_Join [gd_shellKill env, gd_shellWait env],
     g\<lparr> gn_shellCalls := gn_shellCalls g @ [ShellKilled, ShellWaitedFor] \<rparr>)"

text \<open>The timer of \<open>guardianCleanup\<close> always fires, so the time between its two signals is not an event.\<close>

definition guardianCleanup :: "guardian \<Rightarrow> error \<times> guardian" where
  "guardianCleanup g =
    (case signalProcessGroup SIGTERM (gn_group g) of
       (termErr, group1) \<Rightarrow>
         (case signalProcessGroup SIGKILL group1 of
            (killErr, group2) \<Rightarrow> (errors_Join [termErr, killErr], g\<lparr> gn_group := group2 \<rparr>)))"

text \<open>The inner select of a shell that has exited: the guardian stays until the runner lets it go.\<close>

fun await_release :: "guardian_event list \<Rightarrow> bool" where
  "await_release [] \<longleftrightarrow> False"
| "await_release (LifetimeEnded # events) \<longleftrightarrow> True"
| "await_release (Terminated # events) \<longleftrightarrow> True"
| "await_release (_ # events) \<longleftrightarrow> await_release events"

text \<open>The inner select after a \<open>SIGTERM\<close>: the shell's exit, which is reported, or the grace timer.\<close>

fun await_exit :: "guardian_env \<Rightarrow> guardian_event list \<Rightarrow> guardian \<Rightarrow> guardian option" where
  "await_exit env [] g = None"
| "await_exit env (ShellExited None # events) g = Some g"
| "await_exit env (ShellExited (Some exited) # events) g =
    Some (g\<lparr> gn_control := snd (writeFrame (gd_exit env) frameShellExited exited (gn_control g)) \<rparr>)"
| "await_exit env (GraceFired # events) g = Some g"
| "await_exit env (_ # events) g = await_exit env events g"

text \<open>The outer select; \<open>None\<close> is a guardian that is still waiting. A stopped timer does not fire.\<close>

fun guardian_select ::
  "guardian_env \<Rightarrow> guardian_event list \<Rightarrow> guardian \<Rightarrow> (error \<times> guardian) option" where
  "guardian_select env [] g = None"
| "guardian_select env (ShellExited None # events) g = Some (guardianCleanup g)"
| "guardian_select env (ShellExited (Some exited) # events) g =
    (case writeFrame (gd_exit env) frameShellExited exited (gn_control g) of
       (err, control) \<Rightarrow>
         let g' = g\<lparr> gn_control := control \<rparr>
         in if err \<noteq> noerr then Some (guardianCleanup g')
            else if await_release events then Some (guardianCleanup g') else None)"
| "guardian_select env (LifetimeEnded # events) g = Some (guardianCleanup g)"
| "guardian_select env (Terminated # events) g =
    map_option guardianCleanup (await_exit env events g)"
| "guardian_select env (GraceFired # events) g = guardian_select env events g"

text \<open>\<open>runGuardian\<close> from the start of the shell on.\<close>

definition guardian_shell ::
  "guardian_env \<Rightarrow> guardianStart \<Rightarrow> guardian_event list \<Rightarrow> guardian \<Rightarrow> (error \<times> guardian) option" where
  "guardian_shell env start events g =
    (if gd_shellStart env \<noteq> noerr
     then Some (errors_Join [gd_shellStart env, gd_closeInput env, gd_closeWriter env], g)
     else let g = g\<lparr> gn_shellCalls := gn_shellCalls g @ [ShellStarted] \<rparr> in
     if gd_closeInput env \<noteq> noerr
     then (case kill_shell env g of
       (err, g') \<Rightarrow> Some (errors_Join [gd_closeInput env, err, gd_closeWriter env], g'))
     else case writeFull (gs_Command start) (gn_shellInput g) of
       (writeErr, w) \<Rightarrow>
         let g = g\<lparr> gn_shellInput := w \<rparr>
         in if writeErr \<noteq> noerr
            then (case kill_shell env g of
              (err, g') \<Rightarrow> Some (errors_Join [writeErr, err, gd_closeWriter env], g'))
            else if gd_closeWriter env \<noteq> noerr
            then (case kill_shell env g of
              (err, g') \<Rightarrow> Some (errors_Join [gd_closeWriter env, err], g'))
            else
              let ready = \<lparr> gr_GuardianPID = gd_Getpid env, gr_ShellPID = gd_shellPid env,
                    gr_ProcessGroupID = rs_processGroup (gn_group g) \<rparr>
              in case writeFrame (gd_ready env) frameGuardianReady ready (gn_control g) of
                (readyErr, control) \<Rightarrow>
                  let g = g\<lparr> gn_control := control \<rparr>
                  in if readyErr \<noteq> noerr
                     then (case kill_shell env g of
                       (err, g') \<Rightarrow> Some (errors_Join [readyErr, err], g'))
                     else guardian_select env events g)"

definition runGuardian ::
  "guardian_env \<Rightarrow> reader \<Rightarrow> guardian_event list \<Rightarrow> guardian \<Rightarrow> (error \<times> guardian) option" where
  "runGuardian env commandInput events g =
    (case fst (readFrame (gd_json_Valid env) commandInput) of
       Inl err \<Rightarrow> Some (err, g)
     | Inr frame \<Rightarrow>
         (case decodeFrame (gd_start env) frame frameStart of
            Inl err \<Rightarrow> Some (err, g)
          | Inr start \<Rightarrow>
              if gd_Fchdir env \<noteq> noerr then Some (fmt_Errorf ''guardian cwd: %w'' (gd_Fchdir env), g)
              else if gd_Pipe env \<noteq> noerr then Some (gd_Pipe env, g)
              else guardian_shell env start events g))"

subsection \<open>Starting the guardian\<close>

datatype descriptor =
    OutputReader | OutputWriter | CommandReader | CommandWriter | EventsReader | ControlWriter
  | DevNull | LifetimeReader | LifetimeWriter

text \<open>
  The answers of \<open>startShell\<close>'s calls, in the code's order; the guardian's process number is
  \<open>rs_processGroup\<close> of \<open>lx_guardian\<close>, the group \<open>newSessionAttributes\<close> gives it. \<open>lx_events\<close> is what it sends.
\<close>

record launch_env =
  lx_json_Valid :: "bytes \<Rightarrow> bool"
  lx_start :: "guardianStart codec"
  lx_ready :: "guardianReady codec"
  lx_outputPipe :: error
  lx_prepareOutput :: error
  lx_commandPipe :: error
  lx_eventsPipe :: error
  lx_prepareEvents :: error
  lx_devNull :: error
  lx_executable :: error
  lx_lifetimePipe :: error
  lx_guardianStart :: error
  lx_close :: "descriptor \<Rightarrow> error"
  lx_guardian :: runningShell
  lx_commandWriter :: writer
  lx_events :: reader
  lx_Getpgid :: "int \<Rightarrow> int result"
  lx_birthIdentity :: "int \<Rightarrow> string result"
  lx_now :: TimestampUnixMs

record launching =
  ln_open :: "descriptor set"
  ln_guardian :: runningShell
  ln_started :: bool

text \<open>What \<open>startShell\<close> returns: the shell, its numbers, the guardian's remaining events, and the time.\<close>

record launched =
  la_shell :: runningShell
  la_shellPID :: int
  la_birthIdentity :: string
  la_events :: reader
  la_startedUnixMs :: TimestampUnixMs

definition verifyStartedProcessGroup :: "(int \<Rightarrow> int result) \<Rightarrow> int \<Rightarrow> error" where
  "verifyStartedProcessGroup Getpgid pid =
    (if pid \<le> 0 then [ErrExecution]
     else case Getpgid pid of
       Inl err \<Rightarrow> fmt_Errorf ''read process group: %w'' err
     | Inr processGroupID \<Rightarrow> if processGroupID \<noteq> pid then [ErrExecution] else noerr)"

definition close_all :: "launch_env \<Rightarrow> descriptor list \<Rightarrow> launching \<Rightarrow> error \<times> launching" where
  "close_all env ds l = (errors_Join (map (lx_close env) ds), l\<lparr> ln_open := ln_open l - set ds \<rparr>)"

definition opens :: "descriptor list \<Rightarrow> launching \<Rightarrow> launching" where
  "opens ds l = l\<lparr> ln_open := ln_open l \<union> set ds \<rparr>"

text \<open>The shape of the error paths before the guardian runs: the error joined with those of closing.\<close>

definition give_up :: "launch_env \<Rightarrow> error \<Rightarrow> descriptor list \<Rightarrow> launching \<Rightarrow> launched result \<times> launching" where
  "give_up env err ds l =
    (case close_all env ds l of (closeErr, l') \<Rightarrow> (Inl (errors_Join [err, closeErr]), l'))"

definition stopGuardianStartup ::
  "launch_env \<Rightarrow> bool \<Rightarrow> error \<Rightarrow> launching \<Rightarrow> launched result \<times> launching" where
  "stopGuardianStartup env commandWriter cause l =
    (case close_all env ((if commandWriter then [CommandWriter] else []) @
            [LifetimeWriter, EventsReader, OutputReader]) l of
       (closeErr, l1) \<Rightarrow>
         (case signalProcessGroup SIGKILL (ln_guardian l1) of
            (killErr, guardian1) \<Rightarrow>
              (case reapGuardian guardian1 of
                 (reapErr, guardian2) \<Rightarrow>
                   (Inl (errors_Join [cause, closeErr, killErr, reapErr]), l1\<lparr> ln_guardian := guardian2 \<rparr>))))"

text \<open>\<open>startShell\<close> from the guardian's first frame on.\<close>

definition startShell_ready :: "launch_env \<Rightarrow> launching \<Rightarrow> launched result \<times> launching" where
  "startShell_ready env l =
    (let stop = (\<lambda>cause. stopGuardianStartup env False cause l); pid = rs_processGroup (ln_guardian l) in
     case readFrame (lx_json_Valid env) (lx_events env) of
       (Inl err, events) \<Rightarrow> stop err
     | (Inr frame, events) \<Rightarrow>
         (case decodeFrame (lx_ready env) frame frameGuardianReady of
            Inl err \<Rightarrow> stop err
          | Inr ready \<Rightarrow>
              if gr_GuardianPID ready \<noteq> pid \<or> gr_ProcessGroupID ready \<noteq> gr_GuardianPID ready
              then stop [ErrExecution]
              else
                let verifyErr = verifyStartedProcessGroup (lx_Getpgid env) (gr_GuardianPID ready)
                in if verifyErr \<noteq> noerr then stop verifyErr
                   else case lx_birthIdentity env (gr_GuardianPID ready) of
                     Inl err \<Rightarrow> stop err
                   | Inr birthIdentity \<Rightarrow>
                       (Inr \<lparr> la_shell = ln_guardian l\<lparr> rs_processGroup := gr_ProcessGroupID ready \<rparr>,
                              la_shellPID = gr_ShellPID ready, la_birthIdentity = birthIdentity,
                              la_events = events, la_startedUnixMs = lx_now env \<rparr>, l)))"

text \<open>\<open>startShell\<close> from the start of the guardian on.\<close>

definition startShell_guardian ::
  "launch_env \<Rightarrow> internalStartRequest \<Rightarrow> launching \<Rightarrow> launched result \<times> launching" where
  "startShell_guardian env request l =
    (if lx_guardianStart env \<noteq> noerr
     then give_up env (lx_guardianStart env)
       [DevNull, OutputReader, OutputWriter, CommandReader, CommandWriter, EventsReader, ControlWriter,
        LifetimeReader, LifetimeWriter] l
     else
       let l = l\<lparr> ln_started := True \<rparr>
       in case close_all env [DevNull, OutputWriter, CommandReader, ControlWriter, LifetimeReader] l of
         (childCloseErr, l) \<Rightarrow>
           if childCloseErr \<noteq> noerr then stopGuardianStartup env True childCloseErr l
           else case writeFrame (lx_start env) frameStart
               \<lparr> gs_Command = is_Command request, gs_GraceMs = is_TerminationGraceMs request \<rparr>
               (lx_commandWriter env) of
             (writeErr, _) \<Rightarrow>
               if writeErr \<noteq> noerr then stopGuardianStartup env True writeErr l
               else case close_all env [CommandWriter] l of
                 (closeErr, l) \<Rightarrow>
                   if closeErr \<noteq> noerr then stopGuardianStartup env True closeErr l
                   else startShell_ready env l)"

definition startShell ::
  "launch_env \<Rightarrow> internalStartRequest \<Rightarrow> launched result \<times> launching" where
  "startShell env request =
    (let l = \<lparr> ln_open = {}, ln_guardian = lx_guardian env, ln_started = False \<rparr> in
     if lx_outputPipe env \<noteq> noerr
     then (Inl (fmt_Errorf ''create merged output pipe: %w'' (lx_outputPipe env)), l)
     else let l = opens [OutputReader, OutputWriter] l in
     if lx_prepareOutput env \<noteq> noerr
     then give_up env (fmt_Errorf ''prepare merged output pipe reader: %w'' (lx_prepareOutput env))
       [OutputReader, OutputWriter] l
     else if lx_commandPipe env \<noteq> noerr
     then give_up env (lx_commandPipe env) [OutputReader, OutputWriter] l
     else let l = opens [CommandReader, CommandWriter] l in
     if lx_eventsPipe env \<noteq> noerr
     then give_up env (lx_eventsPipe env) [OutputReader, OutputWriter, CommandReader, CommandWriter] l
     else let l = opens [EventsReader, ControlWriter] l;
         six = [OutputReader, OutputWriter, CommandReader, CommandWriter, EventsReader, ControlWriter] in
     if lx_prepareEvents env \<noteq> noerr
     then give_up env (fmt_Errorf ''prepare guardian events pipe reader: %w'' (lx_prepareEvents env)) six l
     else if lx_devNull env \<noteq> noerr then give_up env (lx_devNull env) six l
     else let l = opens [DevNull] l in
     if lx_executable env \<noteq> noerr then give_up env (lx_executable env) (DevNull # six) l
     else if lx_lifetimePipe env \<noteq> noerr then give_up env (lx_lifetimePipe env) (DevNull # six) l
     else startShell_guardian env request (opens [LifetimeReader, LifetimeWriter] l))"

subsection \<open>What a started shell is\<close>

lemma readFrame_Inl: "readFrame V r = (Inl err, r') \<Longrightarrow> err \<noteq> noerr"
  by (auto simp: readFrame_def Let_def split: prod.splits if_splits)

text \<open>A Go function that fails returns an error that is not nil.\<close>

definition launch_env_ok :: "launch_env \<Rightarrow> bool" where
  "launch_env_ok env \<longleftrightarrow> fresh_shell (lx_guardian env) \<and>
    (\<forall>raw. cd_Decode (lx_ready env) raw \<noteq> Inl noerr) \<and>
    (\<forall>pid. lx_Getpgid env pid \<noteq> Inl noerr \<and> lx_birthIdentity env pid \<noteq> Inl noerr)"

text \<open>\<open>startShell\<close> has given up: nothing is open, and a guardian that had been started was killed and reaped.\<close>

definition given_up :: "launching \<Rightarrow> bool" where
  "given_up l \<longleftrightarrow> ln_open l = {} \<and>
    rs_calls (ln_guardian l) = (if ln_started l then [Signalled SIGKILL, Reaped] else [])"

lemma give_up_fails:
  assumes "give_up env err ds l = (r, l')" "ln_open l \<subseteq> set ds"
    and "\<not> ln_started l" "rs_calls (ln_guardian l) = []" "err \<noteq> noerr"
  shows "\<exists>e. e \<noteq> noerr \<and> r = Inl e" and "given_up l'"
  using assms by (auto simp: give_up_def close_all_def given_up_def)

lemma stopGuardianStartup_fails:
  assumes "stopGuardianStartup env b cause l = (r, l')" "fresh_shell (ln_guardian l)" "ln_started l"
    and "ln_open l \<subseteq> {LifetimeWriter, EventsReader, OutputReader} \<union> (if b then {CommandWriter} else {})"
    and "cause \<noteq> noerr"
  shows "\<exists>e. e \<noteq> noerr \<and> r = Inl e" and "given_up l'"
proof -
  have "\<exists>e. signalProcessGroup SIGKILL (ln_guardian l) =
      (e, (ln_guardian l)\<lparr> rs_calls := [Signalled SIGKILL] \<rparr>)"
    using assms(2) signalGroup_live [of "ln_guardian l" SIGKILL] by (auto simp: fresh_shell_def signalGroup_def)
  then show "\<exists>e. e \<noteq> noerr \<and> r = Inl e" "given_up l'"
    using assms by (auto simp: stopGuardianStartup_def close_all_def given_up_def reapGuardian_def
        split: if_splits)
qed

text \<open>\<open>startShell\<close> has succeeded.\<close>

definition shell_started :: "launch_env \<Rightarrow> launched \<Rightarrow> launching \<Rightarrow> bool" where
  "shell_started env launched l \<longleftrightarrow>
    fresh_shell (la_shell launched) \<and>
    rs_processGroup (la_shell launched) = rs_processGroup (lx_guardian env) \<and>
    lx_Getpgid env (rs_processGroup (la_shell launched)) = Inr (rs_processGroup (la_shell launched)) \<and>
    lx_birthIdentity env (rs_processGroup (la_shell launched)) = Inr (la_birthIdentity launched) \<and>
    ln_open l = {OutputReader, EventsReader, LifetimeWriter} \<and>
    (\<exists>ready. readFrame (lx_json_Valid env) (lx_events env) = (Inr ready, la_events launched))"

definition launch_outcome :: "launch_env \<Rightarrow> launched result \<times> launching \<Rightarrow> bool" where
  "launch_outcome env outcome \<longleftrightarrow>
    (case outcome of
       (Inl e, l) \<Rightarrow> e \<noteq> noerr \<and> given_up l
     | (Inr launched, l) \<Rightarrow> shell_started env launched l)"

lemma launch_outcome_give_up:
  assumes "ln_open l \<subseteq> set ds" "\<not> ln_started l" "rs_calls (ln_guardian l) = []" "err \<noteq> noerr"
  shows "launch_outcome env (give_up env err ds l)"
  using give_up_fails [of env err ds l] assms
  by (cases "give_up env err ds l") (auto simp: launch_outcome_def)

lemma launch_outcome_stop:
  assumes "fresh_shell (ln_guardian l)" "ln_started l"
    and "ln_open l \<subseteq> {LifetimeWriter, EventsReader, OutputReader} \<union> (if b then {CommandWriter} else {})"
    and "cause \<noteq> noerr"
  shows "launch_outcome env (stopGuardianStartup env b cause l)"
  using stopGuardianStartup_fails [OF _ assms]
  by (cases "stopGuardianStartup env b cause l") (fastforce simp: launch_outcome_def)

lemma launch_outcome_ready:
  assumes "launch_env_ok env" "ln_started l" "ln_guardian l = lx_guardian env"
    and "ln_open l = {OutputReader, EventsReader, LifetimeWriter}"
  shows "launch_outcome env (startShell_ready env l)"
proof -
  have stop: "launch_outcome env (stopGuardianStartup env False cause l)" if "cause \<noteq> noerr" for cause
    by (rule launch_outcome_stop) (use assms that in \<open>auto simp: launch_env_ok_def\<close>)
  have proper: "cd_Decode (lx_ready env) raw \<noteq> Inl noerr" "lx_Getpgid env pid \<noteq> Inl noerr"
    "lx_birthIdentity env pid \<noteq> Inl noerr" for raw pid
    using assms(1) by (simp_all add: launch_env_ok_def)
  have failures: "readFrame V r = (Inl e, r') \<Longrightarrow> e \<noteq> noerr"
    "decodeFrame (lx_ready env) frame kind = Inl e \<Longrightarrow> e \<noteq> noerr"
    "lx_birthIdentity env pid = Inl e \<Longrightarrow> e \<noteq> noerr" for V r r' frame kind pid e
    using readFrame_Inl [of V r e r'] proper
    by (auto simp: decodeFrame_def split: if_splits sum.splits)
  have started: "launch_outcome env (Inr launched, l)"
    if "la_shell launched = ln_guardian l" "pid = rs_processGroup (ln_guardian l)"
      "verifyStartedProcessGroup (lx_Getpgid env) pid = noerr" "lx_birthIdentity env pid = Inr (la_birthIdentity launched)"
      "readFrame (lx_json_Valid env) (lx_events env) = (Inr ready, la_events launched)"
    for launched pid ready
    using that assms
    by (simp add: launch_outcome_def shell_started_def verifyStartedProcessGroup_def fresh_shell_def
        launch_env_ok_def split: sum.splits if_splits)
  show ?thesis
    unfolding startShell_ready_def Let_def
    by (auto intro!: stop intro: started dest: failures split: prod.split sum.split)
qed

lemma launch_outcome_guardian:
  assumes "launch_env_ok env" "ln_guardian l = lx_guardian env"
    and "ln_open l = {OutputReader, OutputWriter, CommandReader, CommandWriter, EventsReader, ControlWriter,
      DevNull, LifetimeReader, LifetimeWriter}" "\<not> ln_started l"
  shows "launch_outcome env (startShell_guardian env request l)"
proof -
  let ?l = "\<lambda>ds. l\<lparr> ln_started := True, ln_open := ds \<rparr>"
  have fresh: "fresh_shell (ln_guardian l)"
    using assms(1,2) by (simp add: launch_env_ok_def)
  then have calls: "rs_calls (ln_guardian l) = []"
    by (simp add: fresh_shell_def)
  have "ln_open l - {DevNull, OutputWriter, CommandReader, ControlWriter, LifetimeReader} =
      {OutputReader, CommandWriter, EventsReader, LifetimeWriter}"
    unfolding assms(3) by auto
  moreover have "{OutputReader, CommandWriter, EventsReader, LifetimeWriter} - {CommandWriter} =
      {OutputReader, EventsReader, LifetimeWriter}"
    by auto
  moreover have "launch_outcome env (stopGuardianStartup env True cause (?l ds))"
    if "ds \<subseteq> {OutputReader, CommandWriter, EventsReader, LifetimeWriter}" "cause \<noteq> noerr" for cause ds
    by (rule launch_outcome_stop) (use assms fresh that in auto)
  moreover have "launch_outcome env (startShell_ready env (?l {OutputReader, EventsReader, LifetimeWriter}))"
    by (rule launch_outcome_ready) (use assms in auto)
  moreover have "launch_outcome env (give_up env err
      [DevNull, OutputReader, OutputWriter, CommandReader, CommandWriter, EventsReader, ControlWriter,
       LifetimeReader, LifetimeWriter] l)" if "err \<noteq> noerr" for err
    by (rule launch_outcome_give_up) (use assms calls that in auto)
  ultimately show ?thesis
    unfolding startShell_guardian_def Let_def by (simp add: close_all_def split: prod.split)
qed

lemma launch_if:
  "(c \<Longrightarrow> launch_outcome env a) \<Longrightarrow> (\<not> c \<Longrightarrow> launch_outcome env b) \<Longrightarrow> launch_outcome env (if c then a else b)"
  by simp

lemma startShell_outcome:
  assumes "launch_env_ok env"
  shows "launch_outcome env (startShell env request)"
proof -
  have calls: "rs_calls (lx_guardian env) = []"
    using assms by (simp add: launch_env_ok_def fresh_shell_def)
  have none: "launch_outcome env (Inl e, \<lparr> ln_open = {}, ln_guardian = lx_guardian env, ln_started = False \<rparr>)"
    if "e \<noteq> noerr" for e using that by (simp add: launch_outcome_def given_up_def calls)
  show ?thesis
    unfolding startShell_def Let_def
    by (intro launch_if launch_outcome_give_up launch_outcome_guardian none, simp_all only: opens_def,
      simp_all add: calls assms) auto
qed

text \<open>C13: Starting a shell either works or leaves nothing behind. When \<open>startShell\<close> returns a shell, its
  process group is the one the guardian it started leads, the kernel and the guardian agree on the
  group's number, the birth identity recorded for the job is that process's, no signal was sent
  yet, and of the nine descriptors it opened only the three the runner works with remain. When it
  fails, whichever of its calls failed, no descriptor remains open, and a guardian that was already
  running was killed with its whole group and then reaped.\<close>

theorem startShell_all_or_nothing:
  assumes "launch_env_ok env"
  shows "case startShell env request of
    (Inr launched, l) \<Rightarrow>
      fresh_shell (la_shell launched) \<and>
      rs_processGroup (la_shell launched) = rs_processGroup (lx_guardian env) \<and>
      lx_Getpgid env (rs_processGroup (la_shell launched)) = Inr (rs_processGroup (la_shell launched)) \<and>
      lx_birthIdentity env (rs_processGroup (la_shell launched)) = Inr (la_birthIdentity launched) \<and>
      ln_open l = {OutputReader, EventsReader, LifetimeWriter}
  | (Inl err, l) \<Rightarrow>
      err \<noteq> noerr \<and> ln_open l = {} \<and> rs_calls (ln_guardian l) = (if ln_started l then [Signalled SIGKILL, Reaped] else [])"
proof -
  have "launch_outcome env (startShell env request)"
    by (rule startShell_outcome [OF assms])
  moreover obtain r l where "startShell env request = (r, l)"
    by fastforce
  ultimately show ?thesis
    by (cases r) (simp_all only: launch_outcome_def given_up_def shell_started_def prod.case sum.case simp_thms, metis)
qed

subsection \<open>The guardian ends the group\<close>

definition fresh_guardian :: "guardian \<Rightarrow> bool" where
  "fresh_guardian g \<longleftrightarrow> 0 < rs_processGroup (gn_group g) \<and> rs_calls (gn_group g) = [] \<and> gn_shellCalls g = []"

text \<open>The guardian has either let the shell run and ended the group, or given up before that.\<close>

definition guardian_done :: "guardian \<Rightarrow> bool" where
  "guardian_done g \<longleftrightarrow>
    (if gn_shellCalls g = [ShellStarted] then rs_calls (gn_group g) = [Signalled SIGTERM, Signalled SIGKILL]
     else gn_shellCalls g \<in> {[], [ShellStarted, ShellKilled, ShellWaitedFor]} \<and> rs_calls (gn_group g) = [])"

lemma guardianCleanup_done:
  assumes "0 < rs_processGroup (gn_group g)" "rs_calls (gn_group g) = []" "gn_shellCalls g = [ShellStarted]"
  shows "guardian_done (snd (guardianCleanup g))" "gn_control (snd (guardianCleanup g)) = gn_control g"
  using assms by (simp_all add: guardianCleanup_def signalProcessGroup_def guardian_done_def Let_def)

lemma await_release_ends: "LifetimeEnded \<in> set events \<Longrightarrow> await_release events"
  by (induction events rule: await_release.induct) auto

lemma await_exit_keeps:
  "await_exit env events g = Some g' \<Longrightarrow> gn_group g' = gn_group g \<and> gn_shellCalls g' = gn_shellCalls g"
  by (induction env events g rule: await_exit.induct) auto

lemma await_exit_ends: "GraceFired \<in> set events \<Longrightarrow> \<exists>g'. await_exit env events g = Some g'"
  by (induction env events g rule: await_exit.induct) auto

lemma guardian_select_ends:
  assumes "LifetimeEnded \<in> set events" "\<forall>pre post. events = pre @ Terminated # post \<longrightarrow> GraceFired \<in> set post"
    and "0 < rs_processGroup (gn_group g)" "rs_calls (gn_group g) = []" "gn_shellCalls g = [ShellStarted]"
  shows "\<exists>e g'. guardian_select env events g = Some (e, g') \<and> guardian_done g'"
  using assms
proof (induction env events g rule: guardian_select.induct)
  case (3 env exited events g)
  then have "await_release events"
    by (simp add: await_release_ends)
  then show ?case
    using 3 guardianCleanup_done(1) [of "g\<lparr> gn_control := snd (writeFrame (gd_exit env) frameShellExited exited (gn_control g)) \<rparr>"]
    by (simp add: Let_def split: prod.split) (metis surj_pair snd_conv)
next
  case (5 env events g)
  have "GraceFired \<in> set events"
    using 5(2) by (metis append_Nil)
  then obtain g1 where "await_exit env events g = Some g1"
    using await_exit_ends by blast
  then show ?case
    using 5 await_exit_keeps guardianCleanup_done(1) [of g1] by simp (metis surj_pair snd_conv)
next
  case (6 env events g)
  have "\<forall>pre post. events = pre @ Terminated # post \<longrightarrow> GraceFired \<in> set post"
    using 6(3) by (metis append_Cons)
  then show ?case
    using 6 by simp
qed (simp_all, (metis guardianCleanup_done(1) surj_pair snd_conv)+)

definition guardian_ends :: "(error \<times> guardian) option \<Rightarrow> bool" where
  "guardian_ends r \<longleftrightarrow> (\<exists>e g. r = Some (e, g) \<and> guardian_done g)"

lemma guardian_ends_Some [simp]: "guardian_ends (Some (e, g)) \<longleftrightarrow> guardian_done g"
  by (simp add: guardian_ends_def)

text \<open>C12: No process of a job outlives its runner. Once the runner's end of the lifetime pipe is
  closed, which the kernel does when the runner dies however it dies, the guardian returns, given
  that a grace timer it has set fires. If it had let the shell run, it has by then sent its own
  process group \<open>SIGTERM\<close> and then \<open>SIGKILL\<close>; otherwise it never started the shell, or it killed it
  and waited for it, and signalled nothing else.\<close>

theorem runGuardian_ends_group:
  assumes "fresh_guardian g" "LifetimeEnded \<in> set events"
    and "\<forall>pre post. events = pre @ Terminated # post \<longrightarrow> GraceFired \<in> set post"
  shows "\<exists>e g'. runGuardian env commandInput events g = Some (e, g') \<and>
    (if gn_shellCalls g' = [ShellStarted] then rs_calls (gn_group g') = [Signalled SIGTERM, Signalled SIGKILL]
     else gn_shellCalls g' \<in> {[], [ShellStarted, ShellKilled, ShellWaitedFor]} \<and> rs_calls (gn_group g') = [])"
proof -
  have g: "0 < rs_processGroup (gn_group g)" "rs_calls (gn_group g) = []" "gn_shellCalls g = []"
    using assms(1) by (simp_all add: fresh_guardian_def)
  then have untouched: "guardian_done g"
    by (simp add: guardian_done_def)
  have select: "guardian_ends (guardian_select env events
      (g\<lparr> gn_shellCalls := [ShellStarted], gn_shellInput := w, gn_control := c \<rparr>))" for w c
    using guardian_select_ends [OF assms(2,3)] g unfolding guardian_ends_def by fastforce
  have "guardian_ends (guardian_shell env start events g)" for start
    unfolding guardian_shell_def Let_def
    by (simp add: g select kill_shell_def guardian_done_def split: prod.split)
  with untouched have "guardian_ends (runGuardian env commandInput events g)"
    unfolding runGuardian_def by (auto split: sum.split)
  then show ?thesis
    by (simp add: guardian_done_def guardian_ends_def split: option.splits)
qed

subsection \<open>The report of the shell's exit\<close>

lemma writeFrame_prefix:
  assumes "writeFrame codec kind v w = (err, w')"
  shows "wr_out w' = wr_out w \<or>
    (\<exists>payload k. cd_Marshal codec v = Inr payload \<and> length payload \<le> maximumFrameBytes \<and>
       wr_out w' = wr_out w @ take k (frame_bytes kind payload))"
proof (cases "cd_Marshal codec v")
  case (Inr payload)
  define header where "header = internalMagic @ [internalProtocolVersion, byte_of_frameKind kind]
    @ PutUint32 (word_of_nat (length payload))"
  have whole: "frame_bytes kind payload = header @ payload"
    by (simp add: header_def frame_bytes_def)
  obtain e1 w1 where head: "writeFull header w = (e1, w1)"
    by fastforce
  obtain e2 w2 where body: "writeFull payload w1 = (e2, w2)"
    by fastforce
  obtain k where k: "wr_out w1 = wr_out w @ take k header" "e1 = noerr \<Longrightarrow> k = length header" "k \<le> length header"
    using writeFull_prefix [OF head] by blast
  obtain m where m: "wr_out w2 = wr_out w1 @ take m payload"
    using writeFull_prefix [OF body] by blast
  have "wr_out w1 = wr_out w @ take k (frame_bytes kind payload)"
    using k whole by simp
  moreover have "wr_out w2 = wr_out w @ take (length header + m) (frame_bytes kind payload)" if "e1 = noerr"
    using m k that whole by simp
  moreover have "w' = w \<or> length payload \<le> maximumFrameBytes \<and> (w' = w1 \<or> e1 = noerr \<and> w' = w2)"
    using assms unfolding writeFrame_def Inr sum.case Let_def header_def [symmetric] head prod.case body
    by (auto split: if_splits)
  ultimately show ?thesis
    using Inr by metis
qed (use assms in \<open>simp add: writeFrame_def\<close>)

text \<open>A frame is delimited by its own bytes.\<close>

lemma frame_bytes_inj:
  assumes "frame_bytes k p @ x = frame_bytes k' p' @ y" "proper_kind k" "proper_kind k'"
    and "length p \<le> maximumFrameBytes" "length p' \<le> maximumFrameBytes"
  shows "k = k' \<and> p = p' \<and> x = y"
proof -
  let ?r = "\<lparr> rd_pieces = [frame_bytes k p @ x], rd_end = IoEOF \<rparr>"
  have s: "stream ?r = frame_bytes k p @ x" "stream ?r = frame_bytes k' p' @ y"
    using assms(1) by (simp_all add: stream_def)
  obtain r1 where 1: "readFrame (\<lambda>_. True) ?r = (Inr \<lparr> if_kind = k, if_payload = p \<rparr>, r1)" "stream r1 = x"
    using readFrame_frame [OF s(1) assms(4), of "\<lambda>_. True"] assms(2) by auto
  obtain r2 where 2: "readFrame (\<lambda>_. True) ?r = (Inr \<lparr> if_kind = k', if_payload = p' \<rparr>, r2)" "stream r2 = y"
    using readFrame_frame [OF s(2) assms(5), of "\<lambda>_. True"] assms(3) by auto
  from 1 2 show ?thesis by simp
qed

text \<open>What the guardian has sent: a part of its first frame, or that frame and a part of a report.\<close>

definition sent_by :: "guardian_env \<Rightarrow> guardian_event list \<Rightarrow> bytes \<Rightarrow> bool" where
  "sent_by env events t \<longleftrightarrow>
    (\<exists>k exited p. t = take k (frame_bytes frameShellExited p) \<and> ShellExited (Some exited) \<in> set events \<and>
       cd_Marshal (gd_exit env) exited = Inr p \<and> length p \<le> maximumFrameBytes) \<or> t = []"

lemma sent_report:
  assumes "writeFrame (gd_exit env) frameShellExited exited w = (err, w')" "ShellExited (Some exited) \<in> set events"
  shows "\<exists>t. sent_by env events t \<and> wr_out w' = wr_out w @ t"
  using writeFrame_prefix [OF assms(1)] assms(2) unfolding sent_by_def by (metis append_Nil2)

lemma sent_by_more: "sent_by env events t \<Longrightarrow> sent_by env (event # events) t"
  unfolding sent_by_def by (metis list.set_intros(2))

lemma guardianCleanup_control [simp]:
  "guardianCleanup g = (e, g') \<Longrightarrow> gn_control g' = gn_control g"
  by (auto simp: guardianCleanup_def split: prod.splits)

lemma await_exit_sent:
  "await_exit env events g = Some g' \<Longrightarrow>
   \<exists>t. sent_by env events t \<and> wr_out (gn_control g') = wr_out (gn_control g) @ t"
proof (induction env events g rule: await_exit.induct)
  case (3 env exited events g)
  then show ?case
    using sent_report [of env exited "gn_control g" _ _ "ShellExited (Some exited) # events"]
    by (metis await_exit.simps(3) guardian.select_convs(1) guardian.surjective guardian.update_convs(1)
        list.set_intros(1) option.inject surjective_pairing)
qed (auto simp: sent_by_def)

lemma guardian_select_sent:
  "guardian_select env events g = Some (e, g') \<Longrightarrow>
   \<exists>t. sent_by env events t \<and> wr_out (gn_control g') = wr_out (gn_control g) @ t"
proof (induction env events g rule: guardian_select.induct)
  case (3 env exited events g)
  obtain err control where report: "writeFrame (gd_exit env) frameShellExited exited (gn_control g) = (err, control)"
    by fastforce
  have "gn_control g' = control"
    using 3 report by (auto simp: Let_def split: if_splits)
  then show ?case
    using sent_report [OF report, of "ShellExited (Some exited) # events"] by simp
next
  case (5 env events g)
  then obtain g1 where g1: "await_exit env events g = Some g1" "gn_control g' = gn_control g1"
    by auto
  then show ?case
    using await_exit_sent [OF g1(1)] sent_by_more by metis
next
  case (6 env events g)
  then show ?case
    using sent_by_more by (simp, metis)
qed (auto simp: sent_by_def)

lemma guardian_shell_sent:
  assumes "guardian_shell env start events g = Some (e, g')"
  shows "\<exists>p k t. sent_by env events t \<and> length p \<le> maximumFrameBytes \<and>
    (wr_out (gn_control g') = wr_out (gn_control g) @ take k (frame_bytes frameGuardianReady p) \<or>
     wr_out (gn_control g') = wr_out (gn_control g) @ frame_bytes frameGuardianReady p @ t)"
proof -
  let ?ready = "\<lparr> gr_GuardianPID = gd_Getpid env, gr_ShellPID = gd_shellPid env,
    gr_ProcessGroupID = rs_processGroup (gn_group g) \<rparr>"
  obtain err control where ready: "writeFrame (gd_ready env) frameGuardianReady ?ready (gn_control g) = (err, control)"
    by fastforce
  consider "gn_control g' = gn_control g" | "err \<noteq> noerr" "gn_control g' = control"
    | g1 where "err = noerr" "guardian_select env events g1 = Some (e, g')" "gn_control g1 = control"
    using assms ready unfolding guardian_shell_def Let_def kill_shell_def
    by (auto split: if_splits prod.splits)
  then show ?thesis
  proof cases
    case 1
    then show ?thesis by (intro exI [of _ "[]"] exI [of _ 0]) (simp add: sent_by_def)
  next
    case 2
    have "sent_by env events []" by (simp add: sent_by_def)
    then show ?thesis
      using writeFrame_prefix [OF ready] 2(2) by (metis append.right_neutral le0 list.size(3) take0)
  next
    case 3
    obtain p where "length p \<le> maximumFrameBytes"
        "wr_out control = wr_out (gn_control g) @ frame_bytes frameGuardianReady p"
      using writeFrame_ok [of "gd_ready env"] ready 3(1) by blast
    then show ?thesis
      using guardian_select_sent [OF 3(2)] 3(3) by (metis append_assoc)
  qed
qed

lemma normalizeShellExit_ok:
  assumes "normalizeShellExit (Some status) waitErr = Inr exited"
    and "WaitStatus_Signaled status \<Longrightarrow> WaitStatus_Signal status \<le> 64"
  shows "report_ok \<lparr> sw_exitCode = se_ExitCode exited, sw_signal = se_Signal exited, sw_err = noerr \<rparr>"
proof (cases "WaitStatus_Signaled status")
  case True
  then have "and status 0x7F \<noteq> 0"
    by (simp add: WaitStatus_Signaled_def)
  then have "0 < uint (and status 0x7F)"
    by (metis uint_0_iff uint_ge_0 order_less_le)
  then show ?thesis
    using True assms by (auto simp: normalizeShellExit_def report_ok_def valid_signal_def WaitStatus_Signal_def)
next
  case False
  then have "WaitStatus_Exited status"
    using assms(1) by (auto simp: normalizeShellExit_def split: if_splits)
  moreover have "uint (and (drop_bit 8 status) 0xFF) \<le> 255"
  proof -
    have "and (drop_bit 8 status) 0xFF \<le> 0xFF" by (rule word_and_le1)
    then show ?thesis by (simp add: word_le_def)
  qed
  ultimately show ?thesis
    using False assms(1)
    by (auto simp: normalizeShellExit_def report_ok_def valid_signal_def WaitStatus_ExitStatus_def)
qed

text \<open>What the guardian's channel can still hold once its first frame has been read.\<close>

lemma read_report:
  assumes "sent_by env events t" "stream r @ lost = t" "readFrame V r = (Inr frame, r')"
    and travels: "\<And>exited. travels V (gd_exit env) (frameShellExited, exited)"
  obtains exited where "ShellExited (Some exited) \<in> set events"
    "decodeFrame (gd_exit env) frame frameShellExited = Inr exited"
proof -
  have f: "stream r = frame_bytes (if_kind frame) (if_payload frame) @ stream r'"
      "length (if_payload frame) \<le> maximumFrameBytes" "proper_kind (if_kind frame)"
    using readFrame_Inr [OF assms(3)] by auto
  then have "t \<noteq> []"
    using assms(2) by (auto simp: frame_bytes_def internalMagic_def)
  then obtain k exited p where p: "t = take k (frame_bytes frameShellExited p)" "ShellExited (Some exited) \<in> set events"
      "cd_Marshal (gd_exit env) exited = Inr p" "length p \<le> maximumFrameBytes"
    using assms(1) by (auto simp: sent_by_def)
  have "frame_bytes (if_kind frame) (if_payload frame) @ (stream r' @ lost @ drop k (frame_bytes frameShellExited p)) =
      frame_bytes frameShellExited p @ []"
    using f(1) assms(2) p(1) by (metis append.assoc append_Nil2 append_take_drop_id)
  from frame_bytes_inj [OF this f(3) _ f(2) p(4)]
  have "if_kind frame = frameShellExited" "if_payload frame = p" by simp_all
  moreover have "cd_Decode (gd_exit env) p = Inr (exited, [IoEOF])"
    using travels [of exited] p(3) by (simp add: travels_def)
  ultimately have "decodeFrame (gd_exit env) frame frameShellExited = Inr exited"
    by (simp add: decodeFrame_def)
  with p(2) show thesis by (rule that)
qed

lemma after_ready:
  assumes "frame_bytes kind payload @ s = sent"
    and "sent_by env events t" "length p \<le> maximumFrameBytes"
    and "sent = take k (frame_bytes frameGuardianReady p) \<or> sent = frame_bytes frameGuardianReady p @ t"
    and "length payload \<le> maximumFrameBytes" "proper_kind kind"
  shows "sent_by env events s"
  using assms(4)
proof
  assume "sent = take k (frame_bytes frameGuardianReady p)"
  then have "frame_bytes kind payload @ (s @ drop k (frame_bytes frameGuardianReady p)) =
      frame_bytes frameGuardianReady p @ []"
    using assms(1) by (metis append.assoc append_Nil2 append_take_drop_id)
  from frame_bytes_inj [OF this assms(6) _ assms(5,3)] show ?thesis
    by (simp add: sent_by_def)
next
  assume "sent = frame_bytes frameGuardianReady p @ t"
  then have "frame_bytes kind payload @ s = frame_bytes frameGuardianReady p @ t"
    using assms(1) by simp
  from frame_bytes_inj [OF this assms(6) _ assms(5,3)] assms(2) show ?thesis
    by simp
qed

text \<open>C14: The runner learns how the shell ended, or that it cannot know. Let the runner have started
  its shell with the guardian's first frame, and let it read from then on what that guardian wrote,
  cut off anywhere by a write or a read that failed. If the report the supervision gets carries no error,
  it is the exit code or the signal the guardian got from the kernel; in every case the report is
  one whose outcome can be published: an exit code between 0 and 255 or a signal from 1 to 64.\<close>

theorem guardian_report_reaches_runner:
  assumes "runGuardian genv commandInput events g = Some (e, g')" "wr_out (gn_control g) = []"
    and "stream (lx_events env) @ lost = wr_out (gn_control g')" "launch_env_ok env"
    and "startShell env request = (Inr launched, l)"
    and "\<forall>exited. travels (lx_json_Valid env) (gd_exit genv) (frameShellExited, exited)"
    and "\<forall>exited. ShellExited (Some exited) \<in> set events \<longrightarrow>
      (\<exists>status waitErr. normalizeShellExit (Some status) waitErr = Inr exited \<and>
         (WaitStatus_Signaled status \<longrightarrow> WaitStatus_Signal status \<le> 64))"
    and "report = readGuardianExit (lx_json_Valid env) (gd_exit genv) (la_events launched)"
  shows "report_ok report \<and>
    (sw_err report = noerr \<longrightarrow> (\<exists>exited. ShellExited (Some exited) \<in> set events \<and>
       sw_exitCode report = se_ExitCode exited \<and> sw_signal report = se_Signal exited))"
proof -
  obtain ready where ready: "readFrame (lx_json_Valid env) (lx_events env) = (Inr ready, la_events launched)"
    using startShell_outcome [OF assms(4), of request] assms(5) by (auto simp: launch_outcome_def shell_started_def)
  then have f: "stream (lx_events env) = frame_bytes (if_kind ready) (if_payload ready) @ stream (la_events launched)"
      "length (if_payload ready) \<le> maximumFrameBytes" "proper_kind (if_kind ready)"
    using readFrame_Inr by auto
  have "wr_out (gn_control g') \<noteq> []"
    using f(1) assms(3) by (auto simp: frame_bytes_def internalMagic_def)
  then obtain start where "guardian_shell genv start events g = Some (e, g')"
    using assms(1,2) by (auto simp: runGuardian_def split: sum.splits if_splits)
  from guardian_shell_sent [OF this] obtain p k t where sent: "sent_by genv events t" "length p \<le> maximumFrameBytes"
      "wr_out (gn_control g') = take k (frame_bytes frameGuardianReady p) \<or>
       wr_out (gn_control g') = frame_bytes frameGuardianReady p @ t"
    using assms(2) by auto
  have rest: "sent_by genv events (stream (la_events launched) @ lost)"
    by (rule after_ready [OF _ sent f(2,3)]) (use f(1) assms(3) in simp)
  show ?thesis
  proof (cases "readFrame (lx_json_Valid env) (la_events launched)")
    case (Pair r rest)
    show ?thesis
    proof (cases r)
      case (Inr frame)
      obtain exited where exited: "ShellExited (Some exited) \<in> set events"
          "decodeFrame (gd_exit genv) frame frameShellExited = Inr exited"
        using read_report [OF rest refl Pair [unfolded Inr]] assms(6) by blast
      then have "report = \<lparr> sw_exitCode = se_ExitCode exited, sw_signal = se_Signal exited, sw_err = noerr \<rparr>"
        using assms(8) Pair Inr by (simp add: readGuardianExit_def)
      then show ?thesis
        using exited(1) assms(7) normalizeShellExit_ok by fastforce
    next
      case (Inl err)
      then show ?thesis
        using assms(8) Pair readFrame_Inl
        by (simp add: readGuardianExit_def report_ok_def valid_signal_def)
    qed
  qed
qed

subsection \<open>The capture of the output\<close>

text \<open>C32: The output is captured whole and in order. What the capturing goroutine sends is a sequence of
  non-empty pieces of at most 32 KiB, whose concatenation is what the shell wrote, and then exactly
  one end, which carries no error if and only if the pipe was read to its end and closed.\<close>

theorem captureMergedOutput_faithful:
  "\<exists>chunks err. captureMergedOutput closeErr r = map Captured chunks @ [CaptureDone err] \<and>
     concat chunks = stream r \<and> list_all (\<lambda>chunk. chunk \<noteq> [] \<and> length chunk \<le> 32768) chunks \<and>
     (err = noerr) = (rd_end r = IoEOF \<and> closeErr = noerr)"
proof (induction closeErr r rule: captureMergedOutput.induct)
  case (1 closeErr r)
  obtain chunk err r' where read: "reader_Read 32768 r = ((chunk, err), r')"
    by (metis surj_pair)
  show ?case
  proof (cases "err = noerr")
    case True
    obtain chunks e where more: "captureMergedOutput closeErr r' = map Captured chunks @ [CaptureDone e]"
        "concat chunks = stream r'" "list_all (\<lambda>chunk. chunk \<noteq> [] \<and> length chunk \<le> 32768) chunks"
        "(e = noerr) = (rd_end r' = IoEOF \<and> closeErr = noerr)"
      using 1 read True by fastforce
    have "chunk @ stream r' = stream r" "rd_end r' = rd_end r" "length chunk \<le> 32768"
      using read True by (auto simp: reader_Read_def stream_def split: list.splits if_splits)
    then show ?thesis
      using more True
      by (intro exI [of _ "(if chunk = [] then [] else [chunk]) @ chunks"] exI [of _ e])
        (auto simp: captureMergedOutput.simps [of closeErr r] read)
  next
    case False
    then have "chunk = []" "stream r = []" "err = [rd_end r]"
      using read by (auto simp: reader_Read_def stream_def split: list.splits if_splits)
    then show ?thesis
      using False read
      by (intro exI [of _ "[]"] exI [of _ "errors_Join [if rd_end r = IoEOF then noerr else [rd_end r], closeErr]"])
        (auto simp: captureMergedOutput.simps [of closeErr r] errors_Is_def)
  qed
qed

subsection \<open>A concrete guardian\<close>

lemma writeFull_plain: "writeFull raw \<lparr> wr_out = out, wr_writes = [] \<rparr> = (noerr, \<lparr> wr_out = out @ raw, wr_writes = [] \<rparr>)"
  by (cases "raw = []")
    (simp_all add: writeFull.simps [of raw] writeFull.simps [of "[]"] writer_Write_def del: writeFull.simps)

lemma writeFrame_plain:
  assumes "cd_Marshal codec v = Inr payload" "length payload \<le> maximumFrameBytes"
  shows "writeFrame codec kind v \<lparr> wr_out = out, wr_writes = [] \<rparr> =
    (noerr, \<lparr> wr_out = out @ frame_bytes kind payload, wr_writes = [] \<rparr>)"
  using assms by (simp add: writeFrame_def writeFull_plain frame_bytes_def Let_def del: writeFull.simps)

lemma readFrame_plain:
  assumes "rd_pieces r = frame_bytes kind payload # pieces" "length payload \<le> maximumFrameBytes" "proper_kind kind"
  shows "\<exists>r'. readFrame (\<lambda>_. True) r = (Inr \<lparr> if_kind = kind, if_payload = payload \<rparr>, r') \<and> stream r' = concat pieces"
proof -
  have "stream r = frame_bytes kind payload @ concat pieces"
    using assms(1) by (simp add: stream_def)
  from readFrame_frame [OF this assms(2) _ assms(3), of "\<lambda>_. True"] show ?thesis
    by auto
qed

definition one_value_codec :: "'v \<Rightarrow> bytes \<Rightarrow> 'v codec" where
  "one_value_codec v raw =
    \<lparr> cd_Marshal = (\<lambda>x. if x = v then Inr raw else Inl [ErrInternalProtocol]),
      cd_Decode = (\<lambda>b. if b = raw then Inr (v, [IoEOF]) else Inl [IoUnexpectedEOF]) \<rparr>"

definition example_ready :: guardianReady where
  "example_ready = \<lparr> gr_GuardianPID = 77, gr_ShellPID = 78, gr_ProcessGroupID = 77 \<rparr>"

definition example_shell_exit :: shellExit where
  "example_shell_exit = \<lparr> se_ExitCode = Some 3, se_Signal = None \<rparr>"

definition example_guardian_start :: guardianStart where
  "example_guardian_start = \<lparr> gs_Command = ''true'', gs_GraceMs = 10000 \<rparr>"

definition example_guardian_env :: guardian_env where
  "example_guardian_env =
    \<lparr> gd_json_Valid = (\<lambda>_. True), gd_start = one_value_codec example_guardian_start ''s'',
      gd_ready = one_value_codec example_ready ''r'', gd_exit = one_value_codec example_shell_exit ''3'',
      gd_Fchdir = noerr, gd_Pipe = noerr, gd_shellStart = noerr, gd_closeInput = noerr,
      gd_closeWriter = noerr, gd_shellKill = noerr, gd_shellWait = noerr, gd_Getpid = 77, gd_shellPid = 78 \<rparr>"

definition example_guardian :: guardian where
  "example_guardian =
    \<lparr> gn_control = \<lparr> wr_out = [], wr_writes = [] \<rparr>, gn_shellInput = \<lparr> wr_out = [], wr_writes = [] \<rparr>,
      gn_group = example_shell, gn_shellCalls = [] \<rparr>"

definition example_command :: reader where
  "example_command = \<lparr> rd_pieces = [frame_bytes frameStart ''s''], rd_end = IoEOF \<rparr>"

definition example_launch_env :: launch_env where
  "example_launch_env =
    \<lparr> lx_json_Valid = (\<lambda>_. True), lx_start = one_value_codec example_guardian_start ''s'',
      lx_ready = one_value_codec example_ready ''r'', lx_outputPipe = noerr, lx_prepareOutput = noerr,
      lx_commandPipe = noerr, lx_eventsPipe = noerr, lx_prepareEvents = noerr, lx_devNull = noerr,
      lx_executable = noerr, lx_lifetimePipe = noerr, lx_guardianStart = noerr, lx_close = (\<lambda>d. noerr),
      lx_guardian = example_shell, lx_commandWriter = \<lparr> wr_out = [], wr_writes = [] \<rparr>,
      lx_events = \<lparr> rd_pieces = [frame_bytes frameGuardianReady ''r'', frame_bytes frameShellExited ''3''],
        rd_end = IoEOF \<rparr>,
      lx_Getpgid = Inr, lx_birthIdentity = (\<lambda>pid. Inr ''b''), lx_now = 20 \<rparr>"

abbreviation example_guardian_events :: "guardian_event list" where
  "example_guardian_events \<equiv> [ShellExited (Some example_shell_exit), LifetimeEnded]"

lemma example_launch_ok: "launch_env_ok example_launch_env"
  by (simp add: launch_env_ok_def example_launch_env_def one_value_codec_def example_shell_def fresh_shell_def)

lemma startShell_all_or_nothing_witness:
  "case startShell example_launch_env example_request of
     (Inr launched, l) \<Rightarrow> fresh_shell (la_shell launched) \<and> ln_open l = {OutputReader, EventsReader, LifetimeWriter}
   | (Inl err, l) \<Rightarrow> ln_open l = {}"
  using startShell_all_or_nothing [OF example_launch_ok, of example_request]
  by (auto split: prod.splits sum.splits)

lemma runGuardian_ends_group_witness:
  "\<exists>e g'. runGuardian example_guardian_env example_command example_guardian_events example_guardian = Some (e, g')"
proof -
  have "fresh_guardian example_guardian"
    by (simp add: fresh_guardian_def example_guardian_def example_shell_def)
  from runGuardian_ends_group [OF this, of example_guardian_events example_guardian_env example_command] show ?thesis
    by (auto simp: Cons_eq_append_conv)
qed

lemma example_launch_fields:
  "lx_json_Valid example_launch_env = (\<lambda>_. True)" "lx_ready example_launch_env = one_value_codec example_ready ''r''"
  "lx_start example_launch_env = one_value_codec example_guardian_start ''s''"
  "lx_outputPipe example_launch_env = noerr" "lx_prepareOutput example_launch_env = noerr"
  "lx_commandPipe example_launch_env = noerr" "lx_eventsPipe example_launch_env = noerr"
  "lx_prepareEvents example_launch_env = noerr" "lx_devNull example_launch_env = noerr"
  "lx_executable example_launch_env = noerr" "lx_lifetimePipe example_launch_env = noerr"
  "lx_guardianStart example_launch_env = noerr" "lx_close example_launch_env d = noerr"
  "lx_guardian example_launch_env = example_shell"
  "lx_commandWriter example_launch_env = \<lparr> wr_out = [], wr_writes = [] \<rparr>"
  "rd_pieces (lx_events example_launch_env) = [frame_bytes frameGuardianReady ''r'', frame_bytes frameShellExited ''3'']"
  "lx_Getpgid example_launch_env pid = Inr pid" "lx_birthIdentity example_launch_env pid = Inr ''b''"
  by (simp_all add: example_launch_env_def)

lemma example_report_read:
  "\<exists>r'. readFrame (\<lambda>_. True) (lx_events example_launch_env) =
     (Inr \<lparr> if_kind = frameGuardianReady, if_payload = ''r'' \<rparr>, r') \<and>
     stream r' = frame_bytes frameShellExited ''3'' @ []"
proof -
  have "\<exists>r'. readFrame (\<lambda>_. True) (lx_events example_launch_env) =
      (Inr \<lparr> if_kind = frameGuardianReady, if_payload = ''r'' \<rparr>, r') \<and> stream r' = concat [frame_bytes frameShellExited ''3'']"
    by (rule readFrame_plain) (simp_all add: example_launch_fields maximumFrameBytes_def)
  then show ?thesis by simp
qed

lemma close_all_fine: "close_all example_launch_env ds l = (noerr, l\<lparr> ln_open := ln_open l - set ds \<rparr>)"
  by (induction ds) (simp_all add: close_all_def example_launch_fields)

lemma example_started:
  assumes "is_Command request = ''true''" "is_TerminationGraceMs request = 10000"
  shows "\<exists>launched l. startShell example_launch_env request = (Inr launched, l) \<and>
     stream (la_events launched) = frame_bytes frameShellExited ''3'' @ []"
proof -
  obtain r' where r': "readFrame (\<lambda>_. True) (lx_events example_launch_env) =
      (Inr \<lparr> if_kind = frameGuardianReady, if_payload = ''r'' \<rparr>, r')" "stream r' = frame_bytes frameShellExited ''3'' @ []"
    using example_report_read by blast
  have start: "\<lparr> gs_Command = ''true'', gs_GraceMs = 10000 \<rparr> = example_guardian_start"
    by (simp add: example_guardian_start_def)
  have fields: "gr_GuardianPID example_ready = 77" "gr_ProcessGroupID example_ready = 77"
      "rs_processGroup example_shell = 77"
    by (simp_all add: example_ready_def example_shell_def)
  show ?thesis
    by (simp add: startShell_def startShell_guardian_def startShell_ready_def Let_def example_launch_fields opens_def
        close_all_fine assms start writeFrame_def writeFull_plain one_value_codec_def maximumFrameBytes_def r'
        decodeFrame_def errors_Is_def fields verifyStartedProcessGroup_def split: prod.split)
qed

lemma example_guardian_fields:
  "gd_json_Valid example_guardian_env = (\<lambda>_. True)" "gd_start example_guardian_env = one_value_codec example_guardian_start ''s''"
  "gd_ready example_guardian_env = one_value_codec example_ready ''r''"
  "gd_exit example_guardian_env = one_value_codec example_shell_exit ''3''"
  "gd_Fchdir example_guardian_env = noerr" "gd_Pipe example_guardian_env = noerr" "gd_shellStart example_guardian_env = noerr"
  "gd_closeInput example_guardian_env = noerr" "gd_closeWriter example_guardian_env = noerr"
  "gd_Getpid example_guardian_env = 77" "gd_shellPid example_guardian_env = 78"
  "gn_control example_guardian = \<lparr> wr_out = [], wr_writes = [] \<rparr>"
  "gn_shellInput example_guardian = \<lparr> wr_out = [], wr_writes = [] \<rparr>"
  "gn_group example_guardian = example_shell" "rs_processGroup example_shell = 77"
  by (simp_all add: example_guardian_env_def example_guardian_def example_shell_def)

lemma example_guardian_run:
  "\<exists>e g'. runGuardian example_guardian_env example_command example_guardian_events example_guardian = Some (e, g') \<and>
     wr_out (gn_control g') = frame_bytes frameGuardianReady ''r'' @ frame_bytes frameShellExited ''3''"
proof -
  obtain r' where r': "readFrame (\<lambda>_. True) example_command = (Inr \<lparr> if_kind = frameStart, if_payload = ''s'' \<rparr>, r')"
    using readFrame_plain [of example_command frameStart "''s''" "[]"]
    by (auto simp: example_command_def maximumFrameBytes_def)
  have ready: "\<lparr> gr_GuardianPID = 77, gr_ShellPID = 78, gr_ProcessGroupID = 77 \<rparr> = example_ready"
    by (simp add: example_ready_def)
  have marshal: "cd_Marshal (one_value_codec example_ready ''r'') example_ready = Inr ''r''"
      "cd_Marshal (one_value_codec example_shell_exit ''3'') example_shell_exit = Inr ''3''"
    by (simp_all add: one_value_codec_def)
  have decode: "decodeFrame (one_value_codec example_guardian_start ''s'') \<lparr> if_kind = frameStart, if_payload = ''s'' \<rparr> frameStart = Inr example_guardian_start"
    by (simp add: one_value_codec_def decodeFrame_def errors_Is_def)
  have command: "gs_Command example_guardian_start = ''true''"
    by (simp add: example_guardian_start_def)
  have "gn_control (g\<lparr> gn_group := x \<rparr>) = gn_control g" for g x
    by simp
  then have cleanup: "gn_control (snd (guardianCleanup g)) = gn_control g" for g
    by (simp only: guardianCleanup_def case_prod_beta snd_conv)
  have select: "\<exists>e g'. guardian_select example_guardian_env example_guardian_events g = Some (e, g') \<and>
      wr_out (gn_control g') = out @ frame_bytes frameShellExited ''3''"
    if "gn_control g = \<lparr> wr_out = out, wr_writes = [] \<rparr>" for g out
  proof -
    let ?g = "g\<lparr> gn_control := \<lparr> wr_out = out @ frame_bytes frameShellExited ''3'', wr_writes = [] \<rparr> \<rparr>"
    have "guardian_select example_guardian_env example_guardian_events g = Some (guardianCleanup ?g)"
      unfolding guardian_select.simps that example_guardian_fields
        writeFrame_plain [OF marshal(2), of frameShellExited out, simplified maximumFrameBytes_def, simplified]
      by (simp only: prod.case Let_def simp_thms if_False await_release.simps if_True)
    then show ?thesis
      using cleanup [of ?g] by (cases "guardianCleanup ?g") simp
  qed
  let ?g = "example_guardian\<lparr> gn_shellCalls := gn_shellCalls example_guardian @ [ShellStarted],
      gn_shellInput := \<lparr> wr_out = ''true'', wr_writes = [] \<rparr>,
      gn_control := \<lparr> wr_out = frame_bytes frameGuardianReady ''r'', wr_writes = [] \<rparr> \<rparr>"
  have "runGuardian example_guardian_env example_command example_guardian_events example_guardian =
      guardian_select example_guardian_env example_guardian_events ?g"
    by (simp add: runGuardian_def guardian_shell_def example_guardian_fields r' ready decode writeFull_plain
        writeFrame_plain marshal maximumFrameBytes_def command del: writeFull.simps guardian_select.simps)
  then show ?thesis
    using select [of ?g "frame_bytes frameGuardianReady ''r''"] by simp
qed

lemma example_exit_normal: "normalizeShellExit (Some 768) noerr = Inr example_shell_exit"
  by (simp add: normalizeShellExit_def WaitStatus_Signaled_def WaitStatus_Exited_def WaitStatus_ExitStatus_def example_shell_exit_def)

lemma guardian_report_reaches_runner_witness:
  "\<exists>launched l. startShell example_launch_env example_request = (Inr launched, l) \<and>
     report_ok (readGuardianExit (\<lambda>_. True) (gd_exit example_guardian_env) (la_events launched))"
proof -
  obtain e g' where run: "runGuardian example_guardian_env example_command example_guardian_events example_guardian = Some (e, g')"
      "wr_out (gn_control g') = frame_bytes frameGuardianReady ''r'' @ frame_bytes frameShellExited ''3''"
    using example_guardian_run by blast
  obtain launched l where started: "startShell example_launch_env example_request = (Inr launched, l)"
    using example_started [of example_request] by (auto simp: example_request_def)
  have "stream (lx_events example_launch_env) @ [] = wr_out (gn_control g')"
    using run(2) by (simp add: stream_def example_launch_fields)
  note report = guardian_report_reaches_runner [OF run(1) _ this example_launch_ok started]
  have "\<forall>exited. travels (\<lambda>_. True) (gd_exit example_guardian_env) (frameShellExited, exited)"
    by (simp add: travels_def example_guardian_fields one_value_codec_def)
  moreover have "\<exists>status waitErr. normalizeShellExit (Some status) waitErr = Inr example_shell_exit \<and>
      (WaitStatus_Signaled status \<longrightarrow> WaitStatus_Signal status \<le> 64)"
    using example_exit_normal by (intro exI [of _ 768] exI [of _ noerr]) (simp add: WaitStatus_Signaled_def)
  ultimately have "report_ok (readGuardianExit (\<lambda>_. True) (gd_exit example_guardian_env) (la_events launched))"
    using report [OF _ _ _ refl] by (simp add: example_guardian_fields(12) example_launch_fields(1))
  then show ?thesis
    using started by blast
qed

end
