(* ===== verification/Creation.thy ===== *)
theory Creation
  imports JobProps
begin

section \<open>Creating a job\<close>

text \<open>
  \<open>prepare\<close>, \<open>commit\<close>, \<open>abort\<close> and the lease's \<open>release\<close> of \<open>internal/runner/store_unix.go\<close>.
  A job is built in a directory with a hidden name, with its runner lock held, and appears under
  its identifier by one rename. The contracts hold for every fault script, so a crash leaves
  either no entry for the job or a complete one.
\<close>

subsection \<open>Definitions\<close>

text \<open>The loop of \<open>prepare\<close> over the files that start empty.\<close>

primrec create_files :: "handle \<Rightarrow> string list \<Rightarrow> error io" where
  "create_files directory [] = State_Monad.return noerr"
| "create_files directory (name # names) = do {
     err \<leftarrow> createSyncedFile directory name;
     if err \<noteq> noerr then State_Monad.return err else create_files directory names }"

definition empty_files :: "string list" where
  "empty_files = [''state.lock'', ''runner.lock'', ''recovery.lock'', ''output.log'']"

definition prepare_cleanup :: "Store \<Rightarrow> handle \<Rightarrow> string \<Rightarrow> error \<Rightarrow> pendingJob result io" where
  "prepare_cleanup store directory pendingName cause = do {
     (_, removeErr) \<leftarrow> removeDirectoryContents directory;
     closeErr \<leftarrow> file_Close directory;
     dirErr \<leftarrow> removeDirectory (st_jobs store) pendingName;
     State_Monad.return (Inl (errors_Join [cause, removeErr, closeErr, dirErr])) }"

text \<open>\<open>prepare\<close> once the pending directory exists.\<close>

definition fill_pending ::
  "Store \<Rightarrow> JobID \<Rightarrow> handle \<Rightarrow> string \<Rightarrow> bytes \<Rightarrow> bytes \<Rightarrow> pendingJob result io" where
  "fill_pending store jobID directory pendingName stateRaw runtimeRaw = do {
     filesErr \<leftarrow> create_files directory empty_files;
     if filesErr \<noteq> noerr then prepare_cleanup store directory pendingName filesErr
     else do {
       runtimeErr \<leftarrow> writeAtomicFile directory ''runtime.json'' runtimeRaw;
       if runtimeErr \<noteq> noerr then prepare_cleanup store directory pendingName runtimeErr
       else do {
         stateErr \<leftarrow> writeAtomicFile directory ''state.json'' stateRaw;
         if stateErr \<noteq> noerr then prepare_cleanup store directory pendingName stateErr
         else do {
           runnerLock \<leftarrow> openPrivateFileAt directory ''runner.lock'' {O_RDWR};
           case runnerLock of
             Inl err \<Rightarrow> prepare_cleanup store directory pendingName err
           | Inr lock \<Rightarrow> do {
               lockErr \<leftarrow> lockFile lock True;
               if lockErr \<noteq> noerr then do {
                 closeErr \<leftarrow> file_Close lock;
                 prepare_cleanup store directory pendingName (errors_Join [lockErr, closeErr]) }
               else State_Monad.return (Inr
                 \<lparr> pj_dir = directory, pj_name = pendingName, pj_jobID = jobID,
                   pj_lease = \<lparr> le_file = Some lock, le_jobID = jobID \<rparr>, pj_settled = False \<rparr>) } } } } }"

definition stage_pending :: "Store \<Rightarrow> JobID \<Rightarrow> bytes \<Rightarrow> bytes \<Rightarrow> pendingJob result io" where
  "stage_pending store jobID stateRaw runtimeRaw = do {
     exists \<leftarrow> entryExists (st_jobs store) jobID;
     case exists of
       Inl err \<Rightarrow> State_Monad.return (Inl err)
     | Inr True \<Rightarrow> State_Monad.return (Inl [ErrJobExists])
     | Inr False \<Rightarrow> do {
         directory \<leftarrow> createPrivateDirectory (st_jobs store) (''.starting-'' @ jobID);
         case directory of
           Inl err \<Rightarrow> State_Monad.return (Inl err)
         | Inr directory \<Rightarrow>
             fill_pending store jobID directory (''.starting-'' @ jobID) stateRaw runtimeRaw } }"

definition prepare :: "Store \<Rightarrow> PersistedJobState \<Rightarrow> RuntimeMetadata \<Rightarrow> pendingJob result io" where
  "prepare store initial runtime =
    (let jobID = jm_JobID (ps_Job initial) in
     if \<not> validJobID jobID then State_Monad.return (Inl [ErrInvalidJobID])
     else if jm_Status (ps_Job initial) \<noteq> JobStatusRunning \<or> jm_CapturedBytes (ps_Job initial) \<noteq> 0
     then State_Monad.return (Inl [ErrInvalidStateUpdate])
     else if sm_SessionID (ps_Session initial) \<noteq> st_sessionID store \<or>
             jm_Cwd (ps_Job initial) \<noteq> st_cwd store
     then State_Monad.return (Inl [ErrInvalidStateUpdate])
     else case encodeState (st_contracts store) (st_workspace store) initial of
       Inl err \<Rightarrow> State_Monad.return (Inl err)
     | Inr stateRaw \<Rightarrow>
         (case encodeRuntime (st_contracts store) runtime of
            Inl err \<Rightarrow> State_Monad.return (Inl err)
          | Inr runtimeRaw \<Rightarrow> stage_pending store jobID stateRaw runtimeRaw))"

text \<open>A lease and an error are both results; no lease means that the job was not committed.\<close>

definition commit :: "Store \<Rightarrow> pendingJob \<Rightarrow> ((runnerLease option \<times> error) \<times> pendingJob) io" where
  "commit store pending =
    (if pj_settled pending then State_Monad.return ((None, [ErrJobExists]), pending)
     else do {
       exists \<leftarrow> entryExists (st_jobs store) (pj_jobID pending);
       case exists of
         Inl err \<Rightarrow> State_Monad.return ((None, err), pending)
       | Inr True \<Rightarrow> State_Monad.return ((None, [ErrJobExists]), pending)
       | Inr False \<Rightarrow> do {
           renameErr \<leftarrow> unix_Renameat (st_jobs store) (pj_name pending) (pj_jobID pending);
           if renameErr \<noteq> noerr
           then State_Monad.return ((None, fmt_Errorf ''commit job: %w'' renameErr), pending)
           else do {
             syncErr \<leftarrow> file_Sync (st_jobs store);
             closeErr \<leftarrow> file_Close (pj_dir pending);
             State_Monad.return ((Some (pj_lease pending), errors_Join [syncErr, closeErr]),
               pending\<lparr> pj_settled := True \<rparr>) } } })"

definition lease_release :: "runnerLease \<Rightarrow> (runnerLease \<times> error) io" where
  "lease_release lease = releaseLocked lease"

definition abort :: "Store \<Rightarrow> pendingJob \<Rightarrow> (error \<times> pendingJob) io" where
  "abort store pending =
    (if pj_settled pending then State_Monad.return (noerr, pending)
     else do {
       (lease, err) \<leftarrow> lease_release (pj_lease pending);
       (_, removeErr) \<leftarrow> removeDirectoryContents (pj_dir pending);
       closeErr \<leftarrow> file_Close (pj_dir pending);
       dirErr \<leftarrow> removeDirectory (st_jobs store) (pj_name pending);
       State_Monad.return (errors_Join [err, removeErr, closeErr, dirErr],
         pending\<lparr> pj_settled := True, pj_lease := lease \<rparr>) })"

subsection \<open>A directory under construction\<close>

text \<open>
  \<open>p\<close>, the entry \<open>pn\<close> of the jobs directory, was not there in \<open>I0\<close>; nothing that was there has changed but hidden
  entries of the jobs directory \<open>jd\<close>.
\<close>

definition quiet :: "fs \<Rightarrow> nat \<Rightarrow> string \<Rightarrow> nat \<Rightarrow> fs \<Rightarrow> bool" where
  "quiet I0 jd pn p I \<longleftrightarrow>
    touches {} (hidden_in jd) I0 I \<and> I0 p = None \<and> p \<noteq> jd \<and> lookup_at I jd pn = Some p"

text \<open>Each of \<open>files\<close> is in it: a name, an inode that was not there in \<open>I0\<close>, and a content.\<close>

definition holds :: "fs \<Rightarrow> nat \<Rightarrow> (string \<times> nat \<times> bytes) list \<Rightarrow> fs \<Rightarrow> bool" where
  "holds I0 p files I \<longleftrightarrow>
    distinct (map fst files) \<and> distinct (map (fst \<circ> snd) files) \<and>
    (\<forall>(name, n, c) \<in> set files. \<not> hidden name \<and> lookup_at I p name = Some n \<and> I0 n = None \<and>
       (\<exists>x. I n = Some x \<and> i_data x = c))"

lemma touches_built:
  assumes "touches {} T I0 I" "touches W S I I'" "\<And>n name. (n, name) \<in> S \<Longrightarrow> (n, name) \<in> T \<or> I0 n = None"
    and fresh: "\<And>n. n \<in> W \<Longrightarrow> I0 n = None"
  shows "touches {} T I0 I'"
  unfolding touches_def
proof (intro allI impI)
  fix n x assume n: "I0 n = Some x"
  then obtain y where y: "I n = Some y" "i_kind y = i_kind x" "i_uid y = i_uid x" "i_perm y = i_perm x"
    "i_data y = i_data x" "\<forall>name. (n, name) \<notin> T \<longrightarrow> map_of (i_entries y) name = map_of (i_entries x) name"
    using assms(1) unfolding touches_def by blast
  moreover obtain z where "I' n = Some z" "i_kind z = i_kind y" "i_uid z = i_uid y" "i_perm z = i_perm y"
    "n \<notin> W \<longrightarrow> i_data z = i_data y" "\<forall>name. (n, name) \<notin> S \<longrightarrow> map_of (i_entries z) name = map_of (i_entries y) name"
    using assms(2) y(1) unfolding touches_def by blast
  moreover have "n \<notin> W"
    using fresh [of n] n by auto
  moreover have "(n, name) \<notin> T \<Longrightarrow> (n, name) \<notin> S" for name
    using assms(3) [of n name] n by auto
  ultimately show "\<exists>z. I' n = Some z \<and> i_kind z = i_kind x \<and> i_uid z = i_uid x \<and> i_perm z = i_perm x \<and>
      (n \<notin> {} \<longrightarrow> i_data z = i_data x) \<and>
      (\<forall>name. (n, name) \<notin> T \<longrightarrow> map_of (i_entries z) name = map_of (i_entries x) name)"
    by auto
qed

lemma touches_new:
  "touches {} T I0 I \<Longrightarrow> touches {} S I I' \<Longrightarrow> (\<And>n name. (n, name) \<in> S \<Longrightarrow> (n, name) \<in> T \<or> I0 n = None) \<Longrightarrow>
   touches {} T I0 I'"
  by (rule touches_built [where W = "{}"]) simp_all

lemma quiet_below:
  assumes "quiet I0 jd pn p I" "touches {} ({p} \<times> UNIV) I I'"
  shows "quiet I0 jd pn p I'"
proof -
  obtain dir where "I jd = Some dir"
    using assms(1) by (auto simp: quiet_def lookup_at_def split: option.splits)
  then have "lookup_at I' jd pn = lookup_at I jd pn"
    using touches_lookup [OF assms(2)] assms(1) by (simp add: quiet_def)
  then show ?thesis
    using assms touches_new [of "hidden_in jd" I0 I "{p} \<times> UNIV" I'] by (auto simp: quiet_def)
qed

lemma quiet_hidden:
  assumes "quiet I0 jd pn p I" "touches {} {(jd, name)} I I'" "hidden name"
  shows "touches {} (hidden_in jd) I0 I'"
  using assms touches_new [of "hidden_in jd" I0 I "{(jd, name)}" I'] by (auto simp: quiet_def)

lemma hidden_starting [simp]: "hidden (''.starting-'' @ name)"
  by (simp add: hidden_def has_prefix_def)

lemma holds_file:
  assumes "holds I0 p files I" "(name, n, c) \<in> set files"
  obtains x where "\<not> hidden name" "lookup_at I p name = Some n" "I0 n = None" "I n = Some x" "i_data x = c"
  using assms unfolding holds_def by fast

lemma holds_add:
  assumes "quiet I0 jd pn p I" "holds I0 p files I" "touches {} (insert (p, name) (hidden_in p)) I I'"
    and "\<not> hidden name" "name \<notin> fst ` set files"
    and "lookup_at I' p name = Some n" "I n = None" "I' n = Some x" "I p = Some dir"
  shows "holds I0 p ((name, n, i_data x) # files) I'"
proof -
  have keep: "lookup_at I' p f = Some m \<and> m \<noteq> n \<and> (\<exists>y. I' m = Some y \<and> i_data y = c)"
    if entry: "(f, m, c) \<in> set files" for f m c
  proof -
    obtain y where f: "\<not> hidden f" "lookup_at I p f = Some m" "I0 m = None" "I m = Some y" "i_data y = c"
      by (rule holds_file [OF assms(2) entry])
    have "f \<noteq> name"
      using assms(5) image_eqI [of f fst, OF _ entry] by auto
    with f have "lookup_at I' p f = Some m"
      using touches_lookup [OF assms(3,9), of f] by simp
    moreover have "\<exists>z. I' m = Some z \<and> i_data z = c"
      using touches_data [OF assms(3) f(4)] f(4,5) by auto
    ultimately show ?thesis
      using f(4) assms(7) by auto
  qed
  have "I0 n = None"
    using assms(1,7) touches_inode [of "{}" "hidden_in jd" I0 I n] by (cases "I0 n") (auto simp: quiet_def)
  have files: "\<not> hidden f" "I0 m = None" if "(f, m, c) \<in> set files" for f m c
    using holds_file [OF assms(2) that] by blast+
  have "n \<notin> (fst \<circ> snd) ` set files"
    using keep by force
  then show ?thesis
    using assms(2,4,5,6,8) keep files \<open>I0 n = None\<close> unfolding holds_def by auto
qed

lemma quiet_dir: "quiet I0 jd pn p I \<Longrightarrow> touches {} (insert (p, name) (hidden_in p)) I I' \<Longrightarrow> quiet I0 jd pn p I'"
  by (rule quiet_below) (auto elim: touches_mono)

lemma holds_dir:
  assumes "holds I0 p (f # files) I"
  obtains dir where "I p = Some dir"
proof -
  obtain name n c where "f = (name, n, c)" by (cases f)
  then have "lookup_at I p name = Some n"
    using assms by (simp add: holds_def)
  then show thesis
    using that by (auto simp: lookup_at_def split: option.splits)
qed

subsection \<open>Contracts\<close>

abbreviation plain :: "(string \<times> nat \<times> bytes) list \<Rightarrow> (string \<times> bytes) list" where
  "plain \<equiv> map (\<lambda>(name, n, c). (name, c))"

lemma fst_plain: "fst ` set files = fst ` set (plain files)"
  by (force simp: image_image case_prod_beta)

lemma wp_create_files:
  assumes "St u I F w" "F directory = Some (p, b)" "quiet I0 jd pn p I" "holds I0 p files I" "I p \<noteq> None"
    and "list_all (\<lambda>name. \<not> hidden name) names" "distinct (names @ map fst files)"
    and fail: "\<And>e I' w'. quiet I0 jd pn p I' \<Longrightarrow> St u I' F w' \<Longrightarrow> e \<noteq> [] \<Longrightarrow> Q e w'"
    and ok: "\<And>files' I' w'. quiet I0 jd pn p I' \<Longrightarrow> holds I0 p files' I' \<Longrightarrow> I' p \<noteq> None \<Longrightarrow> St u I' F w' \<Longrightarrow>
      plain files' = rev (map (\<lambda>name. (name, [])) names) @ plain files \<Longrightarrow> Q [] w'"
  shows "wp (create_files directory names) Q w"
  using assms(1,3-7) ok
proof (induction names arbitrary: I files w)
  case Nil
  then show ?case by simp
next
  case (Cons name names)
  show ?case
    unfolding create_files.simps wp_bind
  proof (rule wp_createSyncedFile [OF Cons.prems(1) assms(2)], goal_cases)
    case (1 e I' w')
    have "quiet I0 jd pn p I'"
      by (rule quiet_below [OF Cons.prems(2)]) (use 1(1) in \<open>auto elim: touches_mono\<close>)
    then show ?case using fail 1 by simp
  next
    case (2 n I' w')
    have t: "touches {} (insert (p, name) (hidden_in p)) I I'"
      using 2(1) by (auto simp: pending_temp_def elim: touches_mono)
    obtain dir where dir: "I p = Some dir" using Cons.prems(4) by blast
    obtain x where x: "lookup_at I' p name = Some n" "I n = None" "I' n = Some x" "i_data x = []"
      using 2(1) by (auto simp: pending_temp_def)
    let ?files = "(name, n, i_data x) # files"
    have new: "holds I0 p ?files I'"
      by (rule holds_add [OF Cons.prems(2,3) t _ _ x(1-3) dir]) (use Cons.prems(5,6) in auto)
    have p: "I' p \<noteq> None"
      using touches_inode [OF t dir] by auto
    have names: "distinct (names @ map fst ?files)" "list_all (\<lambda>name. \<not> hidden name) names"
      using Cons.prems(5,6) by simp_all
    have "wp (create_files directory names) Q w'"
      by (rule Cons.IH [OF 2(2) quiet_dir [OF Cons.prems(2) t] new p names(2,1)])
        (erule (3) Cons.prems(7), simp add: x(4))
    then show ?case by simp
  qed
qed

lemma wp_prepare_cleanup:
  assumes "St u I (F(directory \<mapsto> (p, b))) w" "F directory = None" "F (st_jobs store) = Some (jd, b')"
    and "quiet I0 jd pn p I" "hidden pendingName" "cause \<noteq> []"
    and fail: "\<And>e I' w'. touches {} (hidden_in jd) I0 I' \<Longrightarrow> St u I' F w' \<Longrightarrow> e \<noteq> [] \<Longrightarrow> Q (Inl e) w'"
  shows "wp (prepare_cleanup store directory pendingName cause) Q w"
proof -
  have F: "(F(directory \<mapsto> (p, b)))(directory := None) = F"
    using assms(2) by auto
  have finish: "wp (file_Close directory) (\<lambda>closeErr. wp (removeDirectory (st_jobs store) pendingName)
      (\<lambda>dirErr. wp (State_Monad.return (Inl (cause @ removeErr @ closeErr @ dirErr))) Q)) w'"
    if "quiet I0 jd pn p I'" "St u I' (F(directory \<mapsto> (p, b))) w'" for I' w' removeErr
  proof (rule wp_Close [OF that(2)], goal_cases)
    case (1 closeErr w2)
    then have st: "St u I' F w2" unfolding F .
    show ?case
    proof (rule wp_removeDirectory [OF st assms(3)], goal_cases)
      case (1 e w3)
      then show ?case using fail [of I' w3] that(1) assms(6) by (simp add: quiet_def)
    next
      case (2 e I'' w3)
      then show ?case
        using fail [of I'' w3] quiet_hidden [OF that(1) 2(1) assms(5)] assms(6) by (simp add: quiet_def)
    qed
  qed
  show ?thesis
    unfolding prepare_cleanup_def wp_bind wp_case_prod
  proof (rule wp_removeDirectoryContents [OF assms(1), where d = p and b = b], goal_cases)
    case (2 e I' w')
    show ?case
      using finish [OF quiet_below [OF assms(4) 2(1)] 2(2), of e] by simp
  next
    case (3 e I' dir' w')
    show ?case
      using finish [OF quiet_below [OF assms(4) 3(1)] 3(2), of e] by simp
  qed simp
qed

text \<open>A job that is ready to appear, with its runner lock held through \<open>lock\<close>.\<close>

definition ready ::
  "Store \<Rightarrow> PersistedJobState \<Rightarrow> fs \<Rightarrow> nat \<Rightarrow> string \<Rightarrow> nat \<Rightarrow> nat \<Rightarrow> fs \<Rightarrow> bool" where
  "ready store initial I0 jd pn p n I \<longleftrightarrow>
    quiet I0 jd pn p I \<and> lookup_at I p ''runner.lock'' = Some n \<and> job_on_disk store I p initial [] \<and>
    (\<forall>m. lookup_at I p ''output.log'' = Some m \<longrightarrow> I0 m = None)"

lemma holds_content:
  assumes "holds I0 p files I" "(name, c) \<in> set (plain files)"
  shows "content_at I p name = Some c"
proof -
  obtain n where entry: "(name, n, c) \<in> set files"
    using assms(2) by auto
  show ?thesis
    by (rule holds_file [OF assms(1) entry]) (simp add: content_at_def)
qed

lemma holds_apart:
  assumes "holds I0 p files I" "(f, c) \<in> set (plain files)" "(g, d) \<in> set (plain files)" "f \<noteq> g"
  shows "lookup_at I p f \<noteq> lookup_at I p g"
proof -
  obtain n m where f: "(f, n, c) \<in> set files" and g: "(g, m, d) \<in> set files"
    using assms(2,3) by auto
  have "inj_on (fst \<circ> snd) (set files)"
    using assms(1) by (simp add: holds_def distinct_map)
  then have "n \<noteq> m"
    using inj_onD [of "fst \<circ> snd", OF _ _ f g] assms(4) by auto
  moreover have "lookup_at I p f = Some n" "lookup_at I p g = Some m"
    using holds_file [OF assms(1) f] holds_file [OF assms(1) g] by blast+
  ultimately show ?thesis
    by simp
qed

lemma holds_new:
  assumes "holds I0 p files I" "(f, c) \<in> set (plain files)" "lookup_at I p f = Some m"
  shows "I0 m = None"
proof -
  obtain n where entry: "(f, n, c) \<in> set files"
    using assms(2) by auto
  show ?thesis
    by (rule holds_file [OF assms(1) entry]) (use assms(3) in simp)
qed

lemma encoded_on_disk:
  assumes "encodeState (st_contracts store) (st_workspace store) initial = Inr raw"
    and "content_at I p ''state.json'' = Some raw"
  shows "state_at store I p = Some initial"
  using encodeState_Inr [OF assms(1)] assms(2) by (simp add: state_at_def Let_def) (metis fst_conv)

lemma wp_write_pending:
  assumes st: "St u I F w" and d: "F directory = Some (p, b)" and q: "quiet I0 jd pn p I"
    and h: "holds I0 p (f # files) I" and new: "\<not> hidden name" "name \<notin> fst ` set (f # files)"
    and fail: "\<And>e I' w'. quiet I0 jd pn p I' \<Longrightarrow> St u I' F w' \<Longrightarrow> e \<noteq> [] \<Longrightarrow> Q e w'"
    and ok: "\<And>n I' w'. quiet I0 jd pn p I' \<Longrightarrow> holds I0 p ((name, n, raw) # f # files) I' \<Longrightarrow> St u I' F w' \<Longrightarrow>
      Q [] w'"
  shows "wp (writeAtomicFile directory name raw) Q w"
proof (rule wp_writeAtomicFile [OF st d], goal_cases)
  case (1 e I' w')
  have "quiet I0 jd pn p I'"
    by (rule quiet_below [OF q]) (use 1(1) in \<open>auto elim: touches_mono\<close>)
  then show ?case using fail 1 by simp
next
  case (2 e I' w')
  then obtain n x where t: "touches {} (insert (p, name) (hidden_in p)) I I'" and
      x: "lookup_at I' p name = Some n" "I n = None" "I' n = Some x" "i_data x = raw"
    by (auto simp: replaced_def)
  obtain dir where dir: "I p = Some dir" by (rule holds_dir [OF h])
  have "holds I0 p ((name, n, raw) # f # files) I'"
    using holds_add [OF q h t new x(1-3) dir] x(4) by simp
  then show ?case
    using fail ok quiet_dir [OF q t] 2(2) by (cases "e = []") simp_all
qed

lemma wp_fill_pending:
  assumes st: "St u I (F(directory \<mapsto> (p, False))) w" and free: "F directory = None"
    and jobs: "F (st_jobs store) = Some (jd, b')" and q: "quiet I0 jd pn p I" and dir: "I p \<noteq> None"
    and name: "hidden pendingName" and zero: "jm_CapturedBytes (ps_Job initial) = 0"
    and enc: "encodeState (st_contracts store) (st_workspace store) initial = Inr stateRaw"
    and fail: "\<And>e I' w'. touches {} (hidden_in jd) I0 I' \<Longrightarrow> St u I' F w' \<Longrightarrow> e \<noteq> [] \<Longrightarrow> Q (Inl e) w'"
    and ok: "\<And>lock n I' w'. ready store initial I0 jd pn p n I' \<Longrightarrow> F lock = None \<Longrightarrow> lock \<noteq> directory \<Longrightarrow>
      St u I' (F(directory \<mapsto> (p, False), lock \<mapsto> (n, True))) w' \<Longrightarrow>
      Q (Inr \<lparr> pj_dir = directory, pj_name = pendingName, pj_jobID = jobID,
               pj_lease = \<lparr> le_file = Some lock, le_jobID = jobID \<rparr>, pj_settled = False \<rparr>) w'"
  shows "wp (fill_pending store jobID directory pendingName stateRaw runtimeRaw) Q w"
proof -
  define G where "G = F(directory \<mapsto> (p, False))"
  have d: "G directory = Some (p, False)" by (simp add: G_def)
  note st = st [folded G_def] and ok = ok [folded G_def]
  have cleanup: "wp (prepare_cleanup store directory pendingName e) Q w'"
    if "quiet I0 jd pn p I'" "St u I' G w'" "e \<noteq> []" for e I' w'
    by (rule wp_prepare_cleanup [where Q = Q, OF that(2) [unfolded G_def] free jobs that(1) name that(3)])
      (rule fail)
  have lock: "wp (openPrivateFileAt directory ''runner.lock'' {O_RDWR}) (\<lambda>r. wp (case r of
        Inl err \<Rightarrow> prepare_cleanup store directory pendingName err
      | Inr lock \<Rightarrow> do {
          lockErr \<leftarrow> lockFile lock True;
          if lockErr \<noteq> noerr then do {
            closeErr \<leftarrow> file_Close lock;
            prepare_cleanup store directory pendingName (errors_Join [lockErr, closeErr]) }
          else State_Monad.return (Inr
            \<lparr> pj_dir = directory, pj_name = pendingName, pj_jobID = jobID,
              pj_lease = \<lparr> le_file = Some lock, le_jobID = jobID \<rparr>, pj_settled = False \<rparr>) }) Q) w'"
    if q': "quiet I0 jd pn p I'" and st': "St u I' G w'"
      and r: "\<And>n. lookup_at I' p ''runner.lock'' = Some n \<Longrightarrow> ready store initial I0 jd pn p n I'" for I' w'
  proof (rule wp_openPrivateFileAt [OF st'], goal_cases)
    case (2 e w2)
    then show ?case using cleanup [OF q'] by simp
  next
    case (3 l n x w2)
    have n: "lookup_at I' p ''runner.lock'' = Some n"
      using 3(4) d by (auto simp: entry_at_def lookup_at_def)
    have l: "F l = None" "l \<noteq> directory"
      using 3(1) by (auto simp: G_def split: if_splits)
    have F: "(G(l \<mapsto> (n, c)))(l := None) = G" for c
      using l by (auto simp: G_def fun_eq_iff)
    show ?case
      unfolding sum.case wp_bind
    proof (rule wp_acquire [OF 3(2) takes_lock_lockFile], goal_cases)
      case (1 e w3)
      have "wp (file_Close l) (\<lambda>closeErr. wp (prepare_cleanup store directory pendingName (e @ closeErr)) Q) w3"
        by (rule wp_Close [OF 1(1)]) (use 1(2) F in \<open>auto intro!: cleanup [OF q']\<close>)
      with 1(2) show ?case by simp
    next
      case (2 m c w3)
      then show ?case
        using ok [OF r [OF n] l] by simp
    qed
  qed simp
  show ?thesis
    unfolding fill_pending_def wp_bind
  proof (rule wp_create_files [OF st d q, where files = "[]"], goal_cases)
    case (5 e I' w')
    then show ?case using cleanup by simp
  next
    case (6 files I' w')
    have plain: "set (plain files) = (\<lambda>name. (name, [])) ` set empty_files"
      using 6(5) by simp
    then have names: "fst ` set files = set empty_files"
      unfolding fst_plain by (simp add: image_image)
    then obtain f1 fs where files: "files = f1 # fs"
      by (cases files) (simp_all add: empty_files_def)
    show ?case
      unfolding simp_thms if_False wp_bind
    proof (rule wp_write_pending [OF 6(4) d 6(1) 6(2) [unfolded files]], goal_cases)
      case 1 show ?case by (simp add: hidden_def has_prefix_def)
    next
      case 2 show ?case unfolding files [symmetric] names by (simp add: empty_files_def)
    next
      case (3 e I2 w2)
      then show ?case using cleanup by simp
    next
      case (4 n2 I2 w2)
      show ?case
        unfolding simp_thms if_False wp_bind
      proof (rule wp_write_pending [OF 4(3) d 4(1,2)], goal_cases)
        case 1 show ?case by (simp add: hidden_def has_prefix_def)
      next
        case 2 show ?case using names by (simp add: files empty_files_def)
      next
        case (3 e I3 w3)
        then show ?case using cleanup by simp
      next
        case (4 n3 I3 w3)
        let ?files = "(''state.json'', n3, stateRaw) # (''runtime.json'', n2, runtimeRaw) # f1 # fs"
        have in_plain: "(''output.log'', []) \<in> set (plain ?files)" "(''state.json'', stateRaw) \<in> set (plain ?files)"
          using plain by (auto simp: files empty_files_def)
        have "job_on_disk store I3 p initial []"
          unfolding job_on_disk_def
          using encoded_on_disk [OF enc holds_content [OF 4(2) in_plain(2)]] zero
            holds_content [OF 4(2) in_plain(1)] holds_apart [OF 4(2) in_plain(2,1)]
          by (simp add: output_at_def)
        moreover have "\<forall>m. lookup_at I3 p ''output.log'' = Some m \<longrightarrow> I0 m = None"
          using holds_new [OF 4(2) in_plain(1)] by simp
        ultimately have "ready store initial I0 jd pn p n I3" if "lookup_at I3 p ''runner.lock'' = Some n" for n
          using 4(1) that by (simp add: ready_def)
        then show ?case
          using lock [OF 4(1,3)] by simp
      qed
    qed
  qed (use dir in \<open>simp_all add: holds_def empty_files_def hidden_def has_prefix_def\<close>)
qed

text \<open>A pending job: its directory and its lock are the only open descriptors it adds to \<open>F\<close>.\<close>

definition pending_of ::
  "Store \<Rightarrow> PersistedJobState \<Rightarrow> fs \<Rightarrow> fdtable \<Rightarrow> nat \<Rightarrow> pendingJob \<Rightarrow> nat \<Rightarrow> nat \<Rightarrow> handle \<Rightarrow> handle \<Rightarrow>
   fs \<Rightarrow> bool" where
  "pending_of store initial I0 F jd pending p n directory lock I \<longleftrightarrow>
    ready store initial I0 jd (pj_name pending) p n I \<and> validJobID (jm_JobID (ps_Job initial)) \<and>
    F directory = None \<and> F lock = None \<and> lock \<noteq> directory \<and>
    pending = \<lparr> pj_dir = directory, pj_name = ''.starting-'' @ jm_JobID (ps_Job initial),
      pj_jobID = jm_JobID (ps_Job initial),
      pj_lease = \<lparr> le_file = Some lock, le_jobID = jm_JobID (ps_Job initial) \<rparr>, pj_settled = False \<rparr>"

lemma encodeState_not_nil: "encodeState k workspace s \<noteq> Inl []"
  by (auto simp: encodeState_def split: option.splits prod.splits)

lemma encodeRuntime_not_nil: "encodeRuntime k runtime \<noteq> Inl []"
  by (auto simp: encodeRuntime_def split: option.splits)

lemma prepare_checks:
  "validJobID (jm_JobID (ps_Job initial)) \<and> jm_CapturedBytes (ps_Job initial) = 0 \<and>
     jm_Status (ps_Job initial) = JobStatusRunning \<and>
     sm_SessionID (ps_Session initial) = st_sessionID store \<and> jm_Cwd (ps_Job initial) = st_cwd store \<or>
   prepare store initial runtime = State_Monad.return (Inl [ErrInvalidJobID]) \<or>
   prepare store initial runtime = State_Monad.return (Inl [ErrInvalidStateUpdate])"
  by (simp add: prepare_def Let_def)

lemma wp_prepare:
  assumes st: "St u I F w" and jobs: "F (st_jobs store) = Some (jd, b)"
    and fail: "\<And>e I' w'. touches {} (hidden_in jd) I I' \<Longrightarrow> St u I' F w' \<Longrightarrow> e \<noteq> [] \<Longrightarrow> Q (Inl e) w'"
    and ok: "\<And>pending p n directory lock I' w'.
      pending_of store initial I F jd pending p n directory lock I' \<Longrightarrow>
      St u I' (F(directory \<mapsto> (p, False), lock \<mapsto> (n, True))) w' \<Longrightarrow> Q (Inr pending) w'"
  shows "wp (prepare store initial runtime) Q w"
proof -
  let ?id = "jm_JobID (ps_Job initial)"
  have bad: "Q (Inl e) w'" if "St u I F w'" "e \<noteq> []" for e w'
    by (rule fail [OF touches_refl that])
  consider (invalid) e where "prepare store initial runtime = State_Monad.return (Inl e)" "e \<noteq> []"
    | (valid) stateRaw runtimeRaw where "validJobID ?id" "jm_CapturedBytes (ps_Job initial) = 0"
      "encodeState (st_contracts store) (st_workspace store) initial = Inr stateRaw"
      "prepare store initial runtime = stage_pending store ?id stateRaw runtimeRaw"
  proof -
    consider "validJobID ?id" "jm_CapturedBytes (ps_Job initial) = 0" "jm_Status (ps_Job initial) = JobStatusRunning"
        "sm_SessionID (ps_Session initial) = st_sessionID store" "jm_Cwd (ps_Job initial) = st_cwd store"
      | "prepare store initial runtime = State_Monad.return (Inl [ErrInvalidJobID])"
      | "prepare store initial runtime = State_Monad.return (Inl [ErrInvalidStateUpdate])"
      using prepare_checks [of initial store runtime] by blast
    then show thesis
    proof cases
      case 1
      then show thesis
        using that encodeState_not_nil [of "st_contracts store" "st_workspace store" initial]
          encodeRuntime_not_nil [of "st_contracts store" runtime]
        by (cases "encodeState (st_contracts store) (st_workspace store) initial";
            cases "encodeRuntime (st_contracts store) runtime") (auto simp: prepare_def Let_def)
    qed (use that(1) in simp_all)
  qed
  then show ?thesis
  proof cases
    case invalid
    then show ?thesis using bad [OF st] by simp
  next
    case valid
    have created: "wp (createPrivateDirectory (st_jobs store) (''.starting-'' @ ?id)) (\<lambda>r. wp (case r of
        Inl err \<Rightarrow> State_Monad.return (Inl err)
      | Inr directory \<Rightarrow>
          fill_pending store ?id directory (''.starting-'' @ ?id) stateRaw runtimeRaw) Q) w'"
      if "St u I F w'" for w'
    proof (rule wp_createPrivateDirectory [OF that jobs], goal_cases)
      case (1 e I' w2)
      then show ?case
        using fail [of I' w2] touches_mono [OF 1(1), of "{}" "hidden_in jd"] by simp
    next
      case (2 h p I' w2)
      have q: "quiet I jd (''.starting-'' @ ?id) p I'"
        using 2 touches_mono [OF 2(1), of "{}" "hidden_in jd"] by (simp add: quiet_def)
      have "wp (fill_pending store ?id h (''.starting-'' @ ?id) stateRaw runtimeRaw) Q w2"
      proof (rule wp_fill_pending [OF 2(7,2) jobs q _ _ valid(2,3)], goal_cases)
        case (3 e I2 w3)
        then show ?case by (rule fail)
      next
        case (4 lock n I2 w3)
        show ?case
          by (rule ok [OF _ 4(4)]) (use 4 2 valid(1) in \<open>simp add: pending_of_def\<close>)
      qed (use 2 in simp_all)
      then show ?case by simp
    qed
    show ?thesis
      unfolding valid(4) stage_pending_def wp_bind
    proof (rule wp_entryExists [OF st], goal_cases)
      case (2 w')
      then show ?case using created by (simp cong: sum.case_cong)
    qed (simp_all add: bad)
  qed
qed

text \<open>After \<open>commit\<close>: the job has not moved, or it stands complete under its identifier.\<close>

lemma renamed_ready:
  assumes "ready store initial I0 jd pn p n I" "hidden pn" "lookup_at I jd name = None" "I jd = Some dir"
    and "\<not> hidden name"
  shows "touches {} (insert (jd, name) (hidden_in jd)) I0 (fs_rename I jd pn name p)"
    and "lookup_at (fs_rename I jd pn name p) p ''output.log'' = Some m \<Longrightarrow> I0 m = None"
    and "lookup_at (fs_rename I jd pn name p) jd name = Some p"
    and "lookup_at (fs_rename I jd pn name p) p ''runner.lock'' = Some n"
    and "job_on_disk store (fs_rename I jd pn name p) p initial []"
proof -
  have q: "touches {} (hidden_in jd) I0 I" "p \<noteq> jd"
    using assms(1) by (auto simp: ready_def quiet_def)
  have t: "touches {} {(jd, pn), (jd, name)} I (fs_rename I jd pn name p)"
    by (rule touches_rename)
  show "touches {} (insert (jd, name) (hidden_in jd)) I0 (fs_rename I jd pn name p)"
    by (rule touches_trans [OF q(1) t]) (use assms(2) in auto)
  show "lookup_at (fs_rename I jd pn name p) jd name = Some p"
    using assms(4) by (simp add: lookup_at_def fs_rename_def fs_update_def)
  have away: "away I p {} {(jd, pn), (jd, name)}"
    using q(2) by (simp add: away_def)
  show "job_on_disk store (fs_rename I jd pn name p) p initial []"
    by (rule job_on_disk_away [OF t away]) (use assms(1) in \<open>simp add: ready_def\<close>)
  obtain dir' where "I p = Some dir'"
    using assms(1) by (auto simp: ready_def lookup_at_def split: option.splits)
  from touches_lookup [OF t this]
  show "lookup_at (fs_rename I jd pn name p) p ''output.log'' = Some m \<Longrightarrow> I0 m = None"
    using assms(1) q(2) by (simp add: ready_def)
  show "lookup_at (fs_rename I jd pn name p) p ''runner.lock'' = Some n"
    by (rule lookup_touches [OF t]) (use assms(1) q(2) in \<open>simp_all add: ready_def\<close>)
qed

lemma validJobID_not_hidden: "validJobID name \<Longrightarrow> \<not> hidden name"
  by (cases name) (auto simp: validJobID_def hidden_def has_prefix_def jobID_char_def in_chars_def split: if_splits)

text \<open>What is on disk when a job has appeared: nothing of \<open>I0\<close> has changed but its entry.\<close>

definition appeared ::
  "Store \<Rightarrow> PersistedJobState \<Rightarrow> fs \<Rightarrow> nat \<Rightarrow> nat \<Rightarrow> nat \<Rightarrow> fs \<Rightarrow> bool" where
  "appeared store initial I0 jd p n I \<longleftrightarrow>
    I0 p = None \<and> lookup_at I jd (jm_JobID (ps_Job initial)) = Some p \<and>
    lookup_at I p ''runner.lock'' = Some n \<and> job_on_disk store I p initial [] \<and>
    (\<forall>m. lookup_at I p ''output.log'' = Some m \<longrightarrow> I0 m = None) \<and>
    touches {} (insert (jd, jm_JobID (ps_Job initial)) (hidden_in jd)) I0 I"

lemma wp_commit:
  assumes pend: "pending_of store initial I0 F jd pending p n directory lock I"
    and G: "G = F(directory \<mapsto> (p, False), lock \<mapsto> (n, True))"
    and st: "St u I G w" and jobs: "F (st_jobs store) = Some (jd, b)"
    and new: "lookup_at I0 jd (jm_JobID (ps_Job initial)) = None" and I0dir: "I0 jd = Some I0dir"
    and fail: "\<And>e w'. St u I G w' \<Longrightarrow> e \<noteq> [] \<Longrightarrow> Q ((None, e), pending) w'"
    and ok: "\<And>e I' w'. appeared store initial I0 jd p n I' \<Longrightarrow> St u I' (F(lock \<mapsto> (n, True))) w' \<Longrightarrow>
      Q ((Some (pj_lease pending), e), pending\<lparr> pj_settled := True \<rparr>) w'"
  shows "wp (commit store pending) Q w"
proof -
  let ?id = "jm_JobID (ps_Job initial)"
  have p: "pj_settled pending = False" "pj_jobID pending = ?id" "pj_dir pending = directory"
      "pj_name pending = ''.starting-'' @ ?id" "ready store initial I0 jd (pj_name pending) p n I"
      "F directory = None" "F lock = None" "lock \<noteq> directory" "\<not> hidden ?id"
    using pend validJobID_not_hidden by (auto simp: pending_of_def)
  have jobs': "G (st_jobs store) = Some (jd, b)"
    using jobs p(6,7) by (auto simp: G)
  have closed: "G(directory := None) = F(lock \<mapsto> (n, True))"
    using p(6,8) by (auto simp: G fun_eq_iff)
  have t: "touches {} (hidden_in jd) I0 I"
    using p(5) by (simp add: ready_def quiet_def)
  have free: "lookup_at I jd ?id = None"
    using touches_lookup [OF t I0dir, of ?id] new p(9) by simp
  have renamed: "wp (unix_Renameat (st_jobs store) (pj_name pending) ?id) (\<lambda>renameErr. wp
      (if renameErr \<noteq> noerr
       then State_Monad.return ((None, fmt_Errorf ''commit job: %w'' renameErr), pending)
       else do {
         syncErr \<leftarrow> file_Sync (st_jobs store);
         closeErr \<leftarrow> file_Close (pj_dir pending);
         State_Monad.return ((Some (pj_lease pending), errors_Join [syncErr, closeErr]),
           pending\<lparr> pj_settled := True \<rparr>) }) Q) w'" if "St u I G w'" for w'
  proof (rule wp_Renameat [OF that], goal_cases)
    case (1 e w2)
    then show ?case using fail by simp
  next
    case (2 d b' dir m x w2)
    then show ?case
      using free jobs' by (simp add: lookup_at_def)
  next
    case (3 d b' dir m x w2)
    have d: "d = jd" "m = p" "I jd = Some dir"
      using 3(1,2,4) jobs' p(5) by (auto simp: ready_def quiet_def lookup_at_def)
    have a: "appeared store initial I0 jd p n (fs_rename I jd (pj_name pending) ?id p)"
      using renamed_ready [OF p(5) _ free d(3) p(9)] p(4,5) by (simp add: appeared_def ready_def quiet_def)
    have closing: "wp (file_Close directory) (\<lambda>closeErr. Q ((Some (pj_lease pending), e2 @ closeErr),
        pending\<lparr> pj_settled := True \<rparr>)) w3"
      if "St u (fs_rename I jd (pj_name pending) ?id p) G w3" for e2 w3
      by (rule wp_Close [OF that]) (simp add: closed ok [OF a])
    show ?case
      using 3(7) closing closing [of _ "[]"] unfolding d p(3) by (simp, elim wp_Sync) (simp_all add: wp_return_fun)
  next
    case (4 d b' dir m x m' y w2)
    then show ?case
      using free jobs' by (simp add: lookup_at_def)
  qed
  show ?thesis
    unfolding commit_def p(1,2) if_False wp_bind
    by (rule wp_entryExists [OF st]) (use fail renamed in \<open>simp_all add: p(2) cong: sum.case_cong\<close>)
qed

lemma wp_abort:
  assumes pend: "pending_of store initial I0 F jd pending p n directory lock I"
    and st: "St u I (F(directory \<mapsto> (p, False), lock \<mapsto> (n, True))) w"
    and jobs: "F (st_jobs store) = Some (jd, b)"
    and ok: "\<And>e I' w'. touches {} (hidden_in jd) I0 I' \<Longrightarrow> St u I' F w' \<Longrightarrow>
      Q (e, pending\<lparr> pj_settled := True, pj_lease := (pj_lease pending)\<lparr> le_file := None \<rparr> \<rparr>) w'"
  shows "wp (abort store pending) Q w"
proof -
  let ?done = "pending\<lparr> pj_settled := True, pj_lease := (pj_lease pending)\<lparr> le_file := None \<rparr> \<rparr>"
  have p: "pj_settled pending = False" "pj_dir pending = directory" "le_file (pj_lease pending) = Some lock"
      "quiet I0 jd (pj_name pending) p I" "hidden (pj_name pending)"
      "F directory = None" "F lock = None" "lock \<noteq> directory"
    using pend by (auto simp: pending_of_def ready_def)
  have F1: "(F(directory \<mapsto> (p, False), lock \<mapsto> (n, True)))(lock := None) = F(directory \<mapsto> (p, False))"
    and F2: "F(directory := None) = F"
    using p(6-8) by (auto simp: fun_eq_iff)
  have rest: "wp (file_Close directory) (\<lambda>closeErr. wp (removeDirectory (st_jobs store) (pj_name pending))
      (\<lambda>dirErr. Q (e1 @ e2 @ closeErr @ dirErr, ?done))) w'"
    if q: "quiet I0 jd (pj_name pending) p I'" and st: "St u I' (F(directory \<mapsto> (p, False))) w'" for e1 e2 I' w'
  proof (rule wp_Close [OF st], goal_cases)
    case (1 closeErr w2)
    then have st: "St u I' F w2" by (simp add: F2)
    have t: "touches {} (hidden_in jd) I0 I'" using q by (simp add: quiet_def)
    note okd = ok [where e = "e1 @ e2 @ closeErr @ _"] ok [where e = "e1 @ e2 @ closeErr", simplified]
    show ?case
    proof (rule wp_removeDirectory [OF st jobs], goal_cases)
      case (1 e w3)
      then show ?case using okd t by simp
    next
      case (2 e I2 w3)
      then show ?case
        using okd quiet_hidden [OF q 2(1) p(5)] touches_mono by blast
    qed
  qed
  show ?thesis
    unfolding abort_def lease_release_def releaseLocked_def p(1,2,3) if_False option.case wp_bind wp_case_prod
  proof (rule wp_unlock_close [OF st], goal_cases)
    case (1 e w')
    then have st': "St u I (F(directory \<mapsto> (p, False))) w'" by (simp only: F1)
    show ?case
      unfolding wp_return fst_conv snd_conv wp_bind
    proof (rule wp_removeDirectoryContents [OF st', where d = p and b = False], goal_cases)
      case (2 e2 I' w2)
      then show ?case
        using rest [OF quiet_below [OF p(4) 2(1)], of w2 e e2] by (simp add: wp_return_fun)
    next
      case (3 e2 I' dir' w2)
      then show ?case
        using rest [OF quiet_below [OF p(4) 3(1)], of w2 e e2] by (simp add: wp_return_fun)
    qed simp
  qed
qed

end
