(* ===== verification/Runner.thy ===== *)
theory Runner
  imports Guardian Creation
begin

section \<open>The detached runner\<close>

text \<open>
  \<open>runDetachedRunner\<close> of \<open>internal/runner/execute_unix.go\<close>, whole: it reads the start request, opens
  the store, starts the shell, prepares the job, reports it, waits for the commit frame, commits
  the job, supervises the shell and publishes the end. What it works with is given by
  \<open>runner_env\<close>: the codecs, the answers of the calls that start processes (\<^theory_text>\<open>Guardian\<close>), and the
  events of its two select loops (\<^theory_text>\<open>Supervise\<close>). Its input and its control pipe are a reader and a
  writer (\<^theory_text>\<open>Frames\<close>); its files are those of the world it runs in, with faults and crashes.
  The deferred calls of the code stand at the ends of the functions in reverse order. Marking
  the two directories close-on-exec and closing the pipe of the guardian's lifetime have no effect
  that the model has.
\<close>

subsection \<open>Definitions\<close>

record internalCommitted =
  ic_Job :: JobMetadata
  ic_DurabilityError :: string

record runner_env =
  rn_json_Valid :: "bytes \<Rightarrow> bool"
  rn_start :: "internalStartRequest codec"
  rn_empty :: "unit codec"
  rn_committed :: "internalCommitted codec"
  rn_Load :: "Contracts result"
  rn_launch :: launch_env
  rn_Getpid :: int
  rn_Error :: "error \<Rightarrow> string"
  rn_closeControl :: error
  rn_stopEvents :: "supervise_event list"
  rn_events :: "supervise_event list"

text \<open>What is left: the returned error, the control pipe, and the shell once it was started.\<close>

type_synonym runner_end = "error \<times> writer \<times> runningShell option"

text \<open>\<open>stopUnpublishedShell\<close> in the runner's world: it may block.\<close>

definition stop_shell :: "runner_env \<Rightarrow> launched \<Rightarrow> (error \<times> runningShell) io" where
  "stop_shell env launched =
    (case stopUnpublishedShell (la_shell launched) (rn_stopEvents env) of
       None \<Rightarrow> do { hang; State_Monad.return (noerr, la_shell launched) }
     | Some r \<Rightarrow> State_Monad.return r)"

text \<open>After the supervision: the end is published, and the lease released if the publication left it.\<close>

definition runner_publishes ::
  "Store \<Rightarrow> JobID \<Rightarrow> runnerLease \<Rightarrow> error \<Rightarrow> error \<Rightarrow> executionOutcome result \<Rightarrow> error io" where
  "runner_publishes store jobID lease writeErr commitErr outcome = do {
     (lease', err) \<leftarrow> (case outcome of
         Inl err \<Rightarrow> State_Monad.return (lease, errors_Join [writeErr, err])
       | Inr outcome \<Rightarrow> do {
           (lease', publishErr) \<leftarrow> publishExecutionTerminal store jobID outcome lease;
           State_Monad.return (lease',
             if publishErr \<noteq> noerr then errors_Join [writeErr, publishErr]
             else errors_Join [writeErr, commitErr]) });
     (_, releaseErr) \<leftarrow> lease_release lease';
     State_Monad.return (errors_Join [err, releaseErr]) }"

text \<open>From the commit on.\<close>

definition runner_committed ::
  "runner_env \<Rightarrow> internalStartRequest \<Rightarrow> Store \<Rightarrow> launched \<Rightarrow> PersistedJobState \<Rightarrow> runnerLease \<Rightarrow> error \<Rightarrow>
   writer \<Rightarrow> runner_end io" where
  "runner_committed env request store launched initial lease commitErr control =
    (let committed = \<lparr> ic_Job = ps_Job initial,
           ic_DurabilityError = (if commitErr \<noteq> noerr then rn_Error env commitErr else []) \<rparr> in
     case writeFrame (rn_committed env) frameCommitted committed control of
       (writeErr, control') \<Rightarrow>
         let writeErr = (if writeErr \<noteq> noerr then errors_Join [writeErr, rn_closeControl env] else noerr) in
         do {
           (outcome, shell) \<leftarrow> superviseShell store (is_JobID request) (la_shell launched)
             (from_Milliseconds (is_TerminationGraceMs request)) (rn_events env);
           err \<leftarrow> runner_publishes store (is_JobID request) lease writeErr commitErr outcome;
           State_Monad.return (err, control', Some shell) })"

text \<open>The paths that give up a prepared job: the shell is stopped, then the job is aborted.\<close>

definition runner_gives_up ::
  "runner_env \<Rightarrow> Store \<Rightarrow> launched \<Rightarrow> pendingJob \<Rightarrow> error \<Rightarrow> writer \<Rightarrow> runner_end io" where
  "runner_gives_up env store launched pending cause control = do {
     (stopErr, shell) \<leftarrow> stop_shell env launched;
     (abortErr, _) \<leftarrow> abort store pending;
     State_Monad.return (errors_Join [cause, stopErr, abortErr], control, Some shell) }"

text \<open>From the prepared job to the commit.\<close>

definition runner_prepared ::
  "runner_env \<Rightarrow> internalStartRequest \<Rightarrow> Store \<Rightarrow> launched \<Rightarrow> PersistedJobState \<Rightarrow> pendingJob \<Rightarrow> reader \<Rightarrow>
   writer \<Rightarrow> runner_end io" where
  "runner_prepared env request store launched initial pending input control =
    (case writeFrame (rn_empty env) framePrepared () control of
       (writeErr, control') \<Rightarrow>
         if writeErr \<noteq> noerr then runner_gives_up env store launched pending writeErr control'
         else case fst (readFrame (rn_json_Valid env) input) of
           Inl err \<Rightarrow> runner_gives_up env store launched pending (errors_Join [err, [ErrStartupFailed]]) control'
         | Inr frame \<Rightarrow>
             if if_kind frame \<noteq> frameCommit
             then runner_gives_up env store launched pending [ErrStartupFailed] control'
             else do {
               ((lease, commitErr), pending') \<leftarrow> commit store pending;
               case lease of
                 None \<Rightarrow> runner_gives_up env store launched pending' commitErr control'
               | Some l \<Rightarrow> runner_committed env request store launched initial l commitErr control' })"

text \<open>From the started shell to the prepared job.\<close>

definition runner_started ::
  "runner_env \<Rightarrow> internalStartRequest \<Rightarrow> Store \<Rightarrow> launched \<Rightarrow> reader \<Rightarrow> writer \<Rightarrow> runner_end io" where
  "runner_started env request store launched input control =
    (let initial = initialJobState request (la_startedUnixMs launched);
         group = rs_processGroup (la_shell launched);
         runtime = \<lparr> rm_RunnerPID = rn_Getpid env, rm_ShellPID = la_shellPID launched,
           rm_ProcessGroupID = group, rm_ProcessGroupLeaderPID = group,
           rm_ProcessBirthIdentity = la_birthIdentity launched \<rparr> in
     do {
       prepared \<leftarrow> prepare store initial runtime;
       case prepared of
         Inl err \<Rightarrow> do {
           (stopErr, shell) \<leftarrow> stop_shell env launched;
           State_Monad.return (errors_Join [err, stopErr], control, Some shell) }
       | Inr pending \<Rightarrow> runner_prepared env request store launched initial pending input control })"

text \<open>What needs the store, which is closed at the end.\<close>

definition runner_in_store ::
  "runner_env \<Rightarrow> internalStartRequest \<Rightarrow> Store \<Rightarrow> reader \<Rightarrow> writer \<Rightarrow> runner_end io" where
  "runner_in_store env request store input control =
    (case fst (startShell (rn_launch env) request) of
       Inl err \<Rightarrow> do {
         closeErr \<leftarrow> Store_Close store;
         State_Monad.return (errors_Join [err, closeErr], control, None) }
     | Inr launched \<Rightarrow> do {
         (err, control', shell) \<leftarrow> runner_started env request store launched input control;
         closeErr \<leftarrow> Store_Close store;
         State_Monad.return (errors_Join [err, closeErr], control', shell) })"

definition runner_invocation :: "internalStartRequest \<Rightarrow> Contracts \<Rightarrow> TrustedInvocation \<times> Decision" where
  "runner_invocation request contracts = BindCapabilityInvocation (k_policy contracts)
     \<lparr> hi_SessionID = is_SessionID request, hi_WorkspacePath = is_WorkspacePath request,
       hi_Cwd = is_Cwd request \<rparr>
     \<lparr> tc_Cwd = is_Cwd request, tc_SessionID = is_SessionID request,
       tc_WorkspacePath = is_WorkspacePath request \<rparr>"

definition runner_requested ::
  "runner_env \<Rightarrow> internalStartRequest \<Rightarrow> reader \<Rightarrow> writer \<Rightarrow> handle \<Rightarrow> runner_end io" where
  "runner_requested env request input control workspace =
    (if validateInternalStart request \<noteq> noerr
     then State_Monad.return (validateInternalStart request, control, None)
     else case rn_Load env of
       Inl err \<Rightarrow> State_Monad.return (fmt_Errorf ''load contracts: %w'' err, control, None)
     | Inr contracts \<Rightarrow>
         (case runner_invocation request contracts of
            (invocation, decision) \<Rightarrow>
              if \<not> d_Allowed decision then State_Monad.return ([ErrInvalidStart], control, None)
              else do {
                opened \<leftarrow> OpenStoreAt invocation contracts workspace;
                case opened of
                  Inl err \<Rightarrow> State_Monad.return (err, control, None)
                | Inr store \<Rightarrow> runner_in_store env request store input control }))"

definition runDetachedRunner ::
  "runner_env \<Rightarrow> reader \<Rightarrow> writer \<Rightarrow> handle \<Rightarrow> runner_end io" where
  "runDetachedRunner env input control workspace =
    (case readFrame (rn_json_Valid env) input of
       (Inl err, input') \<Rightarrow> State_Monad.return (err, control, None)
     | (Inr frame, input') \<Rightarrow>
         (case decodeFrame (rn_start env) frame frameStart of
            Inl err \<Rightarrow> State_Monad.return (err, control, None)
          | Inr request \<Rightarrow> runner_requested env request input' control workspace))"

subsection \<open>Dead processes\<close>

text \<open>
  A process that was killed stays dead: the descriptor table of a dead process may be taken to be
  any, and code with a contract would have to end with two different ones.
\<close>

lemma stays_dead:
  assumes "St u I F w" "\<not> w_alive w" and "finite C"
    and runs: "\<And>F'. F' |` C = F |` C \<Longrightarrow> St u I F' w \<Longrightarrow>
      wp m (\<lambda>r w'. \<exists>I' G. St u I' G w' \<and> G |` (- C) = F' |` (- C)) w"
  shows "wp m (\<lambda>r w'. \<not> w_alive w') w"
proof -
  obtain h where h: "h \<notin> C"
    using ex_new_if_finite [OF infinite_UNIV_nat assms(3)] by blast
  let ?F = "\<lambda>x. F(h := x)"
  have "(?F x) |` C = F |` C" for x
    using h by (auto simp: restrict_map_def)
  then have "wp m (\<lambda>r w'. \<exists>I' G. St u I' G w' \<and> G |` (- C) = ?F x |` (- C)) w" for x
    by (rule runs [OF _ St_dead [OF assms(1,2)]])
  from wp_conj [OF this [of None] this [of "Some (0, False)"]] show ?thesis
  proof (rule wp_mono)
    fix r w'
    assume ends: "(\<exists>I' G. St u I' G w' \<and> G |` (- C) = ?F None |` (- C)) \<and>
      (\<exists>I' G. St u I' G w' \<and> G |` (- C) = ?F (Some (0, False)) |` (- C))"
    have "w_fds w' h = x" if "w_alive w'" "St u I' G w'" "G |` (- C) = ?F x |` (- C)" for I' G x
    proof -
      have "G h = x"
        using fun_cong [OF that(3), of h] h by (simp only: restrict_map_def Compl_iff simp_thms if_True fun_upd_same)
      then show ?thesis using that(1,2) by (simp add: St_def)
    qed
    from this [of _ _ None] this [of _ _ "Some (0, False)"] ends show "\<not> w_alive w'"
      by auto
  qed
qed

lemma working_stays_dead:
  assumes "working f {} C K w" "\<not> w_alive w" "finite C" "C' \<subseteq> C"
    and runs: "\<And>g. fr_store g = fr_store f \<Longrightarrow> fr_jobID g = fr_jobID f \<Longrightarrow> working g {} C K w \<Longrightarrow>
      wp m (\<lambda>r w'. \<exists>K'. working g {} C' K' w') w"
  shows "wp m (\<lambda>r w'. \<not> w_alive w') w"
proof -
  obtain I F where w: "St (fr_euid f) I F w" "in_frame f {} C I F" "K I"
    using assms(1) by (auto simp: working_def)
  let ?C = "insert (st_jobs (fr_store f)) C"
  show ?thesis
  proof (rule stays_dead [OF w(1) assms(2), of ?C])
    show "finite ?C" using assms(3) by simp
    fix F' assume F': "F' |` ?C = F |` ?C" "St (fr_euid f) I F' w"
    let ?g = "f\<lparr> fr_fds := F' |` (- C) \<rparr>"
    have same: "F' h = F h" if "h \<in> ?C" for h
      using fun_cong [OF F'(1), of h] that by (simp add: restrict_map_def)
    have "C \<subseteq> dom F'"
      using w(2) same by (fastforce simp: in_frame_def)
    then have "in_frame ?g {} C I F'"
      using w(2) same by (simp add: in_frame_def)
    then have "working ?g {} C K w"
      using F'(2) w(3) by (auto simp: working_def)
    from runs [OF _ _ this] show "wp m (\<lambda>r w'. \<exists>I' G. St (fr_euid f) I' G w' \<and> G |` (- ?C) = F' |` (- ?C)) w"
    proof (rule wp_mono, simp, simp, elim exE)
      fix r w' K' assume "working ?g {} C' K' w'"
      then obtain I' G where G: "St (fr_euid f) I' G w'" "G |` (- C') = F' |` (- C)"
        by (auto simp: working_def in_frame_def)
      have "(G |` (- ?C)) h = (F' |` (- ?C)) h" for h
        using fun_cong [OF G(2), of h] assms(4) by (auto simp: restrict_map_def split: if_splits)
      then have "G |` (- ?C) = F' |` (- ?C)"
        by (rule ext)
      then show "\<exists>I' G. St (fr_euid f) I' G w' \<and> G |` (- ?C) = F' |` (- ?C)"
        using G(1) by blast
    qed
  qed
qed

subsection \<open>The committed job\<close>

lemma superviseShell_not_nil:
  "run_state (superviseShell store jobID shell grace events) w = ((Inl err, shell'), w') \<Longrightarrow> err \<noteq> []"
  by (auto simp: superviseShell_def supervise_outcome_def Let_def split: if_splits prod.splits)

text \<open>What a runner without an error has done: the terminal state that its outcome calls for is on disk.\<close>

definition ended :: "frame \<Rightarrow> fs \<Rightarrow> bool" where
  "ended f I \<longleftrightarrow> (\<exists>s. jm_Status (ps_Job s) \<in> set all_terminal_statuses \<and> ps_Result s \<noteq> None \<and>
     jm_FinishedAtUnixMs (ps_Job s) \<noteq> None \<and> state_is f s I)"

lemma execution_terminal_fields:
  "execution_terminal outcome current now = Inr s \<Longrightarrow>
   ps_Result s \<noteq> None \<and> jm_FinishedAtUnixMs (ps_Job s) \<noteq> None"
  by (auto simp: execution_terminal_def terminalState_def Let_def split: sum.splits)

lemma published_ended: "published f (execution_terminal outcome) I \<Longrightarrow> ended f I"
  unfolding published_def ended_def using execution_terminal_fields by blast

lemma job_lease_release:
  assumes "working f D C K w" "le_file lease = Some fd" "fd \<in> C" "fd \<notin> D"
    and "\<And>e w'. working f D (C - {fd}) K w' \<Longrightarrow> Q (lease\<lparr> le_file := None \<rparr>, e) w'"
  shows "wp (lease_release lease) Q w"
proof -
  have "D - {fd} = D" using assms(4) by simp
  then show ?thesis
    unfolding lease_release_def releaseLocked_def assms(2) option.case wp_bind
    by (intro job_unlock_close [OF assms(1,3)]) (simp add: assms(5))
qed

lemma job_runner_publishes:
  assumes w: "working f {} {fd} anything w" and lease: "le_file lease = Some fd"
    and err: "\<And>e. outcome = Inl e \<Longrightarrow> e \<noteq> []"
    and finished: "\<And>e w'. working f {} {} (\<lambda>I. e = [] \<longrightarrow> ended f I) w' \<Longrightarrow> Q e w'"
  shows "wp (runner_publishes (fr_store f) (fr_jobID f) lease writeErr commitErr outcome) Q w"
proof -
  have kept: "wp (lease_release lease) (\<lambda>x. wp (State_Monad.return (errors_Join [e, snd x])) Q) w'"
    if "working f {} {fd} anything w'" "e \<noteq> []" for e w'
    by (rule job_lease_release [OF that(1) lease])
      (use that(2) in \<open>auto intro!: finished elim!: working_weaken\<close>)
  show ?thesis
  proof (cases outcome)
    case (Inl e)
    then show ?thesis
      using kept [OF w, of "writeErr @ e"] err by (simp add: runner_publishes_def case_prod_beta)
  next
    case (Inr o')
    show ?thesis
      unfolding runner_publishes_def Inr sum.case publishExecutionTerminal_def wp_bind wp_case_prod
    proof (rule job_publishTerminalState [OF w lease], goal_cases)
      case (3 s now)
      show ?case by (rule execution_terminal_not_nil)
    next
      case (4 e w')
      then show ?case using kept [of w' "writeErr @ e"] by simp
    next
      case (5 e w')
      have "working f {} {} (\<lambda>I. e' = [] \<longrightarrow> ended f I) w'" for e' :: error
        by (rule working_weaken [OF 5 [simplified]]) (simp_all add: published_ended)
      then show ?case
        by (simp add: lease_release_def releaseLocked_def finished)
    qed simp_all
  qed
qed

text \<open>
  The job has appeared under its identifier and only evolved since; nothing else of \<open>I0\<close> has changed. If
  \<open>final\<close>, it has come to its end.
\<close>

definition job_kept :: "Store \<Rightarrow> PersistedJobState \<Rightarrow> fs \<Rightarrow> nat \<Rightarrow> nat \<Rightarrow> bool \<Rightarrow> fs \<Rightarrow> bool" where
  "job_kept store initial I0 jd p final I \<longleftrightarrow>
    I0 p = None \<and> lookup_at I jd (jm_JobID (ps_Job initial)) = Some p \<and>
    touches {} (insert (jd, jm_JobID (ps_Job initial)) (hidden_in jd)) I0 I \<and>
    (\<exists>s out. job_on_disk store I p s out \<and> evolves policy_v1 initial s \<and>
       (final \<longrightarrow> jm_Status (ps_Job s) \<in> set all_terminal_statuses \<and> ps_Result s \<noteq> None))"

definition runner_frame :: "Store \<Rightarrow> PersistedJobState \<Rightarrow> nat \<Rightarrow> nat \<Rightarrow> nat \<Rightarrow> fs \<Rightarrow> fdtable \<Rightarrow> frame" where
  "runner_frame store initial u jd p I F =
    \<lparr> fr_store = store, fr_jobID = jm_JobID (ps_Job initial), fr_euid = u, fr_jobs = jd, fr_job = p,
      fr_fs = I, fr_fds = F \<rparr>"

lemma runner_frame_simps [simp]:
  "fr_store (runner_frame store initial u jd p I F) = store"
  "fr_jobID (runner_frame store initial u jd p I F) = jm_JobID (ps_Job initial)"
  "fr_job (runner_frame store initial u jd p I F) = p" "fr_fs (runner_frame store initial u jd p I F) = I"
  "fr_fds (runner_frame store initial u jd p I F) = F" "fr_euid (runner_frame store initial u jd p I F) = u"
  "fr_jobs (runner_frame store initial u jd p I F) = jd"
  by (simp_all add: runner_frame_def)

lemma runner_frame_start:
  assumes "appeared store initial I0 jd p n I" "k_policy (st_contracts store) = policy_v1"
    and "F (st_jobs store) = Some (jd, b)" "F lock = None" "I0 jd \<noteq> None" "St u I (F(lock \<mapsto> (n, True))) w"
  shows "working (runner_frame store initial u jd p I F) {} {lock} anything w"
proof (rule workingI)
  have "\<exists>dir. I p = Some dir"
    using assms(1) by (auto simp: appeared_def lookup_at_def split: option.splits)
  moreover have "jd \<noteq> p" "lock \<noteq> st_jobs store"
    using assms(1,3-5) by (auto simp: appeared_def)
  moreover have "F(lock \<mapsto> (n, True)) |` (- {lock}) = F"
    using assms(4) by (auto simp: restrict_map_def fun_eq_iff)
  ultimately show "in_frame (runner_frame store initial u jd p I F) {} {lock} I (F(lock \<mapsto> (n, True)))"
    using assms(1-3) by (simp add: in_frame_def appeared_def)
qed (use assms(6) in simp_all)

lemma runner_frame_end:
  assumes "working (runner_frame store initial u jd p I F) {} {} (\<lambda>I'. final \<longrightarrow> ended (runner_frame store initial u jd p I F) I') w"
    and "appeared store initial I0 jd p n I" "k_policy (st_contracts store) = policy_v1"
  obtains I' where "St u I' F w" "job_kept store initial I0 jd p final I'"
proof -
  let ?f = "runner_frame store initial u jd p I F"
  obtain I' G where G: "St u I' G w" "in_frame ?f {} {} I' G" "final \<longrightarrow> ended ?f I'"
    using assms(1) by (auto simp: working_def)
  then have "G = F" and step: "job_step store p I I'"
    by (simp_all add: in_frame_def restrict_UNIV)
  have lookup: "lookup_at I' jd (jm_JobID (ps_Job initial)) = Some p"
    using in_frame_jobs(2) [OF G(2)] by simp
  have old: "I0 p = None" "job_on_disk store I p initial []"
      "touches {} (insert (jd, jm_JobID (ps_Job initial)) (hidden_in jd)) I0 I"
      "\<And>m. lookup_at I p ''output.log'' = Some m \<Longrightarrow> I0 m = None"
    using assms(2) by (simp_all add: appeared_def)
  have "touches {} (insert (jd, jm_JobID (ps_Job initial)) (hidden_in jd)) I0 I'"
    by (rule touches_built [OF old(3) step [unfolded job_step_def, THEN conjunct2]]) (use old(1,4) in auto)
  moreover obtain s out where s: "job_on_disk store I' p s out" "evolves policy_v1 initial s"
    using step old(2) unfolding job_step_def job_evolves_def assms(3) by blast
  moreover have "final \<longrightarrow> jm_Status (ps_Job s) \<in> set all_terminal_statuses \<and> ps_Result s \<noteq> None"
    using G(3) s(1) by (auto simp: ended_def job_on_disk_def)
  ultimately have "job_kept store initial I0 jd p final I'"
    using old(1) lookup unfolding job_kept_def by blast
  then show thesis
    using that G(1) \<open>G = F\<close> by simp
qed

text \<open>
  What the runner has written to its bootstrap: at most part of the frame that says it is prepared, or
  that frame and at most the one that says which job it has committed.
\<close>

definition unreported :: "writer \<Rightarrow> bool" where
  "unreported c \<longleftrightarrow> (\<exists>p k. length p \<le> maximumFrameBytes \<and> wr_out c = take k (frame_bytes framePrepared p))"

definition reported :: "runner_env \<Rightarrow> PersistedJobState \<Rightarrow> writer \<Rightarrow> bool" where
  "reported env initial c \<longleftrightarrow>
    (\<exists>p. length p \<le> maximumFrameBytes \<and>
       (wr_out c = frame_bytes framePrepared p \<or>
        (\<exists>durability q k. length q \<le> maximumFrameBytes \<and>
           cd_Marshal (rn_committed env) \<lparr> ic_Job = ps_Job initial, ic_DurabilityError = durability \<rparr> = Inr q \<and>
           wr_out c = frame_bytes framePrepared p @ take k (frame_bytes frameCommitted q))))"

lemma unreported_nothing: "wr_out c = [] \<Longrightarrow> unreported c"
  unfolding unreported_def by (intro exI [of _ "[]"] exI [of _ 0]) simp

lemma unreported_prepared:
  assumes "writeFrame (rn_empty env) framePrepared () c = (err, c')" "wr_out c = []"
  shows "unreported c'"
proof (cases "wr_out c' = []")
  case False
  then show ?thesis
    using writeFrame_prefix [OF assms(1)] assms(2) unfolding unreported_def by auto
qed (rule unreported_nothing)

lemma reported_committed:
  assumes "wr_out c = frame_bytes framePrepared p" "length p \<le> maximumFrameBytes"
  shows "reported env initial (snd (writeFrame (rn_committed env) frameCommitted
    \<lparr> ic_Job = ps_Job initial, ic_DurabilityError = d \<rparr> c))"
proof -
  obtain err c' where c': "writeFrame (rn_committed env) frameCommitted
      \<lparr> ic_Job = ps_Job initial, ic_DurabilityError = d \<rparr> c = (err, c')"
    by fastforce
  from writeFrame_prefix [OF this] show ?thesis
    unfolding reported_def c' snd_conv using assms by fastforce
qed

lemma wp_runner_committed:
  assumes app: "appeared store initial I0 jd p n I" and policy: "k_policy (st_contracts store) = policy_v1"
    and id: "jm_JobID (ps_Job initial) = is_JobID request"
    and jobs: "F (st_jobs store) = Some (jd, b)" "F lock = None" "I0 jd \<noteq> None"
    and st: "St u I (F(lock \<mapsto> (n, True))) w"
    and lease: "le_file lease = Some lock" and shell: "fresh_shell (la_shell launched)"
    and control: "wr_out control = frame_bytes framePrepared payload" "length payload \<le> maximumFrameBytes"
    and finish: "\<And>e c shell I' w'. reported env initial c \<Longrightarrow> job_kept store initial I0 jd p (e = noerr) I' \<Longrightarrow> St u I' F w' \<Longrightarrow>
      (w_alive w' \<Longrightarrow> group_ended shell) \<Longrightarrow> Q (e, c, Some shell) w'"
  shows "wp (runner_committed env request store launched initial lease commitErr control) Q w"
proof -
  let ?f = "runner_frame store initial u jd p I F"
  have start: "working ?f {} {lock} anything w"
    by (rule runner_frame_start [OF app policy jobs st])
  have supervised: "wp (superviseShell store (is_JobID request) (la_shell launched) grace events)
      (\<lambda>r w'. working ?f {} {lock} anything w' \<and>
        ((\<forall>e. fst r = Inl e \<longrightarrow> e \<noteq> []) \<and> (w_alive w' \<longrightarrow> group_ended (snd r)))) w" for grace events
  proof (rule wp_conj)
    show "wp (superviseShell store (is_JobID request) (la_shell launched) grace events)
        (\<lambda>r. working ?f {} {lock} anything) w"
      using job_doesD [OF start action_superviseShell] id by simp
    show "wp (superviseShell store (is_JobID request) (la_shell launched) grace events)
        (\<lambda>r w'. (\<forall>e. fst r = Inl e \<longrightarrow> e \<noteq> []) \<and> (w_alive w' \<longrightarrow> group_ended (snd r))) w"
      using superviseShell_ends_group [OF shell]
      by (auto simp: wp_def split: prod.split dest: superviseShell_not_nil)
  qed
  have published: "wp (runner_publishes store (is_JobID request) lease writeErr commitErr (fst r))
      (\<lambda>e w'. working ?f {} {} (\<lambda>I'. e = noerr \<longrightarrow> ended ?f I') w' \<and> (w_alive w' \<longrightarrow> group_ended (snd r))) w'"
    if r: "working ?f {} {lock} anything w'" "\<forall>e. fst r = Inl e \<longrightarrow> e \<noteq> []"
      "w_alive w' \<longrightarrow> group_ended (snd r)" for r w' writeErr
  proof (rule wp_conj)
    note publishes = job_runner_publishes [OF _ lease, where outcome = "fst r"]
    show "wp (runner_publishes store (is_JobID request) lease writeErr commitErr (fst r))
        (\<lambda>e. working ?f {} {} (\<lambda>I'. e = noerr \<longrightarrow> ended ?f I')) w'"
      using publishes [OF r(1)] r(2) id by simp
    show "wp (runner_publishes store (is_JobID request) lease writeErr commitErr (fst r))
        (\<lambda>e w'. w_alive w' \<longrightarrow> group_ended (snd r)) w'"
    proof (cases "w_alive w'")
      case True
      then show ?thesis using r(3) by (simp add: wp_def split: prod.split)
    next
      case False
      have "wp (runner_publishes store (is_JobID request) lease writeErr commitErr (fst r))
          (\<lambda>e w'. \<not> w_alive w') w'"
      proof (rule working_stays_dead [OF r(1) False, where C' = "{}"], simp, simp)
        fix g assume g: "fr_store g = fr_store ?f" "fr_jobID g = fr_jobID ?f" "working g {} {lock} anything w'"
        show "wp (runner_publishes store (is_JobID request) lease writeErr commitErr (fst r))
            (\<lambda>e w'. \<exists>K'. working g {} {} K' w') w'"
          unfolding id [symmetric] g(1,2) [simplified, symmetric]
          by (rule publishes [OF g(3)]) (use r(2) in blast)+
      qed
      then show ?thesis by (rule wp_mono) simp
    qed
  qed
  show ?thesis
    unfolding runner_committed_def Let_def wp_case_prod wp_bind
    by (rule wp_mono [OF supervised], elim conjE, rule wp_mono [OF published])
      (auto elim!: runner_frame_end [OF _ app policy] intro!: finish reported_committed [OF control])
qed

subsection \<open>A job that is given up\<close>

lemma wp_stop_shell:
  assumes "St u I F w" "fresh_shell (la_shell launched)"
    and "\<And>e shell w'. St u I F w' \<Longrightarrow> (w_alive w' \<Longrightarrow> group_ended shell) \<Longrightarrow> Q (e, shell) w'"
  shows "wp (stop_shell env launched) Q w"
proof (cases "stopUnpublishedShell (la_shell launched) (rn_stopEvents env)")
  case None
  have "Q (noerr, la_shell launched) (hang_process w)"
    by (rule assms(3) [OF St_hang [OF assms(1)]]) (simp add: hang_process_def)
  then have "wp hang (\<lambda>_. Q (noerr, la_shell launched)) w"
    by (simp add: wp_def hang_def)
  then show ?thesis
    using None by (simp add: stop_shell_def wp_return_fun)
next
  case (Some r)
  then show ?thesis
    using stopUnpublishedShell_ends_group [OF assms(2), of "rn_stopEvents env" "fst r" "snd r"] assms(1)
      assms(3) [of w "snd r" "fst r"]
    by (simp add: stop_shell_def)
qed

lemma wp_abort_dead:
  assumes pend: "pending_of store initial I0 F jd pending p n directory lock I"
    and st: "St u I (F(directory \<mapsto> (p, False), lock \<mapsto> (n, True))) w" and dead: "\<not> w_alive w"
    and jobs: "F (st_jobs store) = Some (jd, b)"
  shows "wp (abort store pending) (\<lambda>r w'. \<not> w_alive w') w"
proof (rule stays_dead [OF st dead, of "{directory, lock, st_jobs store}"], simp)
  fix F' assume F': "F' |` {directory, lock, st_jobs store} =
      F(directory \<mapsto> (p, False), lock \<mapsto> (n, True)) |` {directory, lock, st_jobs store}" and st': "St u I F' w"
  have d: "F directory = None" "F lock = None" "lock \<noteq> directory" "st_jobs store \<noteq> directory" "st_jobs store \<noteq> lock"
    using pend jobs by (auto simp: pending_of_def)
  let ?F = "F'(directory := None, lock := None)"
  have same: "F' directory = Some (p, False)" "F' lock = Some (n, True)" "F' (st_jobs store) = Some (jd, b)"
    using fun_cong [OF F', of directory] fun_cong [OF F', of lock] fun_cong [OF F', of "st_jobs store"] d jobs
    by (simp_all add: restrict_map_def split: if_splits)
  then have "?F(directory \<mapsto> (p, False), lock \<mapsto> (n, True)) = F'"
    using d by (auto simp: fun_eq_iff)
  then have "St u I (?F(directory \<mapsto> (p, False), lock \<mapsto> (n, True))) w"
    using st' by simp
  moreover have "pending_of store initial I0 ?F jd pending p n directory lock I"
    using pend d unfolding pending_of_def by (auto simp del: append_Cons append_Nil)
  moreover have "?F (st_jobs store) = Some (jd, b)"
    using same d by simp
  moreover have "?F |` (- {directory, lock, st_jobs store}) = F' |` (- {directory, lock, st_jobs store})"
    by (auto simp: restrict_map_def fun_eq_iff)
  ultimately show "wp (abort store pending)
      (\<lambda>r w'. \<exists>I' G. St u I' G w' \<and> G |` (- {directory, lock, st_jobs store}) = F' |` (- {directory, lock, st_jobs store})) w"
    by (intro wp_abort [of store initial I0 ?F jd pending p n directory lock I u w b]) blast+
qed

lemma wp_runner_gives_up:
  assumes pend: "pending_of store initial I0 F jd pending p n directory lock I"
    and st: "St u I (F(directory \<mapsto> (p, False), lock \<mapsto> (n, True))) w"
    and jobs: "F (st_jobs store) = Some (jd, b)" and shell: "fresh_shell (la_shell launched)" and "cause \<noteq> []"
    and finish: "\<And>e shell I' w'. touches {} (hidden_in jd) I0 I' \<Longrightarrow> e \<noteq> [] \<Longrightarrow> St u I' F w' \<Longrightarrow>
      (w_alive w' \<Longrightarrow> group_ended shell) \<Longrightarrow> Q (e, control, Some shell) w'"
  shows "wp (runner_gives_up env store launched pending cause control) Q w"
  unfolding runner_gives_up_def wp_bind wp_case_prod
proof (rule wp_stop_shell [OF st shell], goal_cases)
  case (1 e shell w2)
  have "wp (abort store pending) (\<lambda>r w'. (\<exists>I'. touches {} (hidden_in jd) I0 I' \<and> St u I' F w') \<and>
      (w_alive w' \<longrightarrow> group_ended shell)) w2"
  proof (rule wp_conj)
    show "wp (abort store pending) (\<lambda>r w'. \<exists>I'. touches {} (hidden_in jd) I0 I' \<and> St u I' F w') w2"
      by (rule wp_abort [OF pend 1(1) jobs]) blast
    show "wp (abort store pending) (\<lambda>r w'. w_alive w' \<longrightarrow> group_ended shell) w2"
    proof (cases "w_alive w2")
      case True
      then show ?thesis using 1(2) by (simp add: wp_def split: prod.split)
    next
      case False
      show ?thesis by (rule wp_mono [OF wp_abort_dead [OF pend 1(1) False jobs]]) simp
    qed
  qed
  then show ?case
    by (rule wp_mono) (auto intro!: finish simp: \<open>cause \<noteq> []\<close>)
qed

subsection \<open>The job a runner leaves\<close>

text \<open>
  How a run on an open store ends, from the file system \<open>I0\<close> and the descriptors \<open>F\<close>: without a job and with an
  error, or with the job; the descriptors are as before; and a shell that was started is gone.
\<close>

definition runner_left ::
  "runner_env \<Rightarrow> Store \<Rightarrow> PersistedJobState \<Rightarrow> nat \<Rightarrow> fs \<Rightarrow> nat \<Rightarrow> fdtable \<Rightarrow> bool \<Rightarrow> runner_end \<Rightarrow> world \<Rightarrow> bool" where
  "runner_left env store initial u I0 jd F told r w \<longleftrightarrow>
    (\<exists>I. St u I F w \<and>
       (touches {} (hidden_in jd) I0 I \<and> fst r \<noteq> [] \<and> unreported (fst (snd r)) \<or>
        told \<and> reported env initial (fst (snd r)) \<and> (\<exists>p. job_kept store initial I0 jd p (fst r = noerr) I))) \<and>
    (w_alive w \<longrightarrow> pred_option group_ended (snd (snd r)))"

lemma runner_leftI:
  assumes "St u I F w" "w_alive w \<Longrightarrow> group_ended shell"
    and "touches {} (hidden_in jd) I0 I \<and> e \<noteq> [] \<and> unreported c \<or>
      told \<and> reported env initial c \<and> job_kept store initial I0 jd p (e = noerr) I"
  shows "runner_left env store initial u I0 jd F told (e, c, Some shell) w"
  using assms unfolding runner_left_def by auto

text \<open>The runner has been told to commit.\<close>

definition told_to_commit :: "(bytes \<Rightarrow> bool) \<Rightarrow> reader \<Rightarrow> bool" where
  "told_to_commit V input \<longleftrightarrow>
    (\<exists>payload rest. stream input = frame_bytes frameCommit payload @ rest \<and> V payload \<and>
       length payload \<le> maximumFrameBytes)"

lemma told_to_commitI:
  "fst (readFrame V input) = Inr frame \<Longrightarrow> if_kind frame = frameCommit \<Longrightarrow> told_to_commit V input"
  using readFrame_Inr [of V input frame "snd (readFrame V input)"] unfolding told_to_commit_def
  by (metis prod.collapse)

lemma wp_runner_prepared:
  assumes pend: "pending_of store initial I0 F jd pending p n directory lock I"
    and st: "St u I (F(directory \<mapsto> (p, False), lock \<mapsto> (n, True))) w"
    and jobs: "F (st_jobs store) = Some (jd, b)" and shell: "fresh_shell (la_shell launched)"
    and policy: "k_policy (st_contracts store) = policy_v1"
    and id: "jm_JobID (ps_Job initial) = is_JobID request"
    and new: "lookup_at I0 jd (jm_JobID (ps_Job initial)) = None" "I0 jd = Some dir" and control: "wr_out control = []"
  shows "wp (runner_prepared env request store launched initial pending input control)
    (runner_left env store initial u I0 jd F (told_to_commit (rn_json_Valid env) input)) w"
proof -
  let ?left = "runner_left env store initial u I0 jd F (told_to_commit (rn_json_Valid env) input)"
  note gives_up = wp_runner_gives_up [where Q = ?left, OF pend _ jobs shell _ runner_leftI]
  have lock: "F lock = None" "le_file (pj_lease pending) = Some lock"
    using pend by (auto simp: pending_of_def)
  have committed: "wp (do {
       ((lease, commitErr), pending') \<leftarrow> commit store pending;
       case lease of
         None \<Rightarrow> runner_gives_up env store launched pending' commitErr c
       | Some l \<Rightarrow> runner_committed env request store launched initial l commitErr c }) ?left w"
    if "told_to_commit (rn_json_Valid env) input" "unreported c" "wr_out c = frame_bytes framePrepared payload"
      "length payload \<le> maximumFrameBytes" for c payload
    unfolding wp_bind wp_case_prod
  proof (rule wp_commit [OF pend refl st jobs new], goal_cases)
    case (1 e w2)
    then show ?case by simp (rule gives_up, use that(2) in auto)
  next
    case (2 e I2 w2)
    have "wp (runner_committed env request store launched initial (pj_lease pending) e c) ?left w2"
      by (rule wp_runner_committed [OF 2(1) policy id jobs lock(1) _ 2(2) lock(2) shell that(3,4)])
        (use new(2) that in \<open>auto intro: runner_leftI\<close>)
    then show ?case by simp
  qed
  obtain writeErr c where report: "writeFrame (rn_empty env) framePrepared () control = (writeErr, c)"
    by fastforce
  have c: "unreported c" by (rule unreported_prepared [OF report control])
  have committed: "wp (do {
       ((lease, commitErr), pending') \<leftarrow> commit store pending;
       case lease of
         None \<Rightarrow> runner_gives_up env store launched pending' commitErr c
       | Some l \<Rightarrow> runner_committed env request store launched initial l commitErr c }) ?left w"
    if "told_to_commit (rn_json_Valid env) input" and written: "writeErr = []"
  proof -
    obtain payload where "wr_out c = frame_bytes framePrepared payload" "length payload \<le> maximumFrameBytes"
      using report control written by (auto elim: writeFrame_ok)
    then show ?thesis by (rule committed [OF that(1) c])
  qed
  show ?thesis
    unfolding runner_prepared_def report prod.case
    using c committed [OF told_to_commitI] readFrame_Inl [of "rn_json_Valid env" input "_" "snd (readFrame (rn_json_Valid env) input)"]
    by (auto intro!: gives_up [OF st] simp: wp_case_prod split: sum.split)
qed

lemma wp_runner_started:
  assumes st: "St u I F w" and jobs: "F (st_jobs store) = Some (jd, b)" and shell: "fresh_shell (la_shell launched)"
    and policy: "k_policy (st_contracts store) = policy_v1"
    and new: "lookup_at I jd (is_JobID request) = None" "I jd = Some dir" and control: "wr_out control = []"
  shows "wp (runner_started env request store launched input control)
    (runner_left env store (initialJobState request (la_startedUnixMs launched)) u I jd F
      (told_to_commit (rn_json_Valid env) input)) w"
proof -
  have id: "jm_JobID (ps_Job (initialJobState request (la_startedUnixMs launched))) = is_JobID request"
    by (simp add: initialJobState_def Let_def)
  show ?thesis
    unfolding runner_started_def Let_def wp_bind
  proof (rule wp_prepare [OF st jobs], goal_cases)
    case (1 e I' w')
    then show ?case
      by (simp add: wp_return_fun) (rule wp_stop_shell [OF _ shell], auto intro!: runner_leftI unreported_nothing [OF control])
  next
    case (2 pending p n directory lock I' w')
    then show ?case
      using wp_runner_prepared [OF 2 jobs shell policy id] new id control by simp
  qed
qed

lemma wp_Store_Close:
  assumes "runner_left env store' initial u I0 jd F told (e, c, shell) w" "F (st_jobs store) = Some x"
    and finish: "\<And>e' w'. runner_left env store' initial u I0 jd (F(st_jobs store := None)) told (e @ e', c, shell) w' \<Longrightarrow>
      Q e' w'"
  shows "wp (Store_Close store) Q w"
proof -
  obtain I where I: "St u I F w" "touches {} (hidden_in jd) I0 I \<and> e \<noteq> [] \<and> unreported c \<or>
      told \<and> reported env initial c \<and> (\<exists>p. job_kept store' initial I0 jd p (e = noerr) I)" "w_alive w \<longrightarrow> pred_option group_ended shell"
    using assms(1) by (auto simp: runner_left_def)
  have final: "job_kept store' initial I0 jd p (e @ e' = noerr) I" if "job_kept store' initial I0 jd p (e = noerr) I" for p e'
    using that by (auto simp: job_kept_def)
  have "wp (Store_Close store) (\<lambda>e' w'. St u I (F(st_jobs store := None)) w' \<and> (w_alive w' \<longrightarrow> w_alive w)) w"
  proof (rule wp_conj)
    show "wp (Store_Close store) (\<lambda>e' w'. St u I (F(st_jobs store := None)) w') w"
      unfolding Store_Close_def by (rule wp_Close [OF I(1)])
    show "wp (Store_Close store) (\<lambda>e' w'. w_alive w' \<longrightarrow> w_alive w) w"
    proof (cases "w_alive w")
      case True
      then show ?thesis by (simp add: wp_def split: prod.split)
    next
      case False
      have "wp (Store_Close store) (\<lambda>e' w'. \<not> w_alive w') w"
      proof (rule stays_dead [OF I(1) False, of "{st_jobs store}"], simp)
        fix F' assume "St u I F' w"
        then show "wp (Store_Close store) (\<lambda>r w'. \<exists>I' G. St u I' G w' \<and> G |` (- {st_jobs store}) = F' |` (- {st_jobs store})) w"
          unfolding Store_Close_def by (rule wp_Close) (auto simp: restrict_map_def intro!: exI)
      qed
      then show ?thesis by (rule wp_mono) simp
    qed
  qed
  then show ?thesis
  proof (rule wp_mono, intro finish)
    fix e' w' assume w': "St u I (F(st_jobs store := None)) w' \<and> (w_alive w' \<longrightarrow> w_alive w)"
    have "touches {} (hidden_in jd) I0 I \<and> e @ e' \<noteq> [] \<and> unreported c \<or>
        told \<and> reported env initial c \<and> (\<exists>p. job_kept store' initial I0 jd p (e @ e' = noerr) I)"
      using I(2) final by blast
    then show "runner_left env store' initial u I0 jd (F(st_jobs store := None)) told (e @ e', c, shell) w'"
      using w' I(3) unfolding runner_left_def fst_conv snd_conv by blast
  qed
qed

lemma wp_runner_in_store:
  assumes st: "St u I (F(st_jobs store \<mapsto> (jd, b))) w" and free: "F (st_jobs store) = None"
    and launch: "launch_env_ok (rn_launch env)" and policy: "k_policy (st_contracts store) = policy_v1"
    and new: "lookup_at I jd (is_JobID request) = None" "I jd = Some dir" and control: "wr_out control = []"
  shows "wp (runner_in_store env request store input control)
    (\<lambda>r w'. \<exists>started. runner_left env store (initialJobState request started) u I jd F
       (told_to_commit (rn_json_Valid env) input) r w') w"
proof -
  define G where "G = F(st_jobs store \<mapsto> (jd, b))"
  have closed: "G(st_jobs store := None) = F" and jobs: "G (st_jobs store) = Some (jd, b)"
    using free by (auto simp: G_def)
  note st = st [folded G_def]
  have outcome: "launch_outcome (rn_launch env) (startShell (rn_launch env) request)"
    by (rule startShell_outcome [OF launch])
  show ?thesis
  proof (cases "fst (startShell (rn_launch env) request)")
    case (Inl e)
    then have "e \<noteq> []"
      using outcome by (auto simp: launch_outcome_def split: prod.splits)
    then have left: "runner_left env store (initialJobState request 0) u I jd G
        (told_to_commit (rn_json_Valid env) input) (e, control, None) w"
      using st unreported_nothing [OF control] by (auto simp: runner_left_def)
    show ?thesis
      unfolding runner_in_store_def Inl sum.case wp_bind
      by (rule wp_Store_Close [OF left jobs]) (auto simp: closed)
  next
    case (Inr launched)
    then have shell: "fresh_shell (la_shell launched)"
      using outcome by (auto simp: launch_outcome_def shell_started_def split: prod.splits)
    show ?thesis
      unfolding runner_in_store_def Inr sum.case wp_bind wp_case_prod
    proof (rule wp_mono [OF wp_runner_started [OF st jobs shell policy new control]])
      fix r w'
      assume left: "runner_left env store (initialJobState request (la_startedUnixMs launched)) u I jd G
        (told_to_commit (rn_json_Valid env) input) r w'"
      show "wp (Store_Close store) (\<lambda>ra. wp (State_Monad.return (errors_Join [fst r, ra], fst (snd r), snd (snd r)))
          (\<lambda>r w'. \<exists>started. runner_left env store (initialJobState request started) u I jd F
            (told_to_commit (rn_json_Valid env) input) r w')) w'"
        by (rule wp_Store_Close [where F = G and e = "fst r" and c = "fst (snd r)" and shell = "snd (snd r)"
          and store = store, OF _ jobs]) (use left in \<open>auto simp: closed\<close>)
    qed
  qed
qed

subsection \<open>Opening the store\<close>

text \<open>The entry of a job, by the path that \<open>OpenStoreAt\<close> takes from the workspace.\<close>

definition jobs_dir :: "fs \<Rightarrow> nat \<Rightarrow> nat option" where
  "jobs_dir I workspace =
    (case lookup_at I workspace ''.managed_bash'' of None \<Rightarrow> None | Some managed \<Rightarrow> lookup_at I managed ''jobs'')"

definition job_entry :: "fs \<Rightarrow> nat \<Rightarrow> JobID \<Rightarrow> nat option" where
  "job_entry I workspace jobID =
    (case jobs_dir I workspace of None \<Rightarrow> None | Some jobs \<Rightarrow> lookup_at I jobs jobID)"

text \<open>Opening the store has made its directories, and no job with them.\<close>

definition store_made :: "nat \<Rightarrow> JobID \<Rightarrow> fs \<Rightarrow> fs \<Rightarrow> bool" where
  "store_made workspace jobID I I' \<longleftrightarrow>
    touches {} (UNIV \<times> {''.managed_bash'', ''jobs''}) I I' \<and>
    (job_entry I workspace jobID = None \<longrightarrow> job_entry I' workspace jobID = None) \<and>
    (jobs_dir I workspace \<noteq> Some workspace \<longrightarrow> jobs_dir I' workspace \<noteq> Some workspace)"

lemma store_made_refl [simp]: "store_made workspace jobID I I"
  by (simp add: store_made_def)

lemma store_madeI:
  assumes "touches {} {(d, name)} I I'" "name = ''.managed_bash'' \<or> name = ''jobs''"
    and "I' \<noteq> I \<Longrightarrow> jobs_dir I' workspace \<noteq> Some workspace \<and> job_entry I' workspace jobID = None"
  shows "store_made workspace jobID I I'"
proof -
  have "touches {} (UNIV \<times> {''.managed_bash'', ''jobs''}) I I'"
    by (rule touches_mono [OF assms(1)]) (use assms(2) in auto)
  then show ?thesis
    using assms(3) by (cases "I' = I") (simp_all add: store_made_def)
qed

lemma ensured_fresh:
  assumes "ensured u d name I I'" "lookup_at I' d name = Some n" "I' \<noteq> I"
  shows "lookup_at I' n f = None"
  using ensured_new [OF assms(1,2)] assms(1,3) by (auto simp: ensured_def)

lemma store_made_managed:
  assumes "ensured u workspace ''.managed_bash'' I I'"
  shows "store_made workspace jobID I I'"
proof (rule store_madeI [OF ensured_touches [OF assms]])
  assume "I' \<noteq> I"
  then have "jobs_dir I' workspace = None"
    using ensured_fresh [OF assms] by (simp add: jobs_dir_def split: option.split)
  then show "jobs_dir I' workspace \<noteq> Some workspace \<and> job_entry I' workspace jobID = None"
    by (simp add: job_entry_def)
qed simp

lemma store_made_jobs:
  assumes "ensured u md ''jobs'' I I'" "lookup_at I workspace ''.managed_bash'' = Some md"
  shows "store_made workspace jobID I I'"
proof (rule store_madeI [OF ensured_touches [OF assms(1)]])
  assume "I' \<noteq> I"
  moreover have "lookup_at I' workspace ''.managed_bash'' = Some md"
    using ensured_lookup [OF assms(1), of workspace "''.managed_bash''"] assms(2) by simp
  ultimately show "jobs_dir I' workspace \<noteq> Some workspace \<and> job_entry I' workspace jobID = None"
    using ensured_fresh [OF assms(1)] by (fastforce simp: jobs_dir_def job_entry_def split: option.split)
qed simp

lemma store_made_trans:
  "store_made workspace jobID I I' \<Longrightarrow> store_made workspace jobID I' I'' \<Longrightarrow> store_made workspace jobID I I''"
  unfolding store_made_def using touches_trans by blast

definition opened_store :: "TrustedInvocation \<Rightarrow> Contracts \<Rightarrow> handle \<Rightarrow> Store" where
  "opened_store invocation contracts jobs =
    \<lparr> st_jobs = jobs, st_workspace = ti_workspacePath invocation, st_cwd = ti_cwd invocation,
      st_sessionID = ti_sessionID invocation, st_contracts = contracts,
      st_lockTimeout = defaultStateLockTimeout, st_lockPoll = defaultStateLockPoll \<rparr>"

lemma wp_OpenStoreAt:
  assumes st: "St u I F w"
    and fail: "\<And>e I' w'. (\<forall>wd b. F workspace = Some (wd, b) \<longrightarrow> store_made wd jobID I I') \<Longrightarrow> St u I' F w' \<Longrightarrow> e \<noteq> [] \<Longrightarrow>
      Q (Inl e) w'"
    and ok: "\<And>wd b md jd h I' w'. F workspace = Some (wd, b) \<Longrightarrow> store_made wd jobID I I' \<Longrightarrow>
      lookup_at I' wd ''.managed_bash'' = Some md \<Longrightarrow> lookup_at I' md ''jobs'' = Some jd \<Longrightarrow> I' jd \<noteq> None \<Longrightarrow>
      F h = None \<Longrightarrow> St u I' (F(h \<mapsto> (jd, False))) w' \<Longrightarrow> Q (Inr (opened_store invocation contracts h)) w'"
  shows "wp (OpenStoreAt invocation contracts workspace) Q w"
  unfolding OpenStoreAt_def wp_bind
proof (rule wp_validateDirectory [OF st], goal_cases)
  case (1 e w')
  then show ?case using fail [where I' = I] by simp
next
  case (2 wd b x w')
  have made: "\<forall>wd' b. F workspace = Some (wd', b) \<longrightarrow> store_made wd' jobID I I'" if "store_made wd jobID I I'" for I'
    using that 2(2) by simp
  show ?case
    unfolding simp_thms if_False wp_bind
  proof (rule wp_ensurePrivateDirectory [OF 2(1,2)], goal_cases)
    case (1 e I' w2)
    show ?case
      unfolding sum.case wp_return by (rule fail [OF made [OF store_made_managed [OF 1(1)]] 1(2,3)])
  next
    case (2 m md I1 w2)
    define G where "G = F(m \<mapsto> (md, False))"
    have G: "G m = Some (md, False)" "G(m := None) = F" and st1: "St u I1 G w2"
      using 2(2,5) by (auto simp: G_def)
    note made1 = store_made_managed [OF 2(1)]
    show ?case
      unfolding sum.case wp_bind
    proof (rule wp_ensurePrivateDirectory [OF st1 G(1)], goal_cases)
      case (1 e I2 w3)
      show ?case
        by (rule wp_Close [OF 1(2)])
          (use 1(3) G(2) in \<open>auto intro!: fail [OF made [OF store_made_trans [OF made1 store_made_jobs [OF 1(1) 2(3)]]]]\<close>)
    next
      case (2 j jd I2 w3)
      have made2: "store_made wd jobID I I2"
        by (rule store_made_trans [OF made1 store_made_jobs [OF 2(1) \<open>lookup_at I1 wd ''.managed_bash'' = Some md\<close>]])
      have md: "lookup_at I2 wd ''.managed_bash'' = Some md"
        using ensured_lookup [OF 2(1), of wd "''.managed_bash''"] \<open>lookup_at I1 wd ''.managed_bash'' = Some md\<close> by simp
      have j: "F j = None" "j \<noteq> m"
        using 2(2) by (auto simp: G_def split: if_splits)
      have closed: "(G(j \<mapsto> (jd, False)))(m := None) = F(j \<mapsto> (jd, False))" "(F(j \<mapsto> (jd, False)))(j := None) = F"
        using j \<open>F m = None\<close> by (auto simp: G_def fun_eq_iff)
      show ?case
      proof (rule wp_Close [OF 2(5)], goal_cases)
        case (1 e w4)
        note st4 = 1 [unfolded closed(1)]
        show ?case
        proof (cases "e = []")
          case True
          then show ?thesis
            using ok [OF \<open>F workspace = Some (wd, b)\<close> made2 md 2(3,4) j(1) st4] by (simp add: opened_store_def)
        next
          case False
          show ?thesis
            by (simp add: False wp_bind, rule wp_Close [OF st4])
              (use closed(2) False in \<open>auto intro!: fail [OF made [OF made2]]\<close>)
        qed
      qed
    qed
  qed
qed

subsection \<open>The whole run\<close>

text \<open>What a run may touch besides the entry of its job: the store it makes, and hidden names.\<close>

abbreviation store_names :: "(nat \<times> string) set" where
  "store_names \<equiv> UNIV \<times> ({''.managed_bash'', ''jobs''} \<union> Collect hidden)"

text \<open>The job of the run is in the store that \<open>OpenStoreAt\<close> opens.\<close>

definition detached_job ::
  "runner_env \<Rightarrow> internalStartRequest \<Rightarrow> TimestampUnixMs \<Rightarrow> nat \<Rightarrow> fs \<Rightarrow> bool \<Rightarrow> fs \<Rightarrow> bool" where
  "detached_job env request started workspace I0 final I \<longleftrightarrow>
    (\<exists>contracts h jobs p s out. rn_Load env = Inr contracts \<and>
       job_entry I workspace (is_JobID request) = Some p \<and> I0 p = None \<and>
       touches {} (insert (jobs, is_JobID request) store_names) I0 I \<and>
       job_on_disk (opened_store (fst (runner_invocation request contracts)) contracts h) I p s out \<and>
       evolves policy_v1 (initialJobState request started) s \<and>
       (final \<longrightarrow> jm_Status (ps_Job s) \<in> set all_terminal_statuses \<and> ps_Result s \<noteq> None))"

text \<open>No job has appeared.\<close>

definition no_job :: "internalStartRequest \<Rightarrow> nat \<Rightarrow> fs \<Rightarrow> fs \<Rightarrow> bool" where
  "no_job request workspace I0 I \<longleftrightarrow>
    touches {} store_names I0 I \<and> job_entry I workspace (is_JobID request) = None"

definition detached_left ::
  "runner_env \<Rightarrow> internalStartRequest \<Rightarrow> nat \<Rightarrow> nat \<Rightarrow> fs \<Rightarrow> fdtable \<Rightarrow> bool \<Rightarrow> runner_end \<Rightarrow> world \<Rightarrow> bool" where
  "detached_left env request workspace u I0 F told r w \<longleftrightarrow>
    (\<exists>I. St u I F w \<and>
       (no_job request workspace I0 I \<and> fst r \<noteq> [] \<and> unreported (fst (snd r)) \<or>
        told \<and> (\<exists>started. reported env (initialJobState request started) (fst (snd r)) \<and>
          detached_job env request started workspace I0 (fst r = noerr) I))) \<and>
    (w_alive w \<longrightarrow> pred_option group_ended (snd (snd r)))"

lemma initialJobState_id [simp]: "jm_JobID (ps_Job (initialJobState request started)) = is_JobID request"
  by (simp add: initialJobState_def)

lemma validateInternalStart_jobID: "validateInternalStart request = noerr \<Longrightarrow> validJobID (is_JobID request)"
  by (auto simp: validateInternalStart_def split: if_splits)

text \<open>Changes below the directory of the jobs leave the way to it.\<close>

lemma job_entry_below:
  assumes "lookup_at I wd ''.managed_bash'' = Some md" "lookup_at I md ''jobs'' = Some jd" "wd \<noteq> jd"
    and "touches {} (insert (jd, jobID) (hidden_in jd)) I I'" "lookup_at I jd jobID = None"
  shows "job_entry I' wd jobID = lookup_at I' jd jobID"
proof -
  have names: "\<not> hidden ''jobs''"
    by (simp add: hidden_def has_prefix_def)
  obtain dir mdir where "I wd = Some dir" "I md = Some mdir"
    using assms(1,2) by (auto simp: lookup_at_def split: option.splits)
  moreover have "(md, ''jobs'') \<noteq> (jd, jobID)"
    using assms(2,5) by auto
  ultimately have "lookup_at I' wd ''.managed_bash'' = Some md" "lookup_at I' md ''jobs'' = Some jd"
    using touches_lookup [OF assms(4), of wd dir "''.managed_bash''"] touches_lookup [OF assms(4), of md mdir "''jobs''"]
      assms(1-3) names by auto
  then show ?thesis by (simp add: job_entry_def jobs_dir_def)
qed

lemma runner_left_detached:
  assumes left: "runner_left env store (initialJobState request started) u I jd F told r w"
    and made: "store_made wd (is_JobID request) I0 I" and none: "job_entry I0 wd (is_JobID request) = None"
      "jobs_dir I0 wd \<noteq> Some wd"
    and at: "lookup_at I wd ''.managed_bash'' = Some md" "lookup_at I md ''jobs'' = Some jd" "I jd \<noteq> None"
    and id: "validJobID (is_JobID request)"
    and store: "rn_Load env = Inr contracts" "store = opened_store (fst (runner_invocation request contracts)) contracts h"
  shows "detached_left env request wd u I0 F told r w"
proof -
  let ?id = "is_JobID request"
  obtain jdir where jdir: "I jd = Some jdir" using at(3) by blast
  have touched: "touches {} store_names I0 I"
    by (rule touches_mono [OF made [unfolded store_made_def, THEN conjunct1]]) auto
  have jobs: "jobs_dir I wd = Some jd" using at by (simp add: jobs_dir_def)
  then have new: "lookup_at I jd ?id = None" and apart: "wd \<noteq> jd"
    using made none by (auto simp: store_made_def job_entry_def)
  note below = job_entry_below [OF at(1,2) apart _ new]
  have quiet: "no_job request wd I0 I'" if "touches {} (hidden_in jd) I I'" for I'
  proof -
    have "lookup_at I' jd ?id = None"
      using touches_lookup [OF that jdir, of ?id] validJobID_not_hidden [OF id] new by auto
    then have "job_entry I' wd ?id = None"
      using below [OF touches_mono [OF that]] by (simp add: subset_insertI)
    moreover have "touches {} store_names I0 I'"
      by (rule touches_trans [OF touched that]) auto
    ultimately show ?thesis by (simp add: no_job_def)
  qed
  have kept: "detached_job env request started wd I0 final I'"
    if job: "job_kept store (initialJobState request started) I jd p final I'" for p final I'
  proof -
    have t: "I p = None" "lookup_at I' jd ?id = Some p" "touches {} (insert (jd, ?id) (hidden_in jd)) I I'"
      using job by (simp_all add: job_kept_def)
    have "I0 p = None"
      using t(1) touches_inode [OF touched, of p] by (cases "I0 p") auto
    moreover have "touches {} (insert (jd, ?id) store_names) I0 I'"
      by (rule touches_trans [OF touched t(3)]) auto
    moreover have "job_entry I' wd ?id = Some p"
      using below [OF t(3)] t(2) by simp
    ultimately show ?thesis
      using job store unfolding job_kept_def detached_job_def by blast
  qed
  show ?thesis
    using left quiet kept unfolding runner_left_def detached_left_def by blast
qed

lemma detached_nothing:
  assumes "St u I F w" "no_job request wd I0 I" "e \<noteq> []" "unreported control"
  shows "detached_left env request wd u I0 F told (e, control, None) w"
  using assms unfolding detached_left_def by auto

lemma wp_runner_requested:
  assumes st: "St u I F w" and workspace: "F workspace = Some (wd, b)"
    and none: "job_entry I wd (is_JobID request) = None" "jobs_dir I wd \<noteq> Some wd"
    and launch: "launch_env_ok (rn_launch env)"
    and load: "rn_Load env \<noteq> Inl []" "pred_sum (\<lambda>_. True) (\<lambda>c. k_policy c = policy_v1) (rn_Load env)"
    and control: "wr_out control = []"
  shows "wp (runner_requested env request input control workspace)
    (detached_left env request wd u I F (told_to_commit (rn_json_Valid env) input)) w"
proof -
  have none_yet: "no_job request wd I I"
    using none by (simp add: no_job_def)
  note quit = detached_nothing [OF _ _ _ unreported_nothing [OF control]]
  show ?thesis
  proof (cases "validateInternalStart request = noerr")
    case invalid: False
    then show ?thesis
      using quit [OF st none_yet] by (simp add: runner_requested_def)
  next
    case valid: True
    show ?thesis
    proof (cases "rn_Load env")
      case (Inl e)
      then show ?thesis
        using quit [OF st none_yet] load(1) valid by (simp add: runner_requested_def)
    next
      case (Inr contracts)
      obtain invocation decision where inv: "runner_invocation request contracts = (invocation, decision)"
        by fastforce
      show ?thesis
      proof (cases "d_Allowed decision")
        case False
        then show ?thesis
          using quit [OF st none_yet] valid Inr inv by (simp add: runner_requested_def)
      next
        case True
        then have run: "runner_requested env request input control workspace =
            OpenStoreAt invocation contracts workspace \<bind> (\<lambda>opened. case opened of
              Inl err \<Rightarrow> State_Monad.return (err, control, None)
            | Inr store \<Rightarrow> runner_in_store env request store input control)"
          using valid Inr inv by (simp add: runner_requested_def)
        show ?thesis
          unfolding run wp_bind
        proof (rule wp_OpenStoreAt [OF st, where jobID = "is_JobID request"], goal_cases)
          case (1 e I' w')
          then have made: "store_made wd (is_JobID request) I I'" using workspace by simp
          then have "no_job request wd I I'"
            using none by (auto simp: no_job_def store_made_def elim: touches_mono)
          then show ?case using quit [OF 1(2)] 1(3) by simp
        next
          case (2 wd' b' md jd h I' w')
          then have wd: "wd' = wd" using workspace by simp
          have new: "lookup_at I' jd (is_JobID request) = None"
            using 2(2-4) none unfolding wd by (simp add: store_made_def job_entry_def jobs_dir_def)
          obtain dir where dir: "I' jd = Some dir" using 2(5) by blast
          let ?store = "opened_store invocation contracts h"
          have store: "st_jobs ?store = h" "k_policy (st_contracts ?store) = policy_v1"
            using load(2) Inr by (simp_all add: opened_store_def)
          show ?case
            unfolding sum.case
          proof (rule wp_mono [OF wp_runner_in_store [where store = ?store, unfolded store(1), OF 2(7,6) launch store(2) new dir control]])
            fix r w2
            assume "\<exists>started. runner_left env ?store (initialJobState request started) u I' jd F
              (told_to_commit (rn_json_Valid env) input) r w2"
            then obtain started where "runner_left env ?store (initialJobState request started) u I' jd F
              (told_to_commit (rn_json_Valid env) input) r w2" ..
            then show "detached_left env request wd u I F (told_to_commit (rn_json_Valid env) input) r w2"
              by (rule runner_left_detached [OF _ 2(2)[unfolded wd] none 2(3)[unfolded wd] 2(4,5)
                validateInternalStart_jobID [OF valid] Inr]) (simp add: inv)
          qed
        qed
      qed
    qed
  qed
qed

text \<open>The start frame at the head of the input, and the commit frame after it.\<close>

definition start_request :: "runner_env \<Rightarrow> reader \<Rightarrow> error + internalStartRequest" where
  "start_request env input =
    (case fst (readFrame (rn_json_Valid env) input) of
       Inl err \<Rightarrow> Inl err
     | Inr frame \<Rightarrow> decodeFrame (rn_start env) frame frameStart)"

definition commit_received :: "runner_env \<Rightarrow> reader \<Rightarrow> bool" where
  "commit_received env input \<longleftrightarrow>
    told_to_commit (rn_json_Valid env) (snd (readFrame (rn_json_Valid env) input))"

text \<open>What the code relies on of its environment: an error of a library is not nil, and \<open>Load\<close> gives policy v1.\<close>

definition runner_env_ok :: "runner_env \<Rightarrow> bool" where
  "runner_env_ok env \<longleftrightarrow> launch_env_ok (rn_launch env) \<and>
    (\<forall>raw. cd_Decode (rn_start env) raw \<noteq> Inl noerr) \<and> rn_Load env \<noteq> Inl noerr \<and>
    pred_sum (\<lambda>_. True) (\<lambda>c. k_policy c = policy_v1) (rn_Load env)"

lemma decodeFrame_not_nil:
  "(\<forall>raw. cd_Decode codec raw \<noteq> Inl noerr) \<Longrightarrow> decodeFrame codec frame kind \<noteq> Inl noerr"
  by (auto simp: decodeFrame_def split: sum.splits prod.splits)

lemma runDetachedRunner_requested:
  assumes "start_request env input = Inr request"
  shows "runDetachedRunner env input control workspace =
    runner_requested env request (snd (readFrame (rn_json_Valid env) input)) control workspace"
  using assms by (auto simp: runDetachedRunner_def start_request_def split: sum.splits prod.splits)

lemma runDetachedRunner_left:
  assumes "run_state (runDetachedRunner env input control workspace) w = (r, w')"
    and "start_request env input = Inr request" "runner_env_ok env"
    and "world_ok w" "w_fds w workspace = Some (wd, b)"
    and "job_entry (w_inodes w) wd (is_JobID request) = None" "jobs_dir (w_inodes w) wd \<noteq> Some wd"
    and "wr_out control = []"
  shows "detached_left env request wd (w_euid w) (w_inodes w) (w_fds w) (commit_received env input) r w'"
proof -
  have "St (w_euid w) (w_inodes w) (w_fds w) w"
    using assms(4) by (simp add: St_def world_ok_def)
  from wp_runner_requested [OF this assms(5-7) _ _ _ assms(8), of env "snd (readFrame (rn_json_Valid env) input)"]
  show ?thesis
    using assms(1-3) by (simp add: runner_env_ok_def commit_received_def runDetachedRunner_requested wp_def)
qed

text \<open>C5: A run of the detached runner is all or nothing for the files. Either it returns an error and there is
  no job: no file that existed has changed, directories have new entries at most under the store's two
  names and under hidden names, and nothing is under the identifier of the job. Or the runner has
  received the commit frame and the whole job is under its identifier, in a directory that did not
  exist: a valid state that evolved from the initial state of the request, with its output; and if the
  runner returns no error, the state is terminal and has its result. This holds whichever system
  calls fail, and when the runner is killed in the middle.\<close>

theorem runDetachedRunner_atomic:
  assumes "run_state (runDetachedRunner env input control workspace) w = ((err, control', shell), w')"
    and "start_request env input = Inr request" "runner_env_ok env"
    and "world_ok w" "w_fds w workspace = Some (wd, b)"
    and "job_entry (w_inodes w) wd (is_JobID request) = None" "jobs_dir (w_inodes w) wd \<noteq> Some wd"
    and "wr_out control = []"
  shows "(err \<noteq> noerr \<and> no_job request wd (w_inodes w) (w_inodes w')) \<or>
    (commit_received env input \<and>
     (\<exists>started. detached_job env request started wd (w_inodes w) (err = noerr) (w_inodes w')))"
  using runDetachedRunner_left [OF assms] by (auto simp: detached_left_def St_def)

text \<open>C15: A runner that returns leaves nothing running or open. If it started a shell, it has killed its
  process group before it reaped the guardian that leads it, which is the last thing it did with it;
  and its open descriptors are those it had.\<close>

theorem runDetachedRunner_leaves_no_process:
  assumes "run_state (runDetachedRunner env input control workspace) w = ((err, control', shell), w')"
    and "start_request env input = Inr request" "runner_env_ok env"
    and "world_ok w" "w_fds w workspace = Some (wd, b)"
    and "job_entry (w_inodes w) wd (is_JobID request) = None" "jobs_dir (w_inodes w) wd \<noteq> Some wd"
    and "wr_out control = []" "w_alive w'"
  shows "pred_option group_ended shell \<and> w_fds w' = w_fds w"
  using runDetachedRunner_left [OF assms(1-8)] assms(9) by (auto simp: detached_left_def St_def)

text \<open>Without a request that can be decoded, the runner fails and does nothing.\<close>

lemma runDetachedRunner_no_request:
  assumes "start_request env input = Inl e"
  shows "runDetachedRunner env input control workspace = State_Monad.return (e, control, None)"
  using assms by (auto simp: runDetachedRunner_def start_request_def split: sum.splits prod.splits)

subsection \<open>A concrete runner\<close>

definition example_runner_env :: runner_env where
  "example_runner_env =
    \<lparr> rn_json_Valid = (\<lambda>_. True), rn_start = one_value_codec example_request ''s'',
      rn_empty = one_value_codec () ''{}'', rn_committed = \<lparr> cd_Marshal = (\<lambda>_. Inr ''c''),
        cd_Decode = (\<lambda>_. Inl [ErrInternalProtocol]) \<rparr>,
      rn_Load = Inr example_contracts, rn_launch = example_launch_env, rn_Getpid = 70, rn_Error = (\<lambda>_. ''error''),
      rn_closeControl = noerr, rn_stopEvents = [], rn_events = [] \<rparr>"

definition example_runner_input :: reader where
  "example_runner_input =
    \<lparr> rd_pieces = [frame_bytes frameStart ''s'', frame_bytes frameCommit ''{}''], rd_end = IoEOF \<rparr>"

definition example_runner_world :: world where
  "example_runner_world =
    \<lparr> w_inodes = [1 \<mapsto> example_dir []], w_next = 2, w_fds = [4 \<mapsto> (1, False)], w_nextfd = 5, w_foreign = [],
      w_euid = 0, w_alive = True, w_script = [], w_clock = [(30, 0)], w_random = [], w_selects = [],
      w_ctx = [], w_fuel = 1 \<rparr>"

definition example_runner_end :: "runner_end \<times> world" where
  "example_runner_end =
    run_state (runDetachedRunner example_runner_env example_runner_input \<lparr> wr_out = [], wr_writes = [] \<rparr> 4)
      example_runner_world"

lemma example_runner:
  "start_request example_runner_env example_runner_input = Inr example_request"
  "runner_env_ok example_runner_env" "world_ok example_runner_world"
  "w_fds example_runner_world 4 = Some (1, False)"
  "job_entry (w_inodes example_runner_world) 1 (is_JobID example_request) = None"
  "jobs_dir (w_inodes example_runner_world) 1 \<noteq> Some 1"
proof -
  have "\<exists>r'. readFrame (\<lambda>_. True) example_runner_input = (Inr \<lparr> if_kind = frameStart, if_payload = ''s'' \<rparr>, r') \<and>
      stream r' = concat [frame_bytes frameCommit ''{}'']"
    by (rule readFrame_plain) (simp_all add: example_runner_input_def maximumFrameBytes_def)
  then show "start_request example_runner_env example_runner_input = Inr example_request"
    by (auto simp: start_request_def example_runner_env_def decodeFrame_def one_value_codec_def errors_Is_def)
  show "runner_env_ok example_runner_env"
    by (simp add: runner_env_ok_def example_runner_env_def launch_env_ok_def example_launch_env_def
        one_value_codec_def example_shell_def fresh_shell_def)
  show "jobs_dir (w_inodes example_runner_world) 1 \<noteq> Some 1"
    "job_entry (w_inodes example_runner_world) 1 (is_JobID example_request) = None"
    by (simp_all add: job_entry_def jobs_dir_def lookup_at_def example_runner_world_def example_dir_def)
qed (auto simp: world_ok_def example_runner_world_def)

lemma runDetachedRunner_atomic_witness:
  "case example_runner_end of ((err, control', shell), w') \<Rightarrow>
    (err \<noteq> noerr \<and> no_job example_request 1 (w_inodes example_runner_world) (w_inodes w')) \<or>
    (commit_received example_runner_env example_runner_input \<and>
     (\<exists>started. detached_job example_runner_env example_request started 1 (w_inodes example_runner_world)
        (err = noerr) (w_inodes w')))"
  by (auto simp only: example_runner_end_def split: prod.split
      dest!: runDetachedRunner_atomic [OF _ example_runner writer.select_convs(1)])

text \<open>A runner in a workspace with a store, whose job cannot be encoded: the shell is started and stopped.\<close>

definition example_failing_env :: runner_env where
  "example_failing_env = example_runner_env\<lparr>
     rn_stopEvents := [CaptureDone noerr, GraceExpired, ShellWaited example_exit] \<rparr>"

definition example_store_world :: world where
  "example_store_world = example_runner_world\<lparr>
     w_inodes := [1 \<mapsto> example_dir [(''.managed_bash'', 2)], 2 \<mapsto> example_dir [(''jobs'', 3)], 3 \<mapsto> example_dir []],
     w_next := 4 \<rparr>"

lemma example_open:
  "run_state (OpenStoreAt invocation example_contracts 4) example_store_world =
     (Inr (opened_store invocation example_contracts 6),
      example_store_world\<lparr> w_fds := [4 \<mapsto> (1, False), 6 \<mapsto> (3, False)], w_nextfd := 7 \<rparr>)"
  by (simp add: run_rules OpenStoreAt_def ensurePrivateDirectory_def opened_store_def example_store_world_def
     example_runner_world_def example_dir_def cong: run_congs split del: if_split)

lemma example_failing:
  "start_request example_failing_env example_runner_input = Inr example_request"
  "runner_env_ok example_failing_env" "world_ok example_store_world" "w_fds example_store_world 4 = Some (1, False)"
  "job_entry (w_inodes example_store_world) 1 (is_JobID example_request) = None"
  "jobs_dir (w_inodes example_store_world) 1 \<noteq> Some 1"
proof -
  show "start_request example_failing_env example_runner_input = Inr example_request"
    using example_runner(1) by (simp add: start_request_def example_failing_env_def cong: sum.case_cong)
  show "runner_env_ok example_failing_env"
    using example_runner(2) by (simp add: runner_env_ok_def example_failing_env_def)
  show "jobs_dir (w_inodes example_store_world) 1 \<noteq> Some 1"
    "job_entry (w_inodes example_store_world) 1 (is_JobID example_request) = None"
    by (simp_all add: job_entry_def jobs_dir_def lookup_at_def example_store_world_def example_dir_def example_request_def)
qed (auto simp: world_ok_def example_store_world_def example_runner_world_def)

lemma example_failing_run:
  "\<exists>e c shell w'. run_state (runDetachedRunner example_failing_env example_runner_input
     \<lparr> wr_out = [], wr_writes = [] \<rparr> 4) example_store_world = ((e, c, Some shell), w') \<and> w_alive w'"
proof -
  have valid: "validateInternalStart example_request = noerr" by code_simp
  obtain invocation decision where inv: "runner_invocation example_request example_contracts = (invocation, decision)"
    by fastforce
  have "snd (runner_invocation example_request example_contracts) = \<lparr> d_Allowed = True, d_Code = CodeAllow \<rparr>"
    unfolding runner_invocation_def example_contracts_policy example_request_def by code_simp
  then have allowed: "d_Allowed decision" using inv by simp
  have prep: "\<exists>e. prepare store (initialJobState example_request t) runtime = State_Monad.return (Inl e)"
    if "st_contracts store = example_contracts" for store t runtime
    using that by (auto simp: prepare_def Let_def encodeRuntime_def example_contracts_def codec_table_def split: sum.splits)
  obtain launched l where launched: "startShell example_launch_env example_request = (Inr launched, l)"
    using example_started [of example_request] by (auto simp: example_request_def)
  have fresh: "fresh_shell (la_shell launched)"
    using startShell_outcome [OF example_launch_ok, of example_request] launched
    by (simp add: launch_outcome_def shell_started_def)
  let ?events = "[CaptureDone noerr, GraceExpired, ShellWaited example_exit]"
  obtain s where "stop_loop ?events (unpublished_start (la_shell launched)) = Some s"
    using stop_loop_ends [OF unpublished_start_in_order [OF fresh], of ?events] by auto
  then obtain e shell where stop: "stop_shell example_failing_env launched = State_Monad.return (e, shell)"
    by (auto simp: stop_shell_def example_failing_env_def stopUnpublishedShell_start Let_def)
  let ?store = "opened_store invocation example_contracts 6"
  have store: "st_contracts ?store = example_contracts" "st_jobs ?store = 6"
    by (simp_all add: opened_store_def)
  have fields: "rn_launch example_failing_env = example_launch_env" "rn_Load example_failing_env = Inr example_contracts"
    by (simp_all add: example_failing_env_def example_runner_env_def)
  have started: "\<exists>err. runner_started example_failing_env example_request ?store launched input control =
      State_Monad.return (err, control, Some shell)" for input control
  proof -
    let ?group = "rs_processGroup (la_shell launched)"
    obtain err where "prepare ?store (initialJobState example_request (la_startedUnixMs launched))
        \<lparr> rm_RunnerPID = rn_Getpid example_failing_env, rm_ShellPID = la_shellPID launched,
          rm_ProcessGroupID = ?group, rm_ProcessGroupLeaderPID = ?group,
          rm_ProcessBirthIdentity = la_birthIdentity launched \<rparr> = State_Monad.return (Inl err)"
      using prep [OF store(1)] by blast
    then show ?thesis
      by (simp add: runner_started_def Let_def stop) blast
  qed
  obtain err where "runner_started example_failing_env example_request ?store launched
      (snd (readFrame (rn_json_Valid example_failing_env) example_runner_input)) \<lparr> wr_out = [], wr_writes = [] \<rparr> =
      State_Monad.return (err, \<lparr> wr_out = [], wr_writes = [] \<rparr>, Some shell)"
    using started by blast
  then show ?thesis
    by (simp add: runDetachedRunner_requested [OF example_failing(1)] runner_requested_def valid inv allowed fields
       run_bind run_return example_open runner_in_store_def launched Store_Close_def store)
      (simp add: run_rules example_store_world_def example_runner_world_def)
qed

lemma runDetachedRunner_leaves_no_process_witness:
  "\<exists>e c shell w'. run_state (runDetachedRunner example_failing_env example_runner_input
     \<lparr> wr_out = [], wr_writes = [] \<rparr> 4) example_store_world = ((e, c, Some shell), w') \<and>
     group_ended shell \<and> w_fds w' = w_fds example_store_world"
proof -
  obtain e c shell w' where run: "run_state (runDetachedRunner example_failing_env example_runner_input
      \<lparr> wr_out = [], wr_writes = [] \<rparr> 4) example_store_world = ((e, c, Some shell), w')" "w_alive w'"
    using example_failing_run by blast
  from runDetachedRunner_leaves_no_process [OF run(1) example_failing writer.select_convs(1) run(2)] run(1) show ?thesis
    by auto
qed

end
