(* ===== verification/Bootstrap.thy ===== *)
theory Bootstrap
  imports Runner
begin

section \<open>The bootstrap process\<close>

text \<open>
  \<open>runBootstrap\<close> of \<open>internal/runner/internal_mode_unix.go\<close>: the process between the manager and the
  detached runner. It starts the runner in a session of its own and relays the handshake: the start
  request down, the frame that the job is prepared up, the commit down, the committed job up. If
  anything fails it stops the runner, by closing its input and, if it is still there after a while,
  by killing it, and tells the manager why.

  \<open>bootstrap_env\<close> holds the answers of its calls. \<open>bt_close\<close> gives those of closing its pipe ends. Every
  wait for a frame is a select over the frame, the deadline and the context: \<open>frame_wait\<close> says which
  comes first. A \<open>bootstrap\<close> is what it leaves behind: what it wrote to the manager and to the runner,
  and what it did with the runner's process.
\<close>

subsection \<open>Definitions\<close>

record internalFailure =
  il_Message :: string

text \<open>Which channel of a select on a frame is ready first; the errors are those of the other two.\<close>

datatype interruption = StartupTimedOut | ContextCancelled | ContextPastDeadline

fun interruption_error :: "interruption \<Rightarrow> error" where
  "interruption_error StartupTimedOut = [ErrStartupTimeout]"
| "interruption_error ContextCancelled = [ContextCanceled]"
| "interruption_error ContextPastDeadline = [ContextDeadlineExceeded]"

datatype frame_wait = FrameArrived | Interrupted interruption

definition awaitFrame :: "(bytes \<Rightarrow> bool) \<Rightarrow> frame_wait \<Rightarrow> reader \<Rightarrow> internalFrame result \<times> reader" where
  "awaitFrame json_Valid wait input =
    (case wait of
       FrameArrived \<Rightarrow> readFrame json_Valid input
     | Interrupted i \<Rightarrow> (Inl (interruption_error i), input))"

datatype bootstrap_fd = RunnerInput | RunnerWriter | RunnerEvents | RunnerControl

datatype process_call = Started | InputClosed | Killed | ReapedIt

record bootstrap_env =
  bt_json_Valid :: "bytes \<Rightarrow> bool"
  bt_start :: "internalStartRequest codec"
  bt_empty :: "unit codec"
  bt_committed :: "internalCommitted codec"
  bt_failure :: "internalFailure codec"
  bt_Error :: "error \<Rightarrow> string"
  bt_inputPipe :: error
  bt_eventsPipe :: error
  bt_executable :: error
  bt_runnerStart :: error
  bt_close :: "bootstrap_fd \<Rightarrow> error"
  bt_awaitPrepared :: frame_wait
  bt_awaitCommit :: frame_wait
  bt_awaitCommitted :: frame_wait
  bt_events :: reader
  bt_exitsInTime :: bool
  bt_waitErr :: error
  bt_killErr :: error

record bootstrap =
  bs_control :: writer
  bs_runner :: writer
  bs_calls :: "process_call list"

definition runner_call :: "process_call \<Rightarrow> bootstrap \<Rightarrow> bootstrap" where
  "runner_call c b = b\<lparr> bs_calls := bs_calls b @ [c] \<rparr>"

definition sendBootstrapFailure :: "bootstrap_env \<Rightarrow> error \<Rightarrow> bootstrap \<Rightarrow> error \<times> bootstrap" where
  "sendBootstrapFailure env cause b =
    (case writeFrame (bt_failure env) frameFailure \<lparr> il_Message = bt_Error env cause \<rparr> (bs_control b) of
       (writeErr, control) \<Rightarrow> (errors_Join [cause, writeErr], b\<lparr> bs_control := control \<rparr>))"

definition stopRunner :: "bootstrap_env \<Rightarrow> error \<Rightarrow> bootstrap \<Rightarrow> error \<times> bootstrap" where
  "stopRunner env cause b =
    (let closeErr = bt_close env RunnerWriter; b = runner_call InputClosed b in
     if bt_exitsInTime env
     then (errors_Join [cause, closeErr, bt_waitErr env], runner_call ReapedIt b)
     else (errors_Join [cause, closeErr, bt_killErr env, bt_waitErr env], runner_call ReapedIt (runner_call Killed b)))"

definition bootstrap_fails :: "bootstrap_env \<Rightarrow> error \<Rightarrow> bootstrap \<Rightarrow> error \<times> bootstrap" where
  "bootstrap_fails env cause b = (case stopRunner env cause b of (err, b') \<Rightarrow> sendBootstrapFailure env err b')"

text \<open>From the relayed commit on.\<close>

definition bootstrap_committed :: "bootstrap_env \<Rightarrow> reader \<Rightarrow> bootstrap \<Rightarrow> error \<times> bootstrap" where
  "bootstrap_committed env events b =
    (case fst (awaitFrame (bt_json_Valid env) (bt_awaitCommitted env) events) of
       Inl err \<Rightarrow> bootstrap_fails env err b
     | Inr answer \<Rightarrow>
         if if_kind answer = frameFailure
         then (case decodeFrame (bt_failure env) answer frameFailure of
                 Inl decodeErr \<Rightarrow> bootstrap_fails env decodeErr b
               | Inr failure \<Rightarrow> bootstrap_fails env (fmt_Errorf (il_Message failure) [ErrStartupFailed]) b)
         else case decodeFrame (bt_committed env) answer frameCommitted of
           Inl err \<Rightarrow> bootstrap_fails env err b
         | Inr r \<Rightarrow>
             let closeErr = errors_Join [bt_close env RunnerWriter, bt_close env RunnerEvents];
                 b = runner_call InputClosed b
             in case writeFrame (bt_committed env) frameCommitted r (bs_control b) of
               (err, control) \<Rightarrow>
                 (if err \<noteq> noerr then errors_Join [err, closeErr] else closeErr, b\<lparr> bs_control := control \<rparr>))"

text \<open>From the prepared job to the relayed commit.\<close>

definition bootstrap_prepared :: "bootstrap_env \<Rightarrow> reader \<Rightarrow> reader \<Rightarrow> bootstrap \<Rightarrow> error \<times> bootstrap" where
  "bootstrap_prepared env input events b =
    (case writeFrame (bt_empty env) framePrepared () (bs_control b) of
       (err, control) \<Rightarrow>
         let b = b\<lparr> bs_control := control \<rparr>
         in if err \<noteq> noerr then stopRunner env err b
            else case fst (awaitFrame (bt_json_Valid env) (bt_awaitCommit env) input) of
              Inl err \<Rightarrow> bootstrap_fails env err b
            | Inr told \<Rightarrow>
                (case decodeFrame (bt_empty env) told frameCommit of
                   Inl err \<Rightarrow> bootstrap_fails env err b
                 | Inr _ \<Rightarrow>
                     (case writeFrame (bt_empty env) frameCommit () (bs_runner b) of
                        (err, runner) \<Rightarrow>
                          let b = b\<lparr> bs_runner := runner \<rparr>
                          in if err \<noteq> noerr then bootstrap_fails env err b
                             else bootstrap_committed env events b)))"

text \<open>From the started runner to the prepared job.\<close>

definition bootstrap_started ::
  "bootstrap_env \<Rightarrow> internalStartRequest \<Rightarrow> reader \<Rightarrow> bootstrap \<Rightarrow> error \<times> bootstrap" where
  "bootstrap_started env request input b =
    (let closeErr = errors_Join [bt_close env RunnerInput, bt_close env RunnerControl] in
     if closeErr \<noteq> noerr
     then bootstrap_fails env (fmt_Errorf ''close runner child descriptors: %w'' closeErr) b
     else case writeFrame (bt_start env) frameStart request (bs_runner b) of
       (err, runner) \<Rightarrow>
         let b = b\<lparr> bs_runner := runner \<rparr>
         in if err \<noteq> noerr then bootstrap_fails env err b
            else case awaitFrame (bt_json_Valid env) (bt_awaitPrepared env) (bt_events env) of
              (Inl err, events) \<Rightarrow> bootstrap_fails env (errors_Join [err, [ErrStartupFailed]]) b
            | (Inr prepared, events) \<Rightarrow>
                if if_kind prepared \<noteq> framePrepared then bootstrap_fails env [ErrStartupFailed] b
                else bootstrap_prepared env input events b)"

definition bootstrap_requested ::
  "bootstrap_env \<Rightarrow> internalStartRequest \<Rightarrow> reader \<Rightarrow> bootstrap \<Rightarrow> error \<times> bootstrap" where
  "bootstrap_requested env request input b =
    (let close = (\<lambda>ds. errors_Join (map (bt_close env) ds)) in
     if validateInternalStart request \<noteq> noerr
     then sendBootstrapFailure env (validateInternalStart request) b
     else if bt_inputPipe env \<noteq> noerr
     then sendBootstrapFailure env (fmt_Errorf ''create runner input: %w'' (bt_inputPipe env)) b
     else if bt_eventsPipe env \<noteq> noerr
     then sendBootstrapFailure env (errors_Join [bt_eventsPipe env, close [RunnerInput, RunnerWriter]]) b
     else if bt_executable env \<noteq> noerr
     then sendBootstrapFailure env
       (errors_Join [bt_executable env, close [RunnerInput, RunnerWriter, RunnerEvents, RunnerControl]]) b
     else if bt_runnerStart env \<noteq> noerr
     then sendBootstrapFailure env
       (errors_Join [fmt_Errorf ''start detached runner: %w'' (bt_runnerStart env),
          close [RunnerInput, RunnerWriter, RunnerEvents, RunnerControl]]) b
     else bootstrap_started env request input (runner_call Started b))"

definition runBootstrap :: "bootstrap_env \<Rightarrow> reader \<Rightarrow> bootstrap \<Rightarrow> error \<times> bootstrap" where
  "runBootstrap env input b =
    (case readFrame (bt_json_Valid env) input of
       (Inl err, input') \<Rightarrow> sendBootstrapFailure env err b
     | (Inr frame, input') \<Rightarrow>
         (case decodeFrame (bt_start env) frame frameStart of
            Inl err \<Rightarrow> sendBootstrapFailure env err b
          | Inr request \<Rightarrow> bootstrap_requested env request input' b))"

subsection \<open>What a frame that is awaited or written does to its pipe\<close>

abbreviation fits :: "bytes \<Rightarrow> bool" where
  "fits payload \<equiv> length payload \<le> maximumFrameBytes"

lemma awaitFrame_frame:
  assumes "awaitFrame V wait r = (Inr frame, r')"
  shows "stream r = frame_bytes (if_kind frame) (if_payload frame) @ stream r'" "fits (if_payload frame)"
    "proper_kind (if_kind frame)"
  using assms readFrame_Inr [of V r frame r'] by (simp_all add: awaitFrame_def split: frame_wait.splits)

lemma awaitFrame_not_nil: "fst (awaitFrame V wait r) \<noteq> Inl noerr"
proof (cases wait)
  case FrameArrived
  then show ?thesis
    using readFrame_Inl [of V r "[]" "snd (readFrame V r)"] by (auto simp: awaitFrame_def prod_eq_iff)
next
  case (Interrupted i)
  then show ?thesis by (cases i) (simp_all add: awaitFrame_def)
qed

lemma decodeFrame_kind: "decodeFrame codec frame kind = Inr v \<Longrightarrow> if_kind frame = kind"
  by (auto simp: decodeFrame_def split: if_splits)

text \<open>What a write of a frame adds to the stream: a part of it, and all of it if there was no error.\<close>

definition writes_frame :: "'v codec \<Rightarrow> frameKind \<Rightarrow> 'v \<Rightarrow> bytes \<Rightarrow> bytes \<Rightarrow> bool" where
  "writes_frame codec kind v out out' \<longleftrightarrow>
    out' = out \<or> (\<exists>p k. cd_Marshal codec v = Inr p \<and> fits p \<and> out' = out @ take k (frame_bytes kind p))"

lemma writeFrame_writes: "writeFrame codec kind v w = (err, w') \<Longrightarrow> writes_frame codec kind v (wr_out w) (wr_out w')"
  unfolding writes_frame_def by (rule writeFrame_prefix)

subsection \<open>What the bootstrap has relayed\<close>

text \<open>It has stopped the runner and said why.\<close>

text \<open>What \<open>stopRunner\<close> has to do with a runner that it gives up, by what the runner does.\<close>

definition stop_calls :: "bootstrap_env \<Rightarrow> process_call list" where
  "stop_calls env = (if bt_exitsInTime env then [InputClosed, ReapedIt] else [InputClosed, Killed, ReapedIt])"

definition has_stopped :: "bootstrap_env \<Rightarrow> bootstrap \<Rightarrow> bootstrap \<Rightarrow> bool" where
  "has_stopped env b b' \<longleftrightarrow> bs_runner b' = bs_runner b \<and>
    (\<exists>failure. writes_frame (bt_failure env) frameFailure failure (wr_out (bs_control b)) (wr_out (bs_control b'))) \<and>
    bs_calls b' = bs_calls b @ stop_calls env"

text \<open>It has relayed the frame \<open>q\<close> that the job is committed, and left the runner running.\<close>

definition has_relayed :: "bootstrap_env \<Rightarrow> reader \<Rightarrow> bootstrap \<Rightarrow> bootstrap \<Rightarrow> bool" where
  "has_relayed env events b b' \<longleftrightarrow> bs_runner b' = bs_runner b \<and> bs_calls b' = bs_calls b @ [InputClosed] \<and>
    (\<exists>q r rest. stream events = frame_bytes frameCommitted q @ rest \<and> fits q \<and>
       decodeFrame (bt_committed env) \<lparr> if_kind = frameCommitted, if_payload = q \<rparr> frameCommitted = Inr r \<and>
       writes_frame (bt_committed env) frameCommitted r (wr_out (bs_control b)) (wr_out (bs_control b')))"

lemma sendBootstrapFailure_writes:
  "sendBootstrapFailure env cause b = (err, b') \<Longrightarrow>
   bs_runner b' = bs_runner b \<and> bs_calls b' = bs_calls b \<and>
   (\<exists>failure. writes_frame (bt_failure env) frameFailure failure (wr_out (bs_control b)) (wr_out (bs_control b')))"
  by (auto simp: sendBootstrapFailure_def split: prod.splits dest!: writeFrame_writes)

lemma stopRunner_stops:
  "stopRunner env cause b = (err, b') \<Longrightarrow> has_stopped env b b'"
  by (auto simp: stop_calls_def stopRunner_def runner_call_def has_stopped_def writes_frame_def Let_def split: if_splits)

lemma bootstrap_fails_stops: "bootstrap_fails env cause b = (err, b') \<Longrightarrow> has_stopped env b b'"
  by (auto simp: bootstrap_fails_def stop_calls_def stopRunner_def runner_call_def has_stopped_def Let_def split: if_splits prod.splits
      dest!: sendBootstrapFailure_writes)

lemma bootstrap_committed_ends:
  assumes "bootstrap_committed env events b = (err, b')"
  shows "has_stopped env b b' \<or> has_relayed env events b b'"
proof (cases "fst (awaitFrame (bt_json_Valid env) (bt_awaitCommitted env) events)")
  case (Inl e)
  then show ?thesis
    using assms bootstrap_fails_stops by (auto simp: bootstrap_committed_def)
next
  case (Inr answer)
  then obtain events' where "awaitFrame (bt_json_Valid env) (bt_awaitCommitted env) events = (Inr answer, events')"
    by (metis prod.collapse)
  note f = awaitFrame_frame [OF this]
  show ?thesis
  proof (cases "\<exists>r. if_kind answer \<noteq> frameFailure \<and> decodeFrame (bt_committed env) answer frameCommitted = Inr r")
    case True
    then obtain r where r: "if_kind answer \<noteq> frameFailure" "decodeFrame (bt_committed env) answer frameCommitted = Inr r"
      by blast
    then obtain q where answer: "answer = \<lparr> if_kind = frameCommitted, if_payload = q \<rparr>"
      using decodeFrame_kind by (metis internalFrame.surjective old.unit.exhaust)
    have "has_relayed env events b b'"
      using assms r(2) Inr f(1,2) unfolding answer
      by (auto simp: bootstrap_committed_def has_relayed_def runner_call_def Let_def split: prod.splits
          dest!: writeFrame_writes)
    then show ?thesis ..
  next
    case False
    then show ?thesis
      using assms bootstrap_fails_stops Inr by (auto simp: bootstrap_committed_def split: if_splits sum.splits)
  qed
qed

definition writes_whole :: "'v codec \<Rightarrow> frameKind \<Rightarrow> 'v \<Rightarrow> bytes \<Rightarrow> bytes \<Rightarrow> bool" where
  "writes_whole codec kind v out out' \<longleftrightarrow>
    (\<exists>p. cd_Marshal codec v = Inr p \<and> fits p \<and> out' = out @ frame_bytes kind p)"

lemma writeFrame_whole: "writeFrame codec kind v w = (noerr, w') \<Longrightarrow> writes_whole codec kind v (wr_out w) (wr_out w')"
  by (auto simp: writes_whole_def elim: writeFrame_ok)

text \<open>The runner has got what it had, or also the commit that was in the bootstrap's input.\<close>

definition commit_passed :: "bootstrap_env \<Rightarrow> reader \<Rightarrow> bootstrap \<Rightarrow> bootstrap \<Rightarrow> bool" where
  "commit_passed env input b b' \<longleftrightarrow> bs_runner b' = bs_runner b \<or>
    ((\<exists>q rest. stream input = frame_bytes frameCommit q @ rest \<and> fits q) \<and>
     writes_frame (bt_empty env) frameCommit () (wr_out (bs_runner b)) (wr_out (bs_runner b')))"

definition was_stopped :: "bootstrap_env \<Rightarrow> bootstrap \<Rightarrow> bootstrap \<Rightarrow> bool" where
  "was_stopped env b b' \<longleftrightarrow> bs_calls b' = bs_calls b @ stop_calls env"

definition prepared_end :: "bootstrap_env \<Rightarrow> reader \<Rightarrow> reader \<Rightarrow> bootstrap \<Rightarrow> bootstrap \<Rightarrow> bool" where
  "prepared_end env input events b b' \<longleftrightarrow> commit_passed env input b b' \<and>
    (was_stopped env b b' \<and> writes_frame (bt_empty env) framePrepared () (wr_out (bs_control b)) (wr_out (bs_control b')) \<or>
     (\<exists>c. writes_whole (bt_empty env) framePrepared () (wr_out (bs_control b)) c \<and>
        (was_stopped env b b' \<and> (\<exists>failure. writes_frame (bt_failure env) frameFailure failure c (wr_out (bs_control b'))) \<or>
         bs_calls b' = bs_calls b @ [InputClosed] \<and>
         (\<exists>q r rest. stream events = frame_bytes frameCommitted q @ rest \<and> fits q \<and>
            decodeFrame (bt_committed env) \<lparr> if_kind = frameCommitted, if_payload = q \<rparr> frameCommitted = Inr r \<and>
            writes_frame (bt_committed env) frameCommitted r c (wr_out (bs_control b'))))))"

lemma prepared_end_stopped:
  assumes "has_stopped env (b\<lparr> bs_control := control, bs_runner := runner \<rparr>) b'"
    and "writeFrame (bt_empty env) framePrepared () (bs_control b) = (noerr, control)"
    and "commit_passed env input b (b\<lparr> bs_runner := runner \<rparr>)"
  shows "prepared_end env input events b b'"
  using assms writeFrame_whole [OF assms(2)]
  unfolding prepared_end_def has_stopped_def was_stopped_def commit_passed_def by auto

lemma bootstrap_prepared_ends:
  assumes "bootstrap_prepared env input events b = (err, b')"
  shows "prepared_end env input events b b'"
proof -
  obtain e control where prep: "writeFrame (bt_empty env) framePrepared () (bs_control b) = (e, control)"
    by fastforce
  show ?thesis
  proof (cases "e = noerr")
    case False
    then have "stopRunner env e (b\<lparr> bs_control := control \<rparr>) = (err, b')"
      using assms prep by (simp add: bootstrap_prepared_def)
    then have "was_stopped env b b'" "bs_runner b' = bs_runner b" "bs_control b' = control"
      by (auto simp: stop_calls_def stopRunner_def runner_call_def was_stopped_def Let_def split: if_splits)
    then show ?thesis
      using writeFrame_writes [OF prep] by (simp add: prepared_end_def commit_passed_def)
  next
    case True
    note prep = prep [unfolded True]
    let ?b = "b\<lparr> bs_control := control \<rparr>"
    have stays: "prepared_end env input events b b'" if "bootstrap_fails env cause ?b = (err, b')" for cause
      by (rule prepared_end_stopped [OF _ prep, where runner = "bs_runner b"])
        (use bootstrap_fails_stops [OF that] in \<open>simp_all add: commit_passed_def\<close>)
    show ?thesis
    proof (cases "fst (awaitFrame (bt_json_Valid env) (bt_awaitCommit env) input)")
      case (Inl e)
      then show ?thesis using assms prep stays by (simp add: bootstrap_prepared_def Let_def)
    next
      case (Inr told)
      then obtain input' where "awaitFrame (bt_json_Valid env) (bt_awaitCommit env) input = (Inr told, input')"
        by (metis prod.collapse)
      note f = awaitFrame_frame [OF this]
      show ?thesis
      proof (cases "decodeFrame (bt_empty env) told frameCommit")
        case (Inl e)
        then show ?thesis using assms prep Inr stays by (simp add: bootstrap_prepared_def Let_def)
      next
        case (Inr u)
        then have told: "if_kind told = frameCommit" by (rule decodeFrame_kind)
        obtain e2 runner where pass: "writeFrame (bt_empty env) frameCommit () (bs_runner b) = (e2, runner)"
          by fastforce
        let ?b2 = "b\<lparr> bs_control := control, bs_runner := runner \<rparr>"
        have passed: "commit_passed env input b (b\<lparr> bs_runner := runner \<rparr>)"
          using f(1,2) told writeFrame_writes [OF pass] by (auto simp: commit_passed_def)
        have "has_stopped env ?b2 b' \<or> has_relayed env events ?b2 b'"
          using assms prep Inr \<open>fst _ = Inr told\<close> pass bootstrap_fails_stops [of env e2 ?b2 err b']
            bootstrap_committed_ends [of env events ?b2 err b']
          by (auto simp: bootstrap_prepared_def Let_def split: if_splits)
        then show ?thesis
        proof
          assume "has_stopped env ?b2 b'"
          then show ?thesis by (rule prepared_end_stopped [OF _ prep passed])
        next
          assume "has_relayed env events ?b2 b'"
          then show ?thesis
            using writeFrame_whole [OF prep] passed unfolding prepared_end_def has_relayed_def commit_passed_def
            by auto
        qed
      qed
    qed
  qed
qed

subsection \<open>A whole run\<close>

definition fresh_bootstrap :: "bootstrap \<Rightarrow> bool" where
  "fresh_bootstrap b \<longleftrightarrow> wr_out (bs_control b) = [] \<and> wr_out (bs_runner b) = [] \<and> bs_calls b = []"

text \<open>The start request that is at the head of the input.\<close>

definition bootstrap_request :: "bootstrap_env \<Rightarrow> reader \<Rightarrow> internalStartRequest \<Rightarrow> reader \<Rightarrow> bool" where
  "bootstrap_request env input request input' \<longleftrightarrow>
    (\<exists>raw. stream input = frame_bytes frameStart raw @ stream input' \<and> fits raw \<and>
       decodeFrame (bt_start env) \<lparr> if_kind = frameStart, if_payload = raw \<rparr> frameStart = Inr request)"

text \<open>How a run ends: before the runner is started, before the runner is prepared, or later.\<close>

definition bootstrap_end :: "bootstrap_env \<Rightarrow> reader \<Rightarrow> bootstrap \<Rightarrow> bool" where
  "bootstrap_end env input b' \<longleftrightarrow>
    (bs_calls b' = [] \<and> wr_out (bs_runner b') = [] \<and>
     (\<exists>failure. writes_frame (bt_failure env) frameFailure failure [] (wr_out (bs_control b')))) \<or>
    (\<exists>request input'. bootstrap_request env input request input' \<and> validateInternalStart request = noerr \<and>
       (bs_calls b' = Started # stop_calls env \<and>
        writes_frame (bt_start env) frameStart request [] (wr_out (bs_runner b')) \<and>
        (\<exists>failure. writes_frame (bt_failure env) frameFailure failure [] (wr_out (bs_control b'))) \<or>
        (\<exists>b1 p events. bs_calls b1 = [Started] \<and> wr_out (bs_control b1) = [] \<and>
           writes_whole (bt_start env) frameStart request [] (wr_out (bs_runner b1)) \<and>
           stream (bt_events env) = frame_bytes framePrepared p @ stream events \<and> fits p \<and>
           prepared_end env input' events b1 b')))"

lemma bootstrap_started_ends:
  assumes run: "bootstrap_started env request input' b = (err, b')"
    and b: "wr_out (bs_control b) = []" "wr_out (bs_runner b) = []" "bs_calls b = [Started]"
    and request: "bootstrap_request env input request input'" "validateInternalStart request = noerr"
  shows "bootstrap_end env input b'"
proof -
  have stopped: "bootstrap_end env input b'"
    if "bootstrap_fails env cause (b\<lparr> bs_runner := runner \<rparr>) = (err, b')"
      "writes_frame (bt_start env) frameStart request [] (wr_out runner)" for cause runner
    using bootstrap_fails_stops [OF that(1)] that(2) b request unfolding bootstrap_end_def has_stopped_def by auto
  obtain e runner where start: "writeFrame (bt_start env) frameStart request (bs_runner b) = (e, runner)"
    by fastforce
  have sent: "writes_frame (bt_start env) frameStart request [] (wr_out runner)"
    using writeFrame_writes [OF start] b(2) by simp
  show ?thesis
  proof (cases "errors_Join [bt_close env RunnerInput, bt_close env RunnerControl] = noerr \<and> e = noerr")
    case False
    then show ?thesis
      using run start stopped [OF _ sent] stopped [of _ "bs_runner b"] b(2)
      by (auto simp: bootstrap_started_def writes_frame_def Let_def split: if_splits)
  next
    case True
    then have run': "(case awaitFrame (bt_json_Valid env) (bt_awaitPrepared env) (bt_events env) of
              (Inl err, events) \<Rightarrow> bootstrap_fails env (errors_Join [err, [ErrStartupFailed]]) (b\<lparr> bs_runner := runner \<rparr>)
            | (Inr prepared, events) \<Rightarrow>
                if if_kind prepared \<noteq> framePrepared
                then bootstrap_fails env [ErrStartupFailed] (b\<lparr> bs_runner := runner \<rparr>)
                else bootstrap_prepared env input' events (b\<lparr> bs_runner := runner \<rparr>)) = (err, b')"
      using run start unfolding bootstrap_started_def Let_def by simp
    obtain r events where await: "awaitFrame (bt_json_Valid env) (bt_awaitPrepared env) (bt_events env) = (r, events)"
      by fastforce
    show ?thesis
    proof (cases "\<exists>frame. r = Inr frame \<and> if_kind frame = framePrepared")
      case False
      then show ?thesis
        using run' await stopped [OF _ sent] by (auto split: sum.splits if_splits)
    next
      case True
      then obtain frame where r: "r = Inr frame" "if_kind frame = framePrepared"
        by blast
      note f = awaitFrame_frame [OF await [unfolded r(1)]]
      have "prepared_end env input' events (b\<lparr> bs_runner := runner \<rparr>) b'"
        using run' await r bootstrap_prepared_ends by simp
      moreover have "writes_whole (bt_start env) frameStart request [] (wr_out runner)"
        using writeFrame_whole [of "bt_start env"] start \<open>_ \<and> e = noerr\<close> b(2) by fastforce
      ultimately show ?thesis
        unfolding bootstrap_end_def using f(1,2) r(2) b request by fastforce
    qed
  qed
qed

lemma runBootstrap_ends:
  assumes run: "runBootstrap env input b = (err, b')" and fresh: "fresh_bootstrap b"
  shows "bootstrap_end env input b'"
proof -
  have b: "wr_out (bs_control b) = []" "wr_out (bs_runner b) = []" "bs_calls b = []"
    using fresh by (simp_all add: fresh_bootstrap_def)
  have early: "bootstrap_end env input b'" if "sendBootstrapFailure env cause b = (err, b')" for cause
    using sendBootstrapFailure_writes [OF that] b unfolding bootstrap_end_def by auto
  obtain r input' where read: "readFrame (bt_json_Valid env) input = (r, input')"
    by fastforce
  show ?thesis
  proof (cases "\<exists>frame request. r = Inr frame \<and> decodeFrame (bt_start env) frame frameStart = Inr request")
    case False
    then show ?thesis
      using run read early by (auto simp: runBootstrap_def split: sum.splits)
  next
    case True
    then obtain frame request where r: "r = Inr frame" "decodeFrame (bt_start env) frame frameStart = Inr request"
      by blast
    have start: "bootstrap_request env input request input'"
      unfolding bootstrap_request_def
      using readFrame_Inr [OF read [unfolded r(1)]] r(2) decodeFrame_kind [OF r(2)]
      by (intro exI [of _ "if_payload frame"]) (cases frame, simp)
    have "bootstrap_requested env request input' b = (err, b')"
      using run read r by (simp add: runBootstrap_def)
    then show ?thesis
      using early bootstrap_started_ends [OF _ _ _ _ start, of "runner_call Started b" err b'] b
      by (simp add: bootstrap_requested_def runner_call_def Let_def split: if_splits)
  qed
qed

subsection \<open>The relay\<close>

lemma frame_bytes_not_Nil [simp]: "frame_bytes kind p \<noteq> []"
  by (simp add: frame_bytes_def internalMagic_def)

lemma writes_frame_first:
  assumes "writes_frame codec kind v [] (frame_bytes kind' p @ x)" "proper_kind kind" "proper_kind kind'" "fits p"
  shows "kind = kind' \<and> cd_Marshal codec v = Inr p \<and> x = []"
proof -
  obtain p' k where p': "cd_Marshal codec v = Inr p'" "fits p'" "frame_bytes kind' p @ x = take k (frame_bytes kind p')"
    using assms(1) by (auto simp: writes_frame_def)
  have "frame_bytes kind' p @ (x @ drop k (frame_bytes kind p')) = frame_bytes kind p' @ []"
    using p'(3) by (metis append.assoc append_Nil2 append_take_drop_id)
  from frame_bytes_inj [OF this assms(3,2) assms(4) p'(2)] show ?thesis
    using p'(1) by simp
qed

lemma writes_frame_next:
  assumes "writes_frame codec kind v out (out @ s)"
  shows "writes_frame codec kind v [] s"
  using assms by (auto simp: writes_frame_def)

lemma writes_whole_first:
  assumes "writes_whole codec kind v [] out" "writes_frame codec' kind' v' out (frame_bytes kind p @ s)"
    and "proper_kind kind" "fits p"
  shows "cd_Marshal codec v = Inr p \<and> writes_frame codec' kind' v' [] s"
proof -
  obtain p' x where p': "cd_Marshal codec v = Inr p'" "fits p'" "out = frame_bytes kind p'" "frame_bytes kind p @ s = out @ x"
      "writes_frame codec' kind' v' [] x"
    using assms(1,2) by (auto simp: writes_whole_def writes_frame_def)
  have "frame_bytes kind p @ s = frame_bytes kind p' @ x"
    using p'(3,4) by simp
  from frame_bytes_inj [OF this assms(3,3,4) p'(2)] show ?thesis
    using p'(1,5) by simp
qed

lemma relayed_commit:
  assumes run: "runBootstrap env input b = (err, b')" "fresh_bootstrap b"
    and out: "wr_out (bs_runner b') = frame_bytes frameStart p @ frame_bytes frameCommit q @ x" "fits p" "fits q"
  shows "\<exists>request input' q' rest. bootstrap_request env input request input' \<and> cd_Marshal (bt_start env) request = Inr p \<and>
    stream input' = frame_bytes frameCommit q' @ rest \<and> fits q'"
proof -
  have more: "\<not> writes_frame (bt_start env) frameStart request [] (wr_out (bs_runner b'))" for request
    using writes_frame_first [of "bt_start env" frameStart request frameStart p "frame_bytes frameCommit q @ x"] out by auto
  obtain request input' b1 events where r: "bootstrap_request env input request input'"
      "writes_whole (bt_start env) frameStart request [] (wr_out (bs_runner b1))" "prepared_end env input' events b1 b'"
    using runBootstrap_ends [OF run] more out(1) by (auto simp: bootstrap_end_def)
  obtain p1 where p1: "cd_Marshal (bt_start env) request = Inr p1" "fits p1" "wr_out (bs_runner b1) = frame_bytes frameStart p1"
    using r(2) by (auto simp: writes_whole_def)
  have "bs_runner b' \<noteq> bs_runner b1"
  proof
    assume "bs_runner b' = bs_runner b1"
    then have "frame_bytes frameStart p @ (frame_bytes frameCommit q @ x) = frame_bytes frameStart p1 @ []"
      using out(1) p1(3) by simp
    from frame_bytes_inj [OF this _ _ out(2) p1(2)] show False by simp
  qed
  then obtain q' rest where q': "stream input' = frame_bytes frameCommit q' @ rest" "fits q'"
      "writes_frame (bt_empty env) frameCommit () (wr_out (bs_runner b1)) (wr_out (bs_runner b'))"
    using r(3) by (auto simp: prepared_end_def commit_passed_def)
  have "cd_Marshal (bt_start env) request = Inr p"
    using writes_whole_first [OF r(2) q'(3) [unfolded out(1)]] out(2) by simp
  then show ?thesis using r(1) q'(1,2) by blast
qed

lemma relayed_committed:
  assumes run: "runBootstrap env input b = (err, b')" "fresh_bootstrap b"
    and out: "wr_out (bs_control b') = frame_bytes framePrepared p @ frame_bytes frameCommitted q @ x" "fits p" "fits q"
  shows "\<exists>p' q' r rest. stream (bt_events env) = frame_bytes framePrepared p' @ frame_bytes frameCommitted q' @ rest \<and>
    fits p' \<and> fits q' \<and> cd_Marshal (bt_committed env) r = Inr q \<and>
    decodeFrame (bt_committed env) \<lparr> if_kind = frameCommitted, if_payload = q' \<rparr> frameCommitted = Inr r"
proof -
  have no_failure: "\<not> writes_frame (bt_failure env) frameFailure failure [] (wr_out (bs_control b'))" for failure
    using writes_frame_first [of "bt_failure env" frameFailure failure framePrepared p "frame_bytes frameCommitted q @ x"] out
    by auto
  obtain b1 p' events input' where e: "wr_out (bs_control b1) = []" "stream (bt_events env) = frame_bytes framePrepared p' @ stream events"
      "fits p'" "prepared_end env input' events b1 b'"
    using runBootstrap_ends [OF run] no_failure by (auto simp: bootstrap_end_def)
  have whole: "writes_frame codec kind v [] (frame_bytes frameCommitted q @ x)"
    if "writes_whole (bt_empty env) framePrepared () [] c" "writes_frame codec kind v c (wr_out (bs_control b'))"
    for codec :: "'a codec" and kind v c
    using writes_whole_first [OF that [unfolded out(1)]] out(2) by simp
  have "\<not> writes_frame (bt_empty env) framePrepared () [] (wr_out (bs_control b'))"
    using writes_frame_first [of "bt_empty env" framePrepared "()" framePrepared p "frame_bytes frameCommitted q @ x"] out by auto
  moreover have "\<not> (writes_whole (bt_empty env) framePrepared () [] c \<and>
      writes_frame (bt_failure env) frameFailure failure c (wr_out (bs_control b')))" for c failure
    using whole [of c "bt_failure env"] writes_frame_first [of "bt_failure env" frameFailure failure frameCommitted q x] out(3) by auto
  ultimately obtain c q' r rest where r: "writes_whole (bt_empty env) framePrepared () [] c"
      "stream events = frame_bytes frameCommitted q' @ rest" "fits q'"
      "decodeFrame (bt_committed env) \<lparr> if_kind = frameCommitted, if_payload = q' \<rparr> frameCommitted = Inr r"
      "writes_frame (bt_committed env) frameCommitted r c (wr_out (bs_control b'))"
    using e(1,4) unfolding prepared_end_def by auto
  have "cd_Marshal (bt_committed env) r = Inr q"
    using writes_frame_first [OF whole [OF r(1,5)]] out(3) by simp
  then show ?thesis
    using e(2,3) r(2-4) by auto
qed

text \<open>C16: The bootstrap never abandons a runner that is not committed. When \<open>runBootstrap\<close> returns, either it has
  started no runner; or it has closed the runner's input and reaped it, after killing it exactly if it
  did not exit in time; or the runner has reported, after the frame that its job is prepared, the frame that
  the job is committed, and is left to run on its own. This holds whichever of its calls fail and
  whichever of the frames, the deadline and the context each of its selects takes.\<close>

theorem runBootstrap_leaves_no_runner:
  assumes "runBootstrap env input b = (err, b')" "fresh_bootstrap b"
  shows "bs_calls b' = [] \<or>
    bs_calls b' =
      (if bt_exitsInTime env then [Started, InputClosed, ReapedIt] else [Started, InputClosed, Killed, ReapedIt]) \<or>
    (bs_calls b' = [Started, InputClosed] \<and>
     (\<exists>p q rest. stream (bt_events env) = frame_bytes framePrepared p @ frame_bytes frameCommitted q @ rest))"
proof -
  have calls: "(if bt_exitsInTime env then [Started, InputClosed, ReapedIt] else [Started, InputClosed, Killed, ReapedIt])
      = Started # stop_calls env"
    by (simp add: stop_calls_def)
  show ?thesis
    using runBootstrap_ends [OF assms] unfolding calls bootstrap_end_def prepared_end_def was_stopped_def by fastforce
qed

subsection \<open>A deadline that is too early\<close>

text \<open>
  The bootstrap's deadline counts from its own start, also for the answer to the commit. If it passes
  after the commit was relayed, the bootstrap kills the runner when it does not exit within the
  grace period, which a runner that has committed its job has no reason to do. The manager, whose own
  timer for the commit started later, may by then have found the job and reported it as started.
\<close>

lemma stopRunner_kills:
  "\<not> bt_exitsInTime env \<Longrightarrow> bs_calls (snd (stopRunner env cause b)) = bs_calls b @ [InputClosed, Killed, ReapedIt]"
  "\<not> bt_exitsInTime env \<Longrightarrow> bs_calls (snd (bootstrap_fails env cause b)) = bs_calls b @ [InputClosed, Killed, ReapedIt]"
  by (simp_all add: bootstrap_fails_def stopRunner_def sendBootstrapFailure_def runner_call_def Let_def split: prod.splits)

lemma deadline_kills_committed_runner:
  assumes "bt_awaitCommitted env = Interrupted i" "\<not> bt_exitsInTime env"
  shows "bs_calls (snd (bootstrap_prepared env input events b)) = bs_calls b @ [InputClosed, Killed, ReapedIt]"
proof -
  have "bootstrap_committed env events b' = bootstrap_fails env (interruption_error i) b'" for b'
    using assms(1) by (simp add: bootstrap_committed_def awaitFrame_def)
  then show ?thesis
    using assms(2) by (simp add: bootstrap_prepared_def stopRunner_kills Let_def split: prod.split sum.split)
qed

subsection \<open>A concrete bootstrap\<close>

definition example_bootstrap_env :: bootstrap_env where
  "example_bootstrap_env =
    \<lparr> bt_json_Valid = (\<lambda>_. True), bt_start = one_value_codec example_request ''s'',
      bt_empty = one_value_codec () ''{}'',
      bt_committed = one_value_codec \<lparr> ic_Job = ps_Job example_job, ic_DurabilityError = [] \<rparr> ''j'',
      bt_failure = one_value_codec \<lparr> il_Message = [] \<rparr> ''f'', bt_Error = (\<lambda>_. []),
      bt_inputPipe = noerr, bt_eventsPipe = noerr, bt_executable = noerr, bt_runnerStart = noerr,
      bt_close = (\<lambda>_. noerr), bt_awaitPrepared = FrameArrived, bt_awaitCommit = FrameArrived,
      bt_awaitCommitted = FrameArrived,
      bt_events = \<lparr> rd_pieces = [frame_bytes framePrepared ''{}'', frame_bytes frameCommitted ''j''], rd_end = IoEOF \<rparr>,
      bt_exitsInTime = True, bt_waitErr = noerr, bt_killErr = noerr \<rparr>"

definition example_bootstrap :: bootstrap where
  "example_bootstrap =
    \<lparr> bs_control = \<lparr> wr_out = [], wr_writes = [] \<rparr>, bs_runner = \<lparr> wr_out = [], wr_writes = [] \<rparr>, bs_calls = [] \<rparr>"

text \<open>The same with a runner that is prepared, but neither commits nor exits in time.\<close>

definition example_stuck_env :: bootstrap_env where
  "example_stuck_env = example_bootstrap_env\<lparr> bt_awaitCommitted := Interrupted StartupTimedOut, bt_exitsInTime := False \<rparr>"

lemma runBootstrap_leaves_no_runner_witness:
  "case runBootstrap example_stuck_env example_runner_input example_bootstrap of (err, b') \<Rightarrow>
    bs_calls b' = [] \<or> bs_calls b' = [Started, InputClosed, Killed, ReapedIt] \<or>
    (bs_calls b' = [Started, InputClosed] \<and>
     (\<exists>p q rest. stream (bt_events example_stuck_env) = frame_bytes framePrepared p @ frame_bytes frameCommitted q @ rest))"
proof -
  have "fresh_bootstrap example_bootstrap"
    by (simp add: fresh_bootstrap_def example_bootstrap_def)
  moreover have "\<not> bt_exitsInTime example_stuck_env"
    by (simp add: example_stuck_env_def)
  ultimately show ?thesis
    using runBootstrap_leaves_no_runner [of example_stuck_env example_runner_input example_bootstrap]
    by (auto split: prod.split)
qed

end
