(* ===== verification/Startup.thy ===== *)
theory Startup
  imports Bootstrap
begin

section \<open>Starting a job\<close>

text \<open>
  \<open>Start\<close> of \<open>internal/runner/api_unix.go\<close> and the handshake of \<open>startup_handshake_unix.go\<close>: the manager
  opens the directories of the launch, starts the bootstrap process, sends it the request, waits for
  the frame that the job is prepared, and from then on wants the job: it sends the commit and, whatever
  happens next, looks for the job in the store before it reports a failure.

  \<open>startup_env\<close> holds the answers of its calls that are not on files, and \<open>startup\<close> what it leaves behind: what it
  wrote to the bootstrap, and what it did with that process. The test hooks of the manager are nil.
\<close>

subsection \<open>Definitions\<close>

text \<open>The select of \<open>writeFrameBefore\<close>; a write that is not awaited may have written any part of the frame.\<close>

datatype write_wait = WriteReturned | WriteAbandoned interruption nat

datatype startup_fd = RequestRead | RequestWrite | ResponseRead | ResponseWrite

record startup_env =
  sp_json_Valid :: "bytes \<Rightarrow> bool"
  sp_start :: "internalStartRequest codec"
  sp_empty :: "unit codec"
  sp_committed :: "internalCommitted codec"
  sp_failure :: "internalFailure codec"
  sp_requestPipe :: error
  sp_responsePipe :: error
  sp_bootstrapStart :: error
  sp_close :: "startup_fd \<Rightarrow> error"
  sp_writeStart :: write_wait
  sp_awaitPrepared :: frame_wait
  sp_expired :: "interruption option"
  sp_writeCommit :: write_wait
  sp_awaitCommitted :: frame_wait
  sp_response :: reader
  sp_exitsInTime :: bool
  sp_waitErr :: error
  sp_killErr :: error

record startup =
  su_request :: writer
  su_calls :: "process_call list"

text \<open>The metadata of a job that was started, with an error if that is not certain to last; or only an error.\<close>

type_synonym start_result = "(JobMetadata \<times> error) result"

definition bootstrap_call :: "process_call \<Rightarrow> startup \<Rightarrow> startup" where
  "bootstrap_call c s = s\<lparr> su_calls := su_calls s @ [c] \<rparr>"

definition writeFrameBefore :: "'v codec \<Rightarrow> frameKind \<Rightarrow> 'v \<Rightarrow> write_wait \<Rightarrow> writer \<Rightarrow> error \<times> writer" where
  "writeFrameBefore codec kind v wait w =
    (case wait of
       WriteReturned \<Rightarrow> writeFrame codec kind v w
     | WriteAbandoned i n \<Rightarrow>
         (interruption_error i,
          w\<lparr> wr_out := take (length (wr_out w) + n) (wr_out (snd (writeFrame codec kind v w))) \<rparr>))"

definition stopBootstrapWithWait :: "startup_env \<Rightarrow> error \<Rightarrow> startup \<Rightarrow> error \<times> startup" where
  "stopBootstrapWithWait env cause s =
    (errors_Join [cause, sp_killErr env, sp_waitErr env], bootstrap_call ReapedIt (bootstrap_call Killed s))"

definition abortBeforeCommit :: "startup_env \<Rightarrow> error \<Rightarrow> startup \<Rightarrow> error \<times> startup" where
  "abortBeforeCommit env cause s =
    (let closeErr = sp_close env RequestWrite; s = bootstrap_call InputClosed s in
     if sp_exitsInTime env
     then (errors_Join [cause, closeErr, sp_waitErr env], bootstrap_call ReapedIt s)
     else stopBootstrapWithWait env (errors_Join [cause, closeErr]) s)"

definition decodeStartupFailure :: "startup_env \<Rightarrow> internalFrame \<Rightarrow> error" where
  "decodeStartupFailure env frame =
    (case decodeFrame (sp_failure env) frame frameFailure of
       Inl err \<Rightarrow> err
     | Inr failure \<Rightarrow> fmt_Errorf (il_Message failure) [ErrStartupFailed])"

definition committedResult :: "internalCommitted \<Rightarrow> start_result" where
  "committedResult r =
    (if ic_DurabilityError r = [] then Inr (ic_Job r, noerr)
     else Inr (ic_Job r, [CommitDurabilityError (jm_JobID (ic_Job r)), ErrText (ic_DurabilityError r)]))"

text \<open>
  The loop of \<open>recoverCommitted\<close>: the recovery context answers \<open>ctx_Err\<close> and the select on it and the
  timer is \<open>poll_timer\<close>. The rounds are the world's fuel; a loop that uses them up is taken to hang.
\<close>

primrec recover_loop :: "nat \<Rightarrow> Store \<Rightarrow> JobID \<Rightarrow> int \<Rightarrow> error \<Rightarrow> error \<Rightarrow> start_result io" where
  "recover_loop 0 store jobID deadline cause loadErr = do { hang; State_Monad.return (Inl gone) }"
| "recover_loop (Suc rounds) store jobID deadline cause loadErr = do {
     now \<leftarrow> monotonic_now;
     if \<not> now < deadline
     then State_Monad.return (Inl (errors_Join [cause, loadErr, [ContextDeadlineExceeded]]))
     else do {
       ctxErr \<leftarrow> ctx_Err;
       loaded \<leftarrow> (if ctxErr \<noteq> noerr then State_Monad.return (Inl ctxErr) else Load store jobID);
       case loaded of
         Inr snapshot \<Rightarrow>
           let job = ps_Job (sn_State snapshot) in
           State_Monad.return (Inr (job, CommitDurabilityError (jm_JobID job) #
             errors_Join [[ErrCommitDurabilityUnknown], cause]))
       | Inl err \<Rightarrow> do {
           expired \<leftarrow> ctx_Err;
           now \<leftarrow> (if expired \<noteq> noerr then State_Monad.return deadline else monotonic_now);
           if \<not> now < deadline
           then State_Monad.return (Inl (errors_Join [cause, err, [ContextDeadlineExceeded]]))
           else do {
             _ \<leftarrow> time_Until deadline;
             doneErr \<leftarrow> poll_timer;
             if doneErr \<noteq> noerr then State_Monad.return (Inl (errors_Join [cause, err, doneErr]))
             else recover_loop rounds store jobID deadline cause err } } } }"

definition recoverCommitted :: "Manager \<Rightarrow> StartRequest \<Rightarrow> JobID \<Rightarrow> handle \<Rightarrow> error \<Rightarrow> start_result io" where
  "recoverCommitted manager request jobID workspace cause = do {
     opened \<leftarrow> OpenStoreAt (sq_Invocation request) (mg_contracts manager) workspace;
     case opened of
       Inl err \<Rightarrow> State_Monad.return (Inl (errors_Join [cause, err]))
     | Inr store \<Rightarrow> do {
         now \<leftarrow> monotonic_now;
         rounds \<leftarrow> loop_fuel;
         r \<leftarrow> recover_loop rounds store jobID (now + cf_StartupTimeout (mg_config manager)) cause noerr;
         closeErr \<leftarrow> Store_Close store;
         State_Monad.return (case r of
           Inl err \<Rightarrow> Inl (errors_Join [err, closeErr])
         | Inr (job, err) \<Rightarrow> Inr (job, errors_Join [err, closeErr])) } }"

text \<open>\<open>complete\<close> once the commit is written and the input closed.\<close>

definition complete_committed ::
  "startup_env \<Rightarrow> Manager \<Rightarrow> StartRequest \<Rightarrow> JobID \<Rightarrow> handle \<Rightarrow> reader \<Rightarrow> start_result io" where
  "complete_committed env manager request jobID workspace response =
    (let recover = recoverCommitted manager request jobID workspace in
     case fst (awaitFrame (sp_json_Valid env) (sp_awaitCommitted env) response) of
       Inl err \<Rightarrow> recover err
     | Inr answer \<Rightarrow>
         if if_kind answer = frameFailure then recover (decodeStartupFailure env answer)
         else case decodeFrame (sp_committed env) answer frameCommitted of
           Inl err \<Rightarrow> recover err
         | Inr r \<Rightarrow> State_Monad.return (committedResult r))"

text \<open>\<open>complete\<close> from the prepared job on.\<close>

definition complete_prepared ::
  "startup_env \<Rightarrow> Manager \<Rightarrow> StartRequest \<Rightarrow> JobID \<Rightarrow> handle \<Rightarrow> reader \<Rightarrow> startup \<Rightarrow> (start_result \<times> startup) io" where
  "complete_prepared env manager request jobID workspace response s =
    (case writeFrameBefore (sp_empty env) frameCommit () (sp_writeCommit env) (su_request s) of
       (err, w) \<Rightarrow>
         let s = bootstrap_call InputClosed (s\<lparr> su_request := w \<rparr>); closeErr = sp_close env RequestWrite in do {
           r \<leftarrow>
             (if err \<noteq> noerr
              then recoverCommitted manager request jobID workspace (errors_Join [err, closeErr])
              else if closeErr \<noteq> noerr
              then recoverCommitted manager request jobID workspace
                (fmt_Errorf ''close committed bootstrap input: %w'' closeErr)
              else complete_committed env manager request jobID workspace response);
           State_Monad.return (r, s) })"

definition complete ::
  "startup_env \<Rightarrow> Manager \<Rightarrow> StartRequest \<Rightarrow> JobID \<Rightarrow> handle \<Rightarrow> startup \<Rightarrow> (start_result \<times> startup) io" where
  "complete env manager request jobID workspace s =
    (let abort = (\<lambda>cause. case abortBeforeCommit env cause s of (err, s') \<Rightarrow> State_Monad.return (Inl err, s')) in
     case awaitFrame (sp_json_Valid env) (sp_awaitPrepared env) (sp_response env) of
       (Inl err, response) \<Rightarrow> abort err
     | (Inr prepared, response) \<Rightarrow>
         if if_kind prepared = frameFailure then abort (decodeStartupFailure env prepared)
         else case decodeFrame (sp_empty env) prepared framePrepared of
           Inl err \<Rightarrow> abort err
         | Inr _ \<Rightarrow>
             (case sp_expired env of
                Some i \<Rightarrow> abort (interruption_error i)
              | None \<Rightarrow> complete_prepared env manager request jobID workspace response s))"

text \<open>\<open>Start\<close> once the launch directories are open.\<close>

definition start_bootstrap ::
  "startup_env \<Rightarrow> Manager \<Rightarrow> StartRequest \<Rightarrow> internalStartRequest \<Rightarrow> handle \<Rightarrow> startup \<Rightarrow> (start_result \<times> startup) io" where
  "start_bootstrap env manager request internalRequest workspace s =
    (if sp_requestPipe env \<noteq> noerr
     then State_Monad.return (Inl (fmt_Errorf ''create bootstrap input: %w'' (sp_requestPipe env)), s)
     else if sp_responsePipe env \<noteq> noerr
     then State_Monad.return (Inl (errors_Join
       [fmt_Errorf ''create bootstrap control: %w'' (sp_responsePipe env),
        sp_close env RequestRead, sp_close env RequestWrite]), s)
     else if sp_bootstrapStart env \<noteq> noerr
     then State_Monad.return (Inl (errors_Join
       [fmt_Errorf ''start bootstrap: %w'' (ErrStartupFailed # sp_bootstrapStart env),
        sp_close env RequestRead, sp_close env RequestWrite, sp_close env ResponseRead, sp_close env ResponseWrite]), s)
     else
       let s = bootstrap_call Started s; closeErr = errors_Join [sp_close env RequestRead, sp_close env ResponseWrite] in
       if closeErr \<noteq> noerr
       then (case stopBootstrapWithWait env (fmt_Errorf ''close bootstrap child descriptors: %w'' closeErr) s of
               (err, s') \<Rightarrow> State_Monad.return (Inl err, s'))
       else case writeFrameBefore (sp_start env) frameStart internalRequest (sp_writeStart env) (su_request s) of
         (err, w) \<Rightarrow>
           let s = s\<lparr> su_request := w \<rparr> in
           if err \<noteq> noerr
           then
             let cause = (if errors_Is err ErrStartupTimeout \<or> errors_Is err ContextCanceled \<or>
                   errors_Is err ContextDeadlineExceeded then err
                   else fmt_Errorf ''write bootstrap start frame: %w'' (ErrStartupFailed # err))
             in (case stopBootstrapWithWait env
                   (errors_Join [cause, sp_close env RequestWrite, sp_close env ResponseRead])
                   (bootstrap_call InputClosed s) of
                   (err, s') \<Rightarrow> State_Monad.return (Inl err, s'))
           else complete env manager request (is_JobID internalRequest) workspace s)"

definition manager_Start :: "startup_env \<Rightarrow> Manager \<Rightarrow> StartRequest \<Rightarrow> startup \<Rightarrow> (start_result \<times> startup) io" where
  "manager_Start env manager request s = do {
     ctxErr \<leftarrow> ctx_Err;
     if ctxErr \<noteq> noerr then State_Monad.return (Inl ctxErr, s)
     else do {
       built \<leftarrow> buildStartRequest manager request;
       case built of
         Inl err \<Rightarrow> State_Monad.return (Inl err, s)
       | Inr internalRequest \<Rightarrow> do {
           opened \<leftarrow> openLaunchCapabilities (ti_workspacePath (sq_Invocation request)) (ti_cwd (sq_Invocation request));
           case opened of
             Inl err \<Rightarrow> State_Monad.return (Inl err, s)
           | Inr (workspace, cwd) \<Rightarrow> do {
               r \<leftarrow> start_bootstrap env manager request internalRequest workspace s;
               _ \<leftarrow> file_Close cwd;
               _ \<leftarrow> file_Close workspace;
               State_Monad.return r } } } }"

subsection \<open>How \<open>Start\<close> ends\<close>

text \<open>What code returns in any world, whatever happened to the files on the way.\<close>

definition returns :: "('a \<Rightarrow> bool) \<Rightarrow> 'a io \<Rightarrow> bool" where
  "returns P m \<longleftrightarrow> (\<forall>w. P (fst (run_state m w)))"

lemma returns_return [intro!]: "P x \<Longrightarrow> returns P (State_Monad.return x)"
  by (simp add: returns_def State_Monad.return_def)

lemma returns_bind: "(\<And>x. returns P (f x)) \<Longrightarrow> returns P (m \<bind> f)"
  by (simp add: returns_def State_Monad.bind_def split: prod.split)

lemma returns_bind_after: "returns Q m \<Longrightarrow> (\<And>x. Q x \<Longrightarrow> returns P (f x)) \<Longrightarrow> returns P (m \<bind> f)"
  by (auto simp: returns_def State_Monad.bind_def split: prod.split) (metis fst_conv)

lemma returnsD: "returns P m \<Longrightarrow> run_state m w = (r, w') \<Longrightarrow> P r"
  by (metis returns_def fst_conv)

lemma returns_if: "returns P a \<Longrightarrow> returns P b \<Longrightarrow> returns P (if c then a else b)"
  by simp

lemma returns_sum:
  "(\<And>e. returns P (f e)) \<Longrightarrow> (\<And>x. returns P (g x)) \<Longrightarrow> returns P (case r of Inl e \<Rightarrow> f e | Inr x \<Rightarrow> g x)"
  by (cases r) simp_all

lemmas returns_rules = returns_return returns_if returns_sum returns_bind

text \<open>\<open>errors.As\<close> with a \<open>CommitDurabilityError\<close>: the job it names.\<close>

fun durability_job :: "error \<Rightarrow> JobID option" where
  "durability_job [] = None"
| "durability_job (CommitDurabilityError jobID # rest) = Some jobID"
| "durability_job (e # rest) = durability_job rest"

lemma durability_job_append: "durability_job a = Some j \<Longrightarrow> durability_job (a @ b) = Some j"
  by (induction a rule: durability_job.induct) auto

text \<open>A job found in the store is never reported without an error that says how far it can be trusted.\<close>

fun uncertain :: "start_result \<Rightarrow> bool" where
  "uncertain (Inl err) \<longleftrightarrow> True"
| "uncertain (Inr (job, err)) \<longleftrightarrow> durability_job err = Some (jm_JobID job)"

lemma returns_recover_loop: "returns uncertain (recover_loop rounds store jobID deadline cause loadErr)"
proof (induction rounds arbitrary: loadErr)
  case 0
  then show ?case
    unfolding recover_loop.simps by (intro returns_rules) simp
next
  case (Suc rounds)
  then show ?case
    unfolding recover_loop.simps Let_def by (intro returns_rules) simp_all
qed

lemma returns_recoverCommitted: "returns uncertain (recoverCommitted manager request jobID workspace cause)"
  unfolding recoverCommitted_def
proof (rule returns_bind, rule returns_sum, goal_cases)
  case (2 x store)
  show ?case
  proof (rule returns_bind, rule returns_bind, rule returns_bind_after [OF returns_recover_loop], rule returns_bind)
    fix r :: start_result and closeErr
    assume "uncertain r"
    then show "returns uncertain (State_Monad.return (case r of
        Inl err \<Rightarrow> Inl (errors_Join [err, closeErr]) | Inr (job, err) \<Rightarrow> Inr (job, errors_Join [err, closeErr])))"
      by (cases r rule: uncertain.cases) (auto simp: durability_job_append)
  qed
qed (rule returns_return, simp)

lemma interruption_error_not_nil [simp]: "interruption_error i \<noteq> []"
  by (cases i) simp_all

lemma writes_frame_part:
  assumes "writes_frame codec kind v out out'"
  shows "writes_frame codec kind v out (take (length out + n) out')"
proof (cases "out' = out")
  case True
  then show ?thesis by (simp add: writes_frame_def)
next
  case False
  then obtain p k where "cd_Marshal codec v = Inr p" "fits p" "out' = out @ take k (frame_bytes kind p)"
    using assms by (auto simp: writes_frame_def)
  then show ?thesis
    unfolding writes_frame_def by (intro disjI2 exI [of _ p] exI [of _ "min n k"]) (simp add: min.commute)
qed

lemma writeFrameBefore_writes:
  assumes "writeFrameBefore codec kind v wait w = (err, w')"
  shows "writes_frame codec kind v (wr_out w) (wr_out w')"
    and "err = noerr \<Longrightarrow> writes_whole codec kind v (wr_out w) (wr_out w')"
proof -
  obtain e w2 where w2: "writeFrame codec kind v w = (e, w2)" by fastforce
  show "writes_frame codec kind v (wr_out w) (wr_out w')"
    using assms w2 writeFrame_writes [OF w2] writes_frame_part [OF writeFrame_writes [OF w2]]
    by (auto simp: writeFrameBefore_def split: write_wait.splits)
  show "writes_whole codec kind v (wr_out w) (wr_out w')" if "err = noerr"
    using assms that writeFrame_whole [of codec kind v w] by (auto simp: writeFrameBefore_def split: write_wait.splits)
qed

text \<open>\<open>Start\<close> has given up, and has not sent the commit; or it has tried to, and does not give up any more.\<close>

definition start_gave_up :: "startup_env \<Rightarrow> start_result \<Rightarrow> startup \<Rightarrow> bool" where
  "start_gave_up env r s \<longleftrightarrow> (\<exists>e. r = Inl e) \<and>
    su_calls s \<in> {[], [Started, Killed, ReapedIt], [Started, InputClosed, ReapedIt], [Started, InputClosed, Killed, ReapedIt]} \<and>
    (\<exists>request. writes_frame (sp_start env) frameStart request [] (wr_out (su_request s)))"

definition start_committing :: "startup_env \<Rightarrow> start_result \<Rightarrow> startup \<Rightarrow> bool" where
  "start_committing env r s \<longleftrightarrow> su_calls s = [Started, InputClosed] \<and>
    (\<exists>request out. writes_whole (sp_start env) frameStart request [] out \<and>
       writes_frame (sp_empty env) frameCommit () out (wr_out (su_request s))) \<and>
    (\<exists>p rest. stream (sp_response env) = frame_bytes framePrepared p @ rest \<and> fits p \<and>
       (uncertain r \<or>
        (\<exists>q rest' answer. rest = frame_bytes frameCommitted q @ rest' \<and> fits q \<and>
           decodeFrame (sp_committed env) \<lparr> if_kind = frameCommitted, if_payload = q \<rparr> frameCommitted = Inr answer \<and>
           r = committedResult answer)))"

definition start_ends :: "startup_env \<Rightarrow> start_result \<times> startup \<Rightarrow> bool" where
  "start_ends env x \<longleftrightarrow> start_gave_up env (fst x) (snd x) \<or> start_committing env (fst x) (snd x)"

lemma returns_complete_committed:
  "returns (\<lambda>r. uncertain r \<or> (\<exists>q rest answer. stream response = frame_bytes frameCommitted q @ rest \<and> fits q \<and>
     decodeFrame (sp_committed env) \<lparr> if_kind = frameCommitted, if_payload = q \<rparr> frameCommitted = Inr answer \<and>
     r = committedResult answer)) (complete_committed env manager request jobID workspace response)"
  (is "returns ?P _")
proof -
  have recover: "returns ?P (recoverCommitted manager request jobID workspace cause)" for cause
    using returns_recoverCommitted unfolding returns_def by blast
  obtain a response' where await: "awaitFrame (sp_json_Valid env) (sp_awaitCommitted env) response = (a, response')"
    by fastforce
  show ?thesis
  proof (cases a)
    case (Inl err)
    then show ?thesis
      using recover by (simp add: complete_committed_def Let_def await)
  next
    case (Inr answer)
    note f = awaitFrame_frame [OF await [unfolded Inr]]
    show ?thesis
    proof (cases "\<exists>r. if_kind answer \<noteq> frameFailure \<and> decodeFrame (sp_committed env) answer frameCommitted = Inr r")
      case True
      then obtain r where r: "if_kind answer \<noteq> frameFailure" "decodeFrame (sp_committed env) answer frameCommitted = Inr r"
        by blast
      obtain q where answer: "answer = \<lparr> if_kind = frameCommitted, if_payload = q \<rparr>"
        using decodeFrame_kind [OF r(2)] by (metis internalFrame.surjective old.unit.exhaust)
      have "returns ?P (State_Monad.return (committedResult r))"
        using f(1,2) r(2) unfolding answer by (intro returns_return disjI2) fastforce
      then show ?thesis
        using r Inr by (simp add: complete_committed_def Let_def await)
    next
      case False
      then show ?thesis
        using recover Inr by (auto simp: complete_committed_def Let_def await split: sum.split)
    qed
  qed
qed

lemma returns_complete_prepared:
  assumes "su_calls s = [Started]" "writes_whole (sp_start env) frameStart request' [] (wr_out (su_request s))"
    and "stream (sp_response env) = frame_bytes framePrepared p @ stream response" "fits p"
  shows "returns (start_ends env) (complete_prepared env manager request jobID workspace response s)"
proof -
  obtain err w where wait: "writeFrameBefore (sp_empty env) frameCommit () (sp_writeCommit env) (su_request s) = (err, w)"
    by fastforce
  let ?P = "\<lambda>r. start_committing env r (bootstrap_call InputClosed (s\<lparr> su_request := w \<rparr>))"
  have sent: "writes_frame (sp_empty env) frameCommit () (wr_out (su_request s)) (wr_out w)"
    using writeFrameBefore_writes(1) [OF wait] .
  have ends: "?P r" if "uncertain r \<or> (\<exists>q rest answer. stream response = frame_bytes frameCommitted q @ rest \<and> fits q \<and>
      decodeFrame (sp_committed env) \<lparr> if_kind = frameCommitted, if_payload = q \<rparr> frameCommitted = Inr answer \<and>
      r = committedResult answer)" for r
    unfolding start_committing_def using assms sent that by (simp add: bootstrap_call_def) blast
  have recover: "returns ?P (recoverCommitted manager request jobID workspace cause)" for cause
    using returns_recoverCommitted ends unfolding returns_def by blast
  have more: "returns ?P (complete_committed env manager request jobID workspace response)"
    using returns_complete_committed ends unfolding returns_def by blast
  show ?thesis
    unfolding complete_prepared_def wait prod.case Let_def
    by (rule returns_bind_after [where Q = ?P], intro returns_if recover more) (auto simp: start_ends_def)
qed

lemma abortBeforeCommit_ends:
  assumes "abortBeforeCommit env cause s = (err, s')" "su_calls s = [Started]"
    and "writes_frame (sp_start env) frameStart request [] (wr_out (su_request s))"
  shows "start_ends env (Inl err, s')"
  using assms
  by (auto simp: abortBeforeCommit_def stopBootstrapWithWait_def bootstrap_call_def start_ends_def start_gave_up_def
      Let_def split: if_splits)

lemma writes_whole_frame: "writes_whole codec kind v out out' \<Longrightarrow> writes_frame codec kind v out out'"
  unfolding writes_whole_def writes_frame_def by (metis order_refl take_all)

lemma returns_complete:
  assumes "su_calls s = [Started]" "writes_whole (sp_start env) frameStart request' [] (wr_out (su_request s))"
  shows "returns (start_ends env) (complete env manager request jobID workspace s)"
proof -
  have abort: "returns (start_ends env) (case abortBeforeCommit env cause s of (err, s') \<Rightarrow> State_Monad.return (Inl err, s'))" for cause
    using abortBeforeCommit_ends [OF _ assms(1) writes_whole_frame [OF assms(2)]] by (auto split: prod.split)
  obtain a response where await: "awaitFrame (sp_json_Valid env) (sp_awaitPrepared env) (sp_response env) = (a, response)"
    by fastforce
  show ?thesis
  proof (cases "\<exists>frame u. a = Inr frame \<and> if_kind frame \<noteq> frameFailure \<and> decodeFrame (sp_empty env) frame framePrepared = Inr u")
    case False
    then show ?thesis
      using abort by (auto simp: complete_def Let_def await split: sum.split)
  next
    case True
    then obtain frame u where a: "a = Inr frame" "if_kind frame \<noteq> frameFailure" "decodeFrame (sp_empty env) frame framePrepared = Inr u"
      by blast
    note f = awaitFrame_frame [OF await [unfolded a(1)]]
    have "returns (start_ends env) (complete_prepared env manager request jobID workspace response s)"
      by (rule returns_complete_prepared [OF assms, of "if_payload frame"])
        (use f(1,2) decodeFrame_kind [OF a(3)] in simp_all)
    then show ?thesis
      using abort a by (simp add: complete_def Let_def await split: option.split)
  qed
qed

definition fresh_startup :: "startup \<Rightarrow> bool" where
  "fresh_startup s \<longleftrightarrow> wr_out (su_request s) = [] \<and> su_calls s = []"

lemma start_gave_up_early: "fresh_startup s \<Longrightarrow> start_ends env (Inl e, s)"
  by (simp add: start_ends_def start_gave_up_def fresh_startup_def writes_frame_def)

lemma returns_start_bootstrap:
  assumes "fresh_startup s"
  shows "returns (start_ends env) (start_bootstrap env manager request internalRequest workspace s)"
proof -
  have early: "returns (start_ends env) (State_Monad.return (Inl e, s))" for e
    by (intro returns_return start_gave_up_early assms)
  define s1 where "s1 = bootstrap_call Started s"
  have s1: "su_calls s1 = [Started]" "wr_out (su_request s1) = []"
    using assms by (simp_all add: s1_def bootstrap_call_def fresh_startup_def)
  obtain err w where wait: "writeFrameBefore (sp_start env) frameStart internalRequest (sp_writeStart env) (su_request s1) = (err, w)"
    by fastforce
  note sent = writeFrameBefore_writes(1) [OF wait, unfolded s1(2)]
  have stop: "start_ends env (Inl e, snd (stopBootstrapWithWait env cause s'))"
    if "su_calls s' = [Started] \<or> su_calls s' = [Started, InputClosed]"
      "writes_frame (sp_start env) frameStart internalRequest [] (wr_out (su_request s'))" for e cause s'
    using that by (auto simp: stopBootstrapWithWait_def bootstrap_call_def start_ends_def start_gave_up_def)
  have stops: "returns (start_ends env) (case stopBootstrapWithWait env cause s' of (err, s') \<Rightarrow> State_Monad.return (Inl err, s'))"
    if "su_calls s' = [Started] \<or> su_calls s' = [Started, InputClosed]"
      "writes_frame (sp_start env) frameStart internalRequest [] (wr_out (su_request s'))" for cause s'
    using stop [OF that] by (auto split: prod.split) (metis snd_conv)
  have first: "returns (start_ends env) (case stopBootstrapWithWait env cause s1 of (err, s') \<Rightarrow> State_Monad.return (Inl err, s'))" for cause
    by (rule stops) (simp_all add: s1 writes_frame_def)
  have second: "returns (start_ends env) (case stopBootstrapWithWait env cause (bootstrap_call InputClosed (s1\<lparr> su_request := w \<rparr>)) of
      (err, s') \<Rightarrow> State_Monad.return (Inl err, s'))" for cause
    by (rule stops) (simp_all add: s1 sent bootstrap_call_def)
  have complete: "returns (start_ends env) (complete env manager request (is_JobID internalRequest) workspace (s1\<lparr> su_request := w \<rparr>))"
    if "err = noerr"
    by (rule returns_complete [of _ _ internalRequest])
      (use s1 writeFrameBefore_writes(2) [OF wait that] in simp_all)
  show ?thesis
    unfolding start_bootstrap_def Let_def s1_def [symmetric] wait prod.case
    by (rule returns_if [OF early returns_if [OF early returns_if [OF early returns_if [OF first]]]])
      (cases "err = noerr", simp_all only: simp_thms if_True if_False complete second)
qed

lemma returns_Start:
  assumes "fresh_startup s"
  shows "returns (start_ends env) (manager_Start env manager request s)"
proof -
  note early = start_gave_up_early [OF assms]
  have opened: "returns (start_ends env) (do {
      r \<leftarrow> start_bootstrap env manager request internalRequest workspace s;
      _ \<leftarrow> file_Close cwd;
      _ \<leftarrow> file_Close workspace;
      State_Monad.return r })" for internalRequest workspace cwd
    by (rule returns_bind_after [OF returns_start_bootstrap [OF assms]]) (intro returns_bind returns_return)
  show ?thesis
    unfolding manager_Start_def
    by (intro returns_bind returns_if returns_sum returns_return early) (simp add: opened split: prod.split)
qed

text \<open>The job that the recovery reports is the one the store holds under its identifier.\<close>

definition found_on_disk ::
  "Manager \<Rightarrow> StartRequest \<Rightarrow> JobID \<Rightarrow> fs \<Rightarrow> nat \<Rightarrow> JobMetadata \<Rightarrow> bool" where
  "found_on_disk manager request jobID I wd job \<longleftrightarrow> jm_JobID job = jobID \<and>
    (\<exists>j s. job_entry I wd jobID = Some j \<and>
       state_at (opened_store (sq_Invocation request) (mg_contracts manager) wd) I j = Some s \<and> job = ps_Job s)"

fun recovered :: "Manager \<Rightarrow> StartRequest \<Rightarrow> JobID \<Rightarrow> fs \<Rightarrow> nat \<Rightarrow> start_result \<Rightarrow> bool" where
  "recovered manager request jobID I wd (Inl err) \<longleftrightarrow> True"
| "recovered manager request jobID I wd (Inr (job, err)) \<longleftrightarrow>
    durability_job err = Some jobID \<and> found_on_disk manager request jobID I wd job"

lemma state_at_opened:
  "state_at (opened_store invocation contracts h) = state_at (opened_store invocation contracts h')"
  by (intro ext) (simp add: state_at_def opened_store_def split: option.split)

lemma recovered_join:
  "recovered manager request jobID I wd r \<Longrightarrow>
   recovered manager request jobID I wd (case r of
     Inl err \<Rightarrow> Inl (errors_Join [err, e]) | Inr (job, err) \<Rightarrow> Inr (job, errors_Join [err, e]))"
  by (cases r) (auto simp: durability_job_append)

lemma wp_poll_timer:
  assumes "St u I F w" and "\<And>e w'. St u I F w' \<Longrightarrow> Q e w'"
  shows "wp poll_timer Q w"
  unfolding poll_timer_def wp_bind by (rule wp_next_selects [OF assms(1)]) (simp add: assms(2))

lemma wp_recover_loop:
  assumes "St u I F w" "F h = Some (jd, b)" "jobs_dir I wd = Some jd"
  shows "wp (recover_loop rounds (opened_store (sq_Invocation request) (mg_contracts manager) h) jobID deadline cause loadErr)
    (\<lambda>r w'. St u I F w' \<and> recovered manager request jobID I wd r) w"
  using assms(1)
proof (induction rounds arbitrary: loadErr w)
  case 0
  then show ?case
    by (auto simp: wp_bind intro: wp_hang)
next
  case (Suc rounds)
  let ?store = "opened_store (sq_Invocation request) (mg_contracts manager) h"
  let ?Q = "\<lambda>r w'. St u I F w' \<and> recovered manager request jobID I wd r"
  have jobs: "F (st_jobs ?store) = Some (jd, b)"
    using assms(2) by (simp add: opened_store_def)
  have found: "found_on_disk manager request jobID I wd (ps_Job s)"
    if "lookup_at I jd jobID = Some j" "state_at ?store I j = Some s" "jm_JobID (ps_Job s) = jobID" for j s
    using that assms(3) state_at_opened [of "sq_Invocation request" "mg_contracts manager" h wd]
    by (auto simp: found_on_disk_def job_entry_def)
  have again: "wp (do {
           expired \<leftarrow> ctx_Err;
           now \<leftarrow> (if expired \<noteq> noerr then State_Monad.return deadline else monotonic_now);
           if \<not> now < deadline
           then State_Monad.return (Inl (errors_Join [cause, err, [ContextDeadlineExceeded]]))
           else do {
             _ \<leftarrow> time_Until deadline;
             doneErr \<leftarrow> poll_timer;
             if doneErr \<noteq> noerr then State_Monad.return (Inl (errors_Join [cause, err, doneErr]))
             else recover_loop rounds ?store jobID deadline cause err } }) ?Q w'"
    if "St u I F w'" for w' err
    using that
    by (auto simp: wp_bind intro!: wp_ctx_Err wp_monotonic_now wp_time_Until wp_poll_timer Suc.IH)
  have load: "wp (Load ?store jobID) (\<lambda>loaded. wp (case loaded of
         Inr snapshot \<Rightarrow>
           let job = ps_Job (sn_State snapshot) in
           State_Monad.return (Inr (job, CommitDurabilityError (jm_JobID job) #
             errors_Join [[ErrCommitDurabilityUnknown], cause]))
       | Inl err \<Rightarrow> do {
           expired \<leftarrow> ctx_Err;
           now \<leftarrow> (if expired \<noteq> noerr then State_Monad.return deadline else monotonic_now);
           if \<not> now < deadline
           then State_Monad.return (Inl (errors_Join [cause, err, [ContextDeadlineExceeded]]))
           else do {
             _ \<leftarrow> time_Until deadline;
             doneErr \<leftarrow> poll_timer;
             if doneErr \<noteq> noerr then State_Monad.return (Inl (errors_Join [cause, err, doneErr]))
             else recover_loop rounds ?store jobID deadline cause err } }) ?Q) w'"
    if "St u I F w'" for w'
    by (rule wp_Load [OF that jobs]) (simp only: sum.case again, simp add: found)
  show ?case
    unfolding recover_loop.simps wp_bind
  proof (rule wp_monotonic_now [OF Suc.prems], goal_cases)
    case (1 now w')
    show ?case
    proof (cases "now < deadline")
      case False
      then show ?thesis using 1 by simp
    next
      case True
      show ?thesis
        unfolding if_not_P [OF iffD2 [OF not_not True]] wp_bind
        by (rule wp_ctx_Err [OF 1])
          (simp only: if_True if_False simp_thms wp_return sum.case again, simp only: simp_thms if_False load)
    qed
  qed
qed

lemma store_made_jobs_dir:
  "lookup_at I wd ''.managed_bash'' = Some md \<Longrightarrow> lookup_at I md ''jobs'' = Some jd \<Longrightarrow> jobs_dir I wd = Some jd"
  by (simp add: jobs_dir_def)

lemma wp_recoverCommitted:
  assumes "St u I F w" "F workspace = Some (wd, b)"
  shows "wp (recoverCommitted manager request jobID workspace cause)
    (\<lambda>r w'. \<exists>I'. St u I' F w' \<and> recovered manager request jobID I' wd r) w"
  unfolding recoverCommitted_def wp_bind
proof (rule wp_OpenStoreAt [where jobID = jobID, OF assms(1)], goal_cases)
  case (1 e I' w')
  then show ?case by auto
next
  case (2 wd' b' md jd h I' w')
  let ?F = "F(h \<mapsto> (jd, False))"
  have wd: "wd' = wd" using 2(1) assms(2) by simp
  have jobs: "jobs_dir I' wd = Some jd"
    using 2(3,4) unfolding wd by (rule store_made_jobs_dir)
  show ?case
    unfolding sum.case wp_bind
  proof (rule wp_monotonic_now [OF 2(7)], rule wp_loop_fuel, assumption, goal_cases)
    case (1 now w1 rounds w2)
    show ?case
    proof (rule wp_mono [OF wp_recover_loop [OF 1(2) _ jobs, where h = h and b = False]], goal_cases)
      case (2 r w3)
      then have "St u I' ?F w3" and r: "recovered manager request jobID I' wd r"
        by simp_all
      then show ?case
        unfolding Store_Close_def
        by (elim wp_Close) (use \<open>F h = None\<close> recovered_join [OF r] in \<open>auto simp: opened_store_def\<close>)
    qed simp
  qed
qed

text \<open>What \<open>Start\<close> reports once it has sent the commit: what the bootstrap told, or what is on disk.\<close>

definition bootstrap_answered :: "startup_env \<Rightarrow> start_result \<Rightarrow> bool" where
  "bootstrap_answered env r \<longleftrightarrow>
    (\<exists>p q rest answer. stream (sp_response env) = frame_bytes framePrepared p @ frame_bytes frameCommitted q @ rest \<and>
       decodeFrame (sp_committed env) \<lparr> if_kind = frameCommitted, if_payload = q \<rparr> frameCommitted = Inr answer \<and>
       r = committedResult answer)"

definition start_reports ::
  "startup_env \<Rightarrow> Manager \<Rightarrow> StartRequest \<Rightarrow> internalStartRequest \<Rightarrow> fs \<Rightarrow> nat \<Rightarrow> start_result \<times> startup \<Rightarrow> bool" where
  "start_reports env manager request internalRequest I wd x \<longleftrightarrow> (\<exists>e. fst x = Inl e) \<or>
    ((\<exists>out. writes_whole (sp_start env) frameStart internalRequest [] out \<and>
        writes_frame (sp_empty env) frameCommit () out (wr_out (su_request (snd x)))) \<and>
     (bootstrap_answered env (fst x) \<or> recovered manager request (is_JobID internalRequest) I wd (fst x)))"

lemma wp_complete_committed:
  assumes st: "St u I F w" "F workspace = Some (wd, b)"
    and stream: "stream (sp_response env) = frame_bytes framePrepared p @ stream response"
  shows "wp (complete_committed env manager request jobID workspace response)
    (\<lambda>r w'. \<exists>I'. St u I' F w' \<and> (bootstrap_answered env r \<or> recovered manager request jobID I' wd r)) w"
proof -
  have recover: "wp (recoverCommitted manager request jobID workspace cause)
      (\<lambda>r w'. \<exists>I'. St u I' F w' \<and> (bootstrap_answered env r \<or> recovered manager request jobID I' wd r)) w" for cause
    by (rule wp_mono [OF wp_recoverCommitted [OF st]]) blast
  obtain a response' where await: "awaitFrame (sp_json_Valid env) (sp_awaitCommitted env) response = (a, response')"
    by fastforce
  show ?thesis
  proof (cases "\<exists>answer r. a = Inr answer \<and> if_kind answer \<noteq> frameFailure \<and>
      decodeFrame (sp_committed env) answer frameCommitted = Inr r")
    case True
    then obtain answer r where r: "a = Inr answer" "if_kind answer \<noteq> frameFailure"
        "decodeFrame (sp_committed env) answer frameCommitted = Inr r"
      by blast
    obtain q where answer: "answer = \<lparr> if_kind = frameCommitted, if_payload = q \<rparr>"
      using decodeFrame_kind [OF r(3)] by (metis internalFrame.surjective old.unit.exhaust)
    have "bootstrap_answered env (committedResult r)"
      using awaitFrame_frame [OF await [unfolded r(1)]] r(3) stream unfolding answer bootstrap_answered_def by fastforce
    then show ?thesis
      using r st(1) by (auto simp: complete_committed_def Let_def await)
  next
    case False
    then show ?thesis
      using recover by (auto simp: complete_committed_def Let_def await split: sum.split)
  qed
qed

lemma wp_complete_prepared:
  assumes st: "St u I F w" "F workspace = Some (wd, b)"
    and stream: "stream (sp_response env) = frame_bytes framePrepared p @ stream response"
    and sent: "writes_whole (sp_start env) frameStart internalRequest [] (wr_out (su_request s))"
  shows "wp (complete_prepared env manager request (is_JobID internalRequest) workspace response s)
    (\<lambda>x w'. \<exists>I'. St u I' F w' \<and> start_reports env manager request internalRequest I' wd x) w"
proof -
  let ?id = "is_JobID internalRequest"
  obtain err r where wait: "writeFrameBefore (sp_empty env) frameCommit () (sp_writeCommit env) (su_request s) = (err, r)"
    by fastforce
  let ?Q = "\<lambda>r w'. \<exists>I'. St u I' F w' \<and> (bootstrap_answered env r \<or> recovered manager request ?id I' wd r)"
  have recover: "wp (recoverCommitted manager request ?id workspace cause) ?Q w" for cause
    by (rule wp_mono [OF wp_recoverCommitted [OF st]]) blast
  have more: "wp (complete_committed env manager request ?id workspace response) ?Q w"
    by (rule wp_complete_committed [OF st stream])
  have "wp (if err \<noteq> noerr
              then recoverCommitted manager request ?id workspace (errors_Join [err, sp_close env RequestWrite])
              else if sp_close env RequestWrite \<noteq> noerr
              then recoverCommitted manager request ?id workspace
                (fmt_Errorf ''close committed bootstrap input: %w'' (sp_close env RequestWrite))
              else complete_committed env manager request ?id workspace response) ?Q w"
    using recover more by simp
  then show ?thesis
    unfolding complete_prepared_def wait prod.case Let_def wp_bind
    by (rule wp_mono)
      (use sent writeFrameBefore_writes(1) [OF wait] in \<open>auto simp: start_reports_def bootstrap_call_def\<close>)
qed

lemma start_reports_error [simp]: "start_reports env manager request internalRequest I wd (Inl e, s)"
  by (simp add: start_reports_def)

lemma wp_complete:
  assumes st: "St u I F w" "F workspace = Some (wd, b)"
    and sent: "writes_whole (sp_start env) frameStart internalRequest [] (wr_out (su_request s))"
  shows "wp (complete env manager request (is_JobID internalRequest) workspace s)
    (\<lambda>x w'. \<exists>I'. St u I' F w' \<and> start_reports env manager request internalRequest I' wd x) w"
proof -
  let ?Q = "\<lambda>x w'. \<exists>I'. St u I' F w' \<and> start_reports env manager request internalRequest I' wd x"
  have abort: "wp (case abortBeforeCommit env cause s of (err, s') \<Rightarrow> State_Monad.return (Inl err, s')) ?Q w" for cause
    using st(1) by (auto split: prod.split)
  obtain a response where await: "awaitFrame (sp_json_Valid env) (sp_awaitPrepared env) (sp_response env) = (a, response)"
    by fastforce
  show ?thesis
  proof (cases "\<exists>frame u. a = Inr frame \<and> if_kind frame \<noteq> frameFailure \<and> decodeFrame (sp_empty env) frame framePrepared = Inr u")
    case False
    then show ?thesis
      using abort by (auto simp: complete_def Let_def await split: sum.split)
  next
    case True
    then obtain frame v where a: "a = Inr frame" "if_kind frame \<noteq> frameFailure" "decodeFrame (sp_empty env) frame framePrepared = Inr v"
      by blast
    have "stream (sp_response env) = frame_bytes framePrepared (if_payload frame) @ stream response"
      using awaitFrame_frame [OF await [unfolded a(1)]] decodeFrame_kind [OF a(3)] by simp
    from wp_complete_prepared [OF st this sent] show ?thesis
      using abort a by (simp add: complete_def Let_def await split: option.split)
  qed
qed

lemma wp_start_bootstrap:
  assumes st: "St u I F w" "F workspace = Some (wd, b)" and fresh: "fresh_startup s"
  shows "wp (start_bootstrap env manager request internalRequest workspace s)
    (\<lambda>x w'. \<exists>I'. St u I' F w' \<and> start_reports env manager request internalRequest I' wd x) w"
proof -
  let ?Q = "\<lambda>x w'. \<exists>I'. St u I' F w' \<and> start_reports env manager request internalRequest I' wd x"
  let ?s1 = "bootstrap_call Started s"
  obtain err r where wait: "writeFrameBefore (sp_start env) frameStart internalRequest (sp_writeStart env) (su_request ?s1) = (err, r)"
    by fastforce
  have out: "wr_out (su_request ?s1) = []"
    using fresh by (simp add: fresh_startup_def bootstrap_call_def)
  have stop: "wp (case stopBootstrapWithWait env cause s' of (err, s') \<Rightarrow> State_Monad.return (Inl err, s')) ?Q w" for cause s'
    using st(1) by (auto split: prod.split)
  have early: "wp (State_Monad.return (Inl e, s')) ?Q w" for e s'
    using st(1) by auto
  have complete: "wp (complete env manager request (is_JobID internalRequest) workspace (?s1\<lparr> su_request := r \<rparr>)) ?Q w"
    if "err = noerr"
    by (rule wp_complete [OF st]) (use writeFrameBefore_writes(2) [OF wait that] out in simp)
  show ?thesis
    unfolding start_bootstrap_def Let_def wait prod.case
    using early stop complete by (simp split del: if_split split: if_split)
qed

lemma wp_buildStartRequest:
  assumes "St u I F w" and "\<And>r w'. St u I F w' \<Longrightarrow> Q r w'"
  shows "wp (buildStartRequest manager request) Q w"
proof -
  have id: "wp newJobID R w" if "\<And>r w'. St u I F w' \<Longrightarrow> R r w'" for R
    unfolding newJobID_def wp_bind by (rule wp_rand_Read [OF assms(1)]) (simp_all add: that)
  have now: "wp unix_milli_now R w'" if "St u I F w'" "\<And>r w'. St u I F w' \<Longrightarrow> R r w'" for R w'
    by (rule wp_unix_milli_now [OF that(1)]) (rule that(2))
  show ?thesis
    unfolding buildStartRequest_def Let_def wp_bind
    by (auto simp: wp_bind intro!: assms id now split: sum.split)
qed

lemma wp_manager_Start:
  assumes st: "St u I F w" and fresh: "fresh_startup s"
  shows "wp (manager_Start env manager request s)
    (\<lambda>x w'. \<exists>I' wd internalRequest. St u I' F w' \<and> start_reports env manager request internalRequest I' wd x) w"
proof -
  let ?Q = "\<lambda>x w'. \<exists>I' wd internalRequest. St u I' F w' \<and> start_reports env manager request internalRequest I' wd x"
  have opened: "wp (do {
      r \<leftarrow> start_bootstrap env manager request internalRequest h s;
      _ \<leftarrow> file_Close h';
      _ \<leftarrow> file_Close h;
      State_Monad.return r }) ?Q w'"
    if "F h = None" "F h' = None" "h \<noteq> h'" "St u I (F(h \<mapsto> (n, False), h' \<mapsto> (n', False))) w'"
    for internalRequest h h' n n' w'
  proof -
    let ?F = "F(h \<mapsto> (n, False), h' \<mapsto> (n', False))"
    have h: "?F h = Some (n, False)" using that(3) by simp
    have restored: "(?F(h' := None))(h := None) = F"
      using that(1,2) by auto
    show ?thesis
      unfolding wp_bind
    proof (rule wp_mono [OF wp_start_bootstrap [OF that(4) h fresh]], goal_cases)
      case (1 x w2)
      then obtain I' where I': "St u I' ?F w2" "start_reports env manager request internalRequest I' n x" by blast
      show ?case
        unfolding wp_bind
        by (rule wp_Close [OF I'(1)], rule wp_Close, assumption) (use I'(2) restored in auto)
    qed
  qed
  show ?thesis
    unfolding manager_Start_def wp_bind
  proof (rule wp_ctx_Err [OF st], goal_cases)
    case (1 e w')
    then show ?case by auto
  next
    case (2 w')
    show ?case
      unfolding simp_thms if_False wp_bind
    proof (rule wp_buildStartRequest [OF 2], goal_cases)
      case (1 r w2)
      show ?case
      proof (cases r)
        case (Inl e)
        then show ?thesis using 1 by auto
      next
        case (Inr internalRequest)
        show ?thesis
          unfolding Inr sum.case wp_bind
        proof (rule wp_openLaunchCapabilities [OF 1], goal_cases)
          case (1 e w3)
          then show ?case by auto
        next
          case (2 h n h' n' w3)
          then show ?case
            unfolding sum.case prod.case by (rule opened)
        qed
      qed
    qed
  qed
qed

text \<open>C8: \<open>Start\<close> has one point of no return. If it ends before that, it returns an error, it has not written a
  byte of the commit frame, and a bootstrap process that it started has been reaped, after its input was
  closed and it exited by itself, or after it was killed. If it ends after that, it has written the
  whole start request and at least tried to send the commit, and the bootstrap had reported the job
  as prepared. \<open>Start\<close> then reports a job only if the bootstrap has named it in its next frame, or if
  it has found it in the store: then the job is that of the valid state which is on disk under the
  identifier of the start request, for the request's workspace, when \<open>Start\<close> ends; and the error
  tells that this job is not certain to last.\<close>

theorem Start_commits_once:
  assumes "run_state (manager_Start env manager request s) w = ((r, s'), w')" "fresh_startup s" "world_ok w"
  shows "((\<exists>e. r = Inl e) \<and>
     su_calls s' \<in> {[], [Started, Killed, ReapedIt], [Started, InputClosed, ReapedIt], [Started, InputClosed, Killed, ReapedIt]} \<and>
     (\<exists>internalRequest. writes_frame (sp_start env) frameStart internalRequest [] (wr_out (su_request s')))) \<or>
    (su_calls s' = [Started, InputClosed] \<and>
     (\<exists>p rest. stream (sp_response env) = frame_bytes framePrepared p @ rest) \<and>
     ((\<exists>e. r = Inl e) \<or>
      (\<exists>internalRequest out. writes_whole (sp_start env) frameStart internalRequest [] out \<and>
         writes_frame (sp_empty env) frameCommit () out (wr_out (su_request s')) \<and>
         ((\<exists>p q rest answer.
             stream (sp_response env) = frame_bytes framePrepared p @ frame_bytes frameCommitted q @ rest \<and>
             decodeFrame (sp_committed env) \<lparr> if_kind = frameCommitted, if_payload = q \<rparr> frameCommitted = Inr answer \<and>
             r = committedResult answer) \<or>
          (\<exists>job err wd. r = Inr (job, err) \<and> durability_job err = Some (is_JobID internalRequest) \<and>
             found_on_disk manager request (is_JobID internalRequest) (w_inodes w') wd job)))))"
proof -
  note ends = returnsD [OF returns_Start [OF assms(2)] assms(1)]
  obtain I' wd internalRequest where reports: "St (w_euid w) I' (w_fds w) w'"
      "start_reports env manager request internalRequest I' wd (r, s')"
    using wp_run [OF wp_manager_Start [OF St_start [OF assms(3)] assms(2)] assms(1)] by blast
  have I': "I' = w_inodes w'"
    using St_end [OF reports(1)] by simp
  show ?thesis
  proof (cases "start_gave_up env r s'")
    case True
    then show ?thesis
      unfolding start_gave_up_def by blast
  next
    case False
    then have committing: "su_calls s' = [Started, InputClosed]"
        "\<exists>p rest. stream (sp_response env) = frame_bytes framePrepared p @ rest"
      using ends unfolding start_ends_def start_committing_def by auto
    show ?thesis
    proof (cases r)
      case (Inl e)
      then show ?thesis using committing by blast
    next
      case (Inr x)
      obtain job err where x: "r = Inr (job, err)"
        using Inr by (cases x) auto
      obtain out where out: "writes_whole (sp_start env) frameStart internalRequest [] out"
          "writes_frame (sp_empty env) frameCommit () out (wr_out (su_request s'))"
          "bootstrap_answered env r \<or> recovered manager request (is_JobID internalRequest) I' wd r"
        using reports(2) unfolding start_reports_def fst_conv snd_conv x by blast
      have "(\<exists>p q rest answer.
             stream (sp_response env) = frame_bytes framePrepared p @ frame_bytes frameCommitted q @ rest \<and>
             decodeFrame (sp_committed env) \<lparr> if_kind = frameCommitted, if_payload = q \<rparr> frameCommitted = Inr answer \<and>
             r = committedResult answer) \<or>
          (\<exists>job err wd. r = Inr (job, err) \<and> durability_job err = Some (is_JobID internalRequest) \<and>
             found_on_disk manager request (is_JobID internalRequest) (w_inodes w') wd job)"
        using out(3) unfolding bootstrap_answered_def I' x recovered.simps by blast
      then show ?thesis
        using committing out(1,2) by blast
    qed
  qed
qed

subsection \<open>The three processes of a start\<close>

text \<open>What a process reads from a pipe is what another one wrote to it, perhaps not all of it.\<close>

definition carries :: "writer \<Rightarrow> reader \<Rightarrow> bool" where
  "carries w r \<longleftrightarrow> (\<exists>lost. stream r @ lost = wr_out w)"

lemma start_request_stream:
  assumes "start_request env input = Inr request"
  shows "\<exists>raw. fits raw \<and> stream input = frame_bytes frameStart raw @ stream (snd (readFrame (rn_json_Valid env) input)) \<and>
    decodeFrame (rn_start env) \<lparr> if_kind = frameStart, if_payload = raw \<rparr> frameStart = Inr request"
proof -
  obtain r input' where read: "readFrame (rn_json_Valid env) input = (r, input')" by fastforce
  obtain frame where f: "r = Inr frame" "decodeFrame (rn_start env) frame frameStart = Inr request"
    using assms read by (auto simp: start_request_def split: sum.splits)
  then have "frame = \<lparr> if_kind = frameStart, if_payload = if_payload frame \<rparr>"
    using decodeFrame_kind by (metis internalFrame.surjective old.unit.exhaust)
  then show ?thesis
    using readFrame_Inr [OF read [unfolded f(1)]] f(2) read by (metis internalFrame.select_convs(1) snd_conv)
qed

text \<open>The commit the runner has received is one the bootstrap has received.\<close>

lemma commit_from_manager:
  assumes "start_request renv rinput = Inr rrequest" "commit_received renv rinput"
    and run: "runBootstrap benv binput b = (berr, b')" "fresh_bootstrap b"
    and pipe: "carries (bs_runner b') rinput"
  shows "\<exists>request input' q rest. bootstrap_request benv binput request input' \<and>
    stream input' = frame_bytes frameCommit q @ rest"
proof -
  obtain raw where raw: "fits raw" "stream rinput = frame_bytes frameStart raw @ stream (snd (readFrame (rn_json_Valid renv) rinput))"
    using start_request_stream [OF assms(1)] by blast
  obtain q rest where q: "stream (snd (readFrame (rn_json_Valid renv) rinput)) = frame_bytes frameCommit q @ rest" "fits q"
    using assms(2) by (auto simp: commit_received_def told_to_commit_def)
  obtain lost where "stream rinput @ lost = wr_out (bs_runner b')"
    using pipe by (auto simp: carries_def)
  then have "wr_out (bs_runner b') = frame_bytes frameStart raw @ frame_bytes frameCommit q @ (rest @ lost)"
    using raw(2) q(1) by simp
  from relayed_commit [OF run this raw(1) q(2)] show ?thesis by blast
qed

lemma no_commit_without_manager:
  assumes "writes_frame codec frameStart request [] (wr_out w)" "carries w binput"
    and "start_request renv rinput = Inr rrequest"
    and run: "runBootstrap benv binput b = (berr, b')" "fresh_bootstrap b"
    and pipe: "carries (bs_runner b') rinput"
  shows "\<not> commit_received renv rinput"
proof
  assume "commit_received renv rinput"
  then obtain r input' q rest where "bootstrap_request benv binput r input'" "stream input' = frame_bytes frameCommit q @ rest"
    using commit_from_manager [OF assms(3) _ run pipe] by blast
  then obtain raw where raw: "stream binput = frame_bytes frameStart raw @ frame_bytes frameCommit q @ rest" "fits raw"
    by (auto simp: bootstrap_request_def)
  obtain lost where "stream binput @ lost = wr_out w"
    using assms(2) by (auto simp: carries_def)
  then have "writes_frame codec frameStart request [] (frame_bytes frameStart raw @ (frame_bytes frameCommit q @ rest @ lost))"
    using assms(1) raw(1) by simp
  from writes_frame_first [OF this _ _ raw(2)] show False by simp
qed

text \<open>C7: A start that is given up leaves no job. Let the manager, the bootstrap and the runner run over their
  pipes, which may break anywhere. If \<open>Start\<close> ends before its point of no return, for whatever reason,
  the runner returns an error, and no job is in the store when it has ended: what is left there are at
  most the store's own directories and hidden names.\<close>

theorem given_up_start_leaves_no_job:
  assumes "run_state (manager_Start env manager request s) w0 = ((r, s'), w1)" "fresh_startup s"
    and "su_calls s' \<noteq> [Started, InputClosed]"
    and "runBootstrap benv binput b = (berr, b')" "fresh_bootstrap b" "carries (su_request s') binput"
    and "run_state (runDetachedRunner renv rinput control workspace) w = ((err, control', shell), w')"
    and "carries (bs_runner b') rinput" "wr_out control = []"
    and "start_request renv rinput = Inr rrequest" "runner_env_ok renv"
    and "world_ok w" "w_fds w workspace = Some (wd, x)"
    and "job_entry (w_inodes w) wd (is_JobID rrequest) = None" "jobs_dir (w_inodes w) wd \<noteq> Some wd"
  shows "err \<noteq> noerr \<and> no_job rrequest wd (w_inodes w) (w_inodes w')"
proof -
  have "start_ends env (r, s')"
    by (rule returnsD [OF returns_Start [OF assms(2)] assms(1)])
  then obtain internalRequest where "writes_frame (sp_start env) frameStart internalRequest [] (wr_out (su_request s'))"
    using assms(3) by (auto simp: start_ends_def start_gave_up_def start_committing_def)
  from no_commit_without_manager [OF this assms(6,10,4,5,8)] show ?thesis
    using runDetachedRunner_left [OF assms(7,10-15,9)] by (auto simp: detached_left_def St_def)
qed

lemma carries_frames: "carries w r \<Longrightarrow> stream r = x @ y @ rest \<Longrightarrow> \<exists>z. wr_out w = x @ y @ z"
  unfolding carries_def by (metis append.assoc)

text \<open>The runner's channel, read as the frames of a prepared and a committed job.\<close>

lemma reported_job:
  assumes "unreported c \<or> reported renv initial c" "wr_out c = frame_bytes framePrepared p @ frame_bytes frameCommitted q @ z"
    and "fits p" "fits q"
  shows "\<exists>d. reported renv initial c \<and> \<not> unreported c \<and>
    cd_Marshal (rn_committed renv) \<lparr> ic_Job = ps_Job initial, ic_DurabilityError = d \<rparr> = Inr q"
proof -
  have more: "False" if "frame_bytes framePrepared p @ (frame_bytes frameCommitted q @ z) = frame_bytes framePrepared p' @ []" "fits p'" for p'
    using frame_bytes_inj [OF that(1) _ _ assms(3) that(2)] by simp
  have not: "\<not> unreported c"
  proof
    assume "unreported c"
    then obtain p' k where p': "fits p'" "wr_out c = take k (frame_bytes framePrepared p')"
      by (auto simp: unreported_def)
    have "frame_bytes framePrepared p @ ((frame_bytes frameCommitted q @ z) @ drop k (frame_bytes framePrepared p')) =
        frame_bytes framePrepared p' @ []"
      using p'(2) assms(2) by (metis append.assoc append_Nil2 append_take_drop_id)
    from frame_bytes_inj [OF this _ _ assms(3) p'(1)] show False by simp
  qed
  then obtain p' where p': "fits p'" "wr_out c = frame_bytes framePrepared p' \<or>
      (\<exists>d q' k. fits q' \<and> cd_Marshal (rn_committed renv) \<lparr> ic_Job = ps_Job initial, ic_DurabilityError = d \<rparr> = Inr q' \<and>
         wr_out c = frame_bytes framePrepared p' @ take k (frame_bytes frameCommitted q'))"
    using assms(1) by (auto simp: reported_def)
  then obtain d q' k where q': "fits q'" "cd_Marshal (rn_committed renv) \<lparr> ic_Job = ps_Job initial, ic_DurabilityError = d \<rparr> = Inr q'"
      "wr_out c = frame_bytes framePrepared p' @ take k (frame_bytes frameCommitted q')"
    using more [of p'] assms(2) by auto
  have "frame_bytes framePrepared p @ (frame_bytes frameCommitted q @ z) = frame_bytes framePrepared p' @ take k (frame_bytes frameCommitted q')"
    using q'(3) assms(2) by simp
  from frame_bytes_inj [OF this _ _ assms(3) p'(1)]
  have "writes_frame (rn_committed renv) frameCommitted \<lparr> ic_Job = ps_Job initial, ic_DurabilityError = d \<rparr> []
      (frame_bytes frameCommitted q @ z)"
    using q'(1,2) by (auto simp: writes_frame_def)
  from writes_frame_first [OF this _ _ assms(4)] not assms(1) show ?thesis by auto
qed

text \<open>
  What the channels need of \<open>encoding/json\<close>: the message that names a job decodes to a message that names
  the same job. For jobs that were themselves decoded from JSON it does; for other strings it need
  not, and of the text of the durability error nothing is asked.
\<close>

definition relays :: "internalCommitted codec \<Rightarrow> JobMetadata \<Rightarrow> bool" where
  "relays codec job \<longleftrightarrow>
    (\<forall>d q. cd_Marshal codec \<lparr> ic_Job = job, ic_DurabilityError = d \<rparr> = Inr q \<longrightarrow>
       (\<exists>d'. cd_Decode codec q = Inr (\<lparr> ic_Job = job, ic_DurabilityError = d' \<rparr>, [IoEOF])))"

lemma relays_decode:
  assumes "relays codec job" "cd_Marshal codec v = Inr q" "ic_Job v = job"
    and "decodeFrame codec \<lparr> if_kind = frameCommitted, if_payload = q \<rparr> frameCommitted = Inr r"
  shows "ic_Job r = job"
proof -
  have "v = \<lparr> ic_Job = job, ic_DurabilityError = ic_DurabilityError v \<rparr>"
    using assms(3) by simp
  then obtain d' where "cd_Decode codec q = Inr (\<lparr> ic_Job = job, ic_DurabilityError = d' \<rparr>, [IoEOF])"
    using assms(1,2) unfolding relays_def by metis
  then show ?thesis
    using assms(4) by (auto simp: decodeFrame_def)
qed

text \<open>C6: A job that \<open>Start\<close> reports without an error exists, and is what it says. Let the three processes run
  over their pipes, with one codec for the frame that names the job, which keeps the metadata of the
  requested job, whenever it is started, through encoding and decoding. If \<open>Start\<close> returns
  metadata and no error, then the runner has received the commit, and at its end the job is in the
  store under its identifier, as \<open>runDetachedRunner_atomic\<close> states it; and the metadata are those of
  the very state the job began with.\<close>

theorem started_job_exists:
  assumes "run_state (manager_Start env manager request s) w0 = ((Inr (job, noerr), s'), w1)" "fresh_startup s"
    and "runBootstrap benv binput b = (berr, b')" "fresh_bootstrap b"
    and "run_state (runDetachedRunner renv rinput control workspace) w = ((err, control', shell), w')"
    and "carries (bs_control b') (sp_response env)" "carries control' (bt_events benv)" "wr_out control = []"
    and "sp_committed env = codec" "bt_committed benv = codec" "rn_committed renv = codec"
    and "\<forall>started. relays codec (ps_Job (initialJobState rrequest started))"
    and "start_request renv rinput = Inr rrequest" "runner_env_ok renv"
    and "world_ok w" "w_fds w workspace = Some (wd, x)"
    and "job_entry (w_inodes w) wd (is_JobID rrequest) = None" "jobs_dir (w_inodes w) wd \<noteq> Some wd"
  shows "commit_received renv rinput \<and>
    (\<exists>started. job = ps_Job (initialJobState rrequest started) \<and>
       detached_job renv rrequest started wd (w_inodes w) (err = noerr) (w_inodes w'))"
proof -
  have "start_ends env (Inr (job, noerr), s')"
    by (rule returnsD [OF returns_Start [OF assms(2)] assms(1)])
  then obtain p q rest answer where q: "stream (sp_response env) = frame_bytes framePrepared p @ frame_bytes frameCommitted q @ rest"
      "fits p" "fits q" "decodeFrame codec \<lparr> if_kind = frameCommitted, if_payload = q \<rparr> frameCommitted = Inr answer"
      "Inr (job, noerr) = committedResult answer"
    using assms(9) by (auto simp: start_ends_def start_gave_up_def start_committing_def)
  have job: "ic_Job answer = job"
    using q(5) by (auto simp: committedResult_def split: if_splits)
  obtain z where "wr_out (bs_control b') = frame_bytes framePrepared p @ frame_bytes frameCommitted q @ z"
    using carries_frames [OF assms(6) q(1)] by blast
  from relayed_committed [OF assms(3,4) this q(2,3)] obtain p' q' r rest' where r:
      "stream (bt_events benv) = frame_bytes framePrepared p' @ frame_bytes frameCommitted q' @ rest'" "fits p'" "fits q'"
      "cd_Marshal codec r = Inr q" "decodeFrame codec \<lparr> if_kind = frameCommitted, if_payload = q' \<rparr> frameCommitted = Inr r"
    using assms(10) by auto
  obtain z' where z': "wr_out control' = frame_bytes framePrepared p' @ frame_bytes frameCommitted q' @ z'"
    using carries_frames [OF assms(7) r(1)] by blast
  have left: "detached_left renv rrequest wd (w_euid w) (w_inodes w) (w_fds w) (commit_received renv rinput) (err, control', shell) w'"
    by (rule runDetachedRunner_left [OF assms(5,13-18,8)])
  have "\<not> unreported control'"
    using reported_job [OF _ z' r(2,3)] by blast
  then obtain started where job': "commit_received renv rinput" "reported renv (initialJobState rrequest started) control'"
      "detached_job renv rrequest started wd (w_inodes w) (err = noerr) (w_inodes w')"
    using left by (auto simp: detached_left_def St_def)
  let ?job = "ps_Job (initialJobState rrequest started)"
  have relays: "relays codec ?job" using assms(12) by blast
  obtain d where "cd_Marshal codec \<lparr> ic_Job = ?job, ic_DurabilityError = d \<rparr> = Inr q'"
    using reported_job [OF _ z' r(2,3)] job'(2) assms(11) by blast
  from relays_decode [OF relays this _ r(5)] have "ic_Job r = ?job" by simp
  from relays_decode [OF relays r(4) this q(4)] have "ic_Job answer = ?job" .
  then show ?thesis
    using job' job by (intro conjI exI [of _ started]) simp_all
qed

subsection \<open>Concrete starts\<close>

text \<open>
  A start whose calls all work, a start that is given up because its time is over, and the run of the
  three processes that commits one job.
\<close>

definition example_launch_world :: world where
  "example_launch_world = quiet_world\<lparr>
     w_inodes := [0 \<mapsto> example_dir [(''w'', 1)], 1 \<mapsto> example_dir [(''x'', 2)], 2 \<mapsto> example_dir []], w_next := 3 \<rparr>"

lemma example_capabilities:
  "\<exists>w. run_state (openLaunchCapabilities ''/w'' ''/w/x'') example_launch_world = (Inr (1, 3), w)"
proof -
  have paths: "filepath_IsAbs ''/w''" "filepath_Clean ''/w'' = ''/w''" "split_sep (trim_sep ''/w'') = [''w'']"
      "filepath_Rel ''/w'' ''/w/x'' = Some ''x''" "split_sep ''x'' = [''x'']" "''x'' \<noteq> dot"
    by code_simp+
  show ?thesis
    by (simp add: run_rules openLaunchCapabilities_def openWorkspaceDirectory_def openAbsoluteRoot_def paths unix_Open_root_def
       openDirectoryBeneath_def duplicateDirectory_def duplicateCloseOnExec_def has_prefix_def
       example_launch_world_def quiet_world_def example_dir_def cong: run_congs split del: if_split del: split_sep.simps)
qed

definition example_startup_env :: startup_env where
  "example_startup_env =
    \<lparr> sp_json_Valid = (\<lambda>_. True),
      sp_start = \<lparr> cd_Marshal = (\<lambda>_. Inr ''s''), cd_Decode = (\<lambda>_. Inl [ErrInternalProtocol]) \<rparr>,
      sp_empty = one_value_codec () ''{}'',
      sp_committed = one_value_codec \<lparr> ic_Job = ps_Job example_job, ic_DurabilityError = [] \<rparr> ''j'',
      sp_failure = one_value_codec \<lparr> il_Message = [] \<rparr> ''f'', sp_requestPipe = noerr, sp_responsePipe = noerr,
      sp_bootstrapStart = noerr, sp_close = (\<lambda>_. noerr), sp_writeStart = WriteReturned,
      sp_awaitPrepared = FrameArrived, sp_expired = None, sp_writeCommit = WriteReturned,
      sp_awaitCommitted = FrameArrived,
      sp_response = \<lparr> rd_pieces = [frame_bytes framePrepared ''{}'', frame_bytes frameCommitted ''j''], rd_end = IoEOF \<rparr>,
      sp_exitsInTime = True, sp_waitErr = noerr, sp_killErr = noerr \<rparr>"

definition example_startup :: startup where
  "example_startup = \<lparr> su_request = \<lparr> wr_out = [], wr_writes = [] \<rparr>, su_calls = [] \<rparr>"

lemma example_startup_fresh: "fresh_startup example_startup"
  by (simp add: fresh_startup_def example_startup_def)

lemma example_start_opens:
  "\<exists>internalRequest w. fst (run_state (manager_Start env example_manager (example_start ''true'') s) example_launch_world) =
     fst (run_state (start_bootstrap env example_manager (example_start ''true'') internalRequest 1 s) w)"
proof -
  have "run_state (buildStartRequest example_manager (example_start ''true'')) example_launch_world =
    (Inr (started_with example_manager (example_start ''true'') (replicate 16 (char_of (0 :: nat))) 30), example_launch_world)"
    using example_start_within [of "''true''"]
    by (simp add: buildStartRequest_within example_manager_def codec_for_def rand_Read_def syscall_def unix_milli_now_def time_Now_def
        example_launch_world_def quiet_world_def State_Monad.bind_def State_Monad.return_def)
  moreover have "run_state ctx_Err example_launch_world = (noerr, example_launch_world)"
    by (simp add: ctx_Err_def example_launch_world_def quiet_world_def)
  moreover have "ti_workspacePath (sq_Invocation (example_start ''true'')) = ''/w''" "ti_cwd (sq_Invocation (example_start ''true'')) = ''/w/x''"
    by (simp_all add: example_start_def)
  ultimately show ?thesis
    using example_capabilities
    by (auto simp: manager_Start_def run_bind run_return split: prod.split) (metis fst_conv)
qed


lemma example_startup_fields:
  "sp_json_Valid example_startup_env = (\<lambda>_. True)" "cd_Marshal (sp_start example_startup_env) r = Inr ''s''"
  "sp_empty example_startup_env = one_value_codec () ''{}''"
  "sp_committed example_startup_env = one_value_codec \<lparr> ic_Job = ps_Job example_job, ic_DurabilityError = [] \<rparr> ''j''"
  "sp_requestPipe example_startup_env = noerr" "sp_responsePipe example_startup_env = noerr"
  "sp_bootstrapStart example_startup_env = noerr" "sp_close example_startup_env d = noerr"
  "sp_writeStart example_startup_env = WriteReturned" "sp_awaitPrepared example_startup_env = FrameArrived"
  "sp_expired example_startup_env = None" "sp_writeCommit example_startup_env = WriteReturned"
  "sp_awaitCommitted example_startup_env = FrameArrived"
  "rd_pieces (sp_response example_startup_env) = [frame_bytes framePrepared ''{}'', frame_bytes frameCommitted ''j'']"
  "sp_exitsInTime example_startup_env = True" "sp_waitErr example_startup_env = noerr"
  "su_request example_startup = \<lparr> wr_out = [], wr_writes = [] \<rparr>" "su_calls example_startup = []"
  by (simp_all add: example_startup_env_def example_startup_def)

lemma one_value_decode:
  "decodeFrame (one_value_codec v raw) \<lparr> if_kind = kind, if_payload = raw \<rparr> kind = Inr v"
  "cd_Marshal (one_value_codec v raw) v = Inr raw"
  by (simp_all add: decodeFrame_def one_value_codec_def errors_Is_def)

lemma readFrame_two:
  assumes "rd_pieces r = [frame_bytes k p, frame_bytes k' p']" "fits p" "fits p'" "proper_kind k" "proper_kind k'"
  shows "\<exists>r1. readFrame (\<lambda>_. True) r = (Inr \<lparr> if_kind = k, if_payload = p \<rparr>, r1) \<and>
    fst (readFrame (\<lambda>_. True) r1) = Inr \<lparr> if_kind = k', if_payload = p' \<rparr>"
proof -
  obtain r1 where r1: "readFrame (\<lambda>_. True) r = (Inr \<lparr> if_kind = k, if_payload = p \<rparr>, r1)" "stream r1 = frame_bytes k' p' @ []"
    using readFrame_plain [OF assms(1,2,4)] by auto
  show ?thesis
    using readFrame_frame [OF r1(2) assms(3) _ assms(5), of "\<lambda>_. True"] r1(1) by fastforce
qed

lemma example_start_completes:
  "\<exists>s. fst (run_state (start_bootstrap example_startup_env example_manager (example_start ''true'') internalRequest 1 example_startup) w) =
     (Inr (ps_Job example_job, noerr), s) \<and> wr_out (su_request s) = frame_bytes frameStart ''s'' @ frame_bytes frameCommit ''{}''"
proof -
  obtain r1 where r1: "readFrame (\<lambda>_. True) (sp_response example_startup_env) =
      (Inr \<lparr> if_kind = framePrepared, if_payload = ''{}'' \<rparr>, r1)"
      "fst (readFrame (\<lambda>_. True) r1) = Inr \<lparr> if_kind = frameCommitted, if_payload = ''j'' \<rparr>"
    using readFrame_two [OF example_startup_fields(14)] by (auto simp: maximumFrameBytes_def)
  show ?thesis
    by (simp add: start_bootstrap_def complete_def complete_prepared_def complete_committed_def Let_def
        example_startup_fields writeFrameBefore_def writeFrame_plain one_value_decode r1 awaitFrame_def
        bootstrap_call_def committedResult_def run_bind run_return maximumFrameBytes_def)
qed

definition example_expired_env :: startup_env where
  "example_expired_env = example_startup_env\<lparr> sp_expired := Some StartupTimedOut \<rparr>"

lemma example_start_expires:
  "\<exists>e s. fst (run_state (start_bootstrap example_expired_env example_manager (example_start ''true'') internalRequest 1 example_startup) w) =
     (Inl e, s) \<and> wr_out (su_request s) = frame_bytes frameStart ''s'' \<and> su_calls s = [Started, InputClosed, ReapedIt]"
proof -
  obtain r1 where r1: "readFrame (\<lambda>_. True) (sp_response example_startup_env) =
      (Inr \<lparr> if_kind = framePrepared, if_payload = ''{}'' \<rparr>, r1)"
    using readFrame_two [OF example_startup_fields(14)] by (auto simp: maximumFrameBytes_def)
  show ?thesis
    by (simp add: start_bootstrap_def complete_def abortBeforeCommit_def Let_def example_expired_env_def
        example_startup_fields writeFrameBefore_def writeFrame_plain one_value_decode r1 awaitFrame_def
        bootstrap_call_def run_bind run_return maximumFrameBytes_def)
qed


lemma Start_commits_once_witness:
  "\<exists>job s' w'. run_state (manager_Start example_startup_env example_manager (example_start ''true'') example_startup) example_launch_world =
     ((Inr (job, noerr), s'), w') \<and> su_calls s' = [Started, InputClosed]"
proof -
  obtain job s' w' where run: "run_state (manager_Start example_startup_env example_manager (example_start ''true'') example_startup)
      example_launch_world = ((Inr (job, noerr), s'), w')"
    using example_start_opens [of example_startup_env example_startup] example_start_completes by (metis fst_conv surj_pair)
  have "world_ok example_launch_world"
    by (simp add: world_ok_def example_launch_world_def quiet_world_def)
  from Start_commits_once [OF run example_startup_fresh this] run show ?thesis
    by auto
qed

definition example_start_only :: reader where
  "example_start_only = \<lparr> rd_pieces = [frame_bytes frameStart ''s''], rd_end = IoEOF \<rparr>"

lemma example_start_only_read:
  "\<exists>r'. readFrame (\<lambda>_. True) example_start_only = (Inr \<lparr> if_kind = frameStart, if_payload = ''s'' \<rparr>, r') \<and>
     (\<exists>e. fst (readFrame (\<lambda>_. True) r') = Inl e)"
proof -
  obtain r' where r': "readFrame (\<lambda>_. True) example_start_only = (Inr \<lparr> if_kind = frameStart, if_payload = ''s'' \<rparr>, r')" "stream r' = []"
    using readFrame_plain [of example_start_only frameStart "''s''" "[]"]
    by (auto simp: example_start_only_def maximumFrameBytes_def)
  have "fst (readFrame (\<lambda>_. True) r') \<noteq> Inr frame" for frame
    using readFrame_Inr [of "\<lambda>_. True" r' frame "snd (readFrame (\<lambda>_. True) r')"] r'(2) by (metis append_is_Nil_conv frame_bytes_not_Nil prod.collapse)
  then show ?thesis
    using r'(1) by (metis sum.exhaust_sel)
qed

lemma example_bootstrap_fields:
  "bt_json_Valid example_bootstrap_env = (\<lambda>_. True)" "bt_start example_bootstrap_env = one_value_codec example_request ''s''"
  "bt_empty example_bootstrap_env = one_value_codec () ''{}''"
  "bt_committed example_bootstrap_env = one_value_codec \<lparr> ic_Job = ps_Job example_job, ic_DurabilityError = [] \<rparr> ''j''"
  "bt_inputPipe example_bootstrap_env = noerr" "bt_eventsPipe example_bootstrap_env = noerr"
  "bt_executable example_bootstrap_env = noerr" "bt_runnerStart example_bootstrap_env = noerr"
  "bt_close example_bootstrap_env d = noerr" "bt_awaitPrepared example_bootstrap_env = FrameArrived"
  "bt_awaitCommit example_bootstrap_env = FrameArrived" "bt_awaitCommitted example_bootstrap_env = FrameArrived"
  "rd_pieces (bt_events example_bootstrap_env) = [frame_bytes framePrepared ''{}'', frame_bytes frameCommitted ''j'']"
  "bt_exitsInTime example_bootstrap_env = True" "bs_control example_bootstrap = \<lparr> wr_out = [], wr_writes = [] \<rparr>"
  "bs_runner example_bootstrap = \<lparr> wr_out = [], wr_writes = [] \<rparr>" "bs_calls example_bootstrap = []"
  by (simp_all add: example_bootstrap_env_def example_bootstrap_def)

lemma example_request_valid: "validateInternalStart example_request = noerr"
  by code_simp

lemma bootstrap_fails_runner: "bs_runner (snd (bootstrap_fails env cause b)) = bs_runner b"
  by (simp add: bootstrap_fails_def stopRunner_def sendBootstrapFailure_def runner_call_def Let_def split: prod.split)

lemma example_bootstrap_stops:
  "wr_out (bs_runner (snd (runBootstrap example_bootstrap_env example_start_only example_bootstrap))) = frame_bytes frameStart ''s''"
proof -
  obtain r' e where r': "readFrame (\<lambda>_. True) example_start_only = (Inr \<lparr> if_kind = frameStart, if_payload = ''s'' \<rparr>, r')"
      "fst (readFrame (\<lambda>_. True) r') = Inl e"
    using example_start_only_read by blast
  obtain r1 where r1: "readFrame (\<lambda>_. True) (bt_events example_bootstrap_env) =
      (Inr \<lparr> if_kind = framePrepared, if_payload = ''{}'' \<rparr>, r1)"
    using readFrame_two [OF example_bootstrap_fields(13)] by (auto simp: maximumFrameBytes_def)
  let ?w = "\<lambda>out. \<lparr> wr_out = out, wr_writes = [] \<rparr>"
  define b1 where "b1 = \<lparr> bs_control = ?w [], bs_runner = ?w (frame_bytes frameStart ''s''), bs_calls = [Started] \<rparr>"
  have b1: "(runner_call Started example_bootstrap)\<lparr> bs_runner := ?w (frame_bytes frameStart ''s'') \<rparr> = b1"
    by (simp add: runner_call_def example_bootstrap_def b1_def)
  have fields: "bs_control b1 = ?w []" "bs_runner b1 = ?w (frame_bytes frameStart ''s'')"
    "bs_runner (runner_call Started example_bootstrap) = ?w []"
    by (simp_all add: b1_def runner_call_def example_bootstrap_def)
  have sent: "writeFrame (one_value_codec v raw) kind v (?w out) = (noerr, ?w (out @ frame_bytes kind raw))" if "fits raw"
    for v :: 'v and raw kind out
    by (rule writeFrame_plain [OF one_value_decode(2) that])
  have "runBootstrap example_bootstrap_env example_start_only example_bootstrap =
      bootstrap_started example_bootstrap_env example_request r' (runner_call Started example_bootstrap)"
    by (simp add: runBootstrap_def bootstrap_requested_def Let_def example_bootstrap_fields example_request_valid r'(1) one_value_decode)
  also have "\<dots> = bootstrap_prepared example_bootstrap_env r' r1 b1"
    by (simp add: bootstrap_started_def Let_def example_bootstrap_fields fields r1 awaitFrame_def sent b1 maximumFrameBytes_def)
  also have "\<dots> = bootstrap_fails example_bootstrap_env e (b1\<lparr> bs_control := ?w (frame_bytes framePrepared ''{}'') \<rparr>)"
    by (simp add: bootstrap_prepared_def Let_def example_bootstrap_fields fields awaitFrame_def sent r'(2) maximumFrameBytes_def)
  finally show ?thesis
    by (simp add: bootstrap_fails_runner fields)
qed

lemma given_up_start_leaves_no_job_witness:
  "case run_state (runDetachedRunner example_runner_env example_start_only \<lparr> wr_out = [], wr_writes = [] \<rparr> 4)
       example_runner_world of
     ((err, c, shell), w') \<Rightarrow> err \<noteq> noerr \<and> no_job example_request 1 (w_inodes example_runner_world) (w_inodes w')"
proof -
  obtain err c shell w' where run: "run_state (runDetachedRunner example_runner_env example_start_only \<lparr> wr_out = [], wr_writes = [] \<rparr> 4)
      example_runner_world = ((err, c, shell), w')"
    by (metis surj_pair)
  obtain e s' w1 where start: "run_state (manager_Start example_expired_env example_manager (example_start ''true'') example_startup)
      example_launch_world = ((Inl e, s'), w1)" "wr_out (su_request s') = frame_bytes frameStart ''s''"
      "su_calls s' \<noteq> [Started, InputClosed]"
  proof -
    obtain internalRequest w2 where same: "fst (run_state (manager_Start example_expired_env example_manager (example_start ''true'') example_startup) example_launch_world) =
        fst (run_state (start_bootstrap example_expired_env example_manager (example_start ''true'') internalRequest 1 example_startup) w2)"
      using example_start_opens by blast
    obtain e s' where ends: "fst (run_state (start_bootstrap example_expired_env example_manager (example_start ''true'') internalRequest 1 example_startup) w2) =
        (Inl e, s')" "wr_out (su_request s') = frame_bytes frameStart ''s''" "su_calls s' = [Started, InputClosed, ReapedIt]"
      using example_start_expires by blast
    show thesis
      by (rule that [of e s' "snd (run_state (manager_Start example_expired_env example_manager (example_start ''true'') example_startup) example_launch_world)"])
        (use same ends in \<open>auto simp: prod_eq_iff\<close>)
  qed
  obtain berr b' where boot: "runBootstrap example_bootstrap_env example_start_only example_bootstrap = (berr, b')"
    by fastforce
  have stream: "stream example_start_only = frame_bytes frameStart ''s''"
    by (simp add: stream_def example_start_only_def)
  have pipes: "carries (su_request s') example_start_only" "carries (bs_runner b') example_start_only"
    using start(2) example_bootstrap_stops boot by (simp_all add: carries_def stream)
  have fresh: "fresh_bootstrap example_bootstrap"
    by (simp add: fresh_bootstrap_def example_bootstrap_def)
  obtain r' where "readFrame (\<lambda>_. True) example_start_only = (Inr \<lparr> if_kind = frameStart, if_payload = ''s'' \<rparr>, r')"
    using example_start_only_read by blast
  then have request: "start_request example_runner_env example_start_only = Inr example_request"
    by (simp add: start_request_def example_runner_env_def one_value_decode)
  from given_up_start_leaves_no_job [OF start(1) example_startup_fresh start(3) boot fresh pipes(1) run pipes(2) _ request example_runner(2-6)]
  show ?thesis using run by simp
qed


subsection \<open>A start that works\<close>

lemmas creation_defs =
  stage_pending_def fill_pending_def createPrivateDirectory_def createSyncedFile_def empty_files_def
  recovery_defs

definition example_open_world :: world where
  "example_open_world = example_store_world\<lparr> w_fds := [4 \<mapsto> (1, False), 6 \<mapsto> (3, False)], w_nextfd := 7 \<rparr>"

lemma example_stage:
  assumes "st_jobs store = 6"
  shows "\<exists>lease pending w2. run_state (stage_pending store ''job-1'' ''a'' ''r'' \<bind> (\<lambda>r. case r of
       Inl e \<Rightarrow> State_Monad.return ((None, e), pending) | Inr pending \<Rightarrow> commit store pending))
     example_open_world = (((Some lease, noerr), pending), w2)"
  by (simp add: run_rules creation_defs assms commit_def example_open_world_def example_store_world_def
     example_runner_world_def example_dir_def cong: run_congs split del: if_split)

lemma example_stage_commit:
  assumes "st_jobs store = 6"
  shows "\<exists>lease pending w1 pending' w2. run_state (stage_pending store ''job-1'' ''a'' ''r'') example_open_world = (Inr pending, w1) \<and>
    run_state (commit store pending) w1 = (((Some lease, noerr), pending'), w2)"
proof -
  obtain lease pending w2 where both: "run_state (stage_pending store ''job-1'' ''a'' ''r'' \<bind> (\<lambda>r. case r of
       Inl e \<Rightarrow> State_Monad.return ((None, e), pending) | Inr pending \<Rightarrow> commit store pending))
     example_open_world = (((Some lease, noerr), pending), w2)"
    using example_stage [OF assms] by blast
  obtain r w1 where r: "run_state (stage_pending store ''job-1'' ''a'' ''r'') example_open_world = (r, w1)"
    by fastforce
  show ?thesis
    using both r by (cases r) (auto simp: run_bind run_return)
qed

definition example_full_contracts :: Contracts where
  "example_full_contracts = example_contracts\<lparr> k_marshal_runtime := (\<lambda>_. Some ''r'') \<rparr>"

definition example_full_env :: runner_env where
  "example_full_env = example_runner_env\<lparr> rn_Load := Inr example_full_contracts,
     rn_committed := one_value_codec \<lparr> ic_Job = ps_Job example_job, ic_DurabilityError = [] \<rparr> ''j'' \<rparr>"

lemma example_full_open:
  "run_state (OpenStoreAt invocation contracts 4) example_store_world =
     (Inr (opened_store invocation contracts 6), example_open_world)"
  by (simp add: run_rules OpenStoreAt_def ensurePrivateDirectory_def opened_store_def example_store_world_def
     example_open_world_def example_runner_world_def example_dir_def cong: run_congs split del: if_split)

lemma example_launched:
  "\<exists>launched l. startShell example_launch_env example_request = (Inr launched, l) \<and> la_shell launched = example_shell \<and>
     la_shellPID launched = 78 \<and> la_birthIdentity launched = ''b'' \<and> la_startedUnixMs launched = 20"
proof -
  obtain r' where r': "readFrame (\<lambda>_. True) (lx_events example_launch_env) =
      (Inr \<lparr> if_kind = frameGuardianReady, if_payload = ''r'' \<rparr>, r')"
    using example_report_read by blast
  have start: "\<lparr> gs_Command = is_Command example_request, gs_GraceMs = is_TerminationGraceMs example_request \<rparr> = example_guardian_start"
    by (simp add: example_guardian_start_def example_request_def)
  have fields: "gr_GuardianPID example_ready = 77" "gr_ProcessGroupID example_ready = 77" "gr_ShellPID example_ready = 78"
      "rs_processGroup example_shell = 77" "example_shell\<lparr> rs_processGroup := 77 \<rparr> = example_shell" "lx_now example_launch_env = 20"
    by (simp_all add: example_ready_def example_shell_def example_launch_env_def)
  show ?thesis
    by (simp add: startShell_def startShell_guardian_def startShell_ready_def Let_def example_launch_fields opens_def
        close_all_fine start writeFrame_def writeFull_plain one_value_codec_def maximumFrameBytes_def r'
        decodeFrame_def errors_Is_def fields verifyStartedProcessGroup_def split: prod.split)
qed

lemma example_full_prepare:
  assumes "store = opened_store invocation example_full_contracts 6"
    and "invocation = \<lparr> ti_sessionID = ''s'', ti_workspacePath = ''/w'', ti_cwd = ''/w/x'' \<rparr>"
  shows "prepare store (initialJobState example_request 20)
    \<lparr> rm_RunnerPID = 70, rm_ShellPID = 78, rm_ProcessGroupID = 77, rm_ProcessGroupLeaderPID = 77,
      rm_ProcessBirthIdentity = ''b'' \<rparr> = stage_pending store ''job-1'' ''a'' ''r''"
proof -
  have same: "k_policy example_full_contracts = k_policy example_contracts"
      "k_schema_valid example_full_contracts = k_schema_valid example_contracts"
      "k_decode_state example_full_contracts = k_decode_state example_contracts"
      "k_marshal_state example_full_contracts = k_marshal_state example_contracts"
    by (simp_all add: example_full_contracts_def)
  have "encodeState example_full_contracts ''/w'' example_job = encodeState example_contracts ''/w'' example_job"
    unfolding encodeState_def ValidateStored_def same ..
  moreover have "encodeRuntime example_full_contracts \<lparr> rm_RunnerPID = 70, rm_ShellPID = 78, rm_ProcessGroupID = 77,
      rm_ProcessGroupLeaderPID = 77, rm_ProcessBirthIdentity = ''b'' \<rparr> = Inr ''r''"
    by (simp add: encodeRuntime_def validateRuntime_def example_full_contracts_def)
  moreover have "validJobID ''job-1''" by code_simp
  moreover have "sm_SessionID (ps_Session example_job) = ''s''" "jm_Cwd (ps_Job example_job) = ''/w/x''"
    by (simp_all add: example_job_def initialJobState_def example_request_def)
  ultimately show ?thesis
    using assms by (simp add: prepare_def example_job_def [symmetric] opened_store_def)
qed


lemma example_runner_reads:
  "\<exists>r1. readFrame (\<lambda>_. True) example_runner_input = (Inr \<lparr> if_kind = frameStart, if_payload = ''s'' \<rparr>, r1) \<and>
     fst (readFrame (\<lambda>_. True) r1) = Inr \<lparr> if_kind = frameCommit, if_payload = ''{}'' \<rparr>"
  by (rule readFrame_two) (simp_all add: example_runner_input_def maximumFrameBytes_def)

lemma example_full_fields:
  "rn_json_Valid example_full_env = (\<lambda>_. True)" "rn_start example_full_env = one_value_codec example_request ''s''"
  "rn_empty example_full_env = one_value_codec () ''{}''"
  "rn_committed example_full_env = one_value_codec \<lparr> ic_Job = ps_Job example_job, ic_DurabilityError = [] \<rparr> ''j''"
  "rn_Load example_full_env = Inr example_full_contracts" "rn_launch example_full_env = example_launch_env"
  "rn_Getpid example_full_env = 70"
  by (simp_all add: example_full_env_def example_runner_env_def)

lemma example_full_run:
  "\<exists>err control' shell w'. run_state (runDetachedRunner example_full_env example_runner_input \<lparr> wr_out = [], wr_writes = [] \<rparr> 4)
     example_store_world = ((err, control', shell), w') \<and>
     wr_out control' = frame_bytes framePrepared ''{}'' @ frame_bytes frameCommitted ''j''"
proof -
  let ?w = "\<lparr> wr_out = [], wr_writes = [] \<rparr>"
  let ?inv = "\<lparr> ti_sessionID = ''s'', ti_workspacePath = ''/w'', ti_cwd = ''/w/x'' \<rparr>"
  let ?store = "opened_store ?inv example_full_contracts 6"
  obtain r1 where r1: "readFrame (\<lambda>_. True) example_runner_input = (Inr \<lparr> if_kind = frameStart, if_payload = ''s'' \<rparr>, r1)"
      "fst (readFrame (\<lambda>_. True) r1) = Inr \<lparr> if_kind = frameCommit, if_payload = ''{}'' \<rparr>"
    using example_runner_reads by blast
  have inv: "runner_invocation example_request example_full_contracts = (?inv, \<lparr> d_Allowed = True, d_Code = CodeAllow \<rparr>)"
  proof -
    have "k_policy example_full_contracts = policy_v1" by (simp add: example_full_contracts_def)
    then show ?thesis
      using example_path
      by (simp add: runner_invocation_def BindCapabilityInvocation_def bind_asserted_def example_request_def Let_def)
  qed
  have "start_request example_full_env example_runner_input = Inr example_request"
    by (simp add: start_request_def example_full_fields r1 one_value_decode)
  from runDetachedRunner_requested [OF this]
  have run: "runDetachedRunner example_full_env example_runner_input ?w 4 = runner_requested example_full_env example_request r1 ?w 4"
    by (simp add: example_full_fields r1)
  obtain launched l where launched: "startShell example_launch_env example_request = (Inr launched, l)" "la_shell launched = example_shell"
      "la_shellPID launched = 78" "la_birthIdentity launched = ''b''" "la_startedUnixMs launched = 20"
    using example_launched by blast
  have jobs: "st_jobs ?store = 6" by (simp add: opened_store_def)
  obtain lease pending w1 pending' w2 where commit: "run_state (stage_pending ?store ''job-1'' ''a'' ''r'') example_open_world = (Inr pending, w1)"
      "run_state (commit ?store pending) w1 = (((Some lease, noerr), pending'), w2)"
    using example_stage_commit [OF jobs] by blast
  have job: "initialJobState example_request 20 = example_job" by (simp add: example_job_def)
  have group: "rs_processGroup example_shell = 77" by (simp add: example_shell_def)
  let ?c = "\<lparr> wr_out = frame_bytes framePrepared ''{}'' @ frame_bytes frameCommitted ''j'', wr_writes = [] \<rparr>"
  have last: "\<exists>err shell w'. run_state (runner_committed example_full_env example_request ?store launched example_job lease noerr
      \<lparr> wr_out = frame_bytes framePrepared ''{}'', wr_writes = [] \<rparr>) w2 = ((err, ?c, shell), w')"
    by (simp add: runner_committed_def Let_def example_full_fields writeFrame_plain one_value_decode maximumFrameBytes_def
        run_bind run_return split: prod.split)
  have prepared: "runner_prepared example_full_env example_request ?store launched example_job pending r1 ?w =
      (commit ?store pending \<bind> (\<lambda>((lease, commitErr), pending'). case lease of
         None \<Rightarrow> runner_gives_up example_full_env ?store launched pending' commitErr
           \<lparr> wr_out = frame_bytes framePrepared ''{}'', wr_writes = [] \<rparr>
       | Some l \<Rightarrow> runner_committed example_full_env example_request ?store launched example_job l commitErr
           \<lparr> wr_out = frame_bytes framePrepared ''{}'', wr_writes = [] \<rparr>))"
    by (simp add: runner_prepared_def example_full_fields writeFrame_plain one_value_decode maximumFrameBytes_def r1(2))
  have started: "\<exists>err shell w'. run_state (runner_started example_full_env example_request ?store launched r1 ?w) example_open_world =
      ((err, ?c, shell), w')"
    using last commit
    by (simp add: runner_started_def Let_def launched job group example_full_fields
        example_full_prepare [OF refl refl, unfolded job] prepared run_bind run_return)
  then have "\<exists>err shell w'. run_state (runner_in_store example_full_env example_request ?store r1 ?w) example_open_world =
      ((err, ?c, shell), w')"
    by (auto simp: runner_in_store_def example_full_fields launched(1) run_bind run_return split: prod.split)
  then have "\<exists>err shell w'. run_state (runner_requested example_full_env example_request r1 ?w 4) example_store_world =
      ((err, ?c, shell), w')"
    by (simp add: runner_requested_def example_request_valid example_full_fields inv run_bind example_full_open)
  then show ?thesis
    unfolding run by (metis writer.select_convs(1))
qed


lemma example_bootstrap_completes:
  "wr_out (bs_control (snd (runBootstrap example_bootstrap_env example_runner_input example_bootstrap))) =
     frame_bytes framePrepared ''{}'' @ frame_bytes frameCommitted ''j''"
proof -
  obtain r' where r': "readFrame (\<lambda>_. True) example_runner_input = (Inr \<lparr> if_kind = frameStart, if_payload = ''s'' \<rparr>, r')"
      "fst (readFrame (\<lambda>_. True) r') = Inr \<lparr> if_kind = frameCommit, if_payload = ''{}'' \<rparr>"
    using example_runner_reads by blast
  obtain r1 where r1: "readFrame (\<lambda>_. True) (bt_events example_bootstrap_env) =
      (Inr \<lparr> if_kind = framePrepared, if_payload = ''{}'' \<rparr>, r1)"
      "fst (readFrame (\<lambda>_. True) r1) = Inr \<lparr> if_kind = frameCommitted, if_payload = ''j'' \<rparr>"
    using readFrame_two [OF example_bootstrap_fields(13)] by (auto simp: maximumFrameBytes_def)
  let ?w = "\<lambda>out. \<lparr> wr_out = out, wr_writes = [] \<rparr>"
  define b1 where "b1 = \<lparr> bs_control = ?w [], bs_runner = ?w (frame_bytes frameStart ''s''), bs_calls = [Started] \<rparr>"
  have b1: "(runner_call Started example_bootstrap)\<lparr> bs_runner := ?w (frame_bytes frameStart ''s'') \<rparr> = b1"
    by (simp add: runner_call_def example_bootstrap_def b1_def)
  have fields: "bs_control b1 = ?w []" "bs_runner b1 = ?w (frame_bytes frameStart ''s'')"
    "bs_runner (runner_call Started example_bootstrap) = ?w []"
    by (simp_all add: b1_def runner_call_def example_bootstrap_def)
  have sent: "writeFrame (one_value_codec v raw) kind v (?w out) = (noerr, ?w (out @ frame_bytes kind raw))" if "fits raw"
    for v :: 'v and raw kind out
    by (rule writeFrame_plain [OF one_value_decode(2) that])
  have "runBootstrap example_bootstrap_env example_runner_input example_bootstrap =
      bootstrap_started example_bootstrap_env example_request r' (runner_call Started example_bootstrap)"
    by (simp add: runBootstrap_def bootstrap_requested_def Let_def example_bootstrap_fields example_request_valid r'(1) one_value_decode)
  also have "\<dots> = bootstrap_prepared example_bootstrap_env r' r1 b1"
    by (simp add: bootstrap_started_def Let_def example_bootstrap_fields fields r1 awaitFrame_def sent b1 maximumFrameBytes_def)
  also have "\<exists>b2. bs_control b2 = ?w (frame_bytes framePrepared ''{}'') \<and>
      \<dots> = bootstrap_committed example_bootstrap_env r1 b2"
    by (rule exI [of _ "b1\<lparr> bs_control := ?w (frame_bytes framePrepared ''{}''),
          bs_runner := ?w (frame_bytes frameStart ''s'' @ frame_bytes frameCommit ''{}'') \<rparr>"])
      (simp add: bootstrap_prepared_def Let_def example_bootstrap_fields fields awaitFrame_def sent r'(2)
        one_value_decode maximumFrameBytes_def)
  finally obtain b2 where b2: "bs_control b2 = ?w (frame_bytes framePrepared ''{}'')"
      "runBootstrap example_bootstrap_env example_runner_input example_bootstrap = bootstrap_committed example_bootstrap_env r1 b2"
    by blast
  have control: "bs_control (runner_call InputClosed b2) = ?w (frame_bytes framePrepared ''{}'')"
    by (simp add: runner_call_def b2)
  show ?thesis
    unfolding b2(2)
    by (simp add: bootstrap_committed_def Let_def example_bootstrap_fields awaitFrame_def r1(2) one_value_decode sent control
        maximumFrameBytes_def split: prod.split)
qed

lemma started_job_exists_witness:
  "\<exists>started. case run_state (runDetachedRunner example_full_env example_runner_input \<lparr> wr_out = [], wr_writes = [] \<rparr> 4)
       example_store_world of
     ((err, c, shell), w') \<Rightarrow> ps_Job example_job = ps_Job (initialJobState example_request started) \<and>
       detached_job example_full_env example_request started 1 (w_inodes example_store_world) (err = noerr) (w_inodes w')"
proof -
  let ?codec = "one_value_codec \<lparr> ic_Job = ps_Job example_job, ic_DurabilityError = [] \<rparr> ''j''"
  obtain err control' shell w' where run: "run_state (runDetachedRunner example_full_env example_runner_input
      \<lparr> wr_out = [], wr_writes = [] \<rparr> 4) example_store_world = ((err, control', shell), w')"
      "wr_out control' = frame_bytes framePrepared ''{}'' @ frame_bytes frameCommitted ''j''"
    using example_full_run by blast
  obtain s' w1 where start: "run_state (manager_Start example_startup_env example_manager (example_start ''true'') example_startup)
      example_launch_world = ((Inr (ps_Job example_job, noerr), s'), w1)"
    using example_start_opens [of example_startup_env example_startup] example_start_completes by (metis fst_conv surj_pair)
  obtain berr b' where boot: "runBootstrap example_bootstrap_env example_runner_input example_bootstrap = (berr, b')"
    by fastforce
  have fresh: "fresh_bootstrap example_bootstrap"
    by (simp add: fresh_bootstrap_def example_bootstrap_def)
  have out: "wr_out (bs_control b') = frame_bytes framePrepared ''{}'' @ frame_bytes frameCommitted ''j''"
    using example_bootstrap_completes boot by simp
  have pipes: "carries (bs_control b') (sp_response example_startup_env)" "carries control' (bt_events example_bootstrap_env)"
    using out run(2) example_startup_fields(14) example_bootstrap_fields(13) by (simp_all add: carries_def stream_def)
  have relays: "\<forall>started. relays ?codec (ps_Job (initialJobState example_request started))"
    by (auto simp: relays_def one_value_codec_def)
  have request: "start_request example_full_env example_runner_input = Inr example_request"
    using example_runner(1) by (simp add: start_request_def example_full_env_def cong: sum.case_cong)
  have ok: "runner_env_ok example_full_env"
    using example_runner(2) by (simp add: runner_env_ok_def example_full_env_def example_full_contracts_def)
  from started_job_exists [OF start example_startup_fresh boot fresh run(1) pipes writer.select_convs(1)
      example_startup_fields(4) example_bootstrap_fields(4) example_full_fields(4) relays request ok example_failing(3-6)]
  show ?thesis
    unfolding run(1) by auto
qed

end
