(* ===== verification/PathOpen.thy ===== *)
theory PathOpen
  imports Example
begin

section \<open>Opening paths of a workspace\<close>

text \<open>
  \<open>internal/state/path_policy_unix.go\<close>, with the functions of \<open>path_policy.go\<close> and
  \<open>trusted_invocation.go\<close> that call it: a path below the workspace is opened one component at a time
  from the root directory, never through a symbolic link, and the invocation of a request is trusted
  only if the session and the two directories the host passed can be opened like that and are the
  ones the request names. The platforms without these calls refuse every path.
\<close>

subsection \<open>Definitions\<close>

type_synonym pathComponentOpener = "handle \<Rightarrow> string \<Rightarrow> bool \<Rightarrow> handle result io"

datatype finalPathKind = finalRegularFile | finalDirectory

record pathOpenRequest =
  pq_workspacePath :: string
  pq_candidatePath :: string
  pq_expected :: finalPathKind

record pathComponent =
  pc_name :: string
  pc_directory :: bool

definition openPathComponent :: pathComponentOpener where
  "openPathComponent directoryFD component directory =
    unix_Openat directoryFD component
      ({O_RDONLY, O_CLOEXEC, O_NOFOLLOW, O_NONBLOCK} \<union> (if directory then {O_DIRECTORY} else {})) 0"

definition pathComponentIsSymlink :: "handle \<Rightarrow> string \<Rightarrow> bool io" where
  "pathComponentIsSymlink directoryFD component = do {
     stat \<leftarrow> unix_Fstatat directoryFD component;
     State_Monad.return (case stat of Inl err \<Rightarrow> False | Inr x \<Rightarrow> i_kind x = S_IFLNK) }"

definition openChild ::
  "Policy \<Rightarrow> handle \<Rightarrow> pathComponent \<Rightarrow> pathComponentOpener \<Rightarrow> (handle \<times> Decision) io" where
  "openChild p parentFD component opener = do {
     child \<leftarrow> opener parentFD (pc_name component) (pc_directory component);
     case child of
       Inl err \<Rightarrow> do {
         isSymlink \<leftarrow> (if errors_Is err ELOOP then State_Monad.return True
                      else pathComponentIsSymlink parentFD (pc_name component));
         State_Monad.return (parentFD, \<lparr> d_Allowed = False,
           d_Code = (if isSymlink then symlinkCode (p_path p) else unavailableCode (p_path p)) \<rparr>) }
     | Inr childFD \<Rightarrow> do {
         closeErr \<leftarrow> file_Close parentFD;
         if closeErr \<noteq> noerr then do {
           _ \<leftarrow> file_Close childFD;
           State_Monad.return (parentFD, \<lparr> d_Allowed = False, d_Code = unavailableCode (p_path p) \<rparr>) }
         else State_Monad.return (childFD, \<lparr> d_Allowed = True, d_Code = CodeAllow \<rparr>) } }"

text \<open>The two loops of the walk, each over its components.\<close>

primrec openChildren ::
  "Policy \<Rightarrow> pathComponentOpener \<Rightarrow> pathComponent list \<Rightarrow> handle \<Rightarrow> (handle \<times> Decision) io" where
  "openChildren p opener [] currentFD = State_Monad.return (currentFD, \<lparr> d_Allowed = True, d_Code = CodeAllow \<rparr>)"
| "openChildren p opener (component # rest) currentFD = do {
     (nextFD, decision) \<leftarrow> openChild p currentFD component opener;
     if \<not> d_Allowed decision then State_Monad.return (nextFD, decision)
     else openChildren p opener rest nextFD }"

definition workspace_components :: "string \<Rightarrow> pathComponent list" where
  "workspace_components workspacePath =
    map (\<lambda>name. \<lparr> pc_name = name, pc_directory = True \<rparr>) (splitPath workspacePath)"

definition relative_components :: "string \<Rightarrow> finalPathKind \<Rightarrow> pathComponent list" where
  "relative_components relative expected =
    (let components = splitPath relative in
     map (\<lambda>(index, name). \<lparr> pc_name = name,
            pc_directory = (index \<noteq> length components - 1 \<or> expected = finalDirectory) \<rparr>)
       (zip [0..<length components] components))"

definition allowedFinalDescriptor :: "handle \<Rightarrow> finalPathKind \<Rightarrow> bool io" where
  "allowedFinalDescriptor fd expected = do {
     stat \<leftarrow> unix_Fstat fd;
     State_Monad.return (case stat of
       Inl err \<Rightarrow> False
     | Inr x \<Rightarrow> (case expected of finalRegularFile \<Rightarrow> i_kind x = S_IFREG
                                  | finalDirectory \<Rightarrow> i_kind x = S_IFDIR)) }"

text \<open>What the deferred function does on every return without a file.\<close>

definition closeCurrent :: "Policy \<Rightarrow> handle \<Rightarrow> Decision \<Rightarrow> (handle option \<times> Decision) io" where
  "closeCurrent p currentFD decision = do {
     closeErr \<leftarrow> file_Close currentFD;
     State_Monad.return (None,
       if closeErr \<noteq> noerr then \<lparr> d_Allowed = False, d_Code = unavailableCode (p_path p) \<rparr> else decision) }"

definition openWorkspacePathWith ::
  "Policy \<Rightarrow> pathOpenRequest \<Rightarrow> pathComponentOpener \<Rightarrow> (handle option \<times> Decision) io" where
  "openWorkspacePathWith p request opener =
    (let (relative, lexicalDecision) = validateWorkspacePath p (pq_workspacePath request) (pq_candidatePath request);
         unavailable = \<lparr> d_Allowed = False, d_Code = unavailableCode (p_path p) \<rparr>
     in if \<not> d_Allowed lexicalDecision then State_Monad.return (None, lexicalDecision)
        else do {
          root \<leftarrow> unix_Open_root;
          case root of
            Inl err \<Rightarrow> State_Monad.return (None, unavailable)
          | Inr rootFD \<Rightarrow> do {
              (workspaceFD, decision) \<leftarrow>
                openChildren p opener (workspace_components (pq_workspacePath request)) rootFD;
              if \<not> d_Allowed decision then closeCurrent p workspaceFD decision
              else do {
                (currentFD, decision) \<leftarrow>
                  openChildren p opener (relative_components relative (pq_expected request)) workspaceFD;
                if \<not> d_Allowed decision then closeCurrent p currentFD decision
                else do {
                  final \<leftarrow> allowedFinalDescriptor currentFD (pq_expected request);
                  if \<not> final then closeCurrent p currentFD unavailable
                  else do {
                    opened \<leftarrow> fileFromFD currentFD (pq_candidatePath request);
                    case opened of
                      Inl err \<Rightarrow> closeCurrent p currentFD unavailable
                    | Inr file \<Rightarrow>
                        State_Monad.return (Some file, \<lparr> d_Allowed = True, d_Code = CodeAllow \<rparr>) } } } } })"

definition OpenWorkspacePath :: "Policy \<Rightarrow> string \<Rightarrow> string \<Rightarrow> (handle option \<times> Decision) io" where
  "OpenWorkspacePath p workspacePath candidatePath =
    openWorkspacePathWith p
      \<lparr> pq_workspacePath = workspacePath, pq_candidatePath = candidatePath, pq_expected = finalRegularFile \<rparr>
      openPathComponent"

definition validateWorkspaceDirectories :: "Policy \<Rightarrow> string \<Rightarrow> string \<Rightarrow> Decision io" where
  "validateWorkspaceDirectories p workspacePath cwd = do {
     (directory, decision) \<leftarrow> openWorkspacePathWith p
       \<lparr> pq_workspacePath = workspacePath, pq_candidatePath = cwd, pq_expected = finalDirectory \<rparr>
       openPathComponent;
     case directory of
       None \<Rightarrow> State_Monad.return decision
     | Some fd \<Rightarrow>
         if \<not> d_Allowed decision then State_Monad.return decision
         else do {
           closeErr \<leftarrow> file_Close fd;
           State_Monad.return
             (if closeErr \<noteq> noerr then \<lparr> d_Allowed = False, d_Code = unavailableCode (p_path p) \<rparr>
              else \<lparr> d_Allowed = True, d_Code = CodeAllow \<rparr>) } }"

definition BindTrustedInvocation ::
  "Policy \<Rightarrow> HostInvocation \<Rightarrow> TrustedContext \<Rightarrow> (TrustedInvocation \<times> Decision) io" where
  "BindTrustedInvocation p host asserted =
    (if hi_SessionID host = []
     then State_Monad.return (empty_invocation, \<lparr> d_Allowed = False, d_Code = CodeUnauthorized \<rparr>)
     else do {
       pathDecision \<leftarrow> validateWorkspaceDirectories p (hi_WorkspacePath host) (hi_Cwd host);
       State_Monad.return
         (if \<not> d_Allowed pathDecision then (empty_invocation, pathDecision)
          else bind_asserted host asserted) })"

text \<open>\<open>path_policy_unsupported.go\<close>, for other platforms.\<close>

definition unsupported_openPathComponent :: pathComponentOpener where
  "unsupported_openPathComponent fd component directory = State_Monad.return (Inl [OsErrInvalid])"

definition unsupported_openWorkspacePathWith ::
  "Policy \<Rightarrow> pathOpenRequest \<Rightarrow> pathComponentOpener \<Rightarrow> (handle option \<times> Decision) io" where
  "unsupported_openWorkspacePathWith p request opener =
    (let lexicalDecision = snd (validateWorkspacePath p (pq_workspacePath request) (pq_candidatePath request))
     in State_Monad.return (None,
          if \<not> d_Allowed lexicalDecision then lexicalDecision
          else \<lparr> d_Allowed = False, d_Code = unavailableCode (p_path p) \<rparr>))"

subsection \<open>Walks\<close>

text \<open>The inode that a list of names leads to, from a directory, without passing a symbolic link.\<close>

primrec walk :: "fs \<Rightarrow> nat \<Rightarrow> string list \<Rightarrow> nat option" where
  "walk I d [] = Some d"
| "walk I d (name # rest) =
    (case lookup_at I d name of
       None \<Rightarrow> None
     | Some n \<Rightarrow>
         (case (I d, I n) of
            (Some dir, Some x) \<Rightarrow>
              if i_kind dir = S_IFDIR \<and> i_kind x \<noteq> S_IFLNK then walk I n rest else None
          | _ \<Rightarrow> None))"

lemma walk_append: "walk I d (xs @ ys) = (case walk I d xs of None \<Rightarrow> None | Some n \<Rightarrow> walk I n ys)"
  by (induction xs arbitrary: d) (auto split: option.split)

lemma walk_step:
  assumes "entry_at I F h name n" "F h = Some (d, b)" "I n = Some x" "i_kind x \<noteq> S_IFLNK"
  shows "walk I d (name # rest) = walk I n rest"
  using assms by (auto simp: entry_at_def lookup_at_def)

lemma with_fd_same [simp]: "with_fd F h n h = Some (n, False)"
  by (simp add: with_fd_def)

lemma wp_pathComponentIsSymlink:
  assumes "St u I F w" "\<And>b w'. St u I F w' \<Longrightarrow> Q b w'"
  shows "wp (pathComponentIsSymlink fd name) Q w"
  unfolding pathComponentIsSymlink_def wp_bind
  by (rule wp_Fstatat [OF assms(1)]) (simp_all add: assms(2))

text \<open>One step of the walk: it holds one descriptor before and after.\<close>

lemma wp_openChild:
  assumes st: "St u I (with_fd F h d) w" and h: "F h = None"
    and fail: "\<And>F' code w'. F' = F \<or> F' = with_fd F h d \<Longrightarrow> code \<in> {symlinkCode (p_path p), unavailableCode (p_path p)} \<Longrightarrow>
      St u I F' w' \<Longrightarrow> Q (h, \<lparr> d_Allowed = False, d_Code = code \<rparr>) w'"
    and ok: "\<And>h' n w'. F h' = None \<Longrightarrow> \<forall>rest. walk I d (pc_name component # rest) = walk I n rest \<Longrightarrow>
      St u I (with_fd F h' n) w' \<Longrightarrow> Q (h', \<lparr> d_Allowed = True, d_Code = CodeAllow \<rparr>) w'"
  shows "wp (openChild p h component openPathComponent) Q w"
  unfolding openChild_def openPathComponent_def wp_bind
proof (rule wp_Openat [OF st], goal_cases)
  case (2 e w')
  then show ?case
    by (auto intro!: wp_pathComponentIsSymlink fail [OF disjI2 [OF refl]])
next
  case (3 h' n x w')
  then have h': "h' \<noteq> h" "F h' = None"
    by (auto simp: with_fd_def split: if_splits)
  have F: "((with_fd F h d)(h' \<mapsto> (n, False)))(h := None) = with_fd F h' n"
    using h h' by (auto simp: with_fd_def)
  have walk: "\<forall>rest. walk I d (pc_name component # rest) = walk I n rest"
    using walk_step [OF 3(4) _ 3(3)] 3(6) by (simp add: with_fd_def)
  have drop: "(with_fd F h' n)(h' := None) = F"
    using h'(2) by (auto simp: with_fd_def)
  show ?case
    unfolding sum.case wp_bind
  proof (rule wp_Close [OF 3(2)], goal_cases)
    case (1 closeErr w2)
    then have st2: "St u I (with_fd F h' n) w2" unfolding F .
    have "wp (file_Close h') (\<lambda>r. wp (State_Monad.return (h, \<lparr> d_Allowed = False, d_Code = unavailableCode (p_path p) \<rparr>)) Q) w2"
      by (rule wp_Close [OF st2]) (simp add: drop fail [OF disjI1 [OF refl]])
    then show ?case
      using ok [OF h'(2) walk st2] by simp
  qed
qed simp

lemma wp_openChildren:
  assumes "St u I (with_fd F h d) w" "F h = None"
    and fail: "\<And>F' h code w'. F' = F \<or> (\<exists>n. F h = None \<and> F' = with_fd F h n) \<Longrightarrow>
      code \<in> {symlinkCode (p_path p), unavailableCode (p_path p)} \<Longrightarrow>
      F h = None \<Longrightarrow> St u I F' w' \<Longrightarrow> Q (h, \<lparr> d_Allowed = False, d_Code = code \<rparr>) w'"
    and ok: "\<And>h' n w'. F h' = None \<Longrightarrow> walk I d (map pc_name components) = Some n \<Longrightarrow>
      St u I (with_fd F h' n) w' \<Longrightarrow> Q (h', \<lparr> d_Allowed = True, d_Code = CodeAllow \<rparr>) w'"
  shows "wp (openChildren p openPathComponent components h) Q w"
  using assms(1,2,4)
proof (induction components arbitrary: h d w)
  case Nil
  then show ?case by simp
next
  case (Cons component rest)
  show ?case
    unfolding openChildren.simps wp_bind
  proof (rule wp_openChild [OF Cons.prems(1,2)], goal_cases)
    case (1 F' code w')
    then have "Q (h, \<lparr> d_Allowed = False, d_Code = code \<rparr>) w'"
      using Cons.prems(2) by (intro fail [OF _ _ Cons.prems(2)]) auto
    then show ?case by simp
  next
    case (2 h' n w')
    then have "wp (openChildren p openPathComponent rest h') Q w'"
      by (intro Cons.IH Cons.prems(3)) auto
    then show ?case by simp
  qed
qed

subsection \<open>What an opened path is\<close>

definition final_kind :: "finalPathKind \<Rightarrow> filekind" where
  "final_kind expected = (case expected of finalRegularFile \<Rightarrow> S_IFREG | finalDirectory \<Rightarrow> S_IFDIR)"

lemma component_names:
  "map pc_name (workspace_components workspace) = splitPath workspace"
  "map pc_name (relative_components relative expected) = splitPath relative"
  by (simp_all add: workspace_components_def relative_components_def Let_def comp_def case_prod_beta)

lemma wp_allowedFinalDescriptor:
  assumes "St u I F w" "F h = Some (n, b)"
    and "\<And>w'. St u I F w' \<Longrightarrow> Q False w'"
    and "\<And>x w'. St u I F w' \<Longrightarrow> I n = Some x \<Longrightarrow> i_kind x = final_kind expected \<Longrightarrow> Q True w'"
  shows "wp (allowedFinalDescriptor h expected) Q w"
  unfolding allowedFinalDescriptor_def wp_bind
proof (rule wp_Fstat [OF assms(1)], goal_cases)
  case (1 e w')
  then show ?case using assms(3) by simp
next
  case (2 n' b' x w')
  then have "(case expected of finalRegularFile \<Rightarrow> i_kind x = S_IFREG | finalDirectory \<Rightarrow> i_kind x = S_IFDIR) =
      (i_kind x = final_kind expected)" "n' = n"
    using assms(2) by (auto simp: final_kind_def split: finalPathKind.split)
  then show ?case using 2 assms(3,4) by auto
qed

lemma wp_closeCurrent:
  assumes "St u I F' w" "F' = F \<or> (\<exists>n. F' = with_fd F h n)" "F h = None" "\<not> d_Allowed decision"
    and "\<And>decision w'. St u I F w' \<Longrightarrow> \<not> d_Allowed decision \<Longrightarrow> Q (None, decision) w'"
  shows "wp (closeCurrent p h decision) Q w"
proof -
  have F: "F'(h := None) = F"
    using assms(2,3) by (auto simp: with_fd_def)
  show ?thesis
    unfolding closeCurrent_def wp_bind
    by (rule wp_Close [OF assms(1)]) (simp add: F assms(4,5))
qed

definition path_opened :: "pathOpenRequest \<Rightarrow> fs \<Rightarrow> nat \<Rightarrow> bool" where
  "path_opened request I n \<longleftrightarrow>
    below (pq_workspacePath request) (pq_candidatePath request) \<and>
    walk I 0 (splitPath (pq_candidatePath request)) = Some n \<and>
    map_option i_kind (I n) = Some (final_kind (pq_expected request))"

lemma wp_openWorkspacePathWith:
  assumes st: "St u I F w"
    and fail: "\<And>decision w'. St u I F w' \<Longrightarrow> \<not> d_Allowed decision \<Longrightarrow> Q (None, decision) w'"
    and ok: "\<And>h n w'. F h = None \<Longrightarrow> path_opened request I n \<Longrightarrow> St u I (with_fd F h n) w' \<Longrightarrow>
      Q (Some h, \<lparr> d_Allowed = True, d_Code = CodeAllow \<rparr>) w'"
  shows "wp (openWorkspacePathWith p request openPathComponent) Q w"
proof -
  let ?v = "validateWorkspacePath p (pq_workspacePath request) (pq_candidatePath request)"
  obtain relative lexical where v: "?v = (relative, lexical)" by fastforce
  note closing = wp_closeCurrent [where F = F and Q = Q, OF _ _ _ _ fail]
  show ?thesis
  proof (cases "d_Allowed lexical")
    case False
    then show ?thesis
      using fail [OF st] by (simp add: openWorkspacePathWith_def v)
  next
    case True
    then have below: "below (pq_workspacePath request) (pq_candidatePath request)"
      "splitPath (pq_candidatePath request) = splitPath (pq_workspacePath request) @ splitPath relative"
      using validate_accepted [of p "pq_workspacePath request" "pq_candidatePath request"] v by simp_all
    have last: "wp (allowedFinalDescriptor h (pq_expected request)) (\<lambda>final. wp (
        if \<not> final then closeCurrent p h \<lparr> d_Allowed = False, d_Code = unavailableCode (p_path p) \<rparr>
        else do {
          opened \<leftarrow> fileFromFD h (pq_candidatePath request);
          case opened of
            Inl err \<Rightarrow> closeCurrent p h \<lparr> d_Allowed = False, d_Code = unavailableCode (p_path p) \<rparr>
          | Inr file \<Rightarrow> State_Monad.return (Some file, \<lparr> d_Allowed = True, d_Code = CodeAllow \<rparr>) }) Q) w2"
      if "St u I (with_fd F h n) w2" "F h = None" "walk I 0 (splitPath (pq_candidatePath request)) = Some n" for h n w2
    proof (rule wp_allowedFinalDescriptor [OF that(1) with_fd_same], goal_cases)
      case (1 w')
      then show ?case using that(2) by (auto intro!: closing)
    next
      case (2 x w')
      then have "path_opened request I n"
        using that(3) by (simp add: path_opened_def below(1))
      from ok [OF that(2) this 2(1)] show ?case by simp
    qed
    have relative: "wp (openChildren p openPathComponent (relative_components relative (pq_expected request)) h)
        (\<lambda>r. wp (case r of (currentFD, decision) \<Rightarrow>
          if \<not> d_Allowed decision then closeCurrent p currentFD decision
          else do {
            final \<leftarrow> allowedFinalDescriptor currentFD (pq_expected request);
            if \<not> final then closeCurrent p currentFD \<lparr> d_Allowed = False, d_Code = unavailableCode (p_path p) \<rparr>
            else do {
              opened \<leftarrow> fileFromFD currentFD (pq_candidatePath request);
              case opened of
                Inl err \<Rightarrow> closeCurrent p currentFD \<lparr> d_Allowed = False, d_Code = unavailableCode (p_path p) \<rparr>
              | Inr file \<Rightarrow> State_Monad.return (Some file, \<lparr> d_Allowed = True, d_Code = CodeAllow \<rparr>) } }) Q) w2"
      if "St u I (with_fd F h n) w2" "F h = None" "walk I 0 (splitPath (pq_workspacePath request)) = Some n" for h n w2
    proof (rule wp_openChildren [OF that(1,2)], goal_cases)
      case (1 F' h' code w')
      then show ?case by (auto intro!: closing)
    next
      case (2 h' n' w')
      then have "walk I 0 (splitPath (pq_candidatePath request)) = Some n'"
        by (simp add: below(2) walk_append that(3) component_names)
      from last [OF 2(3,1) this] show ?case by simp
    qed
    show ?thesis
      unfolding openWorkspacePathWith_def v Let_def case_prod_conv if_not_P [OF not_not [THEN iffD2, OF True]] wp_bind
    proof (rule wp_Open_root [OF st], goal_cases)
      case (1 e w')
      then show ?case using fail by simp
    next
      case (2 h x w')
      have st2: "St u I (with_fd F h 0) w'" using 2(2) by (simp add: with_fd_def)
      show ?case
        unfolding sum.case wp_bind
      proof (rule wp_openChildren [OF st2 2(1)], goal_cases)
        case (1 F' h' code w')
        then show ?case by (auto intro!: closing)
      next
        case (2 h' n' w')
        from relative [OF 2(3,1)] 2(2) show ?case by (simp add: component_names)
      qed
    qed
  qed
qed

lemma wp_validateWorkspaceDirectories:
  assumes st: "St u I F w"
    and "\<And>decision w'. St u I F w' \<Longrightarrow> \<not> d_Allowed decision \<Longrightarrow> Q decision w'"
    and "\<And>n w'. St u I F w' \<Longrightarrow> path_opened
      \<lparr> pq_workspacePath = workspace, pq_candidatePath = cwd, pq_expected = finalDirectory \<rparr> I n \<Longrightarrow>
      Q \<lparr> d_Allowed = True, d_Code = CodeAllow \<rparr> w'"
  shows "wp (validateWorkspaceDirectories p workspace cwd) Q w"
  unfolding validateWorkspaceDirectories_def wp_bind
proof (rule wp_openWorkspacePathWith [OF st], goal_cases)
  case (1 decision w')
  then show ?case using assms(2) by simp
next
  case (2 h n w')
  have F: "(with_fd F h n)(h := None) = F" using 2(1) by (auto simp: with_fd_def)
  note good = assms(3) [OF _ 2(2)]
  have "wp (file_Close h) (\<lambda>closeErr. wp (State_Monad.return (if closeErr \<noteq> noerr
              then \<lparr> d_Allowed = False, d_Code = unavailableCode (p_path p) \<rparr>
              else \<lparr> d_Allowed = True, d_Code = CodeAllow \<rparr>)) Q) w'"
    by (rule wp_Close [OF 2(3)]) (simp add: F assms(2) good)
  then show ?case by simp
qed

text \<open>C22: An invocation is trusted only if everything about it was checked. When \<open>BindTrustedInvocation\<close> allows a
  request, the session and the directories are those of the host and the ones the request names,
  the session is not empty, and the working directory lies below the workspace and was reached from
  the root directory through directories alone, never through a symbolic link; a refused request
  gets an empty invocation. Either way the file system is unchanged and no descriptor stays open,
  whichever calls fail.\<close>

theorem BindTrustedInvocation_physical:
  assumes "run_state (BindTrustedInvocation p host asserted) w = ((invocation, decision), w')" "world_ok w"
  shows "w_inodes w' = w_inodes w \<and> (w_alive w' \<longrightarrow> w_fds w' = w_fds w) \<and>
    (if d_Allowed decision
     then invocation = \<lparr> ti_sessionID = hi_SessionID host, ti_workspacePath = hi_WorkspacePath host, ti_cwd = hi_Cwd host \<rparr> \<and>
       tc_SessionID asserted = hi_SessionID host \<and> hi_SessionID host \<noteq> [] \<and>
       tc_WorkspacePath asserted = hi_WorkspacePath host \<and> tc_Cwd asserted = hi_Cwd host \<and>
       below (hi_WorkspacePath host) (hi_Cwd host) \<and>
       (\<exists>n x. walk (w_inodes w) 0 (splitPath (hi_Cwd host)) = Some n \<and> w_inodes w n = Some x \<and> i_kind x = S_IFDIR)
     else invocation = empty_invocation)"
proof -
  let ?Q = "\<lambda>r w'. St (w_euid w) (w_inodes w) (w_fds w) w' \<and> (case r of (invocation, decision) \<Rightarrow>
    if d_Allowed decision
     then invocation = \<lparr> ti_sessionID = hi_SessionID host, ti_workspacePath = hi_WorkspacePath host, ti_cwd = hi_Cwd host \<rparr> \<and>
       tc_SessionID asserted = hi_SessionID host \<and> hi_SessionID host \<noteq> [] \<and>
       tc_WorkspacePath asserted = hi_WorkspacePath host \<and> tc_Cwd asserted = hi_Cwd host \<and>
       (\<exists>n. path_opened \<lparr> pq_workspacePath = hi_WorkspacePath host, pq_candidatePath = hi_Cwd host,
          pq_expected = finalDirectory \<rparr> (w_inodes w) n)
     else invocation = empty_invocation)"
  note st = St_start [OF assms(2)]
  have "wp (BindTrustedInvocation p host asserted) ?Q w"
  proof (cases "hi_SessionID host = []")
    case True
    then show ?thesis using st by (simp add: BindTrustedInvocation_def)
  next
    case False
    then show ?thesis
      unfolding BindTrustedInvocation_def if_not_P [OF False] wp_bind
      by (intro wp_validateWorkspaceDirectories [OF st]) (auto simp: bind_asserted_def)
  qed
  from wp_run [OF this assms(1)] show ?thesis
    by (auto simp: path_opened_def final_kind_def dest: St_end split: if_splits)
qed

subsection \<open>A concrete workspace\<close>

text \<open>The directory \<open>/w/x\<close>, whose neighbour \<open>/w/y\<close> is a symbolic link.\<close>

definition example_tree :: world where
  "example_tree = example_world\<lparr>
     w_inodes := [0 \<mapsto> example_dir [(''w'', 1)], 1 \<mapsto> example_dir [(''x'', 2), (''y'', 3)], 2 \<mapsto> example_dir [],
       3 \<mapsto> (example_dir [])\<lparr> i_kind := S_IFLNK \<rparr>],
     w_next := 4, w_fds := Map.empty, w_nextfd := 3 \<rparr>"

definition example_host :: "string \<Rightarrow> HostInvocation" where
  "example_host cwd = \<lparr> hi_SessionID = ''s'', hi_WorkspacePath = ''/w'', hi_Cwd = cwd \<rparr>"

definition example_asserted :: "string \<Rightarrow> TrustedContext" where
  "example_asserted cwd = \<lparr> tc_Cwd = cwd, tc_SessionID = ''s'', tc_WorkspacePath = ''/w'' \<rparr>"

lemmas path_open_defs =
  BindTrustedInvocation_def validateWorkspaceDirectories_def openWorkspacePathWith_def openChild_def
  openPathComponent_def pathComponentIsSymlink_def closeCurrent_def allowedFinalDescriptor_def
  workspace_components_def relative_components_def bind_asserted_def unix_Open_root_def

lemma example_split:
  "validateWorkspacePath policy_v1 ''/w'' ''/w/x'' = (''x'', \<lparr> d_Allowed = True, d_Code = CodeAllow \<rparr>)"
  "validateWorkspacePath policy_v1 ''/w'' ''/w/y'' = (''y'', \<lparr> d_Allowed = True, d_Code = CodeAllow \<rparr>)"
  "splitPath ''/w'' = [''w'']" "splitPath ''x'' = [''x'']" "splitPath ''y'' = [''y'']"
  "splitPath ''/w/x'' = [''w'', ''x'']"
  by code_simp+

lemma example_bound:
  "\<exists>w'. run_state (BindTrustedInvocation policy_v1 (example_host ''/w/x'') (example_asserted ''/w/x'')) example_tree =
     ((\<lparr> ti_sessionID = ''s'', ti_workspacePath = ''/w'', ti_cwd = ''/w/x'' \<rparr>, \<lparr> d_Allowed = True, d_Code = CodeAllow \<rparr>), w')"
  by (simp add: run_rules path_open_defs example_host_def example_asserted_def example_split example_tree_def
      example_world_def example_dir_def cong: run_congs split del: if_split)

lemma example_link_refused:
  "fst (run_state (BindTrustedInvocation policy_v1 (example_host ''/w/y'') (example_asserted ''/w/y'')) example_tree) =
     (empty_invocation, \<lparr> d_Allowed = False, d_Code = symlinkCode (p_path policy_v1) \<rparr>)"
  by (simp add: run_rules path_open_defs example_host_def example_asserted_def example_split example_tree_def
      example_world_def example_dir_def cong: run_congs split del: if_split)

lemma BindTrustedInvocation_physical_witness:
  "case run_state (BindTrustedInvocation policy_v1 (example_host ''/w/x'') (example_asserted ''/w/x'')) example_tree of
     ((invocation, decision), w') \<Rightarrow> d_Allowed decision \<and> ti_cwd invocation = ''/w/x'' \<and> below ''/w'' ''/w/x'' \<and>
       w_inodes w' = w_inodes example_tree \<and> (\<exists>n. walk (w_inodes example_tree) 0 (splitPath ''/w/x'') = Some n)"
proof -
  obtain w' where run: "run_state (BindTrustedInvocation policy_v1 (example_host ''/w/x'') (example_asserted ''/w/x'')) example_tree =
     ((\<lparr> ti_sessionID = ''s'', ti_workspacePath = ''/w'', ti_cwd = ''/w/x'' \<rparr>, \<lparr> d_Allowed = True, d_Code = CodeAllow \<rparr>), w')"
    using example_bound by blast
  have "world_ok example_tree"
    by (auto simp: world_ok_def example_tree_def example_world_def)
  from BindTrustedInvocation_physical [OF run this] show ?thesis
    unfolding run by (auto simp: example_host_def)
qed

end
