(* ===== verification/Failure.thy ===== *)
theory Failure
  imports PolicyProps Utf8 Frames Os
begin

section \<open>Failures of the command line\<close>

text \<open>
  \<open>internal/cli/errors.go\<close> and \<open>response.go\<close>: how an error of the runner becomes an error code, how a
  failure is written as one JSON document on standard output, one line of diagnostics on standard
  error and an exit code, and how a response is written. \<open>encoding/json\<close>, the schema validator of the
  protocol and the texts of errors are fields of \<open>Application\<close>.
\<close>

subsection \<open>Text\<close>

fun Action_string :: "Action \<Rightarrow> string" where
  "Action_string ActionCancel = ''cancel''"
| "Action_string ActionList = ''list''"
| "Action_string ActionOutput = ''output''"
| "Action_string ActionRemove = ''remove''"
| "Action_string ActionRun = ''run''"
| "Action_string ActionStart = ''start''"
| "Action_string ActionStatus = ''status''"
| "Action_string ActionVersion = ''version''"
| "Action_string ActionWait = ''wait''"

fun ErrorCode_string :: "ErrorCode \<Rightarrow> string" where
  "ErrorCode_string ErrorCodeActiveJob = ''active_job''"
| "ErrorCode_string ErrorCodeConflict = ''conflict''"
| "ErrorCode_string ErrorCodeCorruptState = ''corrupt_state''"
| "ErrorCode_string ErrorCodeIncompatibleVersion = ''incompatible_version''"
| "ErrorCode_string ErrorCodeInternal = ''internal''"
| "ErrorCode_string ErrorCodeInvalidCursor = ''invalid_cursor''"
| "ErrorCode_string ErrorCodeInvalidRange = ''invalid_range''"
| "ErrorCode_string ErrorCodeInvalidRequest = ''invalid_request''"
| "ErrorCode_string ErrorCodeIoFailure = ''io_failure''"
| "ErrorCode_string ErrorCodeJobNotFound = ''job_not_found''"
| "ErrorCode_string ErrorCodeMalformedJson = ''malformed_json''"
| "ErrorCode_string ErrorCodeRunnerUnavailable = ''runner_unavailable''"
| "ErrorCode_string ErrorCodeUnauthorized = ''unauthorized''"

fun publicErrorMessage :: "ErrorCode \<Rightarrow> string" where
  "publicErrorMessage ErrorCodeMalformedJson = ''request is not JSON''"
| "publicErrorMessage ErrorCodeInvalidRequest = ''request is invalid''"
| "publicErrorMessage ErrorCodeIncompatibleVersion = ''protocol version is incompatible''"
| "publicErrorMessage ErrorCodeInvalidRange = ''output range is invalid''"
| "publicErrorMessage ErrorCodeInvalidCursor = ''cursor is invalid''"
| "publicErrorMessage ErrorCodeJobNotFound = ''job was not found''"
| "publicErrorMessage ErrorCodeUnauthorized = ''request is unauthorized''"
| "publicErrorMessage ErrorCodeActiveJob = ''job is active''"
| "publicErrorMessage ErrorCodeConflict = ''request conflicts with job state''"
| "publicErrorMessage ErrorCodeCorruptState = ''persisted state is corrupt''"
| "publicErrorMessage ErrorCodeRunnerUnavailable = ''runner is unavailable''"
| "publicErrorMessage ErrorCodeIoFailure = ''I/O operation failed''"
| "publicErrorMessage ErrorCodeInternal = ''internal failure''"

subsection \<open>Runes\<close>

text \<open>\<open>range\<close> over a string: its runes, U+FFFD for every byte that starts none. Runes are numbers.\<close>

fun code_point :: "bytes \<Rightarrow> nat" where
  "code_point [a] = of_char a"
| "code_point [a, b] = (of_char a - 192) * 64 + (of_char b - 128)"
| "code_point [a, b, c] = (of_char a - 224) * 4096 + (of_char b - 128) * 64 + (of_char c - 128)"
| "code_point [a, b, c, d] =
     (of_char a - 240) * 262144 + (of_char b - 128) * 4096 + (of_char c - 128) * 64 + (of_char d - 128)"
| "code_point _ = 65533"

function runes :: "bytes \<Rightarrow> nat list" where
  "runes s =
    (if s = [] then []
     else if rune_width s = 0 then 65533 # runes (tl s)
     else code_point (take (rune_width s) s) # runes (drop (rune_width s) s))"
  by pat_completeness auto
termination
  by (relation "measure length") auto

declare runes.simps [simp del]

text \<open>\<open>Builder.WriteRune\<close>.\<close>

definition rune_bytes :: "nat \<Rightarrow> bytes" where
  "rune_bytes r =
    (if r < 128 then [char_of r]
     else if r < 2048 then [char_of (192 + r div 64), char_of (128 + r mod 64)]
     else if r < 65536 then
       [char_of (224 + r div 4096), char_of (128 + r div 64 mod 64), char_of (128 + r mod 64)]
     else [char_of (240 + r div 262144), char_of (128 + r div 4096 mod 64),
           char_of (128 + r div 64 mod 64), char_of (128 + r mod 64)])"

definition unicode_IsControl :: "nat \<Rightarrow> bool" where
  "unicode_IsControl r \<longleftrightarrow> r < 32 \<or> (127 \<le> r \<and> r < 160)"

definition unicode_IsSpace :: "nat \<Rightarrow> bool" where
  "unicode_IsSpace r \<longleftrightarrow> (9 \<le> r \<and> r \<le> 13) \<or> (8192 \<le> r \<and> r \<le> 8202) \<or>
    r \<in> {32, 133, 160, 5760, 8232, 8233, 8239, 8287, 12288}"

text \<open>\<open>strings.TrimSpace\<close> on the runes of a string.\<close>

definition trim_space :: "nat list \<Rightarrow> nat list" where
  "trim_space rs = rev (dropWhile unicode_IsSpace (rev (dropWhile unicode_IsSpace rs)))"

subsection \<open>Diagnostics\<close>

definition maximumRunes :: nat where "maximumRunes = 512"

text \<open>The loop of \<open>Diagnostic\<close>: what it has built, and whether it stopped because that is full.\<close>

fun diagnostic_loop :: "nat list \<Rightarrow> bool \<Rightarrow> nat list \<Rightarrow> nat list \<times> bool" where
  "diagnostic_loop [] previousSpace built = (built, False)"
| "diagnostic_loop (rune # rest) previousSpace built =
    (let rune = (if unicode_IsControl rune \<or> unicode_IsSpace rune then 32 else rune) in
     if rune = 32 \<and> (previousSpace \<or> built = []) then diagnostic_loop rest previousSpace built
     else if length built \<ge> maximumRunes - 1 then (built, True)
     else diagnostic_loop rest (rune = 32) (built @ [rune]))"

definition diagnostic_runes :: "nat list \<Rightarrow> nat list" where
  "diagnostic_runes rs =
    (case diagnostic_loop rs False [] of
       (built, truncated) \<Rightarrow>
         let r = trim_space built in
         if truncated then trim_space r @ [8230] else r)"

definition diagnostic_text :: "string \<Rightarrow> string" where
  "diagnostic_text text =
    (let r = concat (map rune_bytes (diagnostic_runes (runes text))) in
     if r = [] then ''unknown failure'' else r)"

definition Diagnostic :: "(error \<Rightarrow> string) \<Rightarrow> error \<Rightarrow> string" where
  "Diagnostic Error err = (if err = noerr then ''unknown failure'' else diagnostic_text (Error err))"

subsection \<open>From errors to codes\<close>

record failure =
  fa_action :: "Action option"
  fa_diagnosticAction :: "Action option"
  fa_code :: ErrorCode
  fa_details :: "ErrorDetails option"
  fa_job :: "JobMetadata option"
  fa_cause :: error

definition newProblem :: "ErrorCode \<Rightarrow> error \<Rightarrow> failure" where
  "newProblem code cause =
    \<lparr> fa_action = None, fa_diagnosticAction = None, fa_code = code, fa_details = None, fa_job = None,
      fa_cause = cause \<rparr>"

definition newDetailedProblem :: "ErrorCode \<Rightarrow> ErrorDetails \<Rightarrow> error \<Rightarrow> failure" where
  "newDetailedProblem code details cause = (newProblem code cause)\<lparr> fa_details := Some details \<rparr>"

definition newFailure :: "Action \<Rightarrow> failure \<Rightarrow> failure" where
  "newFailure action problem = problem\<lparr> fa_action := Some action, fa_diagnosticAction := Some action \<rparr>"

definition newFailureWithoutAction :: "Action \<Rightarrow> failure \<Rightarrow> failure" where
  "newFailureWithoutAction action problem = problem\<lparr> fa_diagnosticAction := Some action \<rparr>"

fun is_syscall_error :: "err \<Rightarrow> bool" where
  "is_syscall_error OsPathError \<longleftrightarrow> True"
| "is_syscall_error OsLinkError \<longleftrightarrow> True"
| "is_syscall_error OsSyscallError \<longleftrightarrow> True"
| "is_syscall_error (Errno n) \<longleftrightarrow> True"
| "is_syscall_error _ \<longleftrightarrow> False"

definition isIOFailure :: "error \<Rightarrow> bool" where
  "isIOFailure err \<longleftrightarrow>
    errors_Is err FsErrNotExist \<or> errors_Is err FsErrPermission \<or> errors_Is err FsErrClosed \<or>
    errors_Is err IoErrShortWrite \<or> errors_Is err IoErrClosedPipe \<or> list_ex is_syscall_error err"

definition failureCode :: "error \<Rightarrow> ErrorCode" where
  "failureCode err =
    (if errors_Is err ErrInvalidStart \<or> errors_Is err ErrInvalidJobID then ErrorCodeInvalidRequest
     else if errors_Is err ErrInvalidRange then ErrorCodeInvalidRange
     else if errors_Is err ErrInvalidCursor then ErrorCodeInvalidCursor
     else if errors_Is err ErrJobNotFound then ErrorCodeJobNotFound
     else if errors_Is err ErrUnauthorized \<or> errors_Is err ErrUnsafeFilesystem then ErrorCodeUnauthorized
     else if errors_Is err ErrActiveJob then ErrorCodeActiveJob
     else if errors_Is err ErrStateLockTimeout \<or> errors_Is err ErrJobExists \<or> errors_Is err ErrRunnerActive \<or>
             errors_Is err ErrInvalidStateUpdate then ErrorCodeConflict
     else if errors_Is err ErrCorruptState \<or> errors_Is err ErrInvalidRuntime then ErrorCodeCorruptState
     else if errors_Is err ErrStartupTimeout \<or> errors_Is err ErrStartupFailed \<or> errors_Is err ErrInternalProtocol \<or>
             errors_Is err ErrExecution \<or> errors_Is err ErrUnsupported then ErrorCodeRunnerUnavailable
     else if isIOFailure err then ErrorCodeIoFailure
     else ErrorCodeInternal)"

definition failureFromError :: "Action \<Rightarrow> error \<Rightarrow> failure" where
  "failureFromError action err = newFailure action (newProblem (failureCode err) err)"

subsection \<open>Writing\<close>

datatype response =
    StartAnswer StartResponse | RunAnswer RunResponse | WaitAnswer WaitResponse | StatusAnswer StatusResponse
  | OutputAnswer OutputResponse | CancelAnswer CancelResponse | RemoveAnswer RemoveResponse
  | ListAnswer ListResponse | VersionAnswer VersionResponse | ErrorAnswer ErrorResponse

text \<open>
  The part of an application that writes: its policy, \<open>json.Marshal\<close> on responses, the validator of
  responses, and \<open>Error()\<close>.
\<close>

record output_side =
  ou_policy :: Policy
  ou_Marshal :: "response \<Rightarrow> bytes result"
  ou_ValidateResponse :: "bytes \<Rightarrow> error"
  ou_Error :: "error \<Rightarrow> string"

record Streams =
  sm_Stdin :: reader
  sm_Stdout :: writer
  sm_Stderr :: writer
  sm_StdinIsTerminal :: bool

definition newline :: string where "newline = [CHR 0x0A]"

text \<open>\<open>fmt.Fprint\<close> and its variants, whose results the code drops.\<close>

definition fprint :: "string \<Rightarrow> writer \<Rightarrow> writer" where
  "fprint text w = snd (writer_Write text w)"

definition say :: "string \<Rightarrow> Streams \<Rightarrow> Streams" where
  "say text streams = streams\<lparr> sm_Stderr := fprint text (sm_Stderr streams) \<rparr>"

definition writeResponse :: "output_side \<Rightarrow> response \<Rightarrow> writer \<Rightarrow> error \<times> writer" where
  "writeResponse app response w =
    (case ou_Marshal app response of
       Inl err \<Rightarrow> (ResponseInvariantError # fmt_Errorf ''marshal response: %w'' err, w)
     | Inr raw \<Rightarrow>
         if ou_ValidateResponse app raw \<noteq> noerr
         then (ResponseInvariantError # fmt_Errorf ''validate response: %w'' (ou_ValidateResponse app raw), w)
         else
           (case writer_Write (raw @ newline) w of
              ((written, err), w') \<Rightarrow>
                if err \<noteq> noerr then (ResponseWriteError # fmt_Errorf ''write response: %w'' err, w')
                else if written \<noteq> length (raw @ newline)
                then (ResponseWriteError # fmt_Errorf ''write response: %w'' [IoErrShortWrite], w')
                else (noerr, w')))"

definition action_text :: "Action option \<Rightarrow> string" where
  "action_text action = (case action of None \<Rightarrow> [] | Some a \<Rightarrow> Action_string a)"

definition writeOutputFailure :: "output_side \<Rightarrow> Action option \<Rightarrow> error \<Rightarrow> Streams \<Rightarrow> ExitClass \<times> Streams" where
  "writeOutputFailure app action cause streams =
    (let code = (if errors_Is cause ResponseInvariantError then ErrorCodeInternal else ErrorCodeIoFailure) in
     (5, say (''managed-bash: action='' @ action_text action @ '' code='' @ ErrorCode_string code @ '': '' @
           Diagnostic (ou_Error app) cause @ newline) streams))"

definition failureResponse :: "failure \<Rightarrow> ErrorResponse" where
  "failureResponse problem =
    \<lparr> er_Action = fa_action problem,
      er_Error = \<lparr> pe_Code = fa_code problem, pe_Details = fa_details problem,
                   pe_Message = publicErrorMessage (fa_code problem) \<rparr>,
      er_Job = fa_job problem, er_Ok = False, er_SchemaVersion = 1 \<rparr>"

definition writeFailure :: "output_side \<Rightarrow> failure \<Rightarrow> Streams \<Rightarrow> ExitClass \<times> Streams" where
  "writeFailure app problem streams =
    (case writeResponse app (ErrorAnswer (failureResponse problem)) (sm_Stdout streams) of
       (err, out) \<Rightarrow>
         let streams = streams\<lparr> sm_Stdout := out \<rparr> in
         if err \<noteq> noerr then writeOutputFailure app (fa_diagnosticAction problem) err streams
         else
           ((case ExitClassForError (ou_policy app) (fa_code problem) of None \<Rightarrow> 5 | Some exitClass \<Rightarrow> exitClass),
            say (''managed-bash: action='' @ action_text (fa_diagnosticAction problem) @ '' code='' @
              ErrorCode_string (fa_code problem) @ '': '' @ publicErrorMessage (fa_code problem) @ newline) streams))"

definition writeSuccess :: "output_side \<Rightarrow> Action \<Rightarrow> response \<Rightarrow> Streams \<Rightarrow> ExitClass \<times> Streams" where
  "writeSuccess app action response streams =
    (case writeResponse app response (sm_Stdout streams) of
       (err, out) \<Rightarrow>
         let streams = streams\<lparr> sm_Stdout := out \<rparr> in
         if err \<noteq> noerr
         then if errors_Is err ResponseInvariantError
              then writeFailure app (newFailure action (newProblem ErrorCodeInternal err)) streams
              else writeOutputFailure app (Some action) err streams
         else (SuccessExitClass (ou_policy app), streams))"

subsection \<open>One error, one code\<close>

text \<open>The order in which \<open>failureFromError\<close> asks: the code asked for first wins.\<close>

fun code_rank :: "ErrorCode \<Rightarrow> nat" where
  "code_rank ErrorCodeInvalidRequest = 0"
| "code_rank ErrorCodeInvalidRange = 1"
| "code_rank ErrorCodeInvalidCursor = 2"
| "code_rank ErrorCodeJobNotFound = 3"
| "code_rank ErrorCodeUnauthorized = 4"
| "code_rank ErrorCodeActiveJob = 5"
| "code_rank ErrorCodeConflict = 6"
| "code_rank ErrorCodeCorruptState = 7"
| "code_rank ErrorCodeRunnerUnavailable = 8"
| "code_rank ErrorCodeIoFailure = 9"
| "code_rank ErrorCodeInternal = 10"
| "code_rank ErrorCodeMalformedJson = 11"
| "code_rank ErrorCodeIncompatibleVersion = 12"

lemma isIOFailure_append: "isIOFailure (a @ b) \<longleftrightarrow> isIOFailure a \<or> isIOFailure b"
  by (auto simp: isIOFailure_def)

definition failure_tests :: "(error \<Rightarrow> bool) list" where
  "failure_tests =
    [\<lambda>e. errors_Is e ErrInvalidStart \<or> errors_Is e ErrInvalidJobID, \<lambda>e. errors_Is e ErrInvalidRange,
     \<lambda>e. errors_Is e ErrInvalidCursor, \<lambda>e. errors_Is e ErrJobNotFound,
     \<lambda>e. errors_Is e ErrUnauthorized \<or> errors_Is e ErrUnsafeFilesystem, \<lambda>e. errors_Is e ErrActiveJob,
     \<lambda>e. errors_Is e ErrStateLockTimeout \<or> errors_Is e ErrJobExists \<or> errors_Is e ErrRunnerActive \<or>
         errors_Is e ErrInvalidStateUpdate,
     \<lambda>e. errors_Is e ErrCorruptState \<or> errors_Is e ErrInvalidRuntime,
     \<lambda>e. errors_Is e ErrStartupTimeout \<or> errors_Is e ErrStartupFailed \<or> errors_Is e ErrInternalProtocol \<or>
         errors_Is e ErrExecution \<or> errors_Is e ErrUnsupported,
     isIOFailure]"

lemma failureCode_tests: "code_rank (failureCode err) = length (takeWhile (\<lambda>test. \<not> test err) failure_tests)"
  by (simp add: failureCode_def failure_tests_def)

lemma failure_tests_append: "test \<in> set failure_tests \<Longrightarrow> test (a @ b) = (test a \<or> test b)"
  by (auto simp: failure_tests_def isIOFailure_append)

lemma length_takeWhile_either:
  assumes "\<forall>t \<in> set ts. P t = (Q t \<or> R t)"
  shows "length (takeWhile (\<lambda>t. \<not> P t) ts) = min (length (takeWhile (\<lambda>t. \<not> Q t) ts)) (length (takeWhile (\<lambda>t. \<not> R t) ts))"
  using assms by (induction ts) auto

lemma failureCode_append:
  "code_rank (failureCode (a @ b)) = min (code_rank (failureCode a)) (code_rank (failureCode b))"
  unfolding failureCode_tests by (rule length_takeWhile_either) (simp add: failure_tests_append)

lemma failureCode_rank: "code_rank (failureCode err) \<le> 10"
  by (simp add: failureCode_def)

lemma failureCode_nil: "failureCode noerr = ErrorCodeInternal"
  by (simp add: failureCode_def isIOFailure_def)

text \<open>C25: A joined error keeps the most specific of its codes. An operation that fails joins its error with
  those of the closes that follow it; the code reported for the whole is the first in the order of
  \<open>failureFromError\<close> among the codes its parts would have alone, wherever that part stands. So a
  failing close never hides why an operation was refused, and an error no part of which is known is
  internal.\<close>

theorem failureFromError_joined:
  "code_rank (fa_code (failureFromError action (errors_Join errs))) =
     Min (insert (code_rank ErrorCodeInternal) ((\<lambda>err. code_rank (fa_code (failureFromError action err))) ` set errs))"
proof (induction errs)
  case Nil
  then show ?case
    by (simp add: failureFromError_def newFailure_def newProblem_def failureCode_nil)
next
  case (Cons err errs)
  then show ?case
    using failureCode_rank [of err]
    by (simp add: failureFromError_def newFailure_def newProblem_def failureCode_append insert_commute)
qed

subsection \<open>Diagnostics are one short line\<close>

text \<open>The reference: blanks for control characters and spaces, runs of blanks squeezed, a bounded prefix.\<close>

definition printable :: "nat \<Rightarrow> nat" where
  "printable r = (if unicode_IsControl r \<or> unicode_IsSpace r then 32 else r)"

fun squeeze :: "nat list \<Rightarrow> nat list" where
  "squeeze (a # b # rest) = (if a = 32 \<and> b = 32 then squeeze (b # rest) else a # squeeze (b # rest))"
| "squeeze rs = rs"

text \<open>What the loop keeps, if it skips blanks at first or not.\<close>

fun kept :: "bool \<Rightarrow> nat list \<Rightarrow> nat list" where
  "kept skip [] = []"
| "kept skip (r # rest) = (if r = 32 \<and> skip then kept skip rest else r # kept (r = 32) rest)"

lemma squeeze_Cons: "squeeze (a # rest) = a # (if a = 32 then squeeze (dropWhile (\<lambda>r. r = 32) rest) else squeeze rest)"
  by (induction rest) auto

lemma kept_squeeze:
  "kept True rs = squeeze (dropWhile (\<lambda>r. r = 32) rs) \<and> kept False rs = squeeze rs"
proof (induction rs)
  case (Cons r rs)
  then show ?case by (cases "r = 32") (auto simp: squeeze_Cons)
qed simp

lemma diagnostic_loop_kept:
  assumes "length built \<le> maximumRunes - 1"
  shows "diagnostic_loop rs previous built =
    (let r = built @ kept (previous \<or> built = []) (map printable rs)
     in (take (maximumRunes - 1) r, maximumRunes - 1 < length r))"
  using assms
proof (induction rs previous built rule: diagnostic_loop.induct)
  case (1 previous built)
  then show ?case by (simp add: Let_def)
next
  case (2 rune rest previous built)
  let ?rune = "if unicode_IsControl rune \<or> unicode_IsSpace rune then 32 else rune"
  have rune: "printable rune = ?rune" by (simp add: printable_def)
  consider (skip) "?rune = 32 \<and> (previous \<or> built = [])"
    | (full) "\<not> (?rune = 32 \<and> (previous \<or> built = []))" "length built = maximumRunes - 1"
    | (push) "\<not> (?rune = 32 \<and> (previous \<or> built = []))" "length built < maximumRunes - 1"
    using 2(3) by linarith
  then show ?case
  proof cases
    case skip
    then show ?thesis
      using 2(1) [OF refl skip 2(3)] by (simp only: diagnostic_loop.simps Let_def list.map rune if_True kept.simps simp_thms)
  next
    case full
    then show ?thesis
      by (simp only: diagnostic_loop.simps Let_def list.map rune if_False kept.simps) (auto simp: Let_def)
  next
    case push
    have "diagnostic_loop (rune # rest) previous built = diagnostic_loop rest (?rune = 32) (built @ [?rune])"
      using push by (simp only: diagnostic_loop.simps Let_def if_False) (simp split: if_splits)
    also have "\<dots> = (let r = (built @ [?rune]) @ kept (?rune = 32) (map printable rest)
        in (take (maximumRunes - 1) r, maximumRunes - 1 < length r))"
      using 2(2) [OF refl push(1)] push(2) by simp
    finally show ?thesis
      using push(1) by (auto simp: rune Let_def)
  qed
qed

text \<open>C26: The bounded loop of \<open>Diagnostic\<close>, which keeps the last rune and a counter, computes what it is
  meant to: every control character and space becomes a blank, leading blanks go, runs of blanks
  become one, the first 511 runes are kept and trimmed, and an ellipsis is added exactly if more
  were left.\<close>

theorem diagnostic_runes_reference:
  "diagnostic_runes rs =
    (let clean = squeeze (dropWhile (\<lambda>r. r = 32) (map printable rs)) in
     if length clean < maximumRunes then trim_space clean
     else trim_space (trim_space (take (maximumRunes - 1) clean)) @ [8230])"
  using diagnostic_loop_kept [of "[]" rs False] kept_squeeze [of "map printable rs"]
  by (auto simp: diagnostic_runes_def Let_def maximumRunes_def)

lemma set_squeeze: "set (squeeze rs) \<subseteq> set rs"
  by (induction rs rule: squeeze.induct) auto

lemma trim_space_set: "set (trim_space rs) \<subseteq> set rs"
  unfolding trim_space_def using set_dropWhileD by (metis set_rev subsetI)

lemma length_trim_space: "length (trim_space rs) \<le> length rs"
  unfolding trim_space_def by (metis length_dropWhile_le length_rev order_trans)

lemma hd_dropWhile_rev: "rev (dropWhile P (rev xs)) \<noteq> [] \<Longrightarrow> hd (rev (dropWhile P (rev xs))) = hd xs"
  by (simp add: dropWhile_eq_drop rev_drop hd_take)

lemma trim_space_ends:
  assumes "trim_space rs \<noteq> []"
  shows "\<not> unicode_IsSpace (hd (trim_space rs))" "\<not> unicode_IsSpace (last (trim_space rs))"
proof -
  let ?d = "dropWhile unicode_IsSpace rs"
  have "trim_space rs = []" if "?d = []"
    unfolding trim_space_def that by simp
  then have "?d \<noteq> []" using assms by blast
  then show "\<not> unicode_IsSpace (hd (trim_space rs))"
    using hd_dropWhile_rev [of unicode_IsSpace ?d] assms hd_dropWhile [of unicode_IsSpace rs] by (simp add: trim_space_def)
  show "\<not> unicode_IsSpace (last (trim_space rs))"
    using assms hd_dropWhile [of unicode_IsSpace "rev ?d"] by (simp add: trim_space_def last_rev)
qed

lemma printable_fine: "\<not> unicode_IsControl (printable r) \<and> (unicode_IsSpace (printable r) \<longrightarrow> printable r = 32)"
  by (simp add: printable_def unicode_IsControl_def)

definition clean_runes :: "nat list \<Rightarrow> bool" where
  "clean_runes rs \<longleftrightarrow> length rs \<le> maximumRunes \<and>
    (\<forall>r \<in> set rs. \<not> unicode_IsControl r \<and> (unicode_IsSpace r \<longrightarrow> r = 32)) \<and>
    (rs \<noteq> [] \<longrightarrow> hd rs \<noteq> 32 \<and> last rs \<noteq> 32)"

lemma clean_trim:
  assumes "length rs \<le> n" "\<forall>r \<in> set rs. \<not> unicode_IsControl r \<and> (unicode_IsSpace r \<longrightarrow> r = 32)"
  shows "length (trim_space rs) \<le> n \<and>
    (\<forall>r \<in> set (trim_space rs). \<not> unicode_IsControl r \<and> (unicode_IsSpace r \<longrightarrow> r = 32)) \<and>
    (trim_space rs \<noteq> [] \<longrightarrow> hd (trim_space rs) \<noteq> 32 \<and> last (trim_space rs) \<noteq> 32)"
  using assms trim_space_set [of rs] length_trim_space [of rs] trim_space_ends [of rs]
  by (auto simp: unicode_IsSpace_def)

lemma diagnostic_runes_clean: "clean_runes (diagnostic_runes rs)"
proof -
  let ?clean = "squeeze (dropWhile (\<lambda>r. r = 32) (map printable rs))"
  have fine: "\<forall>r \<in> set ?clean. \<not> unicode_IsControl r \<and> (unicode_IsSpace r \<longrightarrow> r = 32)"
  proof
    fix r assume "r \<in> set ?clean"
    then have "r \<in> set (dropWhile (\<lambda>r. r = 32) (map printable rs))"
      using set_squeeze by blast
    then have "r \<in> set (map printable rs)"
      using set_dropWhileD by metis
    then show "\<not> unicode_IsControl r \<and> (unicode_IsSpace r \<longrightarrow> r = 32)"
      using printable_fine by auto
  qed
  let ?t = "trim_space (take (maximumRunes - 1) ?clean)"
  have part: "\<forall>r \<in> set (take (maximumRunes - 1) ?clean). \<not> unicode_IsControl r \<and> (unicode_IsSpace r \<longrightarrow> r = 32)"
    using fine by (blast dest: in_set_takeD)
  have len: "length (take (maximumRunes - 1) ?clean) \<le> maximumRunes - 1"
    by simp
  note trimmed = clean_trim [OF len part]
  note t = trimmed [THEN conjunct1] trimmed [THEN conjunct2, THEN conjunct1]
  have loop: "diagnostic_runes rs = (if length ?clean < maximumRunes then trim_space ?clean else trim_space ?t @ [8230])"
    using diagnostic_loop_kept [of "[]" rs False] kept_squeeze [of "map printable rs"]
    by (auto simp: diagnostic_runes_def Let_def maximumRunes_def)
  show ?thesis
  proof (cases "length ?clean < maximumRunes")
    case True
    from clean_trim [OF less_imp_le [OF this] fine] show ?thesis
      unfolding clean_runes_def loop if_P [OF True] by blast
  next
    case False
    note again = clean_trim [OF t]
    have "length (trim_space ?t @ [8230]) \<le> maximumRunes"
      using again [THEN conjunct1] by (simp add: maximumRunes_def)
    moreover have "\<forall>r \<in> set (trim_space ?t @ [8230]). \<not> unicode_IsControl r \<and> (unicode_IsSpace r \<longrightarrow> r = 32)"
    proof
      fix r assume "r \<in> set (trim_space ?t @ [8230])"
      then consider "r \<in> set (trim_space ?t)" | "r = 8230" by auto
      then show "\<not> unicode_IsControl r \<and> (unicode_IsSpace r \<longrightarrow> r = 32)"
      proof cases
        case 1
        with again show ?thesis by blast
      qed (simp add: unicode_IsControl_def unicode_IsSpace_def)
    qed
    moreover have "hd (trim_space ?t @ [8230]) \<noteq> 32" "last (trim_space ?t @ [8230]) \<noteq> 32"
      using again [THEN conjunct2, THEN conjunct2] by (cases "trim_space ?t"; simp)+
    ultimately show ?thesis
      unfolding clean_runes_def loop if_not_P [OF False] by blast
  qed
qed

text \<open>No two blanks in a row, and what keeps it so.\<close>

definition single_blanks :: "nat list \<Rightarrow> bool" where
  "single_blanks rs \<longleftrightarrow> \<not> (\<exists>xs ys. rs = xs @ [32, 32] @ ys)"

lemma single_blanks_Cons2:
  "single_blanks (a # b # rs) \<longleftrightarrow> \<not> (a = 32 \<and> b = 32) \<and> single_blanks (b # rs)"
  by (auto simp: single_blanks_def append_eq_Cons_conv Cons_eq_append_conv)

lemma squeeze_single: "single_blanks (squeeze rs) \<and> (rs \<noteq> [] \<longrightarrow> hd (squeeze rs) = hd rs)"
proof (induction rs rule: squeeze.induct)
  case (1 a b rest)
  then show ?case
    by (cases "squeeze (b # rest)") (auto simp: single_blanks_Cons2, auto simp: single_blanks_def)
qed (auto simp: single_blanks_def Cons_eq_append_conv append_eq_Cons_conv)

lemma single_blanks_part: "single_blanks (xs @ rs @ ys) \<Longrightarrow> single_blanks rs"
  unfolding single_blanks_def by (metis append_assoc)

lemma single_blanks_trim: "single_blanks rs \<Longrightarrow> single_blanks (trim_space rs)"
proof -
  assume single: "single_blanks rs"
  have "rs = takeWhile unicode_IsSpace rs @ trim_space rs @
      rev (takeWhile unicode_IsSpace (rev (dropWhile unicode_IsSpace rs)))"
    unfolding trim_space_def by (metis rev_append rev_rev_ident takeWhile_dropWhile_id)
  then show ?thesis
    using single single_blanks_part by metis
qed

lemma single_blanks_take: "single_blanks rs \<Longrightarrow> single_blanks (take n rs)"
  using single_blanks_part [of "[]" "take n rs" "drop n rs"] by simp

lemma single_blanks_snoc: "single_blanks rs \<Longrightarrow> r \<noteq> 32 \<Longrightarrow> single_blanks (rs @ [r])"
proof (induction rs)
  case (Cons a rs)
  then show ?case
    using single_blanks_part [of "[a]" rs "[]"] by (cases rs) (auto simp: single_blanks_Cons2)
qed (auto simp: single_blanks_def Cons_eq_append_conv)

lemma diagnostic_runes_single: "single_blanks (diagnostic_runes rs)"
  using diagnostic_loop_kept [of "[]" rs False] kept_squeeze [of "map printable rs"] squeeze_single
  by (auto simp: diagnostic_runes_def Let_def maximumRunes_def
      intro!: single_blanks_snoc single_blanks_trim single_blanks_take)

lemma byte_bound: "(of_char c :: nat) \<le> 255"
  using nat_of_char_less_256 [of c] by linarith

lemma code_point_bound:
  assumes "0 < rune_width s"
  shows "code_point (take (rune_width s) s) < 2097152"
proof -
  have len: "rune_width s \<le> length s" by (rule rune_width_le)
  have small: "code_point t < 2097152" if "length t \<le> 3" for t
  proof (cases t rule: code_point.cases)
    case (1 a)
    then show ?thesis using byte_bound [of a] by simp
  next
    case (2 a b)
    then show ?thesis using byte_bound [of a] byte_bound [of b] by simp
  next
    case (3 a b c)
    then show ?thesis using byte_bound [of a] byte_bound [of b] byte_bound [of c] by simp
  next
    case (4 a b c d)
    then show ?thesis using that by simp
  qed (use that in auto)
  show ?thesis
  proof (cases "rune_width s = 4")
    case False
    then show ?thesis
      using rune_width_range [of s] assms small [of "take (rune_width s) s"] by auto
  next
    case True
    then have "Suc (Suc (Suc (Suc 0))) \<le> length s"
      using len by simp
    then obtain a b c d t where s: "s = a # b # c # d # t"
      unfolding Suc_le_length_iff by blast
    then have "rune_width_bytes (of_char a) (of_char b) (of_char c) (of_char d) = 4"
      using True by (simp add: rune_width_def byte_at_def)
    then have "of_char a \<le> (244 :: nat)" "of_char b \<le> (191 :: nat)" "of_char c \<le> (191 :: nat)" "of_char d \<le> (191 :: nat)"
      by (auto simp: rune_width_bytes_def continuation_def split: if_split_asm)
    then show ?thesis
      by (simp add: True, simp add: s)
  qed
qed

lemma runes_bound: "r \<in> set (runes s) \<Longrightarrow> r < 2097152"
proof (induction s rule: runes.induct)
  case (1 s)
  show ?case
  proof (cases "s = []")
    case False
    note run = runes.simps [of s]
    show ?thesis
    proof (cases "rune_width s = 0")
      case True
      then have "r = 65533 \<or> r \<in> set (runes (tl s))"
        using 1(3) False run by auto
      then show ?thesis using 1(1) [OF False True] by auto
    next
      case no: False
      then have "r = code_point (take (rune_width s) s) \<or> r \<in> set (runes (drop (rune_width s) s))"
        using 1(3) False run by auto
      then show ?thesis using 1(2) [OF False no] code_point_bound no by auto
    qed
  qed (use 1(3) in \<open>simp add: runes.simps\<close>)
qed

lemma rune_bytes_printable:
  assumes "\<not> unicode_IsControl r" "r < 2097152" "c \<in> set (rune_bytes r)"
  shows "32 \<le> (of_char c :: nat) \<and> of_char c \<noteq> (127 :: nat)"
proof (cases "r < 128")
  case True
  then show ?thesis
    using assms(1,3) by (auto simp: rune_bytes_def unicode_IsControl_def)
next
  case False
  then have "r div 64 < 32768" "r div 4096 < 512" "r div 262144 < 8"
    using assms(2) by auto
  then show ?thesis
    using False assms(3) by (auto simp: rune_bytes_def split: if_split_asm)
qed

lemma diagnostic_runes_subset: "set (diagnostic_runes rs) \<subseteq> {32, 8230} \<union> set rs"
proof -
  have kept: "set (kept skip rs) \<subseteq> set rs" for skip rs
    by (induction skip rs rule: kept.induct) auto
  obtain built truncated where loop: "diagnostic_loop rs False [] = (built, truncated)" by fastforce
  then have "built = take (maximumRunes - 1) (kept True (map printable rs))"
    using diagnostic_loop_kept [of "[]" rs False] by (simp add: Let_def)
  then have "set built \<subseteq> set (map printable rs)"
    using kept [of True "map printable rs"] set_take_subset by fastforce
  moreover have "set (map printable rs) \<subseteq> {32} \<union> set rs"
    by (auto simp: printable_def)
  ultimately have "set built \<subseteq> {32} \<union> set rs" by blast
  moreover have "set (diagnostic_runes rs) \<subseteq> {8230} \<union> set built"
    using trim_space_set [of built] trim_space_set [of "trim_space built"] by (auto simp: diagnostic_runes_def Let_def loop)
  ultimately show ?thesis by blast
qed

lemma ascii_runes: "\<forall>c \<in> set s. of_char c < (128 :: nat) \<Longrightarrow> concat (map rune_bytes (map of_char s)) = s"
  by (induction s) (simp_all add: rune_bytes_def)

text \<open>C27: What goes to standard error about an error is one short line, whatever the error says: between one
  and 512 runes, no control character and no space but the blank, no two blanks in a row and none
  at either end, and no byte of it is a control character, so a message that holds line breaks or
  terminal sequences cannot forge another line.\<close>

theorem Diagnostic_one_line:
  "(\<exists>rs. Diagnostic Error err = concat (map rune_bytes rs) \<and> rs \<noteq> [] \<and> length rs \<le> maximumRunes \<and>
     \<not> (\<exists>r \<in> set rs. unicode_IsControl r) \<and> \<not> (\<exists>r \<in> set rs. unicode_IsSpace r \<and> r \<noteq> 32) \<and>
     \<not> (\<exists>xs ys. rs = xs @ [32, 32] @ ys) \<and> hd rs \<noteq> 32 \<and> last rs \<noteq> 32) \<and>
   \<not> (\<exists>c \<in> set (Diagnostic Error err). (of_char c :: nat) < 32 \<or> of_char c = (127 :: nat))"
proof -
  let ?unknown = "map of_char ''unknown failure'' :: nat list"
  let ?rs = "diagnostic_runes (runes (Error err))"
  have unknown: "''unknown failure'' = concat (map rune_bytes ?unknown)"
    by (rule ascii_runes [symmetric]) simp
  have nil: "rune_bytes r \<noteq> []" for r by (simp add: rune_bytes_def)
  define rs where "rs = (if err = noerr \<or> ?rs = [] then ?unknown else ?rs)"
  have shown: "Diagnostic Error err = concat (map rune_bytes rs)"
  proof (cases "err = noerr \<or> ?rs = []")
    case True
    then show ?thesis
      unfolding rs_def if_P [OF True] unknown [symmetric] by (auto simp: Diagnostic_def diagnostic_text_def)
  next
    case False
    then have "concat (map rune_bytes ?rs) \<noteq> []"
      using nil by (cases ?rs) auto
    moreover have "err \<noteq> noerr" "?rs \<noteq> []" using False by auto
    ultimately show ?thesis
      unfolding Diagnostic_def diagnostic_text_def rs_def Let_def by (simp only: if_False simp_thms)
  qed
  have clean: "rs \<noteq> []" "length rs \<le> maximumRunes" "\<forall>r \<in> set rs. \<not> unicode_IsControl r"
      "\<not> (\<exists>r \<in> set rs. unicode_IsSpace r \<and> r \<noteq> 32)" "hd rs \<noteq> 32" "last rs \<noteq> 32"
    using diagnostic_runes_clean [of "runes (Error err)"]
    by (auto simp: rs_def clean_runes_def maximumRunes_def unicode_IsControl_def unicode_IsSpace_def)
  have "single_blanks ?unknown"
    by (simp add: single_blanks_Cons2) (simp add: single_blanks_def)
  then have single: "single_blanks rs"
    using diagnostic_runes_single unfolding rs_def by simp
  have "\<forall>r \<in> set rs. r < 2097152"
  proof
    fix r assume "r \<in> set rs"
    then consider "r \<in> set ?unknown" | "r \<in> set ?rs" by (auto simp: rs_def split: if_splits)
    then show "r < 2097152"
      using diagnostic_runes_subset [of "runes (Error err)"] runes_bound by cases auto
  qed
  then have "\<forall>c \<in> set (Diagnostic Error err). 32 \<le> (of_char c :: nat) \<and> of_char c \<noteq> (127 :: nat)"
    using clean(3) rune_bytes_printable unfolding shown by fastforce
  then have "\<not> (\<exists>c \<in> set (Diagnostic Error err). (of_char c :: nat) < 32 \<or> of_char c = (127 :: nat))"
    by fastforce
  then show ?thesis
    using shown clean single [unfolded single_blanks_def] by blast
qed

subsection \<open>One document\<close>

definition accepted_document :: "output_side \<Rightarrow> response \<Rightarrow> bytes \<Rightarrow> bool" where
  "accepted_document app response document \<longleftrightarrow>
    (\<exists>raw. ou_Marshal app response = Inr raw \<and> ou_ValidateResponse app raw = noerr \<and> document = raw @ newline)"

definition exit_of :: "output_side \<Rightarrow> response \<Rightarrow> ExitClass" where
  "exit_of app response =
    (case response of
       ErrorAnswer e \<Rightarrow>
         (case ExitClassForError (ou_policy app) (pe_Code (er_Error e)) of None \<Rightarrow> 5 | Some exitClass \<Rightarrow> exitClass)
     | _ \<Rightarrow> SuccessExitClass (ou_policy app))"

text \<open>A whole document and its exit code; or exit code 5 after a part of at most one document.\<close>

definition answered :: "output_side \<Rightarrow> bytes \<Rightarrow> ExitClass \<Rightarrow> bytes \<Rightarrow> bool" where
  "answered app before_out code out \<longleftrightarrow>
    (\<exists>response document. accepted_document app response document \<and> code = exit_of app response \<and>
       out = before_out @ document) \<or>
    (code = 5 \<and> (out = before_out \<or>
       (\<exists>response document n. accepted_document app response document \<and> out = before_out @ take n document)))"

text \<open>The errors of a writer are those of the system, never the command line's own.\<close>

definition outside_writer :: "writer \<Rightarrow> bool" where
  "outside_writer w \<longleftrightarrow> (\<forall>(n, err) \<in> set (wr_writes w). \<not> errors_Is err ResponseInvariantError)"

lemma writeResponse_outcome:
  assumes "writeResponse app response w = (err, w')" "outside_writer w"
  shows "(errors_Is err ResponseInvariantError \<and> w' = w) \<or>
    (\<not> errors_Is err ResponseInvariantError \<and>
     (\<exists>document n. accepted_document app response document \<and> wr_out w' = wr_out w @ take n document \<and>
        (err = noerr \<longrightarrow> take n document = document)))"
proof (cases "ou_Marshal app response")
  case (Inl e)
  then show ?thesis using assms(1) by (auto simp: writeResponse_def)
next
  case (Inr raw)
  show ?thesis
  proof (cases "ou_ValidateResponse app raw = noerr")
    case False
    then show ?thesis using assms(1) Inr by (auto simp: writeResponse_def)
  next
    case True
    then have doc: "accepted_document app response (raw @ newline)"
      using Inr by (simp add: accepted_document_def)
    obtain written e w2 where wrote: "writer_Write (raw @ newline) w = ((written, e), w2)"
      by (metis surj_pair)
    have "\<not> errors_Is e ResponseInvariantError \<and> (\<exists>n. wr_out w2 = wr_out w @ take n (raw @ newline) \<and>
        (written = length (raw @ newline) \<longrightarrow> take n (raw @ newline) = raw @ newline))"
    proof (cases "wr_writes w")
      case Nil
      then show ?thesis
        using wrote by (auto simp: writer_Write_def intro!: exI [of _ "length (raw @ newline)"])
    next
      case (Cons x xs)
      then show ?thesis
        using wrote assms(2)
        by (cases x) (auto simp: writer_Write_def outside_writer_def simp del: take_append intro!: exI [of _ "fst x"])
    qed
    then obtain n where e: "\<not> errors_Is e ResponseInvariantError" and n: "wr_out w2 = wr_out w @ take n (raw @ newline)"
        "written = length (raw @ newline) \<longrightarrow> take n (raw @ newline) = raw @ newline" by blast
    have "writeResponse app response w =
        (if e \<noteq> noerr then (ResponseWriteError # fmt_Errorf ''write response: %w'' e, w2)
         else if written \<noteq> length (raw @ newline)
         then (ResponseWriteError # fmt_Errorf ''write response: %w'' [IoErrShortWrite], w2)
         else (noerr, w2))"
      unfolding writeResponse_def by (simp only: Inr True wrote sum.case prod.case if_False simp_thms)
    then have "w' = w2" "\<not> errors_Is err ResponseInvariantError" "err = noerr \<longrightarrow> written = length (raw @ newline)"
      using assms(1) e by (auto split: if_splits)
    then show ?thesis
      using doc n by blast
  qed
qed

lemma say_fields [simp]: "sm_Stdout (say text streams) = sm_Stdout streams" "sm_Stdin (say text streams) = sm_Stdin streams"
  by (simp_all add: say_def)

lemma writeOutputFailure_out:
  "fst (writeOutputFailure app action cause streams) = 5"
  "sm_Stdout (snd (writeOutputFailure app action cause streams)) = sm_Stdout streams"
  by (simp_all add: writeOutputFailure_def Let_def)

lemma answered_part:
  "accepted_document app r d \<Longrightarrow> out = before_out @ take n d \<Longrightarrow> answered app before_out 5 out"
  "answered app before_out 5 before_out"
  unfolding answered_def by blast+

lemma writeFailure_answered:
  assumes "writeFailure app problem streams = (code, streams')" "outside_writer (sm_Stdout streams)"
  shows "answered app (wr_out (sm_Stdout streams)) code (wr_out (sm_Stdout streams'))"
    and "code = 5 \<or> ExitClassForError (ou_policy app) (fa_code problem) = Some code"
proof -
  let ?r = "ErrorAnswer (failureResponse problem)"
  obtain err out where written: "writeResponse app ?r (sm_Stdout streams) = (err, out)" by fastforce
  note outcome = writeResponse_outcome [OF written assms(2)]
  have code: "pe_Code (er_Error (failureResponse problem)) = fa_code problem"
    by (simp add: failureResponse_def)
  show "answered app (wr_out (sm_Stdout streams)) code (wr_out (sm_Stdout streams'))"
  proof (cases "err = noerr")
    case True
    then obtain document where "accepted_document app ?r document" "wr_out out = wr_out (sm_Stdout streams) @ document"
      using outcome by auto
    moreover have "code = exit_of app ?r" "sm_Stdout streams' = out"
      using assms(1) written True by (auto simp: writeFailure_def Let_def exit_of_def code)
    ultimately show ?thesis by (auto simp: answered_def)
  next
    case False
    then have "code = 5" "sm_Stdout streams' = out"
      using assms(1) written
        writeOutputFailure_out [of app "fa_diagnosticAction problem" err "streams\<lparr> sm_Stdout := out \<rparr>"]
      by (simp_all add: writeFailure_def Let_def)
    then show ?thesis using outcome by (auto intro: answered_part simp del: take_append)
  qed
  show "code = 5 \<or> ExitClassForError (ou_policy app) (fa_code problem) = Some code"
    using assms(1) written writeOutputFailure_out [of app "fa_diagnosticAction problem" err "streams\<lparr> sm_Stdout := out \<rparr>"]
    by (auto simp: writeFailure_def Let_def split: if_splits option.splits)
qed

lemma writeSuccess_answered:
  assumes "writeSuccess app action response streams = (code, streams')" "outside_writer (sm_Stdout streams)"
    and "\<forall>e. response \<noteq> ErrorAnswer e"
  shows "answered app (wr_out (sm_Stdout streams)) code (wr_out (sm_Stdout streams'))"
    and "ou_policy app = policy_v1 \<Longrightarrow> code = SuccessExitClass policy_v1 \<Longrightarrow>
      \<exists>document. accepted_document app response document \<and>
        wr_out (sm_Stdout streams') = wr_out (sm_Stdout streams) @ document"
proof -
  obtain err out where written: "writeResponse app response (sm_Stdout streams) = (err, out)" by fastforce
  note outcome = writeResponse_outcome [OF written assms(2)]
  have success: "exit_of app response = SuccessExitClass (ou_policy app)"
    using assms(3) by (cases response) (simp_all add: exit_of_def)
  have v1: "SuccessExitClass policy_v1 = 0"
    by (simp add: SuccessExitClass_def policy_v1_def newPolicy_def exitRules_of_def policy_document_v1_def)
  consider (fine) "err = noerr" | (invariant) "errors_Is err ResponseInvariantError" "out = sm_Stdout streams"
    | (unwritten) "err \<noteq> noerr" "\<not> errors_Is err ResponseInvariantError"
    using outcome by auto
  then have "answered app (wr_out (sm_Stdout streams)) code (wr_out (sm_Stdout streams')) \<and>
    (ou_policy app = policy_v1 \<longrightarrow> code = SuccessExitClass policy_v1 \<longrightarrow>
      (\<exists>document. accepted_document app response document \<and>
        wr_out (sm_Stdout streams') = wr_out (sm_Stdout streams) @ document))"
  proof cases
    case fine
    then obtain document where "accepted_document app response document"
        "wr_out out = wr_out (sm_Stdout streams) @ document"
      using outcome by auto
    moreover have "code = SuccessExitClass (ou_policy app)" "sm_Stdout streams' = out"
      using assms(1) written fine by (auto simp: writeSuccess_def Let_def)
    ultimately show ?thesis
      using success by (auto simp: answered_def)
  next
    case invariant
    moreover have "err \<noteq> noerr" "streams\<lparr> sm_Stdout := sm_Stdout streams \<rparr> = streams"
      using invariant(1) by auto
    ultimately have "writeFailure app (newFailure action (newProblem ErrorCodeInternal err)) streams = (code, streams')"
      using assms(1) written by (simp add: writeSuccess_def Let_def)
    from writeFailure_answered [OF this assms(2)] show ?thesis
      using ExitClassForError_v1 [of ErrorCodeInternal] v1
      by (auto simp: newFailure_def newProblem_def)
  next
    case unwritten
    then have "code = 5" "sm_Stdout streams' = out"
      using assms(1) written writeOutputFailure_out [of app "Some action" err "streams\<lparr> sm_Stdout := out \<rparr>"]
      by (simp_all add: writeSuccess_def Let_def)
    then show ?thesis
      using outcome unwritten v1 by (auto intro: answered_part)
  qed
  then show "answered app (wr_out (sm_Stdout streams)) code (wr_out (sm_Stdout streams'))"
    and "ou_policy app = policy_v1 \<Longrightarrow> code = SuccessExitClass policy_v1 \<Longrightarrow>
      \<exists>document. accepted_document app response document \<and>
        wr_out (sm_Stdout streams') = wr_out (sm_Stdout streams) @ document"
    by blast+
qed

end
