(* ===== verification/Requests.thy ===== *)
theory Requests
  imports PathOpen Failure
begin

section \<open>Requests of the command line\<close>

text \<open>
  \<open>internal/cli/request.go\<close>, \<open>request_types.go\<close> and \<open>context.go\<close>: a request is one JSON document on
  standard input, read with a bound, checked in a fixed order and decoded into the request of its
  action; and the invocation it asserts is bound to the one the host passed in the environment.
  \<open>encoding/json\<close> and the schema validator of the protocol are the fields of \<open>input_side\<close>; \<open>math/big\<close>
  is modelled on the decimal numbers that JSON can write.
\<close>

subsection \<open>Decimal numbers\<close>

definition is_digit :: "char \<Rightarrow> bool" where
  "is_digit c \<longleftrightarrow> 48 \<le> (of_char c :: nat) \<and> of_char c \<le> (57 :: nat)"

definition digits_value :: "string \<Rightarrow> int" where
  "digits_value s = foldl (\<lambda>n c. n * 10 + int (of_char c - 48)) 0 s"

definition split_digits :: "string \<Rightarrow> string \<times> string" where
  "split_digits s = (takeWhile is_digit s, dropWhile is_digit s)"

text \<open>The exponent at the end of a number; it has to fit an \<open>int64\<close>.\<close>

definition scan_exponent :: "string \<Rightarrow> int option" where
  "scan_exponent s =
    (case s of
       [] \<Rightarrow> Some 0
     | c # rest \<Rightarrow>
         if c \<noteq> CHR ''e'' \<and> c \<noteq> CHR ''E'' then None
         else
           let (negative, ds) = (case rest of
                  a # rest' \<Rightarrow> if a = CHR ''-'' then (True, rest') else if a = CHR ''+'' then (False, rest') else (False, rest)
                | [] \<Rightarrow> (False, []));
               n = digits_value ds
           in if ds = [] \<or> \<not> list_all is_digit ds \<or> n \<ge> 2 ^ 63 then None
              else Some (if negative then - n else n))"

text \<open>
  \<open>Rat.SetString\<close> on a decimal number, as mantissa and power of ten. It refuses powers beyond a million.
\<close>

definition big_Rat_SetString :: "string \<Rightarrow> (int \<times> int) option" where
  "big_Rat_SetString s =
    (let (negative, s1) = (case s of c # rest \<Rightarrow> if c = CHR ''-'' then (True, rest) else (False, s) | [] \<Rightarrow> (False, []));
         (whole, s2) = split_digits s1;
         (fraction, s3) = (case s2 of c # rest \<Rightarrow> if c = CHR ''.'' then split_digits rest else ([], s2) | [] \<Rightarrow> ([], []));
         mantissa = digits_value (whole @ fraction)
     in if whole = [] \<and> fraction = [] then None
        else case scan_exponent s3 of
          None \<Rightarrow> None
        | Some e \<Rightarrow>
            let shift = e - int (length fraction) in
            if mantissa = 0 then Some (0, 0)
            else if \<bar>shift\<bar> > 1000000 then None
            else Some (if negative then - mantissa else mantissa, shift))"

text \<open>\<open>Rat.IsInt\<close> and \<open>Rat.Num\<close>.\<close>

definition rat_integer :: "int \<times> int \<Rightarrow> int option" where
  "rat_integer r =
    (case r of (mantissa, shift) \<Rightarrow>
       if 0 \<le> shift then Some (mantissa * 10 ^ nat shift)
       else if mantissa mod 10 ^ nat (- shift) = 0 then Some (mantissa div 10 ^ nat (- shift))
       else None)"

text \<open>\<open>Int.String\<close>.\<close>

function nat_string :: "nat \<Rightarrow> string" where
  "nat_string n = (if n < 10 then [char_of (48 + n)] else nat_string (n div 10) @ [char_of (48 + n mod 10)])"
  by pat_completeness auto
termination
  by (relation "measure id") auto

declare nat_string.simps [simp del]

definition int_string :: "int \<Rightarrow> string" where
  "int_string n = (if n < 0 then CHR ''-'' # nat_string (nat (- n)) else nat_string (nat n))"

subsection \<open>Typed requests\<close>

datatype requestValue =
    startRequest StartRequest_json | runRequest RunRequest | waitRequest WaitRequest_json
  | statusRequest StatusRequest_json | outputRequest OutputRequest_json | cancelRequest CancelRequest_json
  | removeRequest RemoveRequest_json | listRequest ListRequest_json | versionRequest VersionRequest

fun request_action :: "requestValue \<Rightarrow> Action" where
  "request_action (startRequest r) = ActionStart"
| "request_action (runRequest r) = ActionRun"
| "request_action (waitRequest r) = ActionWait"
| "request_action (statusRequest r) = ActionStatus"
| "request_action (outputRequest r) = ActionOutput"
| "request_action (cancelRequest r) = ActionCancel"
| "request_action (removeRequest r) = ActionRemove"
| "request_action (listRequest r) = ActionList"
| "request_action (versionRequest r) = ActionVersion"

fun assertedContext :: "requestValue \<Rightarrow> TrustedContext option" where
  "assertedContext (startRequest r) = Some (startq_Context r)"
| "assertedContext (runRequest r) = Some (runq_Context r)"
| "assertedContext (waitRequest r) = Some (waitq_Context r)"
| "assertedContext (statusRequest r) = Some (statusq_Context r)"
| "assertedContext (outputRequest r) = Some (outputq_Context r)"
| "assertedContext (cancelRequest r) = Some (cancelq_Context r)"
| "assertedContext (removeRequest r) = Some (removeq_Context r)"
| "assertedContext (listRequest r) = Some (listq_Context r)"
| "assertedContext (versionRequest r) = None"

record requestEnvelope =
  rv_Action :: bytes
  rv_SchemaVersion :: bytes

record input_side =
  in_json_Valid :: "bytes \<Rightarrow> bool"
  in_envelope :: "bytes \<Rightarrow> requestEnvelope result"
  in_string :: "bytes \<Rightarrow> string result"
  in_Number :: "bytes \<Rightarrow> string result"
  in_ValidateRequest :: "bytes \<Rightarrow> error"
  in_object :: "bytes \<Rightarrow> (string \<Rightarrow> bytes option) result"
  in_MarshalObject :: "(string \<Rightarrow> bytes option) \<Rightarrow> bytes result"
  in_start :: "bytes \<Rightarrow> StartRequest_json result"
  in_run :: "bytes \<Rightarrow> RunRequest result"
  in_wait :: "bytes \<Rightarrow> WaitRequest_json result"
  in_status :: "bytes \<Rightarrow> StatusRequest_json result"
  in_output :: "bytes \<Rightarrow> OutputRequest_json result"
  in_cancel :: "bytes \<Rightarrow> CancelRequest_json result"
  in_remove :: "bytes \<Rightarrow> RemoveRequest_json result"
  in_list :: "bytes \<Rightarrow> ListRequest_json result"
  in_version :: "bytes \<Rightarrow> VersionRequest result"

definition decodeValidatedRequestError :: "error \<Rightarrow> error" where
  "decodeValidatedRequestError err = fmt_Errorf ''decode validated request: %w'' err"

definition decoded :: "('v \<Rightarrow> requestValue) \<Rightarrow> 'v result \<Rightarrow> requestValue result" where
  "decoded request r = (case r of Inl err \<Rightarrow> Inl (decodeValidatedRequestError err) | Inr v \<Rightarrow> Inr (request v))"

fun decodeValidatedRequest :: "input_side \<Rightarrow> Action \<Rightarrow> bytes \<Rightarrow> requestValue result" where
  "decodeValidatedRequest app ActionStart raw = decoded startRequest (in_start app raw)"
| "decodeValidatedRequest app ActionRun raw = decoded runRequest (in_run app raw)"
| "decodeValidatedRequest app ActionWait raw = decoded waitRequest (in_wait app raw)"
| "decodeValidatedRequest app ActionStatus raw = decoded statusRequest (in_status app raw)"
| "decodeValidatedRequest app ActionOutput raw = decoded outputRequest (in_output app raw)"
| "decodeValidatedRequest app ActionCancel raw = decoded cancelRequest (in_cancel app raw)"
| "decodeValidatedRequest app ActionRemove raw = decoded removeRequest (in_remove app raw)"
| "decodeValidatedRequest app ActionList raw = decoded listRequest (in_list app raw)"
| "decodeValidatedRequest app ActionVersion raw = decoded versionRequest (in_version app raw)"

subsection \<open>Reading a request\<close>

definition maxRequestBytes :: nat where "maxRequestBytes = 2 ^ 20"

text \<open>\<open>io.ReadAll\<close> of an \<open>io.LimitReader\<close>.\<close>

definition read_limited :: "nat \<Rightarrow> reader \<Rightarrow> bytes \<times> error" where
  "read_limited n r =
    (if n \<le> length (stream r) then (take n (stream r), noerr)
     else (stream r, if rd_end r = IoEOF then noerr else [rd_end r]))"

definition knownAction :: "string \<Rightarrow> Action option" where
  "knownAction raw =
    find (\<lambda>action. Action_string action = raw)
      [ActionStart, ActionRun, ActionWait, ActionStatus, ActionOutput, ActionCancel, ActionRemove, ActionList,
       ActionVersion]"

definition parseRequestAction :: "input_side \<Rightarrow> bytes \<Rightarrow> Action option" where
  "parseRequestAction app raw =
    (if raw = [] then None
     else case in_string app raw of Inl err \<Rightarrow> None | Inr action \<Rightarrow> knownAction action)"

definition parseSchemaVersion :: "input_side \<Rightarrow> bytes \<Rightarrow> int option" where
  "parseSchemaVersion app raw =
    (if raw = [] then None
     else case in_Number app raw of
       Inl err \<Rightarrow> None
     | Inr number \<Rightarrow> (case big_Rat_SetString number of None \<Rightarrow> None | Some version \<Rightarrow> rat_integer version))"

definition canonicalizeSchemaVersion :: "input_side \<Rightarrow> bytes \<Rightarrow> bytes result" where
  "canonicalizeSchemaVersion app raw =
    (case in_object app raw of
       Inl err \<Rightarrow> Inl (fmt_Errorf ''decode validated request object: %w'' err)
     | Inr object \<Rightarrow>
         (case in_MarshalObject app (object(''schema_version'' \<mapsto> ''1'')) of
            Inl err \<Rightarrow> Inl (fmt_Errorf ''canonicalize schema version: %w'' err)
          | Inr canonical \<Rightarrow> Inr canonical))"

definition field_details :: "string \<Rightarrow> string \<Rightarrow> string \<Rightarrow> ErrorDetails" where
  "field_details field expected actual =
    \<lparr> ed_Actual = Some actual, ed_Expected = Some expected, ed_Field = Some field, ed_Reason = None \<rparr>"

text \<open>A failure before the action is certain carries it only if it was read.\<close>

definition with_action :: "Action \<Rightarrow> Action option \<Rightarrow> failure \<Rightarrow> failure" where
  "with_action selected action problem =
    (let problem = newFailureWithoutAction selected problem in
     case action of None \<Rightarrow> problem | Some a \<Rightarrow> newFailure a problem)"

text \<open>\<open>readRequest\<close> once the envelope is decoded.\<close>

definition readRequest_checked :: "input_side \<Rightarrow> Action \<Rightarrow> bytes \<Rightarrow> requestEnvelope \<Rightarrow> failure + requestValue" where
  "readRequest_checked app selected raw envelope =
    (let action = parseRequestAction app (rv_Action envelope) in
     case parseSchemaVersion app (rv_SchemaVersion envelope) of
       None \<Rightarrow> Inl (with_action selected action (newProblem ErrorCodeInvalidRequest
                (fmt_Errorf ''schema_version must be an integer'' noerr)))
     | Some version \<Rightarrow>
         if version \<noteq> 1
         then Inl (with_action selected action (newDetailedProblem ErrorCodeIncompatibleVersion
                (field_details ''schema_version'' ''1'' (int_string version))
                (fmt_Errorf ''unsupported schema version'' noerr)))
         else case action of
           None \<Rightarrow> Inl (newFailureWithoutAction selected (newProblem ErrorCodeInvalidRequest
                (fmt_Errorf ''action must be a known string'' noerr)))
         | Some action \<Rightarrow>
             if action \<noteq> selected
             then Inl (newFailure action (newDetailedProblem ErrorCodeInvalidRequest
                    (field_details ''action'' (Action_string selected) (Action_string action))
                    (fmt_Errorf ''request action differs from subcommand'' noerr)))
             else if in_ValidateRequest app raw \<noteq> noerr
             then Inl (newFailure action (newProblem ErrorCodeInvalidRequest (in_ValidateRequest app raw)))
             else case canonicalizeSchemaVersion app raw of
               Inl err \<Rightarrow> Inl (newFailure action (newProblem ErrorCodeInternal err))
             | Inr canonical \<Rightarrow>
                 (case decodeValidatedRequest app action canonical of
                    Inl err \<Rightarrow> Inl (newFailure action (newProblem ErrorCodeInternal err))
                  | Inr request \<Rightarrow> Inr request))"

definition readRequest :: "input_side \<Rightarrow> Action \<Rightarrow> reader \<Rightarrow> failure + requestValue" where
  "readRequest app selected input =
    (case read_limited (maxRequestBytes + 1) input of
       (raw, err) \<Rightarrow>
         if err \<noteq> noerr
         then Inl (newFailure selected (newProblem ErrorCodeIoFailure (fmt_Errorf ''read stdin: %w'' err)))
         else if length raw > maxRequestBytes
         then Inl (newFailure selected (newProblem ErrorCodeInvalidRequest (fmt_Errorf ''request exceeds bytes'' noerr)))
         else if raw = [] \<or> \<not> utf8_Valid raw \<or> \<not> in_json_Valid app raw
         then Inl (newFailureWithoutAction selected (newProblem ErrorCodeMalformedJson
                (fmt_Errorf ''stdin does not contain one valid UTF-8 JSON value'' noerr)))
         else case in_envelope app raw of
           Inl err \<Rightarrow> Inl (newFailureWithoutAction selected (newProblem ErrorCodeInvalidRequest
                (fmt_Errorf ''decode request envelope: %w'' err)))
         | Inr envelope \<Rightarrow> readRequest_checked app selected raw envelope)"

subsection \<open>The invocation\<close>

text \<open>
  What the process finds of its host: two variables of its environment, the errors of removing them
  and \<open>PWD\<close>, and its working directory.
\<close>

record host_side =
  ho_session :: string
  ho_workspace :: string
  ho_Unsetenv :: "error list"
  ho_Getwd :: "string result"

definition readHostInvocation :: "host_side \<Rightarrow> HostInvocation result" where
  "readHostInvocation host =
    (let scrubErr = errors_Join (ho_Unsetenv host) in
     if ho_session host = [] \<or> ho_workspace host = []
     then Inl (errors_Join [[ErrMissingHostContext], scrubErr])
     else if scrubErr \<noteq> noerr then Inl (fmt_Errorf ''scrub trusted host environment: %w'' scrubErr)
     else case ho_Getwd host of
       Inl err \<Rightarrow> Inl (fmt_Errorf ''resolve physical working directory: %w'' err)
     | Inr cwd \<Rightarrow>
         Inr \<lparr> hi_SessionID = ho_session host, hi_WorkspacePath = ho_workspace host, hi_Cwd = cwd \<rparr>)"

definition fieldConstraintDetails :: "string \<Rightarrow> string \<Rightarrow> string \<Rightarrow> ErrorDetails" where
  "fieldConstraintDetails field expected actual =
    field_details field expected (if actual \<noteq> [] then diagnostic_text actual else actual)"

definition contextFailureDetails :: "HostInvocation \<Rightarrow> TrustedContext \<Rightarrow> Decision \<Rightarrow> ErrorDetails option" where
  "contextFailureDetails host asserted decision =
    (case d_Code decision of
       CodePathInvalid \<Rightarrow>
         if hi_WorkspacePath host = [sep] \<or> \<not> canonicalAbsolute (hi_WorkspacePath host)
         then Some (fieldConstraintDetails ''context.workspace_path''
                ''physical canonical workspace directory other than /'' (hi_WorkspacePath host))
         else Some (fieldConstraintDetails ''context.cwd'' ''physical canonical directory inside workspace'' (hi_Cwd host))
     | CodePathOutsideWorkspace \<Rightarrow>
         Some (fieldConstraintDetails ''context.cwd'' ''physical canonical directory inside workspace'' (hi_Cwd host))
     | CodeUnauthorized \<Rightarrow>
         if tc_SessionID asserted \<noteq> hi_SessionID host
         then Some (fieldConstraintDetails ''context.session_id'' ''trusted host session'' (tc_SessionID asserted))
         else if tc_WorkspacePath asserted \<noteq> hi_WorkspacePath host
         then Some (fieldConstraintDetails ''context.workspace_path'' ''trusted host workspace'' (tc_WorkspacePath asserted))
         else if tc_Cwd asserted \<noteq> hi_Cwd host
         then Some (fieldConstraintDetails ''context.cwd'' ''trusted host working directory'' (tc_Cwd asserted))
         else None
     | _ \<Rightarrow> None)"

text \<open>What \<open>bindInvocation\<close> makes of the decision.\<close>

definition bound_invocation ::
  "Policy \<Rightarrow> Action \<Rightarrow> HostInvocation \<Rightarrow> TrustedContext \<Rightarrow> TrustedInvocation \<times> Decision \<Rightarrow> failure + TrustedInvocation" where
  "bound_invocation policy action host asserted bound =
    (case bound of (invocation, decision) \<Rightarrow>
       if d_Allowed decision then Inr invocation
       else case ProtocolOutcomeForCode policy (d_Code decision) of
         None \<Rightarrow> Inl (newFailure action (newProblem ErrorCodeInternal (fmt_Errorf ''unmapped host decision'' noerr)))
       | Some outcome \<Rightarrow>
           (case (po_Kind outcome, po_ErrorCode outcome) of
              (ProtocolOutcomeError, Some code) \<Rightarrow>
                let cause = fmt_Errorf ''trusted host context rejected'' noerr in
                (case contextFailureDetails host asserted decision of
                   None \<Rightarrow> Inl (newFailure action (newProblem code cause))
                 | Some details \<Rightarrow> Inl (newFailure action (newDetailedProblem code details cause)))
            | _ \<Rightarrow> Inl (newFailure action (newProblem ErrorCodeInternal (fmt_Errorf ''unmapped host decision'' noerr)))))"

definition bindInvocation ::
  "Policy \<Rightarrow> host_side \<Rightarrow> Action \<Rightarrow> TrustedContext \<Rightarrow> (failure + TrustedInvocation) io" where
  "bindInvocation policy hostSide action asserted =
    (case readHostInvocation hostSide of
       Inl err \<Rightarrow>
         State_Monad.return (Inl (newFailure action (newProblem
           (if errors_Is err ErrMissingHostContext then ErrorCodeUnauthorized else ErrorCodeIoFailure) err)))
     | Inr host \<Rightarrow> do {
         bound \<leftarrow> BindTrustedInvocation policy host asserted;
         State_Monad.return (bound_invocation policy action host asserted bound) })"

subsection \<open>Numbers\<close>

lemma is_digit_char_of: "(k :: nat) < 10 \<Longrightarrow> is_digit (char_of (48 + k))"
  by (simp add: is_digit_def)

lemma digits_value_snoc: "digits_value (s @ [c]) = digits_value s * 10 + int (of_char c - 48)"
  by (simp add: digits_value_def)

lemma nat_string_digits:
  "list_all is_digit (nat_string n) \<and> nat_string n \<noteq> [] \<and> digits_value (nat_string n) = int n"
proof (induction n rule: nat_string.induct)
  case (1 n)
  show ?case
  proof (cases "n < 10")
    case True
    then show ?thesis
      by (simp add: nat_string.simps [of n] is_digit_char_of digits_value_def)
  next
    case False
    then have "int (n div 10) * 10 + int (n mod 10) = int n"
      by (metis div_mult_mod_eq of_nat_add of_nat_mult of_nat_numeral)
    then show ?thesis
      using 1 False by (simp add: nat_string.simps [of n] is_digit_char_of digits_value_snoc)
  qed
qed

lemma SetString_digits:
  assumes "list_all is_digit s" "s \<noteq> []"
  shows "big_Rat_SetString s = Some (digits_value s, 0)"
    and "big_Rat_SetString (CHR ''-'' # s) = Some (- digits_value s, 0)"
proof -
  have all: "\<forall>c \<in> set s. is_digit c" using assms(1) by (simp add: list_all_iff)
  then have whole: "takeWhile is_digit s = s" "dropWhile is_digit s = []" by simp_all
  have "\<not> is_digit CHR ''-''" by (simp add: is_digit_def)
  then have "hd s \<noteq> CHR ''-''" using all assms(2) by (metis hd_in_set)
  then show "big_Rat_SetString s = Some (digits_value s, 0)"
  proof -
    obtain c rest where s: "s = c # rest" "c \<noteq> CHR ''-''"
      using \<open>hd s \<noteq> CHR ''-''\<close> assms(2) by (cases s) auto
    then have sign: "(case s of c # rest \<Rightarrow> if c = CHR ''-'' then (True, rest) else (False, s) | [] \<Rightarrow> (False, [])) = (False, s)"
      by simp
    show ?thesis
      unfolding big_Rat_SetString_def sign
      using assms(2) by (simp add: whole split_digits_def scan_exponent_def Let_def)
  qed
  show "big_Rat_SetString (CHR ''-'' # s) = Some (- digits_value s, 0)"
    using assms(2) by (auto simp: whole big_Rat_SetString_def split_digits_def scan_exponent_def Let_def)
qed

text \<open>The version an incompatible request is told it has is the version it asked for: the text
  \<open>readRequest\<close> puts into the details of the error reads back as the same integer.\<close>

lemma int_string_reads_back:
  "Option.bind (big_Rat_SetString (int_string n)) rat_integer = Some n"
proof (cases "n < 0")
  case True
  then show ?thesis
    using SetString_digits(2) nat_string_digits [of "nat (- n)"] by (simp add: int_string_def rat_integer_def)
next
  case False
  then show ?thesis
    using SetString_digits(1) nat_string_digits [of "nat n"] by (simp add: int_string_def rat_integer_def)
qed

text \<open>The same version can be written in many ways, and 1.5 is no version.\<close>

lemma version_examples:
  "map (\<lambda>s. Option.bind (big_Rat_SetString s) rat_integer) [''1'', ''1.0'', ''10e-1'', ''0.1E+1'', ''100e-2'', ''-0''] =
     [Some 1, Some 1, Some 1, Some 1, Some 1, Some 0]"
  "map (\<lambda>s. Option.bind (big_Rat_SetString s) rat_integer) [''1.5'', '''', ''1e'', ''1e1000001'', ''1x''] = [None, None, None, None, None]"
  by code_simp+

subsection \<open>The spellings of version 1\<close>

text \<open>The reference, with no arithmetic but powers of ten: what a decimal text without a sign says,
  its digits before and after the point and its exponent.\<close>

fun decimal :: "string \<Rightarrow> nat" where
  "decimal [] = 0"
| "decimal (c # s) = (of_char c - 48) * 10 ^ length s + decimal s"

definition all_digits :: "string \<Rightarrow> bool" where
  "all_digits s \<longleftrightarrow> (\<forall>c \<in> set s. c \<in> set ''0123456789'')"

definition exponent_text :: "string \<Rightarrow> bool \<Rightarrow> nat \<Rightarrow> bool" where
  "exponent_text s negative n \<longleftrightarrow>
    (s = [] \<and> \<not> negative \<and> n = 0) \<or>
    (\<exists>mark sign digits. s = mark # sign @ digits \<and> mark \<in> set ''eE'' \<and>
       sign \<in> (if negative then {''-''} else {'''', ''+''}) \<and>
       digits \<noteq> [] \<and> all_digits digits \<and> n = decimal digits)"

definition spells_one :: "string \<Rightarrow> bool" where
  "spells_one s \<longleftrightarrow>
    (\<exists>whole point fraction exponent negative n.
       s = whole @ point @ fraction @ exponent \<and>
       all_digits whole \<and> all_digits fraction \<and> whole @ fraction \<noteq> [] \<and>
       (point = ''.'' \<or> point = [] \<and> fraction = []) \<and>
       exponent_text exponent negative n \<and> n < 2 ^ 63 \<and>
       (if negative
        then decimal (whole @ fraction) = 10 ^ (length fraction + n) \<and> length fraction + n \<le> 1000000
        else decimal (whole @ fraction) * 10 ^ n = 10 ^ length fraction \<and>
             length fraction \<le> n + 1000000))"

lemma is_digit_member: "is_digit c \<longleftrightarrow> c \<in> set ''0123456789''"
proof -
  have "is_digit c \<longleftrightarrow> of_char c \<in> {48 ..< 58 :: nat}"
    by (auto simp: is_digit_def)
  also have "{48 ..< 58 :: nat} = of_char ` set ''0123456789''"
    by code_simp
  also have "of_char c \<in> (of_char ` set ''0123456789'' :: nat set) \<longleftrightarrow> c \<in> set ''0123456789''"
    by (rule inj_image_mem_iff) (simp add: inj_def)
  finally show ?thesis .
qed

lemma all_digits_list: "all_digits s \<longleftrightarrow> list_all is_digit s"
  unfolding all_digits_def is_digit_member [abs_def] list_all_iff ..

lemma digits_value_Horner: "foldl (\<lambda>n c. n * 10 + int (of_char c - 48)) m s = m * 10 ^ length s + int (decimal s)"
  by (induction s arbitrary: m) (auto simp: distrib_right)

lemma digits_value_decimal: "digits_value s = int (decimal s)"
  by (simp add: digits_value_def digits_value_Horner)

text \<open>The scanner takes a text apart as the reference puts it together.\<close>

lemma split_digits_iff:
  "split_digits s = (ds, rest) \<longleftrightarrow>
   s = ds @ rest \<and> list_all is_digit ds \<and> (rest = [] \<or> \<not> is_digit (hd rest))"
proof
  assume "split_digits s = (ds, rest)"
  then show "s = ds @ rest \<and> list_all is_digit ds \<and> (rest = [] \<or> \<not> is_digit (hd rest))"
    using hd_dropWhile [of is_digit s] set_takeWhileD [of _ is_digit s]
    by (auto simp: split_digits_def list_all_iff)
next
  assume "s = ds @ rest \<and> list_all is_digit ds \<and> (rest = [] \<or> \<not> is_digit (hd rest))"
  then show "split_digits s = (ds, rest)"
    by (cases rest) (auto simp: split_digits_def list_all_iff takeWhile_append dropWhile_append)
qed

lemma no_digits [simp]:
  "\<not> is_digit CHR ''e''" "\<not> is_digit CHR ''E''" "\<not> is_digit CHR ''.''" "\<not> is_digit CHR ''-''" "\<not> is_digit CHR ''+''"
  by (simp_all add: is_digit_def)

definition signed_digits :: "string \<Rightarrow> bool \<times> string" where
  "signed_digits s =
    (case s of
       a # rest \<Rightarrow> if a = CHR ''-'' then (True, rest) else if a = CHR ''+'' then (False, rest) else (False, s)
     | [] \<Rightarrow> (False, []))"

lemma signed_digits_iff:
  "(case signed_digits s of (negative, ds) \<Rightarrow> ds \<noteq> [] \<and> list_all is_digit ds \<and> P negative ds) \<longleftrightarrow>
   (\<exists>negative sign ds. s = sign @ ds \<and> sign \<in> (if negative then {''-''} else {'''', ''+''}) \<and>
      ds \<noteq> [] \<and> list_all is_digit ds \<and> P negative ds)"
proof -
  have signs: "(\<exists>sign ds. s = sign @ ds \<and> sign \<in> {'''', ''+''} \<and> Q ds) \<longleftrightarrow>
        Q s \<or> (\<exists>ds. s = CHR ''+'' # ds \<and> Q ds)"
    "(\<exists>sign ds. s = sign @ ds \<and> sign \<in> {''-''} \<and> Q ds) \<longleftrightarrow> (\<exists>ds. s = CHR ''-'' # ds \<and> Q ds)" for Q
    by auto (metis append_Cons append_Nil)
  show ?thesis
    unfolding ex_bool_eq if_True if_False signs
    by (cases s) (auto simp: signed_digits_def)
qed

lemma scan_exponent_iff:
  "scan_exponent s = Some e \<longleftrightarrow>
   (\<exists>negative n. exponent_text s negative n \<and> n < 2 ^ 63 \<and> e = (if negative then - int n else int n))"
proof (cases s)
  case (Cons c rest)
  have "scan_exponent s = Some e \<longleftrightarrow> c \<in> set ''eE'' \<and>
      (case signed_digits rest of (negative, ds) \<Rightarrow> ds \<noteq> [] \<and> list_all is_digit ds \<and>
         (decimal ds < 2 ^ 63 \<and> e = (if negative then - int (decimal ds) else int (decimal ds))))"
    by (auto simp: Cons scan_exponent_def signed_digits_def digits_value_decimal Let_def
        split: list.splits if_splits)
  also have "\<dots> \<longleftrightarrow> (\<exists>negative n. exponent_text s negative n \<and> n < 2 ^ 63 \<and> e = (if negative then - int n else int n))"
    unfolding signed_digits_iff exponent_text_def Cons all_digits_list by auto
  finally show ?thesis .
qed (auto simp: scan_exponent_def exponent_text_def)

text \<open>The integer one as a mantissa and a power of ten.\<close>

lemma rat_integer_one:
  assumes "m = int k" "\<bar>shift\<bar> \<le> 1000000" 
  shows "rat_integer (m, shift) = Some 1 \<longleftrightarrow> shift \<le> 0 \<and> k = 10 ^ nat (- shift)"
proof (cases "0 \<le> shift")
  case True
  have "int k * 10 ^ nat shift = 1 \<longleftrightarrow> shift = 0 \<and> k = 1"
  proof (cases "shift = 0")
    case False
    with True obtain n where "nat shift = Suc n" by (cases "nat shift") auto
    then have "int k * 10 ^ nat shift = 10 * (int k * 10 ^ n)" by simp
    then show ?thesis using False by presburger
  qed simp
  then show ?thesis
    using True assms by (auto simp: rat_integer_def)
next
  case False
  define n where "n = nat (- shift)"
  have "rat_integer (m, shift) = Some 1 \<longleftrightarrow> int k mod 10 ^ n = 0 \<and> int k div 10 ^ n = 1"
    using False assms(1) by (simp add: rat_integer_def n_def)
  also have "\<dots> \<longleftrightarrow> int k = int (10 ^ n)"
    by auto
  also have "\<dots> \<longleftrightarrow> k = 10 ^ n"
    unfolding of_nat_eq_iff ..
  finally show ?thesis
    using False by (simp add: n_def)
qed

text \<open>The three parts of a number without a sign.\<close>

definition number_parts :: "string \<Rightarrow> string \<times> string \<times> string" where
  "number_parts s =
    (let (whole, s2) = split_digits s;
         (fraction, s3) = (case s2 of c # rest \<Rightarrow> if c = CHR ''.'' then split_digits rest else ([], s2) | [] \<Rightarrow> ([], []))
     in (whole, fraction, s3))"

lemma exponent_no_digit: "exponent_text e negative n \<Longrightarrow> e = [] \<or> \<not> is_digit (hd e) \<and> hd e \<noteq> CHR ''.''"
  by (auto simp: exponent_text_def)

lemma number_parts_put:
  assumes "list_all is_digit whole" "list_all is_digit fraction"
    "point = ''.'' \<or> point = [] \<and> fraction = []" "e = [] \<or> \<not> is_digit (hd e) \<and> hd e \<noteq> CHR ''.''"
  shows "number_parts (whole @ point @ fraction @ e) = (whole, fraction, e)"
proof -
  have first: "split_digits (whole @ point @ fraction @ e) = (whole, point @ fraction @ e)"
    using assms by (auto simp: split_digits_iff)
  have second: "split_digits (fraction @ e) = (fraction, e)"
    using assms by (auto simp: split_digits_iff)
  show ?thesis
    using assms(3,4) second unfolding number_parts_def first by (cases e) auto
qed

lemma number_parts_got:
  assumes "number_parts s = (whole, fraction, e)"
  shows "\<exists>point. s = whole @ point @ fraction @ e \<and> (point = ''.'' \<or> point = [] \<and> fraction = []) \<and>
    list_all is_digit whole \<and> list_all is_digit fraction"
proof -
  obtain s2 where s2: "split_digits s = (whole, s2)"
    and parts: "(fraction, e) = (case s2 of c # rest \<Rightarrow> if c = CHR ''.'' then split_digits rest else ([], s2) | [] \<Rightarrow> ([], []))"
    using assms by (auto simp: number_parts_def Let_def split: prod.splits)
  have w: "s = whole @ s2" "list_all is_digit whole"
    using s2 by (simp_all add: split_digits_iff)
  show ?thesis
  proof (cases "\<exists>rest. s2 = CHR ''.'' # rest")
    case True
    then obtain rest where rest: "s2 = CHR ''.'' # rest" by blast
    then have "split_digits rest = (fraction, e)" using parts by simp
    then show ?thesis
      using w rest by (intro exI [of _ "''.''"]) (simp add: split_digits_iff)
  next
    case False
    then have "fraction = []" "e = s2"
      using parts by (auto split: list.splits if_splits)
    then show ?thesis using w by auto
  qed
qed

lemma spells_one_parts:
  "spells_one s \<longleftrightarrow>
   (case number_parts s of (whole, fraction, e) \<Rightarrow> whole @ fraction \<noteq> [] \<and>
      (\<exists>negative n. exponent_text e negative n \<and> n < 2 ^ 63 \<and>
         (if negative
          then decimal (whole @ fraction) = 10 ^ (length fraction + n) \<and> length fraction + n \<le> 1000000
          else decimal (whole @ fraction) * 10 ^ n = 10 ^ length fraction \<and> length fraction \<le> n + 1000000)))"
  (is "_ \<longleftrightarrow> (case number_parts s of (whole, fraction, e) \<Rightarrow> ?Q whole fraction e)")
proof
  assume "spells_one s"
  then obtain whole point fraction e where s: "s = whole @ point @ fraction @ e" and q: "?Q whole fraction e"
    and digits: "all_digits whole" "all_digits fraction" "point = ''.'' \<or> point = [] \<and> fraction = []"
    unfolding spells_one_def by blast
  have "e = [] \<or> \<not> is_digit (hd e) \<and> hd e \<noteq> CHR ''.''"
    using q exponent_no_digit by blast
  then show "case number_parts s of (whole, fraction, e) \<Rightarrow> ?Q whole fraction e"
    using q number_parts_put [of whole fraction point e] digits by (simp add: s all_digits_list)
next
  assume q: "case number_parts s of (whole, fraction, e) \<Rightarrow> ?Q whole fraction e"
  obtain whole fraction e where parts: "number_parts s = (whole, fraction, e)"
    using prod_cases3 by blast
  then have "?Q whole fraction e"
    using q unfolding parts prod.case by blast
  then show "spells_one s"
    using number_parts_got [OF parts] unfolding spells_one_def all_digits_list by blast
qed

text \<open>The code's decision on a text without a sign.\<close>

lemma SetString_parts:
  "big_Rat_SetString s =
    (let (negative, s1) = (case s of c # rest \<Rightarrow> if c = CHR ''-'' then (True, rest) else (False, s) | [] \<Rightarrow> (False, []));
         (whole, fraction, s3) = number_parts s1; mantissa = digits_value (whole @ fraction)
     in if whole = [] \<and> fraction = [] then None
        else case scan_exponent s3 of
          None \<Rightarrow> None
        | Some e \<Rightarrow>
            let shift = e - int (length fraction) in
            if mantissa = 0 then Some (0, 0)
            else if \<bar>shift\<bar> > 1000000 then None
            else Some (if negative then - mantissa else mantissa, shift))"
  unfolding big_Rat_SetString_def number_parts_def
  by (simp only: Let_def case_prod_beta fst_conv snd_conv)

lemma rat_integer_zero: "rat_integer (0, 0) = Some 0"
  by (simp add: rat_integer_def)

lemma rat_integer_negative: "rat_integer (- int k, shift) \<noteq> Some 1"
proof
  assume one: "rat_integer (- int k, shift) = Some 1"
  show False
  proof (cases "0 \<le> shift")
    case True
    then have "- int k * 10 ^ nat shift = 1"
      using one by (simp add: rat_integer_def)
    moreover have "0 \<le> int k * 10 ^ nat shift" by simp
    ultimately show False by simp
  next
    case False
    then have "- int k div 10 ^ nat (- shift) = 1"
      using one by (simp add: rat_integer_def split: if_splits)
    moreover have "- int k div 10 ^ nat (- shift) \<le> 0"
      using div_nonpos_pos_le0 [of "- int k" "10 ^ nat (- shift)"] by simp
    ultimately show False by simp
  qed
qed

lemma version_one_iff: "Option.bind (big_Rat_SetString s) rat_integer = Some 1 \<longleftrightarrow> spells_one s"
proof (cases "\<exists>rest. s = CHR ''-'' # rest")
  case True
  then obtain rest where s: "s = CHR ''-'' # rest" by blast
  have "\<not> spells_one s"
    by (auto simp: s spells_one_def all_digits_list Cons_eq_append_conv exponent_text_def)
  moreover have "Option.bind (big_Rat_SetString s) rat_integer \<noteq> Some 1"
    using rat_integer_negative
    by (auto simp: s SetString_parts Let_def digits_value_decimal rat_integer_zero split: prod.splits option.splits if_splits)
  ultimately show ?thesis by simp
next
  case False
  obtain whole fraction e where parts: "number_parts s = (whole, fraction, e)"
    using prod_cases3 by blast
  define k where "k = decimal (whole @ fraction)"
  have sign: "(case s of c # rest \<Rightarrow> if c = CHR ''-'' then (True, rest) else (False, s) | [] \<Rightarrow> (False, [])) = (False, s)"
    using False by (auto split: list.splits)
  have shape: "Option.bind (big_Rat_SetString s) rat_integer = Some 1 \<longleftrightarrow>
      whole @ fraction \<noteq> [] \<and> (\<exists>x. scan_exponent e = Some x \<and> k \<noteq> 0 \<and>
         \<bar>x - int (length fraction)\<bar> \<le> 1000000 \<and> rat_integer (int k, x - int (length fraction)) = Some 1)"
    unfolding SetString_parts sign Let_def prod.case parts digits_value_decimal k_def [symmetric]
    by (cases "scan_exponent e") (auto simp: rat_integer_zero)
  have one: "k \<noteq> 0 \<and> \<bar>x - int (length fraction)\<bar> \<le> 1000000 \<and> rat_integer (int k, x - int (length fraction)) = Some 1 \<longleftrightarrow>
      (if negative then k = 10 ^ (length fraction + n) \<and> length fraction + n \<le> 1000000
       else k * 10 ^ n = 10 ^ length fraction \<and> length fraction \<le> n + 1000000)"
    if "x = (if negative then - int n else int n)" for x negative n
  proof -
    have power: "k * 10 ^ n = 10 ^ m \<longleftrightarrow> n \<le> m \<and> k = 10 ^ (m - n)" for m
    proof (cases "n \<le> m")
      case True
      then have "(10 :: nat) ^ m = 10 ^ (m - n) * 10 ^ n" by (simp flip: power_add)
      then show ?thesis using True by simp
    next
      case False
      then have "(10 :: nat) ^ m < 10 ^ n" by simp
      moreover have "10 ^ n \<le> k * 10 ^ n" if "k \<noteq> 0" using that by simp
      moreover have "k \<noteq> 0" if "k * 10 ^ n = 10 ^ m" using that by (metis mult_0 power_not_zero zero_neq_numeral)
      ultimately show ?thesis using False by linarith
    qed
    show ?thesis
  proof (cases "\<bar>x - int (length fraction)\<bar> \<le> 1000000")
    case bounded: True
    show ?thesis
    proof (cases negative)
      case True
      then have x: "nat (- (x - int (length fraction))) = length fraction + n" "x - int (length fraction) \<le> 0"
        using that by simp_all
      have "length fraction + n \<le> 1000000"
        using bounded that True by simp
      then show ?thesis
        unfolding rat_integer_one [OF refl bounded] x(1) using x(2) bounded True by force
    next
      case False
      then have x: "x = int n" using that by simp
      have le: "x - int (length fraction) \<le> 0 \<longleftrightarrow> n \<le> length fraction"
        "nat (- (x - int (length fraction))) = length fraction - n"
        using x by simp_all
      have "length fraction \<le> n + 1000000"
        using bounded x by simp
      then show ?thesis
        unfolding rat_integer_one [OF refl bounded] le power if_not_P [OF False] using bounded by force
    qed
  next
    case False
    then show ?thesis
      using that power [of "length fraction"] by (cases negative) auto
  qed
  qed
  show ?thesis
    unfolding shape scan_exponent_iff spells_one_parts parts prod.case k_def [symmetric]
    using one by blast
qed

subsection \<open>What is accepted\<close>

lemma knownAction_iff: "knownAction name = Some action \<longleftrightarrow> name = Action_string action"
  by (cases action) (auto simp: knownAction_def split: if_splits)

definition request_checked :: "input_side \<Rightarrow> Action \<Rightarrow> bytes \<Rightarrow> bool" where
  "request_checked app selected raw \<longleftrightarrow>
    raw \<noteq> [] \<and> length raw \<le> 2 ^ 20 \<and> utf8_Valid raw \<and> in_json_Valid app raw \<and>
    in_ValidateRequest app raw = noerr \<and>
    (\<exists>envelope number. in_envelope app raw = Inr envelope \<and>
       rv_Action envelope \<noteq> [] \<and> in_string app (rv_Action envelope) = Inr (Action_string selected) \<and>
       rv_SchemaVersion envelope \<noteq> [] \<and> in_Number app (rv_SchemaVersion envelope) = Inr number \<and>
       spells_one number)"

text \<open>The request that the document, its version spelled as \<open>1\<close>, says.\<close>

definition request_decoded :: "input_side \<Rightarrow> bytes \<Rightarrow> requestValue \<Rightarrow> bool" where
  "request_decoded app raw request \<longleftrightarrow>
    (\<exists>object canonical. in_object app raw = Inr object \<and>
       in_MarshalObject app (object(''schema_version'' \<mapsto> ''1'')) = Inr canonical \<and>
       (case request of
          startRequest r \<Rightarrow> in_start app canonical = Inr r
        | runRequest r \<Rightarrow> in_run app canonical = Inr r
        | waitRequest r \<Rightarrow> in_wait app canonical = Inr r
        | statusRequest r \<Rightarrow> in_status app canonical = Inr r
        | outputRequest r \<Rightarrow> in_output app canonical = Inr r
        | cancelRequest r \<Rightarrow> in_cancel app canonical = Inr r
        | removeRequest r \<Rightarrow> in_remove app canonical = Inr r
        | listRequest r \<Rightarrow> in_list app canonical = Inr r
        | versionRequest r \<Rightarrow> in_version app canonical = Inr r))"

lemma decodeValidatedRequest_iff:
  "decodeValidatedRequest app action canonical = Inr request \<longleftrightarrow>
   request_action request = action \<and>
   (case request of
      startRequest r \<Rightarrow> in_start app canonical = Inr r
    | runRequest r \<Rightarrow> in_run app canonical = Inr r
    | waitRequest r \<Rightarrow> in_wait app canonical = Inr r
    | statusRequest r \<Rightarrow> in_status app canonical = Inr r
    | outputRequest r \<Rightarrow> in_output app canonical = Inr r
    | cancelRequest r \<Rightarrow> in_cancel app canonical = Inr r
    | removeRequest r \<Rightarrow> in_remove app canonical = Inr r
    | listRequest r \<Rightarrow> in_list app canonical = Inr r
    | versionRequest r \<Rightarrow> in_version app canonical = Inr r)"
  by (cases action) (auto simp: decoded_def split: sum.splits requestValue.splits)

lemma request_decoded_iff:
  "request_action request = action \<and> request_decoded app raw request \<longleftrightarrow>
   (\<exists>canonical. canonicalizeSchemaVersion app raw = Inr canonical \<and>
      decodeValidatedRequest app action canonical = Inr request)"
  unfolding request_decoded_def decodeValidatedRequest_iff canonicalizeSchemaVersion_def
  by (auto split: sum.splits)

lemma parseSchemaVersion_one:
  "parseSchemaVersion app raw = Some 1 \<longleftrightarrow>
   raw \<noteq> [] \<and> (\<exists>number. in_Number app raw = Inr number \<and> spells_one number)"
  unfolding parseSchemaVersion_def version_one_iff [symmetric]
  by (auto split: sum.splits option.splits)

lemma parseRequestAction_iff:
  "parseRequestAction app raw = Some action \<longleftrightarrow>
   raw \<noteq> [] \<and> in_string app raw = Inr (Action_string action)"
  by (auto simp: parseRequestAction_def knownAction_iff split: sum.splits)

lemma readRequest_checked_cases:
  "case readRequest_checked app selected raw envelope of
     Inr request \<Rightarrow> in_ValidateRequest app raw = noerr \<and>
       parseRequestAction app (rv_Action envelope) = Some selected \<and>
       parseSchemaVersion app (rv_SchemaVersion envelope) = Some 1 \<and>
       request_action request = selected \<and> request_decoded app raw request
   | Inl problem \<Rightarrow> fa_diagnosticAction problem \<noteq> None \<and>
       fa_code problem \<in> {ErrorCodeInvalidRequest, ErrorCodeIncompatibleVersion, ErrorCodeInternal} \<and>
       (fa_code problem = ErrorCodeInternal \<longleftrightarrow>
          in_ValidateRequest app raw = noerr \<and>
          parseRequestAction app (rv_Action envelope) = Some selected \<and>
          parseSchemaVersion app (rv_SchemaVersion envelope) = Some 1) \<and>
       (fa_code problem = ErrorCodeInternal \<longrightarrow>
          \<not> (\<exists>request. request_action request = selected \<and> request_decoded app raw request))"
  unfolding request_decoded_iff
  by (auto simp: readRequest_checked_def Let_def with_action_def newFailure_def newFailureWithoutAction_def newProblem_def
      newDetailedProblem_def split: option.splits sum.splits)

lemmas request_checked_bound = request_checked_def [folded maxRequestBytes_def]

text \<open>C24: The checks of a request. \<open>readRequest\<close> accepts exactly one document: all of standard input, at most a
  MiB, valid UTF-8 and JSON, valid for the protocol, naming the action of the command line and
  spelling the integer one as its version in some decimal way (\<open>1\<close>, \<open>1.0\<close>, \<open>10e-1\<close>, powers of ten
  up to a million, but not \<open>1.5\<close>), that decodes into a request of that action; and it returns
  the request it decodes into. Otherwise the failure says so with an action for the
  diagnostics; its code is \<open>io_failure\<close> exactly if reading failed, \<open>malformed_json\<close> exactly if
  input of an admissible size was read but is empty, not UTF-8 or not JSON, and \<open>internal\<close> exactly
  if all checks passed and only the decoding failed.\<close>

theorem readRequest_checks:
  "case readRequest app selected input of
     Inr request \<Rightarrow> rd_end input = IoEOF \<and> request_checked app selected (stream input) \<and>
       request_action request = selected \<and> request_decoded app (stream input) request
   | Inl problem \<Rightarrow>
       \<not> (rd_end input = IoEOF \<and> request_checked app selected (stream input) \<and>
          (\<exists>request. request_action request = selected \<and> request_decoded app (stream input) request)) \<and>
       fa_diagnosticAction problem \<noteq> None \<and>
       fa_code problem \<in> {ErrorCodeIoFailure, ErrorCodeInvalidRequest, ErrorCodeMalformedJson, ErrorCodeIncompatibleVersion,
         ErrorCodeInternal} \<and>
       (fa_code problem = ErrorCodeIoFailure \<longleftrightarrow>
          length (stream input) \<le> 2 ^ 20 \<and> rd_end input \<noteq> IoEOF) \<and>
       (fa_code problem = ErrorCodeMalformedJson \<longleftrightarrow>
          length (stream input) \<le> 2 ^ 20 \<and> rd_end input = IoEOF \<and>
          \<not> (stream input \<noteq> [] \<and> utf8_Valid (stream input) \<and> in_json_Valid app (stream input))) \<and>
       (fa_code problem = ErrorCodeInternal \<longleftrightarrow>
          rd_end input = IoEOF \<and> request_checked app selected (stream input))"
proof (cases "length (stream input) \<le> maxRequestBytes \<and> rd_end input = IoEOF")
  case False
  then show ?thesis
    unfolding maxRequestBytes_def [symmetric]
    by (auto simp: readRequest_def read_limited_def newFailure_def newProblem_def request_checked_bound)
next
  case True
  then have limited: "read_limited (Suc maxRequestBytes) input = (stream input, noerr)"
    by (simp add: read_limited_def)
  show ?thesis
  proof (cases "stream input = [] \<or> \<not> utf8_Valid (stream input) \<or> \<not> in_json_Valid app (stream input)")
    case malformed: True
    then show ?thesis
      using True unfolding maxRequestBytes_def [symmetric]
      by (auto simp: readRequest_def limited newFailureWithoutAction_def newProblem_def request_checked_bound)
  next
    case False
    show ?thesis
    proof (cases "in_envelope app (stream input)")
      case (Inl err)
      then show ?thesis
        using True False unfolding maxRequestBytes_def [symmetric]
        by (auto simp: readRequest_def limited newFailureWithoutAction_def newProblem_def request_checked_bound)
    next
      case (Inr envelope)
      have same: "readRequest app selected input = readRequest_checked app selected (stream input) envelope"
        using True False Inr by (simp add: readRequest_def limited)
      have checked: "request_checked app selected (stream input) \<longleftrightarrow>
          in_ValidateRequest app (stream input) = noerr \<and>
          parseRequestAction app (rv_Action envelope) = Some selected \<and>
          parseSchemaVersion app (rv_SchemaVersion envelope) = Some 1"
        using True False Inr
        by (auto simp: request_checked_bound parseSchemaVersion_one parseRequestAction_iff)
      show ?thesis
        using True False Inr readRequest_checked_cases [where app = app and selected = selected and raw = "stream input" and envelope = envelope]
        unfolding same checked maxRequestBytes_def [symmetric] by (auto split: sum.splits)
    qed
  qed
qed

end
