(* ===== verification/Cli.thy ===== *)
theory Cli
  imports Startup Requests
begin

section \<open>The command line\<close>

text \<open>
  \<open>internal/cli/app.go\<close>, \<open>dispatch.go\<close> and \<open>version.go\<close>, and \<open>cmd/managed-bash/main.go\<close>: one command reads one
  request, binds it to the host's session and directories, performs one operation of the runner's
  manager and answers with one document, one exit code and lines on standard error. The observer
  cursor of a wait is committed after its answer has been written, not before.

  \<open>Application\<close> is the source's application with its two sides for JSON; \<open>cli_env\<close> holds what the process
  gets from outside: the host, the names of the platform, \<open>os.Executable\<close>, what \<open>contract.Load\<close> answers
  and the environment of a start.
\<close>

subsection \<open>Definitions\<close>

record cli_Config =
  cc_BinaryVersion :: string
  cc_Runner :: Config

record Application =
  ap_config :: cli_Config
  ap_contracts :: Contracts
  ap_input :: input_side
  ap_output :: output_side

record cli_env =
  ce_host :: host_side
  ce_GOARCH :: string
  ce_GOOS :: string
  ce_Executable :: "string result"
  ce_Load :: "Contracts result"
  ce_start :: startup_env
  ce_startup :: startup

text \<open>\<open>cli.New\<close>; the last two arguments are \<open>contract.Load\<close> and \<open>protocol.NewValidator\<close> with the codecs.\<close>

definition cli_New ::
  "cli_Config \<Rightarrow> Contracts result \<Rightarrow> (input_side \<times> output_side) result \<Rightarrow> Application result" where
  "cli_New config load newValidator =
    (let config = (if cc_BinaryVersion config = [] then config\<lparr> cc_BinaryVersion := ''dev'' \<rparr> else config) in
     case load of
       Inl err \<Rightarrow> Inl (fmt_Errorf ''load contracts: %w'' err)
     | Inr contracts \<Rightarrow>
         (case newValidator of
            Inl err \<Rightarrow> Inl (fmt_Errorf ''load protocol validator: %w'' err)
          | Inr (inputs, outputs) \<Rightarrow>
              Inr \<lparr> ap_config = config, ap_contracts = contracts, ap_input = inputs,
                    ap_output = outputs\<lparr> ou_policy := k_policy contracts \<rparr> \<rparr>))"

definition usage :: string where
  "usage = ''usage: managed-bash <start|run|wait|status|output|cancel|remove|list|version>''"

definition parseAction :: "string list \<Rightarrow> Action option" where
  "parseAction args = (if length args \<noteq> 1 then None else knownAction (args ! 0))"

definition versionResponse :: "cli_env \<Rightarrow> Application \<Rightarrow> VersionResponse" where
  "versionResponse env app =
    \<lparr> versionr_Action = Action_string ActionVersion, versionr_Ok = True,
      versionr_Result =
        \<lparr> vd_Architecture = ce_GOARCH env, vd_BinaryVersion = cc_BinaryVersion (ap_config app), vd_Os = ce_GOOS env,
          vd_Product = ''managed-bash'', vd_ProtocolVersion = 1 \<rparr>,
      versionr_SchemaVersion = 1 \<rparr>"

record dispatchResult =
  dr_response :: response
  dr_warning :: error
  dr_afterWrite :: "PreparedWait option"

definition durationFrom :: "TimeoutMs option \<Rightarrow> int" where
  "durationFrom v = (case v of None \<Rightarrow> 0 | Some ms \<Rightarrow> from_Milliseconds ms)"

definition intFrom :: "int option \<Rightarrow> int" where
  "intFrom v = (case v of None \<Rightarrow> 0 | Some n \<Rightarrow> n)"

definition preparedObservation :: "PreparedWait \<Rightarrow> ObservationResult" where
  "preparedObservation prepared =
    \<lparr> or_Observation = oo_Observation (pw_Observation prepared), or_Output = oo_Output (pw_Observation prepared),
      or_Reason = pw_Reason prepared \<rparr>"

definition operationResult :: "Action \<Rightarrow> ('v \<Rightarrow> response) \<Rightarrow> 'v result \<Rightarrow> failure + dispatchResult" where
  "operationResult action response r =
    (case r of
       Inl err \<Rightarrow> Inl (failureFromError action err)
     | Inr v \<Rightarrow> Inr \<lparr> dr_response = response v, dr_warning = noerr, dr_afterWrite = None \<rparr>)"

definition classifyStart :: "Action \<Rightarrow> JobMetadata \<Rightarrow> error \<Rightarrow> failure + error" where
  "classifyStart action metadata err =
    (if err = noerr then Inr noerr
     else case durability_job err of
       Some jobID \<Rightarrow>
         if jm_JobID metadata = [] \<or> jm_JobID metadata \<noteq> jobID
         then Inl (newFailure action (newProblem ErrorCodeInternal
                (fmt_Errorf ''committed job metadata does not match durability error: %w'' err)))
         else Inr err
     | None \<Rightarrow> Inl (failureFromError action err))"

definition runObservationFailure :: "JobMetadata \<Rightarrow> error \<Rightarrow> failure" where
  "runObservationFailure metadata err = (failureFromError ActionRun err)\<lparr> fa_job := Some metadata \<rparr>"

text \<open>\<open>Start\<close> returns empty metadata with an error that stands for no job.\<close>

definition start_metadata :: "start_result \<Rightarrow> JobMetadata \<times> error" where
  "start_metadata r = (case r of Inl err \<Rightarrow> (ps_Job empty_state, err) | Inr (job, err) \<Rightarrow> (job, err))"

definition dispatchStart ::
  "cli_env \<Rightarrow> Manager \<Rightarrow> TrustedInvocation \<Rightarrow> StartRequest_json \<Rightarrow> (failure + dispatchResult) io" where
  "dispatchStart env manager invocation request = do {
     (started, _) \<leftarrow> manager_Start (ce_start env) manager
       \<lparr> sq_Invocation = invocation, sq_Command = sp_Command (startq_Payload request),
         sq_HardTimeout = durationFrom (sp_HardTimeoutMs (startq_Payload request)),
         sq_OutputLimitBytes = intFrom (sp_OutputLimitBytes (startq_Payload request)) \<rparr> (ce_startup env);
     (let (metadata, err) = start_metadata started in
      State_Monad.return (case classifyStart ActionStart metadata err of
        Inl problem \<Rightarrow> Inl problem
      | Inr warning \<Rightarrow>
          Inr \<lparr> dr_response = StartAnswer \<lparr> startr_Action = ''start'', startr_Ok = True, startr_Result = metadata,
                  startr_SchemaVersion = 1 \<rparr>,
                dr_warning = warning, dr_afterWrite = None \<rparr>)) }"

definition dispatchRun ::
  "cli_env \<Rightarrow> Manager \<Rightarrow> TrustedInvocation \<Rightarrow> RunRequest \<Rightarrow> (failure + dispatchResult) io" where
  "dispatchRun env manager invocation request = do {
     (started, _) \<leftarrow> manager_Start (ce_start env) manager
       \<lparr> sq_Invocation = invocation, sq_Command = rp_Command (runq_Payload request),
         sq_HardTimeout = durationFrom (rp_HardTimeoutMs (runq_Payload request)),
         sq_OutputLimitBytes = intFrom (rp_OutputLimitBytes (runq_Payload request)) \<rparr> (ce_startup env);
     (let (metadata, err) = start_metadata started in
      case classifyStart ActionRun metadata err of
        Inl problem \<Rightarrow> State_Monad.return (Inl problem)
      | Inr warning \<Rightarrow> do {
          waited \<leftarrow> PrepareWait manager
            \<lparr> wr_Invocation = invocation, wr_JobID = jm_JobID metadata, wr_CursorBytes = Some 0,
              wr_Timeout = durationFrom (rp_TimeoutMs (runq_Payload request)),
              wr_IdleTimeout = durationFrom (rp_IdleTimeoutMs (runq_Payload request)) \<rparr>;
          State_Monad.return (case waited of
            Inl err \<Rightarrow> Inl (runObservationFailure metadata err)
          | Inr prepared \<Rightarrow>
              Inr \<lparr> dr_response = RunAnswer \<lparr> runr_Action = ''run'', runr_Ok = True,
                      runr_Result = preparedObservation prepared, runr_SchemaVersion = 1 \<rparr>,
                    dr_warning = warning, dr_afterWrite = Some prepared \<rparr>) }) }"

definition dispatchWait ::
  "Manager \<Rightarrow> TrustedInvocation \<Rightarrow> WaitRequest_json \<Rightarrow> (failure + dispatchResult) io" where
  "dispatchWait manager invocation request = do {
     waited \<leftarrow> PrepareWait manager
       \<lparr> wr_Invocation = invocation, wr_JobID = wp_JobID (waitq_Payload request),
         wr_CursorBytes = wp_CursorBytes (waitq_Payload request),
         wr_Timeout = durationFrom (wp_TimeoutMs (waitq_Payload request)),
         wr_IdleTimeout = durationFrom (wp_IdleTimeoutMs (waitq_Payload request)) \<rparr>;
     State_Monad.return (case waited of
       Inl err \<Rightarrow> Inl (failureFromError ActionWait err)
     | Inr prepared \<Rightarrow>
         Inr \<lparr> dr_response = WaitAnswer \<lparr> waitr_Action = ''wait'', waitr_Ok = True,
                 waitr_Result = preparedObservation prepared, waitr_SchemaVersion = 1 \<rparr>,
               dr_warning = noerr, dr_afterWrite = Some prepared \<rparr>) }"

text \<open>The type switch of \<open>dispatch\<close>, once there is a manager.\<close>

fun dispatch_operation ::
  "cli_env \<Rightarrow> Application \<Rightarrow> Manager \<Rightarrow> TrustedInvocation \<Rightarrow> requestValue \<Rightarrow> (failure + dispatchResult) io" where
  "dispatch_operation env app manager invocation (startRequest q) = dispatchStart env manager invocation q"
| "dispatch_operation env app manager invocation (runRequest q) = dispatchRun env manager invocation q"
| "dispatch_operation env app manager invocation (waitRequest q) = dispatchWait manager invocation q"
| "dispatch_operation env app manager invocation (statusRequest q) = do {
     r \<leftarrow> Manager_Status manager \<lparr> sr_Invocation = invocation, sr_JobID = jr_JobID (statusq_Payload q) \<rparr>;
     State_Monad.return (operationResult ActionStatus (\<lambda>v. StatusAnswer \<lparr> statusr_Action = Action_string ActionStatus,
       statusr_Ok = True, statusr_Result = v, statusr_SchemaVersion = 1 \<rparr>) r) }"
| "dispatch_operation env app manager invocation (outputRequest q) = do {
     r \<leftarrow> Manager_Output manager
       \<lparr> ot_Invocation = invocation, ot_JobID = op_JobID (outputq_Payload q),
         ot_StartCursorBytes = op_StartCursorBytes (outputq_Payload q),
         ot_EndCursorBytes = op_EndCursorBytes (outputq_Payload q) \<rparr>;
     State_Monad.return (operationResult ActionOutput (\<lambda>v. OutputAnswer \<lparr> outputr_Action = Action_string ActionOutput,
       outputr_Ok = True, outputr_Result = v, outputr_SchemaVersion = 1 \<rparr>) r) }"
| "dispatch_operation env app manager invocation (cancelRequest q) = do {
     r \<leftarrow> Manager_Cancel manager \<lparr> cq_Invocation = invocation, cq_JobID = jr_JobID (cancelq_Payload q) \<rparr>;
     State_Monad.return (operationResult ActionCancel (\<lambda>v. CancelAnswer \<lparr> cancelr_Action = Action_string ActionCancel,
       cancelr_Ok = True, cancelr_Result = v, cancelr_SchemaVersion = 1 \<rparr>) r) }"
| "dispatch_operation env app manager invocation (removeRequest q) = do {
     r \<leftarrow> Manager_Remove manager \<lparr> rq_Invocation = invocation, rq_JobID = jr_JobID (removeq_Payload q) \<rparr>;
     State_Monad.return (operationResult ActionRemove (\<lambda>v. RemoveAnswer \<lparr> remover_Action = Action_string ActionRemove,
       remover_Ok = True, remover_Result = v, remover_SchemaVersion = 1 \<rparr>) r) }"
| "dispatch_operation env app manager invocation (listRequest q) = do {
     r \<leftarrow> Manager_List manager \<lparr> lq_Invocation = invocation \<rparr>;
     State_Monad.return (operationResult ActionList (\<lambda>v. ListAnswer \<lparr> listr_Action = Action_string ActionList,
       listr_Ok = True, listr_Result = v, listr_SchemaVersion = 1 \<rparr>) r) }"
| "dispatch_operation env app manager invocation (versionRequest q) =
     State_Monad.return (Inr \<lparr> dr_response = VersionAnswer (versionResponse env app), dr_warning = noerr,
       dr_afterWrite = None \<rparr>)"

definition dispatch ::
  "cli_env \<Rightarrow> Application \<Rightarrow> requestValue \<Rightarrow> TrustedInvocation \<Rightarrow> (failure + dispatchResult) io" where
  "dispatch env app request invocation =
    (if request_action request = ActionVersion
     then State_Monad.return (Inr \<lparr> dr_response = VersionAnswer (versionResponse env app), dr_warning = noerr,
            dr_afterWrite = None \<rparr>)
     else case New (cc_Runner (ap_config app)) (ce_Executable env) (ce_Load env) of
       Inl err \<Rightarrow> State_Monad.return (Inl (failureFromError (request_action request) err))
     | Inr manager \<Rightarrow> dispatch_operation env app manager invocation request)"

text \<open>\<open>Execute\<close> in three parts: up to the dispatched operation, the answer, and what follows it.\<close>

definition perform_request ::
  "cli_env \<Rightarrow> Application \<Rightarrow> requestValue \<Rightarrow> (failure + dispatchResult) io" where
  "perform_request env app request = do {
     bound \<leftarrow> (case assertedContext request of
        None \<Rightarrow> State_Monad.return (Inr empty_invocation)
      | Some asserted \<Rightarrow>
          bindInvocation (k_policy (ap_contracts app)) (ce_host env) (request_action request) asserted);
     case bound of
       Inl problem \<Rightarrow> State_Monad.return (Inl problem)
     | Inr invocation \<Rightarrow> dispatch env app request invocation }"

definition answer_request ::
  "Application \<Rightarrow> Action \<Rightarrow> dispatchResult \<Rightarrow> Streams \<Rightarrow> (ExitClass \<times> Streams) io" where
  "answer_request app action result streams =
    (let success = SuccessExitClass (k_policy (ap_contracts app)); text = Diagnostic (ou_Error (ap_output app)) in
     case writeSuccess (ap_output app) action (dr_response result) streams of
       (exitCode, streams) \<Rightarrow>
         if exitCode \<noteq> success then State_Monad.return (exitCode, streams)
         else
           let streams = (if dr_warning result \<noteq> noerr
             then say (''managed-bash: warning: action='' @ Action_string action @ '': '' @
                       text (dr_warning result) @ newline) streams
             else streams)
           in case dr_afterWrite result of
             None \<Rightarrow> State_Monad.return (success, streams)
           | Some prepared \<Rightarrow> do {
               (err, _) \<leftarrow> PreparedWait_commit prepared;
               State_Monad.return (success,
                 if err \<noteq> noerr
                 then say (''managed-bash: warning: action='' @ Action_string action @
                           '': response delivered but observer cursor was not committed: '' @ text err @ newline) streams
                 else streams) })"

definition Execute :: "cli_env \<Rightarrow> Application \<Rightarrow> string list \<Rightarrow> Streams \<Rightarrow> (ExitClass \<times> Streams) io" where
  "Execute env app args streams =
    (if args = [''--help''] \<or> args = [''-h'']
     then State_Monad.return (SuccessExitClass (k_policy (ap_contracts app)),
            streams\<lparr> sm_Stdout := fprint (usage @ newline) (sm_Stdout streams) \<rparr>)
     else case parseAction args of
       None \<Rightarrow> State_Monad.return (2, say (usage @ newline) streams)
     | Some action \<Rightarrow>
         if sm_StdinIsTerminal streams
         then State_Monad.return (2, say (usage @ newline) (say (''managed-bash: action='' @ Action_string action @
            '' requires a JSON request on stdin; pipe or redirect one instead of running interactively'' @ newline) streams))
         else case readRequest (ap_input app) action (sm_Stdin streams) of
           Inl problem \<Rightarrow> State_Monad.return (writeFailure (ap_output app) problem streams)
         | Inr request \<Rightarrow> do {
             performed \<leftarrow> perform_request env app request;
             case performed of
               Inl problem \<Rightarrow> State_Monad.return (writeFailure (ap_output app) problem streams)
             | Inr result \<Rightarrow> answer_request app (request_action request) result streams })"

text \<open>\<open>run\<close> of \<open>main.go\<close>, over what the internal modes and \<open>cli.New\<close> answer.\<close>

definition main_run ::
  "cli_env \<Rightarrow> (bool \<times> error) \<Rightarrow> (bool \<times> error) \<Rightarrow> Application result \<Rightarrow> (error \<Rightarrow> string) \<Rightarrow>
     string list \<Rightarrow> Streams \<Rightarrow> (ExitClass \<times> Streams) io" where
  "main_run env installer_Dispatch runner_Dispatch new_cli Error args streams =
    (if fst installer_Dispatch
     then State_Monad.return (if snd installer_Dispatch \<noteq> noerr
       then (5, say (''managed-bash: internal installer failed: '' @ Diagnostic Error (snd installer_Dispatch) @ newline) streams)
       else (0, streams))
     else if fst runner_Dispatch
     then State_Monad.return (if snd runner_Dispatch \<noteq> noerr
       then (5, say (''managed-bash: internal runner failed: '' @ Diagnostic Error (snd runner_Dispatch) @ newline) streams)
       else (0, streams))
     else case new_cli of
       Inl err \<Rightarrow> State_Monad.return (5, say (''managed-bash: initialize CLI: '' @ Diagnostic Error err @ newline) streams)
     | Inr app \<Rightarrow> Execute env app args streams)"

subsection \<open>What a command answers\<close>

definition no_error_answer :: "failure + dispatchResult \<Rightarrow> bool" where
  "no_error_answer r \<longleftrightarrow> pred_sum (\<lambda>_. True) (\<lambda>d. \<forall>e. dr_response d \<noteq> ErrorAnswer e) r"

lemma no_error_answer_simps [simp]:
  "no_error_answer (Inl problem)"
  "no_error_answer (Inr d) \<longleftrightarrow> (\<forall>e. dr_response d \<noteq> ErrorAnswer e)"
  by (simp_all add: no_error_answer_def)

lemma no_error_operationResult: "(\<And>v e. f v \<noteq> ErrorAnswer e) \<Longrightarrow> no_error_answer (operationResult action f r)"
  by (simp add: operationResult_def split: sum.split)

lemma returns_dispatch_operation: "returns no_error_answer (dispatch_operation env app manager invocation request)"
proof (cases request)
  case (startRequest q)
  then show ?thesis
    by (auto simp: dispatchStart_def Let_def split: prod.split sum.split intro!: returns_bind)
next
  case (runRequest q)
  then show ?thesis
    by (auto simp: dispatchRun_def Let_def split: prod.split sum.split intro!: returns_bind returns_sum)
next
  case (waitRequest q)
  then show ?thesis
    by (auto simp: dispatchWait_def split: sum.split intro!: returns_bind)
qed (auto intro!: returns_bind no_error_operationResult)

lemma returns_perform_request: "returns no_error_answer (perform_request env app request)"
  unfolding perform_request_def
proof (rule returns_bind, rule returns_sum, goal_cases)
  case (2 bound invocation)
  show ?case
    unfolding dispatch_def
    by (rule returns_if) (auto intro!: returns_sum returns_dispatch_operation)
qed auto

definition cli_ok :: "Application \<Rightarrow> Streams \<Rightarrow> bool" where
  "cli_ok app streams \<longleftrightarrow> k_policy (ap_contracts app) = policy_v1 \<and> ou_policy (ap_output app) = policy_v1 \<and>
    outside_writer (sm_Stdout streams)"

lemma answer_request_answered:
  assumes "cli_ok app streams" "\<forall>e. dr_response d \<noteq> ErrorAnswer e"
  shows "returns (\<lambda>(code, streams'). answered (ap_output app) (wr_out (sm_Stdout streams)) code (wr_out (sm_Stdout streams')))
    (answer_request app action d streams)"
proof -
  obtain code streams' where written: "writeSuccess (ap_output app) action (dr_response d) streams = (code, streams')"
    by fastforce
  have "answered (ap_output app) (wr_out (sm_Stdout streams)) code (wr_out (sm_Stdout streams'))"
    using writeSuccess_answered(1) [OF written _ assms(2)] assms(1) by (simp add: cli_ok_def)
  then show ?thesis
    unfolding answer_request_def Let_def written prod.case
    by (cases "code = SuccessExitClass (k_policy (ap_contracts app))") (auto intro!: returns_bind split: option.split)
qed

lemma answered_success:
  assumes "answered out before_out code out'" "ou_policy out = policy_v1" "code = SuccessExitClass policy_v1"
  shows "\<exists>response document. (\<forall>e. response \<noteq> ErrorAnswer e) \<and> accepted_document out response document \<and>
    out' = before_out @ document"
proof -
  have zero: "SuccessExitClass policy_v1 = 0"
    by (simp add: SuccessExitClass_def policy_v1_def newPolicy_def exitRules_of_def policy_document_v1_def)
  have "exit_of out (ErrorAnswer e) \<noteq> 0" for e
    using ExitClassForError_v1 [of "pe_Code (er_Error e)"] assms(2) by (auto simp: exit_of_def)
  moreover from assms(1) obtain response document where
      "accepted_document out response document" "code = exit_of out response" "out' = before_out @ document"
    using assms(3) zero by (auto simp: answered_def)
  ultimately show ?thesis
    using assms(3) zero by metis
qed

lemma parseAction_not_help: "parseAction args = Some action \<Longrightarrow> args \<noteq> [''--help''] \<and> args \<noteq> [''-h'']"
  by (cases action) (auto simp: parseAction_def knownAction_iff)

lemma returns_Execute:
  assumes "parseAction args = Some action" "\<not> sm_StdinIsTerminal streams" "cli_ok app streams"
  shows "returns (\<lambda>(code, streams'). answered (ap_output app) (wr_out (sm_Stdout streams)) code (wr_out (sm_Stdout streams')))
    (Execute env app args streams)"
proof -
  let ?A = "\<lambda>(code, streams'). answered (ap_output app) (wr_out (sm_Stdout streams)) code (wr_out (sm_Stdout streams'))"
  have failed: "?A (writeFailure (ap_output app) problem streams)" for problem
  proof -
    obtain c s where "writeFailure (ap_output app) problem streams = (c, s)" by fastforce
    then show ?thesis
      using writeFailure_answered(1) assms(3) by (simp add: cli_ok_def)
  qed
  have "returns ?A (case readRequest (ap_input app) action (sm_Stdin streams) of
      Inl problem \<Rightarrow> State_Monad.return (writeFailure (ap_output app) problem streams)
    | Inr request \<Rightarrow> do {
        performed \<leftarrow> perform_request env app request;
        case performed of
          Inl problem \<Rightarrow> State_Monad.return (writeFailure (ap_output app) problem streams)
        | Inr d \<Rightarrow> answer_request app (request_action request) d streams })"
  proof (rule returns_sum, rule returns_return, rule failed)
    fix request
    show "returns ?A (do {
        performed \<leftarrow> perform_request env app request;
        case performed of
          Inl problem \<Rightarrow> State_Monad.return (writeFailure (ap_output app) problem streams)
        | Inr d \<Rightarrow> answer_request app (request_action request) d streams })"
    proof (rule returns_bind_after [OF returns_perform_request], goal_cases)
      case (1 performed)
      then show ?case
      proof (cases performed)
        case (Inl problem)
        show ?thesis unfolding Inl sum.case by (rule returns_return, rule failed)
      qed (use 1 in \<open>auto intro!: answer_request_answered [OF assms(3)]\<close>)
    qed
  qed
  moreover have "Execute env app args streams = (case readRequest (ap_input app) action (sm_Stdin streams) of
      Inl problem \<Rightarrow> State_Monad.return (writeFailure (ap_output app) problem streams)
    | Inr request \<Rightarrow> do {
        performed \<leftarrow> perform_request env app request;
        case performed of
          Inl problem \<Rightarrow> State_Monad.return (writeFailure (ap_output app) problem streams)
        | Inr d \<Rightarrow> answer_request app (request_action request) d streams })"
    using parseAction_not_help [OF assms(1)] assms(1,2) by (auto simp: Execute_def)
  ultimately show ?thesis by simp
qed

text \<open>C9: A command that was given one known action and a request answers once. Whatever the request holds,
  whichever operation fails and whatever happens to standard output, the bytes written there are one
  whole JSON document that the protocol's validator accepts, and the exit code is the one that
  document stands for; or they are a part of one such document, or none, and the exit code is 5. Exit
  code 0 is only returned after a whole document that is not an error.\<close>

theorem Execute_answers_once:
  assumes "run_state (Execute env app args streams) w = ((code, streams'), w')"
    and "parseAction args = Some action" "\<not> sm_StdinIsTerminal streams" "cli_ok app streams"
  shows "answered (ap_output app) (wr_out (sm_Stdout streams)) code (wr_out (sm_Stdout streams')) \<and>
    (if code = 0
     then \<exists>response document. (\<forall>e. response \<noteq> ErrorAnswer e) \<and> accepted_document (ap_output app) response document \<and>
            wr_out (sm_Stdout streams') = wr_out (sm_Stdout streams) @ document
     else code \<in> {2, 3, 4, 5})"
proof -
  have answered: "answered (ap_output app) (wr_out (sm_Stdout streams)) code (wr_out (sm_Stdout streams'))"
    using returnsD [OF returns_Execute [OF assms(2-4)] assms(1)] by simp
  have zero: "SuccessExitClass policy_v1 = 0"
    by (simp add: SuccessExitClass_def policy_v1_def newPolicy_def exitRules_of_def policy_document_v1_def)
  have exits: "exit_of (ap_output app) response \<in> {0, 2, 3, 4, 5}" for response
  proof (cases response)
    case (ErrorAnswer e)
    then show ?thesis
      using assms(4) ExitClassForError_v1 [of "pe_Code (er_Error e)"] by (auto simp: exit_of_def cli_ok_def)
  qed (use assms(4) zero in \<open>simp_all add: exit_of_def cli_ok_def\<close>)
  have "code \<in> {0, 2, 3, 4, 5}"
    using answered exits by (auto simp: answered_def)
  then show ?thesis
    using answered answered_success [OF answered] assms(4) zero by (auto simp: cli_ok_def)
qed


text \<open>C23: A job that was started is always reported. When the manager's \<open>Start\<close> returns metadata of a job,
  however its commit went, \<open>start\<close> answers with that job, with a warning exactly if its durability is
  not certain; and \<open>run\<close>, on the same command, waits on the job that was just started, from its first
  byte and with its own two timeouts, and on nothing else. It answers with exactly what this wait
  observed, keeps the warning, and leaves the cursor of this wait to be committed; if the wait fails,
  it answers with the failure of the observation, which carries the job.\<close>

theorem started_job_reported:
  assumes "run_state (manager_Start (ce_start env) manager start (ce_startup env)) w = ((Inr (job, err), s'), w1)"
    and "fresh_startup (ce_startup env)" "jm_JobID job \<noteq> []"
    and "start = \<lparr> sq_Invocation = invocation, sq_Command = sp_Command (startq_Payload request),
      sq_HardTimeout = durationFrom (sp_HardTimeoutMs (startq_Payload request)),
      sq_OutputLimitBytes = intFrom (sp_OutputLimitBytes (startq_Payload request)) \<rparr>"
    and "runq_Payload run = \<lparr> rp_Command = sp_Command (startq_Payload request),
      rp_HardTimeoutMs = sp_HardTimeoutMs (startq_Payload request), rp_IdleTimeoutMs = idle,
      rp_OutputLimitBytes = sp_OutputLimitBytes (startq_Payload request), rp_TimeoutMs = timeout \<rparr>"
  shows "(\<exists>d. run_state (dispatchStart env manager invocation request) w = (Inr d, w1) \<and>
      dr_response d = StartAnswer \<lparr> startr_Action = ''start'', startr_Ok = True, startr_Result = job,
        startr_SchemaVersion = 1 \<rparr> \<and> dr_warning d = err \<and> dr_afterWrite d = None) \<and>
    (case run_state (PrepareWait manager
         \<lparr> wr_Invocation = invocation, wr_JobID = jm_JobID job, wr_CursorBytes = Some 0,
           wr_Timeout = durationFrom timeout, wr_IdleTimeout = durationFrom idle \<rparr>) w1 of
       (Inl waitErr, w2) \<Rightarrow>
         (\<exists>problem. run_state (dispatchRun env manager invocation run) w = (Inl problem, w2) \<and>
            fa_job problem = Some job \<and> fa_code problem = failureCode waitErr)
     | (Inr prepared, w2) \<Rightarrow>
         (\<exists>d. run_state (dispatchRun env manager invocation run) w = (Inr d, w2) \<and>
            dr_response d = RunAnswer \<lparr> runr_Action = ''run'', runr_Ok = True,
              runr_Result = \<lparr> or_Observation = oo_Observation (pw_Observation prepared),
                or_Output = oo_Output (pw_Observation prepared), or_Reason = pw_Reason prepared \<rparr>,
              runr_SchemaVersion = 1 \<rparr> \<and>
            dr_warning d = err \<and> dr_afterWrite d = Some prepared))"
proof -
  have "start_ends (ce_start env) (Inr (job, err), s')"
    by (rule returnsD [OF returns_Start [OF assms(2)] assms(1)])
  then have "err = noerr \<or> durability_job err = Some (jm_JobID job)"
    by (auto simp: start_ends_def start_gave_up_def start_committing_def committedResult_def split: if_splits)
  then have classified: "classifyStart action job err = Inr err" for action
    using assms(3) by (auto simp: classifyStart_def)
  show ?thesis
    using assms(1,5) unfolding assms(4)
    by (auto simp: dispatchStart_def dispatchRun_def run_bind run_return start_metadata_def classified
        runObservationFailure_def preparedObservation_def failureFromError_def newFailure_def newProblem_def split: sum.split prod.split)
qed

subsection \<open>Concrete commands\<close>

definition example_input_side :: input_side where
  "example_input_side =
    \<lparr> in_json_Valid = (\<lambda>_. True), in_envelope = (\<lambda>_. Inr \<lparr> rv_Action = ''a'', rv_SchemaVersion = ''1.0'' \<rparr>),
      in_string = (\<lambda>_. Inr ''version''), in_Number = Inr, in_ValidateRequest = (\<lambda>_. noerr),
      in_object = (\<lambda>_. Inr Map.empty), in_MarshalObject = (\<lambda>_. Inr ''{}''), in_start = (\<lambda>_. Inl [ErrText []]),
      in_run = (\<lambda>_. Inl [ErrText []]), in_wait = (\<lambda>_. Inl [ErrText []]), in_status = (\<lambda>_. Inl [ErrText []]),
      in_output = (\<lambda>_. Inl [ErrText []]), in_cancel = (\<lambda>_. Inl [ErrText []]), in_remove = (\<lambda>_. Inl [ErrText []]),
      in_list = (\<lambda>_. Inl [ErrText []]),
      in_version = (\<lambda>_. Inr \<lparr> versionq_Action = ''version'', versionq_SchemaVersion = 1 \<rparr>) \<rparr>"

definition example_app :: Application where
  "example_app =
    \<lparr> ap_config = \<lparr> cc_BinaryVersion = ''dev'', cc_Runner = mg_config example_manager \<rparr>, ap_contracts = example_contracts,
      ap_input = example_input_side,
      ap_output = \<lparr> ou_policy = policy_v1, ou_Marshal = (\<lambda>_. Inr ''v''), ou_ValidateResponse = (\<lambda>_. noerr),
        ou_Error = (\<lambda>_. ''error'') \<rparr> \<rparr>"

definition example_cli_env :: cli_env where
  "example_cli_env =
    \<lparr> ce_host = \<lparr> ho_session = ''s'', ho_workspace = ''/w'', ho_Unsetenv = [], ho_Getwd = Inr ''/w/x'' \<rparr>,
      ce_GOARCH = ''amd64'', ce_GOOS = ''linux'', ce_Executable = Inr ''/m'', ce_Load = Inr example_contracts,
      ce_start = example_startup_env, ce_startup = example_startup \<rparr>"

text \<open>Standard output that takes everything, or whose first write fails.\<close>

definition example_streams :: "(nat \<times> error) list \<Rightarrow> Streams" where
  "example_streams writes =
    \<lparr> sm_Stdin = \<lparr> rd_pieces = [''r''], rd_end = IoEOF \<rparr>, sm_Stdout = \<lparr> wr_out = [], wr_writes = writes \<rparr>,
      sm_Stderr = \<lparr> wr_out = [], wr_writes = [] \<rparr>, sm_StdinIsTerminal = False \<rparr>"

lemma example_input_fields:
  "in_json_Valid example_input_side raw" "in_envelope example_input_side raw = Inr \<lparr> rv_Action = ''a'', rv_SchemaVersion = ''1.0'' \<rparr>"
  "in_string example_input_side raw = Inr ''version''" "in_ValidateRequest example_input_side raw = noerr"
  "in_object example_input_side raw = Inr Map.empty" "in_MarshalObject example_input_side m = Inr ''{}''"
  "in_version example_input_side raw = Inr \<lparr> versionq_Action = ''version'', versionq_SchemaVersion = 1 \<rparr>"
  by (simp_all add: example_input_side_def)

lemma example_version_request:
  "readRequest example_input_side ActionVersion (sm_Stdin (example_streams writes)) =
     Inr (versionRequest \<lparr> versionq_Action = ''version'', versionq_SchemaVersion = 1 \<rparr>)"
proof -
  have "utf8_Valid ''r''" "knownAction ''version'' = Some ActionVersion"
      "parseSchemaVersion example_input_side ''1.0'' = Some 1"
    by code_simp+
  then show ?thesis
    by (simp add: readRequest_def read_limited_def stream_def example_streams_def maxRequestBytes_def
        readRequest_checked_def parseRequestAction_def canonicalizeSchemaVersion_def decoded_def example_input_fields Let_def)
qed

lemma example_parse: "parseAction [''version''] = Some ActionVersion"
  by code_simp

definition example_answer :: dispatchResult where
  "example_answer = \<lparr> dr_response = VersionAnswer (versionResponse example_cli_env example_app), dr_warning = noerr,
     dr_afterWrite = None \<rparr>"

lemma example_performs:
  "run_state (perform_request example_cli_env example_app
     (versionRequest \<lparr> versionq_Action = ''version'', versionq_SchemaVersion = 1 \<rparr>)) w = (Inr example_answer, w)"
  by (simp add: perform_request_def dispatch_def run_bind run_return example_answer_def)

lemma example_app_fields:
  "ap_input example_app = example_input_side" "k_policy (ap_contracts example_app) = policy_v1"
  "ou_policy (ap_output example_app) = policy_v1" "ou_Marshal (ap_output example_app) r = Inr ''v''"
  "ou_ValidateResponse (ap_output example_app) raw = noerr"
  by (simp_all add: example_app_def)

lemma example_executes:
  "run_state (Execute example_cli_env example_app [''version''] (example_streams writes)) w =
     run_state (answer_request example_app ActionVersion example_answer (example_streams writes)) w"
proof -
  have "\<not> sm_StdinIsTerminal (example_streams writes)" by (simp add: example_streams_def)
  then show ?thesis
    using example_parse by (simp add: Execute_def example_app_fields example_version_request run_bind example_performs)
qed

lemma success_zero: "SuccessExitClass policy_v1 = 0"
  by (simp add: SuccessExitClass_def policy_v1_def newPolicy_def exitRules_of_def policy_document_v1_def)

lemma Execute_answers_once_witness:
  "case run_state (Execute example_cli_env example_app [''version''] (example_streams [])) example_launch_world of
     ((code, streams'), w') \<Rightarrow> code = 0 \<and> wr_out (sm_Stdout streams') = ''v'' @ newline"
proof -
  obtain code streams' w' where run: "run_state (Execute example_cli_env example_app [''version''] (example_streams [])) example_launch_world =
      ((code, streams'), w')"
    by (metis surj_pair)
  have "code = 0"
    using run unfolding example_executes
    by (auto simp: answer_request_def Let_def writeSuccess_def writeResponse_def writer_Write_def example_app_fields
        example_streams_def example_answer_def run_return success_zero)
  moreover have "cli_ok example_app (example_streams [])"
    by (simp add: cli_ok_def example_app_fields outside_writer_def example_streams_def)
  moreover have "accepted_document (ap_output example_app) response document \<longleftrightarrow> document = ''v'' @ newline" for response document
    by (auto simp: accepted_document_def example_app_fields)
  moreover have "\<not> sm_StdinIsTerminal (example_streams [])" "wr_out (sm_Stdout (example_streams [])) = []"
    by (simp_all add: example_streams_def)
  ultimately show ?thesis
    using Execute_answers_once [OF run example_parse] run by auto
qed


definition example_startq :: StartRequest_json where
  "example_startq =
    \<lparr> startq_Action = ''start'', startq_Context = example_asserted ''/w/x'',
      startq_Payload = \<lparr> sp_Command = ''true'', sp_HardTimeoutMs = None, sp_OutputLimitBytes = None \<rparr>,
      startq_SchemaVersion = 1 \<rparr>"

definition example_runq :: RunRequest where
  "example_runq =
    \<lparr> runq_Action = ''run'', runq_Context = example_asserted ''/w/x'',
      runq_Payload = \<lparr> rp_Command = ''true'', rp_HardTimeoutMs = None, rp_IdleTimeoutMs = None, rp_OutputLimitBytes = None,
        rp_TimeoutMs = None \<rparr>, runq_SchemaVersion = 1 \<rparr>"

lemma started_job_reported_witness:
  "\<exists>d. fst (run_state (dispatchStart example_cli_env example_manager
       \<lparr> ti_sessionID = ''s'', ti_workspacePath = ''/w'', ti_cwd = ''/w/x'' \<rparr> example_startq) example_launch_world) = Inr d \<and>
     dr_response d = StartAnswer \<lparr> startr_Action = ''start'', startr_Ok = True, startr_Result = ps_Job example_job,
       startr_SchemaVersion = 1 \<rparr> \<and> dr_warning d = noerr"
proof -
  obtain s' w1 where start: "run_state (manager_Start (ce_start example_cli_env) example_manager (example_start ''true'')
      (ce_startup example_cli_env)) example_launch_world = ((Inr (ps_Job example_job, noerr), s'), w1)"
    using example_start_opens [of example_startup_env example_startup] example_start_completes
    by (metis fst_conv surj_pair cli_env.select_convs(6,7) example_cli_env_def)
  show ?thesis
    using started_job_reported [OF start, of _ example_startq example_runq None None] example_startup_fresh
    by (auto simp: example_cli_env_def example_start_def example_startq_def example_runq_def durationFrom_def intFrom_def)
qed

end
