(* ===== verification/Release.thy ===== *)
theory Release
  imports Requests "HOL-Library.Char_ord" "HOL-Library.List_Lexorder" "HOL-Library.AList"
begin

section \<open>Release archives\<close>

text \<open>
  \<open>internal/release\<close>: \<open>types.go\<close>, \<open>manifest.go\<close>, \<open>archive_write.go\<close> and \<open>archive_verify.go\<close>. An archive is
  what \<open>gzip.Reader\<close> and \<open>tar.Reader\<close> make of a file: the header of the stream, the entries in their
  order, and the errors at their end. The writers of the standard library are modelled by the archive
  that is read back from what they wrote; each call to one takes its error from a script. The order
  of strings is the bytewise one of Go. SHA-256 and \<open>encoding/json\<close> on the manifest are parameters.
\<close>

subsection \<open>\<open>types.go\<close>\<close>

record release_target =
  tg_OS :: string
  tg_Architecture :: string

text \<open>\<open>time.Time\<close> as seconds since 1970 and nanoseconds; the zero time is the year 1.\<close>

record gotime =
  gt_Unix :: int
  gt_Nanosecond :: int

definition zero_time :: gotime where
  "zero_time = \<lparr> gt_Unix = - 62135596800, gt_Nanosecond = 0 \<rparr>"

record expectation =
  ex_Version :: string
  ex_Target :: release_target
  ex_Epoch :: gotime

record payloadFile =
  pf_Path :: string
  pf_Mode :: int
  pf_Data :: bytes

definition manifestVersion :: int where "manifestVersion = 1"
definition product_name :: string where "product_name = ''managed-bash''"
definition protocolVersion :: int where "protocolVersion = 1"

definition targetMatrix :: "release_target list" where
  "targetMatrix =
    [\<lparr> tg_OS = ''linux'', tg_Architecture = ''amd64'' \<rparr>, \<lparr> tg_OS = ''linux'', tg_Architecture = ''arm64'' \<rparr>,
     \<lparr> tg_OS = ''darwin'', tg_Architecture = ''amd64'' \<rparr>, \<lparr> tg_OS = ''darwin'', tg_Architecture = ''arm64'' \<rparr>]"

text \<open>The map of the artifacts' modes, 0644 and 0755.\<close>

definition artifactModes :: "(string \<times> int) list" where
  "artifactModes =
    [(''LICENSE'', 420), (''README.md'', 420), (''THIRD_PARTY_NOTICES.txt'', 420), (''bin/managed-bash'', 493),
     (''install.sh'', 493), (''lib/opencode/managed-bash.js'', 420), (''uninstall.sh'', 493)]"

text \<open>The regular expression of a version: three decimal numbers without leading zeros.\<close>

fun split_dots :: "string \<Rightarrow> string list" where
  "split_dots [] = [[]]"
| "split_dots (c # cs) =
     (if c = CHR ''.'' then [] # split_dots cs
      else (case split_dots cs of [] \<Rightarrow> [[c]] | part # rest \<Rightarrow> (c # part) # rest))"

definition version_number :: "string \<Rightarrow> bool" where
  "version_number s \<longleftrightarrow> s = ''0'' \<or> (s \<noteq> [] \<and> hd s \<noteq> CHR ''0'' \<and> list_all is_digit s)"

definition versionPattern :: "string \<Rightarrow> bool" where
  "versionPattern version \<longleftrightarrow>
    (let parts = split_dots version in length parts = 3 \<and> list_all version_number parts)"

definition knownTarget :: "release_target \<Rightarrow> bool" where
  "knownTarget candidate \<longleftrightarrow> list_ex (\<lambda>supported. candidate = supported) targetMatrix"

definition newExpectation :: "string \<Rightarrow> release_target \<Rightarrow> gotime \<Rightarrow> expectation result" where
  "newExpectation version releaseTarget epoch =
    (if \<not> versionPattern version then Inl (fmt_Errorf ''version %q: %w'' [ErrInvalidManifest])
     else if \<not> knownTarget releaseTarget then Inl (fmt_Errorf ''target %s/%s: %w'' [ErrInvalidManifest])
     else if epoch = zero_time \<or> gt_Nanosecond epoch \<noteq> 0
     then Inl (fmt_Errorf ''source date epoch must be whole seconds: %w'' [ErrInvalidArchive])
     else Inr \<lparr> ex_Version = version, ex_Target = releaseTarget, ex_Epoch = epoch \<rparr>)"

definition requiredArtifactPaths :: "string list" where
  "requiredArtifactPaths = sort (map fst artifactModes)"

text \<open>The zero value of the map for a path it does not have; \<open>%04o\<close>.\<close>

definition requiredArtifactModeValue :: "string \<Rightarrow> int" where
  "requiredArtifactModeValue artifactPath = (case map_of artifactModes artifactPath of None \<Rightarrow> 0 | Some mode \<Rightarrow> mode)"

fun octal :: "nat \<Rightarrow> string" where
  "octal n = (if n < 8 then [char_of (48 + n)] else octal (n div 8) @ [char_of (48 + n mod 8)])"

definition requiredArtifactMode :: "string \<Rightarrow> string" where
  "requiredArtifactMode artifactPath =
    (let digits = octal (nat (requiredArtifactModeValue artifactPath)) in replicate (4 - length digits) CHR ''0'' @ digits)"

definition archiveRoot :: "expectation \<Rightarrow> string" where
  "archiveRoot expected =
    ''agent-managed-bash-'' @ ex_Version expected @ ''-'' @ tg_OS (ex_Target expected) @ ''-'' @
    tg_Architecture (ex_Target expected)"

subsection \<open>\<open>manifest.go\<close>\<close>

record artifact =
  af_Path :: string
  af_Mode :: string
  af_SHA256 :: string

record manifest =
  mf_ManifestVersion :: int
  mf_Product :: string
  mf_Version :: string
  mf_ProtocolVersion :: int
  mf_Target :: release_target
  mf_Artifacts :: "artifact list"

text \<open>
  \<open>strings.ToLower\<close> differs from this on some strings that are not ASCII; the next check refuses them
  all, with the same error.
\<close>

definition strings_ToLower :: "string \<Rightarrow> string" where
  "strings_ToLower = map (\<lambda>c. if 65 \<le> (of_char c :: nat) \<and> (of_char c :: nat) \<le> 90 then char_of (of_char c + 32 :: nat) else c)"

definition is_hex :: "char \<Rightarrow> bool" where
  "is_hex c \<longleftrightarrow> c \<in> set ''0123456789abcdefABCDEF''"

definition hex_DecodeString_error :: "string \<Rightarrow> error" where
  "hex_DecodeString_error s =
    (if list_all is_hex s \<and> even (length s) then noerr else [ErrText ''encoding/hex: invalid''])"

definition validateArtifact :: "artifact \<Rightarrow> string \<Rightarrow> error" where
  "validateArtifact item expectedPath =
    (if af_Path item \<noteq> expectedPath \<or> filepath_IsAbs (af_Path item) \<or> filepath_Clean (af_Path item) \<noteq> af_Path item \<or>
        CHR 0x5C \<in> set (af_Path item)
     then fmt_Errorf ''artifact path %q: %w'' [ErrInvalidManifest]
     else if af_Mode item \<noteq> requiredArtifactMode (af_Path item)
     then fmt_Errorf ''artifact mode %q for %q: %w'' [ErrInvalidManifest]
     else if length (af_SHA256 item) \<noteq> 32 * 2 \<or> strings_ToLower (af_SHA256 item) \<noteq> af_SHA256 item
     then fmt_Errorf ''artifact hash for %q: %w'' [ErrInvalidManifest]
     else let err = hex_DecodeString_error (af_SHA256 item) in
       if err \<noteq> noerr then fmt_Errorf ''artifact hash for %q: %w: %w'' (err @ [ErrInvalidManifest]) else noerr)"

text \<open>The loop of \<open>validateManifest\<close> over the artifacts and the expected paths at the same indices.\<close>

fun validate_artifacts :: "artifact list \<Rightarrow> string list \<Rightarrow> string list \<Rightarrow> error" where
  "validate_artifacts (item # items) (expectedPath # expectedPaths) found =
    (let err = validateArtifact item expectedPath in
     if err \<noteq> noerr then err
     else if af_Path item \<in> set found then fmt_Errorf ''duplicate artifact %q: %w'' [ErrInvalidManifest]
     else validate_artifacts items expectedPaths (af_Path item # found))"
| "validate_artifacts _ _ found = noerr"

definition validateManifest :: "manifest \<Rightarrow> expectation \<Rightarrow> error" where
  "validateManifest value expected =
    (if mf_ManifestVersion value \<noteq> manifestVersion \<or> mf_Product value \<noteq> product_name \<or>
        mf_Version value \<noteq> ex_Version expected \<or> mf_ProtocolVersion value \<noteq> protocolVersion \<or>
        mf_Target value \<noteq> ex_Target expected
     then fmt_Errorf ''release identity mismatch: %w'' [ErrInvalidManifest]
     else if length (mf_Artifacts value) \<noteq> length requiredArtifactPaths
     then fmt_Errorf ''artifact count %d: %w'' [ErrInvalidManifest]
     else validate_artifacts (mf_Artifacts value) requiredArtifactPaths [])"

definition parseManifest :: "manifest codec \<Rightarrow> bytes \<Rightarrow> expectation \<Rightarrow> manifest result" where
  "parseManifest json raw expected =
    (case cd_Decode json raw of
       Inl err \<Rightarrow> Inl (fmt_Errorf ''decode: %w: %w'' (err @ [ErrInvalidManifest]))
     | Inr (parsed, tokenErr) \<Rightarrow>
         if tokenErr \<noteq> [IoEOF] then Inl (fmt_Errorf ''trailing JSON: %w'' [ErrInvalidManifest])
         else let err = validateManifest parsed expected in if err \<noteq> noerr then Inl err else Inr parsed)"

definition marshalManifest :: "manifest codec \<Rightarrow> manifest \<Rightarrow> bytes result" where
  "marshalManifest json value =
    (case cd_Marshal json value of
       Inl err \<Rightarrow> Inl (fmt_Errorf ''encode manifest: %w'' err)
     | Inr raw \<Rightarrow> Inr (raw @ newline))"

text \<open>The two loops of \<open>buildManifest\<close>; the map by path is an association list.\<close>

primrec index_payloads :: "payloadFile list \<Rightarrow> (string \<times> payloadFile) list \<Rightarrow> (string \<times> payloadFile) list result" where
  "index_payloads [] byPath = Inr byPath"
| "index_payloads (payload # payloads) byPath =
    (if map_of byPath (pf_Path payload) \<noteq> None
     then Inl (fmt_Errorf ''duplicate payload %q: %w'' [ErrInvalidManifest])
     else index_payloads payloads ((pf_Path payload, payload) # byPath))"

primrec build_artifacts ::
  "(bytes \<Rightarrow> bytes) \<Rightarrow> (string \<times> payloadFile) list \<Rightarrow> string list \<Rightarrow> artifact list \<Rightarrow> artifact list result" where
  "build_artifacts sha256 byPath [] artifacts = Inr artifacts"
| "build_artifacts sha256 byPath (artifactPath # paths) artifacts =
    (case map_of byPath artifactPath of
       None \<Rightarrow> Inl (fmt_Errorf ''payload %q missing or has wrong mode: %w'' [ErrInvalidManifest])
     | Some payload \<Rightarrow>
         if pf_Mode payload \<noteq> requiredArtifactModeValue artifactPath
         then Inl (fmt_Errorf ''payload %q missing or has wrong mode: %w'' [ErrInvalidManifest])
         else build_artifacts sha256 byPath paths
           (artifacts @
            [\<lparr> af_Path = artifactPath, af_Mode = requiredArtifactMode artifactPath,
               af_SHA256 = hex_EncodeToString (sha256 (pf_Data payload)) \<rparr>]))"

definition buildManifest :: "(bytes \<Rightarrow> bytes) \<Rightarrow> expectation \<Rightarrow> payloadFile list \<Rightarrow> manifest result" where
  "buildManifest sha256 expected payloads =
    (case index_payloads payloads [] of
       Inl err \<Rightarrow> Inl err
     | Inr byPath \<Rightarrow>
         (case build_artifacts sha256 byPath requiredArtifactPaths [] of
            Inl err \<Rightarrow> Inl err
          | Inr artifacts \<Rightarrow>
              if length byPath \<noteq> length artifactModes
              then Inl (fmt_Errorf ''payload contains undeclared files: %w'' [ErrInvalidManifest])
              else Inr \<lparr> mf_ManifestVersion = manifestVersion, mf_Product = product_name, mf_Version = ex_Version expected,
                mf_ProtocolVersion = protocolVersion, mf_Target = ex_Target expected, mf_Artifacts = artifacts \<rparr>))"

subsection \<open>What the tar and gzip readers deliver\<close>

record gzip_header =
  gz_ModTime :: gotime
  gz_Name :: string
  gz_Comment :: string
  gz_Extra :: bytes
  gz_OS :: nat

datatype tar_format = FormatUnknown | FormatV7 | FormatUSTAR | FormatPAX | FormatGNU | FormatSTAR

definition TypeReg :: char where "TypeReg = CHR ''0''"
definition TypeDir :: char where "TypeDir = CHR ''5''"

text \<open>The fields of a header the code looks at; the size is the length of the data.\<close>

record tar_header =
  th_Name :: string
  th_Mode :: int
  th_Typeflag :: char
  th_ModTime :: gotime
  th_Uid :: int
  th_Gid :: int
  th_Uname :: string
  th_Gname :: string
  th_Linkname :: string
  th_Format :: tar_format
  th_PAXRecords :: "(string \<times> string) list"
  th_Xattrs :: "(string \<times> string) list"
  th_AccessTime :: gotime
  th_ChangeTime :: gotime

text \<open>
  An archive file: what \<open>gzip.NewReader\<close> answers, the entries with what reading their data answers,
  the error at which \<open>Next\<close> ends, what copying the rest of the stream to \<open>io.Discard\<close> answers, with the
  bytes it discards, what closing answers, and what is peeked behind the stream. How the stream is
  compressed is not part of it.
\<close>

record archive =
  ar_gzip :: "gzip_header result"
  ar_entries :: "(tar_header \<times> bytes result) list"
  ar_end :: error
  ar_rest :: "bytes result"
  ar_close :: error
  ar_trailing :: error

subsection \<open>\<open>archive_write.go\<close>\<close>

record archiveEntry =
  ae_name :: string
  ae_mode :: int
  ae_typeflag :: char
  ae_data :: bytes

definition archiveEntries :: "expectation \<Rightarrow> payloadFile list \<Rightarrow> bytes \<Rightarrow> archiveEntry list" where
  "archiveEntries expected payloads manifestData =
    (let root = archiveRoot expected @ ''/'' in
     sort_key ae_name
      ([\<lparr> ae_name = root, ae_mode = 493, ae_typeflag = TypeDir, ae_data = [] \<rparr>,
        \<lparr> ae_name = root @ ''bin/'', ae_mode = 493, ae_typeflag = TypeDir, ae_data = [] \<rparr>,
        \<lparr> ae_name = root @ ''lib/'', ae_mode = 493, ae_typeflag = TypeDir, ae_data = [] \<rparr>,
        \<lparr> ae_name = root @ ''lib/opencode/'', ae_mode = 493, ae_typeflag = TypeDir, ae_data = [] \<rparr>,
        \<lparr> ae_name = root @ ''manifest.json'', ae_mode = 420, ae_typeflag = TypeReg, ae_data = manifestData \<rparr>] @
       map (\<lambda>payload. \<lparr> ae_name = root @ pf_Path payload, ae_mode = pf_Mode payload, ae_typeflag = TypeReg,
         ae_data = pf_Data payload \<rparr>) payloads))"

text \<open>
  The script of the errors of the writers' calls; \<open>[]\<close> is a call that succeeds, as every call does when
  the script is used up. An entry that was written whole is read back as it was written.
\<close>

definition next_error :: "error list \<Rightarrow> error \<times> error list" where
  "next_error script = (case script of [] \<Rightarrow> (noerr, []) | err # rest \<Rightarrow> (err, rest))"

definition written_header :: "expectation \<Rightarrow> archiveEntry \<Rightarrow> tar_header" where
  "written_header expected entry =
    \<lparr> th_Name = ae_name entry, th_Mode = ae_mode entry, th_Typeflag = ae_typeflag entry, th_ModTime = ex_Epoch expected,
      th_Uid = 0, th_Gid = 0, th_Uname = [], th_Gname = [], th_Linkname = [], th_Format = FormatUSTAR, th_PAXRecords = [],
      th_Xattrs = [], th_AccessTime = zero_time, th_ChangeTime = zero_time \<rparr>"

primrec write_entries ::
  "expectation \<Rightarrow> archiveEntry list \<Rightarrow> error list \<Rightarrow> (tar_header \<times> bytes result) list result \<times> error list" where
  "write_entries expected [] script = (Inr [], script)"
| "write_entries expected (entry # entries) script =
    (case next_error script of
       (headerErr, script) \<Rightarrow>
         if headerErr \<noteq> noerr then (Inl (fmt_Errorf ''write tar header %q: %w'' headerErr), script)
         else case (if ae_typeflag entry = TypeReg then next_error script else (noerr, script)) of
           (dataErr, script) \<Rightarrow>
             if dataErr \<noteq> noerr then (Inl (fmt_Errorf ''write tar payload %q: %w'' dataErr), script)
             else case write_entries expected entries script of
               (Inl err, script) \<Rightarrow> (Inl err, script)
             | (Inr written, script) \<Rightarrow> (Inr ((written_header expected entry, Inr (ae_data entry)) # written), script))"

text \<open>The header of gzip holds 32 bits of seconds, where 0 stands for no time at all.\<close>

definition gzip_time :: "gotime \<Rightarrow> gotime" where
  "gzip_time t =
    (let seconds = uint (word_of_int (gt_Unix t) :: 32 word) in
     if (0 < gt_Unix t \<or> gt_Unix t = 0 \<and> 0 < gt_Nanosecond t) \<and> seconds \<noteq> 0
     then \<lparr> gt_Unix = seconds, gt_Nanosecond = 0 \<rparr> else zero_time)"

definition writeArchive ::
  "manifest codec \<Rightarrow> (bytes \<Rightarrow> bytes) \<Rightarrow> error list \<Rightarrow> expectation \<Rightarrow> payloadFile list \<Rightarrow> archive result" where
  "writeArchive json sha256 script expected payloads =
    (case buildManifest sha256 expected payloads of
       Inl err \<Rightarrow> Inl err
     | Inr manifestValue \<Rightarrow>
         (case marshalManifest json manifestValue of
            Inl err \<Rightarrow> Inl err
          | Inr manifestData \<Rightarrow>
              (case write_entries expected (archiveEntries expected payloads manifestData) script of
                 (written, script) \<Rightarrow>
                   (case next_error script of
                      (tarErr, script) \<Rightarrow>
                        (case next_error script of
                           (gzipErr, script) \<Rightarrow>
                             (case written of
                                Inl err \<Rightarrow> Inl (errors_Join [err, tarErr, gzipErr])
                              | Inr entries \<Rightarrow>
                                  if errors_Join [tarErr, gzipErr] \<noteq> noerr then Inl (errors_Join [tarErr, gzipErr])
                                  else Inr
                                    \<lparr> ar_gzip = Inr \<lparr> gz_ModTime = gzip_time (ex_Epoch expected), gz_Name = [], gz_Comment = [],
                                        gz_Extra = [], gz_OS = 255 \<rparr>,
                                      ar_entries = entries, ar_end = [IoEOF], ar_rest = Inr [], ar_close = noerr,
                                      ar_trailing = [IoEOF] \<rparr>))))))"

subsection \<open>\<open>archive_verify.go\<close>\<close>

definition allowedArchiveEntries :: "string \<Rightarrow> (string \<times> int) list" where
  "allowedArchiveEntries root =
    [(root, 493), (root @ ''bin/'', 493), (root @ ''lib/'', 493), (root @ ''lib/opencode/'', 493),
     (root @ ''manifest.json'', 420)] @ map (\<lambda>(artifactPath, mode). (root @ artifactPath, mode)) artifactModes"

definition verifyHeader :: "tar_header \<Rightarrow> int \<Rightarrow> expectation \<Rightarrow> error" where
  "verifyHeader header mode expected =
    (let directory = last (th_Name header) = CHR ''/''; expectedType = (if directory then TypeDir else TypeReg) in
     if th_Typeflag header \<noteq> expectedType \<or> th_Mode header \<noteq> mode \<or> th_ModTime header \<noteq> ex_Epoch expected \<or>
        th_Uid header \<noteq> 0 \<or> th_Gid header \<noteq> 0 \<or> th_Uname header \<noteq> [] \<or> th_Gname header \<noteq> [] \<or>
        th_Linkname header \<noteq> [] \<or> th_Format header \<noteq> FormatUSTAR \<or> th_PAXRecords header \<noteq> [] \<or> th_Xattrs header \<noteq> [] \<or>
        th_AccessTime header \<noteq> zero_time \<or> th_ChangeTime header \<noteq> zero_time
     then fmt_Errorf ''noncanonical metadata for %q: %w'' [ErrInvalidArchive] else noerr)"

text \<open>The loop of \<open>verifyTar\<close> and what follows it.\<close>

fun verify_entries ::
  "(bytes \<Rightarrow> bytes) \<Rightarrow> expectation \<Rightarrow> error \<Rightarrow> (tar_header \<times> bytes result) list \<Rightarrow> string \<Rightarrow> string list \<Rightarrow>
    (string \<times> string) list \<Rightarrow> bytes option \<Rightarrow> (bytes \<times> (string \<times> string) list) result" where
  "verify_entries sha256 expected readErr [] previous found hashes manifestData =
    (if readErr \<noteq> [IoEOF] then Inl (fmt_Errorf ''read tar: %w: %w'' (readErr @ [ErrInvalidArchive]))
     else if length found \<noteq> length (allowedArchiveEntries (archiveRoot expected @ ''/'')) \<or> manifestData = None \<or>
       length hashes \<noteq> length artifactModes
     then Inl (fmt_Errorf ''archive layout incomplete: %w'' [ErrInvalidArchive])
     else Inr (the manifestData, hashes))"
| "verify_entries sha256 expected readErr ((header, content) # entries) previous found hashes manifestData =
    (let root = archiveRoot expected @ ''/'' in
     case map_of (allowedArchiveEntries root) (th_Name header) of
       None \<Rightarrow> Inl (fmt_Errorf ''undeclared, duplicate, or unsorted entry %q: %w'' [ErrInvalidArchive])
     | Some entryMode \<Rightarrow>
         if previous \<ge> th_Name header
         then Inl (fmt_Errorf ''undeclared, duplicate, or unsorted entry %q: %w'' [ErrInvalidArchive])
         else if th_Name header \<in> set found then Inl (fmt_Errorf ''duplicate entry %q: %w'' [ErrInvalidArchive])
         else let err = verifyHeader header entryMode expected in
           if err \<noteq> noerr then Inl err
           else if th_Typeflag header \<noteq> TypeReg
           then verify_entries sha256 expected readErr entries (th_Name header) (th_Name header # found) hashes manifestData
           else case content of
             Inl err \<Rightarrow> Inl (fmt_Errorf (if th_Name header = root @ ''manifest.json'' then ''read manifest: %w: %w'' else ''hash %q: %w: %w'')
                 (err @ [ErrInvalidArchive]))
           | Inr raw \<Rightarrow>
               if th_Name header = root @ ''manifest.json''
               then verify_entries sha256 expected readErr entries (th_Name header) (th_Name header # found) hashes (Some raw)
               else verify_entries sha256 expected readErr entries (th_Name header) (th_Name header # found)
                 (AList.update (drop (length root) (th_Name header)) (hex_EncodeToString (sha256 raw)) hashes) manifestData)"

primrec check_hashes :: "(string \<times> string) list \<Rightarrow> artifact list \<Rightarrow> error" where
  "check_hashes hashes [] = noerr"
| "check_hashes hashes (item # items) =
    (if (case map_of hashes (af_Path item) of None \<Rightarrow> [] | Some digest \<Rightarrow> digest) \<noteq> af_SHA256 item
     then fmt_Errorf ''hash mismatch for %q: %w'' [ErrInvalidArchive] else check_hashes hashes items)"

definition verifyArchive :: "manifest codec \<Rightarrow> (bytes \<Rightarrow> bytes) \<Rightarrow> archive \<Rightarrow> expectation \<Rightarrow> error" where
  "verifyArchive json sha256 input expected =
    (case ar_gzip input of
       Inl err \<Rightarrow> fmt_Errorf ''open gzip: %w: %w'' (err @ [ErrInvalidArchive])
     | Inr header \<Rightarrow>
         if gz_ModTime header \<noteq> ex_Epoch expected \<or> gz_Name header \<noteq> [] \<or> gz_Comment header \<noteq> [] \<or>
            length (gz_Extra header) \<noteq> 0 \<or> gz_OS header \<noteq> 255
         then fmt_Errorf ''noncanonical gzip header: %w'' [ErrInvalidArchive]
         else case verify_entries sha256 expected (ar_end input) (ar_entries input) [] [] [] None of
           Inl err \<Rightarrow> err
         | Inr (manifestData, hashes) \<Rightarrow>
             case ar_rest input of
               Inl err \<Rightarrow> fmt_Errorf ''finish gzip stream: %w: %w'' (err @ [ErrInvalidArchive])
             | Inr discarded \<Rightarrow>
                 if ar_close input \<noteq> noerr then fmt_Errorf ''close gzip: %w: %w'' (ar_close input @ [ErrInvalidArchive])
                 else if ar_trailing input \<noteq> [IoEOF] then fmt_Errorf ''trailing gzip data: %w'' [ErrInvalidArchive]
                 else case parseManifest json manifestData expected of
                   Inl err \<Rightarrow> err
                 | Inr parsed \<Rightarrow>
                     (case marshalManifest json parsed of
                        Inl err \<Rightarrow> err
                      | Inr canonicalManifest \<Rightarrow>
                          if manifestData \<noteq> canonicalManifest
                          then fmt_Errorf ''noncanonical manifest encoding: %w'' [ErrInvalidArchive]
                          else check_hashes hashes (mf_Artifacts parsed)))"

end
