(* ===== verification/ReleaseProps.thy ===== *)
theory ReleaseProps
  imports Release Launch
begin

section \<open>What the release verifier accepts\<close>

text \<open>
  The exact correspondence of \<open>writeArchive\<close> and \<open>verifyArchive\<close>: an archive is determined by the data of
  the artifacts and of the manifest, in one order of twelve entries.
\<close>

subsection \<open>The layout of an archive\<close>

text \<open>The parts of an archive below its root, in the order of their names.\<close>

definition layout :: "(string \<times> int) list" where
  "layout =
    [([], 493), (''LICENSE'', 420), (''README.md'', 420), (''THIRD_PARTY_NOTICES.txt'', 420), (''bin/'', 493),
     (''bin/managed-bash'', 493), (''install.sh'', 493), (''lib/'', 493), (''lib/opencode/'', 493),
     (''lib/opencode/managed-bash.js'', 420), (''manifest.json'', 420), (''uninstall.sh'', 493)]"

definition layout_root :: "expectation \<Rightarrow> string" where
  "layout_root expected = archiveRoot expected @ ''/''"

definition is_dir_name :: "string \<Rightarrow> bool" where
  "is_dir_name name \<longleftrightarrow> last name = CHR ''/''"

definition part_data :: "bytes \<Rightarrow> (string \<Rightarrow> bytes) \<Rightarrow> string \<Rightarrow> bytes" where
  "part_data manifestData data path =
    (if path \<in> {[], ''bin/'', ''lib/'', ''lib/opencode/''} then [] else if path = ''manifest.json'' then manifestData else data path)"

definition layout_entry :: "expectation \<Rightarrow> bytes \<Rightarrow> (string \<Rightarrow> bytes) \<Rightarrow> string \<times> int \<Rightarrow> archiveEntry" where
  "layout_entry expected manifestData data part =
    \<lparr> ae_name = layout_root expected @ fst part, ae_mode = snd part,
      ae_typeflag = (if is_dir_name (layout_root expected @ fst part) then TypeDir else TypeReg),
      ae_data = part_data manifestData data (fst part) \<rparr>"

lemma prefix_less: "(root @ xs < root @ ys) = (xs < (ys :: string))"
  by (induction root) simp_all

lemma layout_sorted: "sorted_wrt (<) (map fst layout)"
  by (simp add: layout_def)

lemma paths_sorted: "sorted_wrt (<) (map fst artifactModes)"
  by (simp add: artifactModes_def)

lemma requiredArtifactPaths_eq: "requiredArtifactPaths = map fst artifactModes"
  unfolding requiredArtifactPaths_def using paths_sorted
  by (simp add: sort_key_id_if_sorted strict_sorted_imp_sorted)

lemma sorted_names: "sorted_wrt (<) (map (\<lambda>part. root @ fst part) layout)"
  using layout_sorted by (simp add: sorted_wrt_map prefix_less)

lemma sort_key_unique:
  assumes "sorted_wrt (<) (map f ys)" "distinct (map f xs)" "set xs = set ys"
  shows "sort_key f xs = (ys :: 'a list)"
proof -
  have "distinct (map f (sort_key f xs))"
    using assms(2) by (simp add: distinct_map)
  then have "sorted_wrt (<) (map f (sort_key f xs))"
    by (simp add: strict_sorted_iff)
  then have "map f (sort_key f xs) = map f ys"
    by (rule strict_sorted_equal [OF assms(1)]) (simp add: assms(3))
  moreover have "inj_on f (set (sort_key f xs) \<union> set ys)"
    using assms(2,3) by (simp add: distinct_map)
  ultimately show ?thesis
    by (simp add: inj_on_map_eq_map)
qed




definition payloads_ok :: "payloadFile list \<Rightarrow> bool" where
  "payloads_ok payloads \<longleftrightarrow> distinct (map pf_Path payloads) \<and> (\<lambda>p. (pf_Path p, pf_Mode p)) ` set payloads = set artifactModes"

definition data_of :: "payloadFile list \<Rightarrow> string \<Rightarrow> bytes" where
  "data_of payloads path = (case map_of (map (\<lambda>p. (pf_Path p, pf_Data p)) payloads) path of None \<Rightarrow> [] | Some d \<Rightarrow> d)"

lemma data_of_payload: "distinct (map pf_Path payloads) \<Longrightarrow> p \<in> set payloads \<Longrightarrow> data_of payloads (pf_Path p) = pf_Data p"
  by (induction payloads) (auto simp: data_of_def rev_image_eqI)

lemma layout_set:
  "set layout = {([], 493), (''bin/'', 493), (''lib/'', 493), (''lib/opencode/'', 493), (''manifest.json'', 420)} \<union> set artifactModes"
  by (simp add: layout_def artifactModes_def insert_commute)

lemma layout_split:
  "layout_entry expected md data ` set layout =
    layout_entry expected md data ` {([], 493), (''bin/'', 493), (''lib/'', 493), (''lib/opencode/'', 493), (''manifest.json'', 420)} \<union>
    layout_entry expected md data ` set artifactModes"
  by (simp only: layout_set image_Un)

lemma is_dir_name_append [simp]:
  "path \<noteq> [] \<Longrightarrow> is_dir_name (root @ path) = is_dir_name path"
  "path \<noteq> [] \<Longrightarrow> is_dir_name (c # path) = is_dir_name path"
  by (simp_all add: is_dir_name_def)

lemma artifact_name:
  assumes "(path, mode) \<in> set artifactModes"
  shows "\<not> is_dir_name path" "part_data md data path = data path" "path \<noteq> []"
  using assms by (auto simp: artifactModes_def is_dir_name_def part_data_def)

lemma archiveEntries_layout:
  assumes "payloads_ok payloads"
  shows "archiveEntries expected payloads md = map (layout_entry expected md (data_of payloads)) layout"
proof -
  let ?root = "archiveRoot expected @ ''/''"
  let ?file = "\<lambda>payload. \<lparr> ae_name = ?root @ pf_Path payload, ae_mode = pf_Mode payload, ae_typeflag = TypeReg, ae_data = pf_Data payload \<rparr>"
  let ?fixed = "[\<lparr> ae_name = ?root, ae_mode = 493, ae_typeflag = TypeDir, ae_data = [] \<rparr>,
        \<lparr> ae_name = ?root @ ''bin/'', ae_mode = 493, ae_typeflag = TypeDir, ae_data = [] \<rparr>,
        \<lparr> ae_name = ?root @ ''lib/'', ae_mode = 493, ae_typeflag = TypeDir, ae_data = [] \<rparr>,
        \<lparr> ae_name = ?root @ ''lib/opencode/'', ae_mode = 493, ae_typeflag = TypeDir, ae_data = [] \<rparr>,
        \<lparr> ae_name = ?root @ ''manifest.json'', ae_mode = 420, ae_typeflag = TypeReg, ae_data = md \<rparr>]"
  have paths: "pf_Path ` set payloads = fst ` set artifactModes"
  proof -
    have "fst ` (\<lambda>p. (pf_Path p, pf_Mode p)) ` set payloads = fst ` set artifactModes"
      using assms by (simp add: payloads_ok_def)
    then show ?thesis by (simp add: image_image)
  qed
  have entry_of: "?file p = layout_entry expected md (data_of payloads) (pf_Path p, pf_Mode p)" if "p \<in> set payloads" for p
  proof -
    have "(pf_Path p, pf_Mode p) \<in> set artifactModes"
      using assms that by (auto simp: payloads_ok_def)
    then show ?thesis
      using artifact_name [of "pf_Path p"] data_of_payload that assms
      by (simp add: layout_entry_def layout_root_def payloads_ok_def)
  qed
  have "?file ` set payloads = layout_entry expected md (data_of payloads) ` (\<lambda>p. (pf_Path p, pf_Mode p)) ` set payloads"
    unfolding image_image by (rule image_cong [OF refl entry_of])
  then have files: "?file ` set payloads = layout_entry expected md (data_of payloads) ` set artifactModes"
    using assms by (simp add: payloads_ok_def)
  have "set ?fixed = layout_entry expected md (data_of payloads) `
      {([], 493), (''bin/'', 493), (''lib/'', 493), (''lib/opencode/'', 493), (''manifest.json'', 420)}"
    by (simp add: layout_entry_def layout_root_def is_dir_name_def part_data_def)
  then have "set (?fixed @ map ?file payloads) = layout_entry expected md (data_of payloads) ` set layout"
    unfolding layout_split set_append set_map files by simp
  moreover have "distinct (map ae_name (?fixed @ map ?file payloads))"
  proof -
    have "set (map pf_Path payloads) \<inter> {[], ''bin/'', ''lib/'', ''lib/opencode/'', ''manifest.json''} = {}"
      by (simp add: paths artifactModes_def)
    moreover have "distinct (map (\<lambda>p. ?root @ pf_Path p) payloads)"
      using assms by (simp add: payloads_ok_def distinct_map inj_on_def)
    ultimately show ?thesis by (auto simp: o_def)
  qed
  moreover have "sorted_wrt (<) (map ae_name (map (layout_entry expected md (data_of payloads)) layout))"
    using sorted_names [of "layout_root expected"] by (simp add: o_def layout_entry_def)
  ultimately show ?thesis
    unfolding archiveEntries_def Let_def by (intro sort_key_unique) (simp_all only: set_map)
qed

subsection \<open>Manifests\<close>

definition manifest_of :: "(bytes \<Rightarrow> bytes) \<Rightarrow> expectation \<Rightarrow> (string \<Rightarrow> bytes) \<Rightarrow> manifest" where
  "manifest_of sha256 expected data =
    \<lparr> mf_ManifestVersion = manifestVersion, mf_Product = product_name, mf_Version = ex_Version expected,
      mf_ProtocolVersion = protocolVersion, mf_Target = ex_Target expected,
      mf_Artifacts = map (\<lambda>path. \<lparr> af_Path = path, af_Mode = requiredArtifactMode path,
        af_SHA256 = hex_EncodeToString (sha256 (data path)) \<rparr>) (map fst artifactModes) \<rparr>"

lemma index_payloads_Inr:
  "index_payloads payloads byPath = Inr byPath' \<longleftrightarrow>
    distinct (map pf_Path payloads) \<and> fst ` set byPath \<inter> pf_Path ` set payloads = {} \<and>
    byPath' = rev (map (\<lambda>p. (pf_Path p, p)) payloads) @ byPath"
  by (induction payloads arbitrary: byPath) (auto simp: map_of_eq_None_iff)

lemma build_artifacts_Inr:
  "build_artifacts sha256 byPath paths done_artifacts = Inr artifacts \<longleftrightarrow>
    (\<forall>path \<in> set paths. \<exists>p. map_of byPath path = Some p \<and> pf_Mode p = requiredArtifactModeValue path) \<and>
    artifacts = done_artifacts @ map (\<lambda>path. \<lparr> af_Path = path, af_Mode = requiredArtifactMode path,
      af_SHA256 = hex_EncodeToString (sha256 (pf_Data (the (map_of byPath path)))) \<rparr>) paths"
  by (induction paths arbitrary: done_artifacts) (auto split: option.splits)

lemma artifact_modes_lookup: "(path, mode) \<in> set artifactModes \<longleftrightarrow> path \<in> set (map fst artifactModes) \<and> mode = requiredArtifactModeValue path"
proof -
  have "distinct (map fst artifactModes)"
    by (simp add: artifactModes_def)
  then have "(path, mode) \<in> set artifactModes \<longleftrightarrow> map_of artifactModes path = Some mode"
    by simp
  moreover have "path \<in> set (map fst artifactModes) \<longleftrightarrow> map_of artifactModes path \<noteq> None"
    by (simp add: map_of_eq_None_iff)
  ultimately show ?thesis
    by (cases "map_of artifactModes path") (auto simp: requiredArtifactModeValue_def simp del: set_map)
qed

lemma payload_lookup:
  assumes "distinct (map pf_Path payloads)"
  shows "map_of (rev (map (\<lambda>p. (pf_Path p, p)) payloads)) path = Some p \<longleftrightarrow> p \<in> set payloads \<and> pf_Path p = path"
proof -
  have "distinct (map fst (rev (map (\<lambda>p. (pf_Path p, p)) payloads)))"
    using assms by (simp add: rev_map o_def flip: rev_map)
  then show ?thesis
    by (subst map_of_eq_Some_iff) auto
qed

lemma payloads_ok_iff:
  "payloads_ok payloads \<longleftrightarrow> distinct (map pf_Path payloads) \<and> length payloads = length artifactModes \<and>
    (\<forall>path \<in> set (map fst artifactModes). \<exists>p \<in> set payloads. pf_Path p = path \<and> pf_Mode p = requiredArtifactModeValue path)"
  (is "_ \<longleftrightarrow> ?distinct \<and> _ \<and> ?all")
proof
  let ?pm = "\<lambda>p. (pf_Path p, pf_Mode p)"
  assume ok: "payloads_ok payloads"
  then have inj: "inj_on ?pm (set payloads)"
    by (auto simp: payloads_ok_def distinct_map inj_on_def)
  have "distinct artifactModes" by (simp add: artifactModes_def)
  then have "length payloads = length artifactModes"
    using ok card_image [OF inj] by (metis distinct_card distinct_map payloads_ok_def)
  moreover have ?all
  proof
    fix path assume "path \<in> set (map fst artifactModes)"
    then have "(path, requiredArtifactModeValue path) \<in> ?pm ` set payloads"
      using ok artifact_modes_lookup by (simp add: payloads_ok_def)
    then show "\<exists>p \<in> set payloads. pf_Path p = path \<and> pf_Mode p = requiredArtifactModeValue path" by auto
  qed
  ultimately show "?distinct \<and> length payloads = length artifactModes \<and> ?all"
    using ok by (simp add: payloads_ok_def)
next
  let ?pm = "\<lambda>p. (pf_Path p, pf_Mode p)"
  assume *: "?distinct \<and> length payloads = length artifactModes \<and> ?all"
  have "set artifactModes \<subseteq> ?pm ` set payloads"
  proof
    fix part assume "part \<in> set artifactModes"
    then obtain path mode where part: "part = (path, mode)" "path \<in> set (map fst artifactModes)" "mode = requiredArtifactModeValue path"
      using artifact_modes_lookup by (metis surj_pair)
    then obtain p where "p \<in> set payloads" "?pm p = part"
      using * by auto
    then show "part \<in> ?pm ` set payloads" by auto
  qed
  moreover have "card (?pm ` set payloads) \<le> card (set artifactModes)"
  proof -
    have "card (?pm ` set payloads) \<le> length payloads"
      by (meson card_image_le card_length finite_set order_trans)
    also have "\<dots> = card (set artifactModes)"
      using * by (simp add: artifactModes_def)
    finally show ?thesis .
  qed
  ultimately have "set artifactModes = ?pm ` set payloads"
    by (intro card_seteq) auto
  then show "payloads_ok payloads"
    using * by (simp add: payloads_ok_def)
qed

lemma buildManifest_Inr:
  "buildManifest sha256 expected payloads = Inr m \<longleftrightarrow>
    payloads_ok payloads \<and> m = manifest_of sha256 expected (data_of payloads)"
proof (cases "distinct (map pf_Path payloads)")
  case False
  then have "\<not> payloads_ok payloads" by (simp add: payloads_ok_def)
  moreover have "index_payloads payloads [] \<noteq> Inr r" for r
    using False by (simp add: index_payloads_Inr)
  ultimately show ?thesis
    by (auto simp: buildManifest_def split: sum.splits)
next
  case True
  let ?byPath = "rev (map (\<lambda>p. (pf_Path p, p)) payloads)"
  have index: "index_payloads payloads [] = Inr ?byPath"
    using True by (simp add: index_payloads_Inr)
  have data: "pf_Data (the (map_of ?byPath path)) = data_of payloads path"
    if "\<exists>p \<in> set payloads. pf_Path p = path \<and> pf_Mode p = requiredArtifactModeValue path" for path
  proof -
    from that obtain p where p: "p \<in> set payloads" "pf_Path p = path" by blast
    then have "map_of ?byPath path = Some p"
      using payload_lookup [OF True] by blast
    then show ?thesis using data_of_payload [OF True p(1)] p(2) by simp
  qed
  let ?ok = "\<lambda>path. \<exists>p \<in> set payloads. pf_Path p = path \<and> pf_Mode p = requiredArtifactModeValue path"
  have lookup: "(\<exists>p. map_of ?byPath path = Some p \<and> pf_Mode p = requiredArtifactModeValue path) \<longleftrightarrow> ?ok path" for path
    unfolding payload_lookup [OF True] by blast
  have build: "build_artifacts sha256 ?byPath requiredArtifactPaths [] = Inr artifacts \<longleftrightarrow>
      (\<forall>path \<in> set requiredArtifactPaths. ?ok path) \<and> artifacts = mf_Artifacts (manifest_of sha256 expected (data_of payloads))"
    for artifacts
    unfolding build_artifacts_Inr lookup
    by (rule conj_cong [OF refl]) (use data in \<open>simp add: manifest_of_def requiredArtifactPaths_eq cong: map_cong\<close>)
  show ?thesis
  proof (cases "build_artifacts sha256 ?byPath requiredArtifactPaths []")
    case (Inl err)
    then have "\<not> payloads_ok payloads"
      using build unfolding payloads_ok_iff requiredArtifactPaths_eq by (metis sum.distinct(1))
    then show ?thesis by (simp add: buildManifest_def index Inl)
  next
    case (Inr artifacts)
    then have "\<forall>path \<in> set (map fst artifactModes). ?ok path" "artifacts = mf_Artifacts (manifest_of sha256 expected (data_of payloads))"
      using iffD1 [OF build Inr] unfolding requiredArtifactPaths_eq by blast+
    then show ?thesis
      using True unfolding buildManifest_def index sum.case Inr payloads_ok_iff
      by (auto simp: manifest_of_def)
  qed
qed

subsection \<open>What the loop of \<open>verifyTar\<close> accepts\<close>

definition part_header :: "expectation \<Rightarrow> string \<times> int \<Rightarrow> tar_header" where
  "part_header expected part = written_header expected (layout_entry expected [] (\<lambda>_. []) part)"

lemma written_part: "written_header expected (layout_entry expected md data part) = part_header expected part"
  by (simp add: part_header_def written_header_def layout_entry_def)

lemma part_header_fields [simp]:
  "th_Name (part_header expected part) = layout_root expected @ fst part"
  "th_Typeflag (part_header expected part) = (if is_dir_name (layout_root expected @ fst part) then TypeDir else TypeReg)"
  by (simp_all add: part_header_def written_header_def layout_entry_def)








definition tar_parts :: "expectation \<Rightarrow> bytes \<Rightarrow> (string \<Rightarrow> bytes) \<Rightarrow> (tar_header \<times> bytes result) list" where
  "tar_parts expected md data = map (\<lambda>part. (part_header expected part, Inr (part_data md data (fst part)))) layout"


lemma type_simps [simp]: "TypeDir \<noteq> TypeReg" "TypeReg \<noteq> TypeDir"
  by (simp_all add: TypeDir_def TypeReg_def)

lemma layout_root_dir [simp]: "is_dir_name (layout_root expected)" "last (layout_root expected) = CHR ''/''"
  by (simp_all add: layout_root_def is_dir_name_def)





subsection \<open>The manifests that fit\<close>











subsection \<open>Writing and verifying\<close>

lemma write_entries_Inr:
  assumes "write_entries expected entries script = (Inr written, script')"
  shows "written = map (\<lambda>entry. (written_header expected entry, Inr (ae_data entry))) entries"
  using assms
  by (induction entries arbitrary: script written) (auto split: prod.splits if_splits sum.splits)


definition quiet_archive :: "expectation \<Rightarrow> bytes \<Rightarrow> (string \<Rightarrow> bytes) \<Rightarrow> archive" where
  "quiet_archive expected md data =
    \<lparr> ar_gzip = Inr \<lparr> gz_ModTime = gzip_time (ex_Epoch expected), gz_Name = [], gz_Comment = [], gz_Extra = [], gz_OS = 255 \<rparr>,
      ar_entries = tar_parts expected md data, ar_end = [IoEOF], ar_rest = Inr [], ar_close = noerr, ar_trailing = [IoEOF] \<rparr>"

lemma written_layout:
  assumes "payloads_ok payloads"
  shows "map (\<lambda>entry. (written_header expected entry, Inr (ae_data entry))) (archiveEntries expected payloads md) =
    tar_parts expected md (data_of payloads)"
  by (simp add: archiveEntries_layout [OF assms] tar_parts_def written_part o_def) (simp add: layout_entry_def)

lemma writeArchive_Inr:
  assumes "writeArchive json sha256 script expected payloads = Inr written"
  shows "\<exists>md. payloads_ok payloads \<and> marshalManifest json (manifest_of sha256 expected (data_of payloads)) = Inr md \<and>
    written = quiet_archive expected md (data_of payloads)"
proof -
  obtain m where "buildManifest sha256 expected payloads = Inr m"
    using assms by (auto simp: writeArchive_def split: sum.splits)
  then have ok: "payloads_ok payloads" "buildManifest sha256 expected payloads = Inr (manifest_of sha256 expected (data_of payloads))"
    by (simp_all add: buildManifest_Inr)
  then show ?thesis
    using assms
    by (auto simp: writeArchive_def quiet_archive_def written_layout split: sum.splits prod.splits if_splits dest!: write_entries_Inr)
qed






lemma error_values [simp]:
  "marshalManifest json m \<noteq> Inl noerr" "parseManifest json raw expected \<noteq> Inl noerr"
  by (auto simp: marshalManifest_def parseManifest_def Let_def split: sum.splits prod.splits if_splits)

lemma verify_entries_error [simp]:
  "verify_entries sha256 expected readErr entries previous found hashes manifestData \<noteq> Inl noerr"
proof (induction entries arbitrary: previous found hashes manifestData)
  case (Cons entry entries)
  obtain header content where entry: "entry = (header, content)" by fastforce
  show ?case
    unfolding entry verify_entries.simps Let_def
    using Cons.IH by (auto split: option.split sum.split if_split simp del: verify_entries.simps)
qed simp




text \<open>The epoch 0 is a number of seconds the builder accepts, and none an archive can carry.\<close>

lemma epoch_zero_never_verifies:
  assumes "gt_Unix (ex_Epoch expected) = 0" "gt_Nanosecond (ex_Epoch expected) = 0"
    and "writeArchive json sha256 script expected payloads = Inr written"
  shows "verifyArchive json sha256 written expected \<noteq> noerr"
proof -
  obtain md where "written = quiet_archive expected md (data_of payloads)"
    using writeArchive_Inr [OF assms(3)] by blast
  moreover have "gzip_time (ex_Epoch expected) \<noteq> ex_Epoch expected"
    using assms(1,2) by (cases "ex_Epoch expected") (simp add: gzip_time_def zero_time_def)
  ultimately show ?thesis
    by (simp add: verifyArchive_def quiet_archive_def)
qed






end
