(* ===== verification/Spec2Isabelle.thy ===== *)
theory Spec2Isabelle
  imports PolicyProps StoreContracts JobProps Cli ReleaseProps
begin

text \<open>
  A verification development for managed-bash, a Go program that runs shell commands as managed
  jobs: a command is started by one invocation of the program, outlives it, and later invocations
  wait for it, read its output, cancel it, list the jobs of the session and remove finished ones.

  The program. \<open>cmd/managed-bash/main.go\<close> runs \<open>internal/cli\<close>: the arguments name an action, standard
  input holds one JSON request, standard output gets one JSON document, and the exit code its class.
  The request is bound to the session and the directories the host has authenticated
  (\<open>internal/state/trusted_invocation.go\<close>, \<open>path_policy.go\<close>, \<open>path_policy_unix.go\<close>) and dispatched to the
  manager of \<open>internal/runner\<close>. A job is a directory of the store \<open>.managed-bash\<close> of the workspace with
  its state, its output, and three lock files. \<open>Start\<close> makes four processes of the program work
  together: the manager sends a start request over a pipe to a bootstrap process, which starts a
  detached runner in a session of its own, which prepares the job and starts a guardian, the leader
  of the process group of the shell. Prepared, commit and committed travel between them as frames. The
  runner then captures the output and supervises the shell until its end, and publishes the terminal
  state. Every decision (who may read or change a job, which transitions exist, when output is
  full) is taken by \<open>internal/state\<close> from a policy document. All processes share the file system only,
  and every change of a job's files is made under a lock by replacing a file atomically.

  The theories and what they model, in the order of their imports:

  \<^item> \<open>Prelude\<close>: Go strings and byte slices (lists of characters), errors (a list of sentinels, so that
    \<open>errors.Is\<close> and \<open>errors.Join\<close> compute), 64-bit integers, \<open>result\<close>. \<open>Models\<close>: the records and
    enumerations of \<open>internal/protocol/generated/models.gen.go\<close>; a string enumeration has one more
    constructor for the strings that are none of the named ones.
  \<^item> \<open>Policy\<close>, \<open>PolicyProps\<close>, \<open>Utf8\<close>, \<open>Capture\<close>, \<open>Cursor\<close>, \<open>Paths\<close>, \<open>StateValidation\<close>: \<open>internal/state\<close>, the
    pure decisions. The policy is a value built from the document as \<open>newPolicy\<close> does; \<open>policy_v1\<close> is
    the embedded one.
  \<^item> \<open>Os\<close>, \<open>Wp\<close>: the system calls as operations on a \<open>world\<close> in the library's state monad, and a
    calculus of weakest preconditions for it.
  \<^item> \<open>Files\<close>, \<open>Touches\<close>, \<open>Dirs\<close>: \<open>files_unix.go\<close>, \<open>jobdir_unix.go\<close>: private files, atomic replacement, locks, the
    walk to the store. \<open>JobState\<close>, \<open>Store\<close>, \<open>StoreContracts\<close>: \<open>store_unix.go\<close>, \<open>state_io_unix.go\<close>,
    \<open>snapshot_io_unix.go\<close>, \<open>output_unix.go\<close>. \<open>Recovery\<close>: \<open>terminal_intent_unix.go\<close>, \<open>liveness_unix.go\<close>,
    \<open>terminal_publish_unix.go\<close>, \<open>execution_publish_unix.go\<close>. \<open>Control\<close>, \<open>Wait\<close>: \<open>cancel_unix.go\<close>,
    \<open>control_unix.go\<close>, \<open>observe_unix.go\<close>, \<open>remove_unix.go\<close>, \<open>wait_unix.go\<close>.
  \<^item> \<open>JobOps\<close>, \<open>Observe\<close>, \<open>Mutations\<close>, \<open>Removal\<close>, \<open>Jobs\<close>, \<open>JobProps\<close>: the contract of those operations, its
    interpretations, and what follows. \<open>Example\<close> is a concrete world for the witnesses.
  \<^item> \<open>Frames\<close>: \<open>internal_protocol.go\<close>. \<open>Launch\<close>: \<open>api_unix.go\<close> up to the bootstrap process. \<open>Supervise\<close>:
    \<open>supervise_unix.go\<close>. \<open>Guardian\<close>: \<open>guardian_unix.go\<close>, \<open>guardian_protocol.go\<close>, \<open>capture_unix.go\<close>.
    \<open>Creation\<close>: creating a job. \<open>Runner\<close>: \<open>execute_unix.go\<close>. \<open>Bootstrap\<close>: \<open>internal_mode_unix.go\<close>.
    \<open>Startup\<close>: \<open>Start\<close> and \<open>startup_handshake_unix.go\<close>, and the composition of manager, bootstrap and
    runner over pipes.
  \<^item> \<open>PathOpen\<close>: \<open>internal/state/path_policy_unix.go\<close>. \<open>Failure\<close>, \<open>Requests\<close>, \<open>Cli\<close>: \<open>internal/cli\<close> and
    \<open>main.go\<close>.
  \<^item> \<open>Release\<close>, \<open>ReleaseProps\<close>: \<open>internal/release\<close>, the manifest of a release and its archive, written and
    verified.

  The world. \<open>world\<close> has inodes (kind, mode, owner, entries, contents), descriptors with the lock each
  holds, a clock, and a script of faults: each system call takes the next entry, which lets it
  succeed, fail with an error number after part of its effect, or kills the process there. A run is
  a value and a world, so every property about a run holds for every failing system call and for a
  crash between any two of them. Loops that may not end (a lock that stays taken, a signal that never
  takes effect) use the counter \<open>w_fuel\<close> of the world; when it is used up the process hangs, which is an
  end like a crash, after which nothing is done. No property about safety depends on its size; the
  properties about termination and liveness state how much is enough.

  Concurrency. What several channels of a Go \<open>select\<close> may answer is a list of events, one per turn, and
  the properties hold for every list. Operations of different processes on a job are serialised by
  the job's lock; a \<open>history\<close> is a sequence of whole operations, each of which may die anywhere, with
  the job's lock released by the death. The processes of a startup run side by side and meet in
  pipes; \<open>carries\<close> relates what one has written to what the other reads: a prefix, in any pieces,
  ended by the end of the file if the writer has closed.

  Parameters. \<open>encoding/json\<close> on a type is a \<open>codec\<close>, with the assumption that what it encodes it
  decodes; the JSON schema validator, the loader of the embedded contracts, the random bytes of a job
  identifier, the answers of the other process and of \<open>exec\<close> are arguments. Their assumptions are
  in the statements, and the witnesses instantiate them.

  What the lemmas show.

  \<^item> Rules: each function on the world has a rule for \<open>wp\<close>, from the system calls up to whole
    operations. The rules of files say what a failed or killed call leaves (\<open>Files\<close>, \<open>Dirs\<close>), those of the
    store what the directory of a job holds (\<open>StoreContracts\<close>), those of operations which steps of the
    abstract job they make (\<open>Recovery\<close>, \<open>JobOps\<close>, \<open>Observe\<close>, \<open>Mutations\<close>, \<open>Removal\<close>).
  \<^item> Refinement: \<open>job_step\<close> is the abstract specification of a job, a state machine on its persisted
    state and output. The locale \<open>job_operation\<close> is the contract that an operation makes only such
    steps; it is interpreted on every operation of the manager and the runner, and its consequences
    (no descriptor leaks, other jobs untouched, histories refine the specification) are proved once.
  \<^item> Startup: whatever fails or dies, the job exists if and only if the start was committed, the
    manager's answer agrees with it as far as it can know, and every process started is reaped.
  \<^item> Policy and validation: the decisions are total and exact, a state is accepted if and only if it is
    well formed, cursors and ranges stay in bounds, cutting output never splits a rune.
  \<^item> Command line: one document for each invocation, the class of the exit code, the order of the
    answer and the commit of a cursor, the codes of joined errors, diagnostics of one safe line.
  \<^item> Release: the verifier accepts exactly the archives the builder can write.

  Not modelled. The protocol validator and the embedded schemas wrap a third-party library. Of
  \<open>contract.go\<close> only the loaded record is modelled, since loading reads embedded files. The
  dispatch on the internal arguments (\<open>DispatchInternal\<close>) opens inherited descriptors, the pipe readers
  set one flag, the birth identity of a process is read from \<open>/proc\<close>; what they answer is a parameter.
  The darwin variants of the functions for Linux are left out. The installer is a tool beside the
  program and shares no state with it; of the packaging, the verification of an unpacked bundle and
  the builder that runs the compilers are left out.
\<close>

end
